(* ===== verification/Prelude.thy ===== *)
theory Prelude
  imports Main "HOL-Library.Word"
begin

text \<open>
  Shared vocabulary of the development: the machine integers of the firmware, the
  \<open>esp_err_t\<close> codes it compares against, the FreeRTOS tick arithmetic, the
  early-return combinators that stand for the \<open>ESP_RETURN_ON_ERROR\<close> macros, and the
  word lemmas that the component theories share.
\<close>

section \<open>Machine integers\<close>

unbundle bit_operations_syntax

type_synonym u8 = "8 word"
type_synonym u16 = "16 word"
type_synonym u32 = "32 word"

text \<open>
  \<open>int64_t\<close> microsecond time stamps of \<open>esp_timer_get_time\<close>: the count since boot cannot
  reach \<open>2 ^ 63\<close> (292000 years), so they are \<open>int\<close>; C's division truncates.
\<close>

type_synonym us_time = int

definition c_div :: "int \<Rightarrow> int \<Rightarrow> int" where
  "c_div a b = sgn a * sgn b * (\<bar>a\<bar> div \<bar>b\<bar>)"

text \<open>\<open>(uint32_t)(t / 1000)\<close>: microseconds as a millisecond stamp that wraps.\<close>

definition us_to_ms :: "us_time \<Rightarrow> u32" where
  "us_to_ms t = word_of_int (c_div t 1000)"

text \<open>
  An enum whose values the firmware casts, computes with or range-checks is the integer it
  is in C, with its constants as abbreviations; an enum it only compares is a datatype.
\<close>

text \<open>\<open>TickType_t\<close> is 32 bits wide on the ESP32-S2 port, \<open>gpio_num_t\<close> is an enum of ints.\<close>

type_synonym tick = u32
type_synonym gpio = int

section \<open>Error codes\<close>

text \<open>
  \<open>esp_err_t\<close> is a 32-bit int; the firmware stores it in \<open>int32_t\<close> fields and folds it
  into checksums, so it stays a word here. The numbers are the documented ones of
  \<open>esp_err.h\<close> and of the OTA, NVS and Wi-Fi headers.
\<close>

type_synonym esp_err = u32

abbreviation (input) ESP_OK :: esp_err where "ESP_OK \<equiv> 0"
abbreviation (input) ESP_FAIL :: esp_err where "ESP_FAIL \<equiv> 0xffffffff"
abbreviation (input) ESP_ERR_NO_MEM :: esp_err where "ESP_ERR_NO_MEM \<equiv> 0x101"
abbreviation (input) ESP_ERR_INVALID_ARG :: esp_err where "ESP_ERR_INVALID_ARG \<equiv> 0x102"
abbreviation (input) ESP_ERR_INVALID_STATE :: esp_err where "ESP_ERR_INVALID_STATE \<equiv> 0x103"
abbreviation (input) ESP_ERR_INVALID_SIZE :: esp_err where "ESP_ERR_INVALID_SIZE \<equiv> 0x104"
abbreviation (input) ESP_ERR_NOT_FOUND :: esp_err where "ESP_ERR_NOT_FOUND \<equiv> 0x105"
abbreviation (input) ESP_ERR_TIMEOUT :: esp_err where "ESP_ERR_TIMEOUT \<equiv> 0x107"
abbreviation (input) ESP_ERR_NOT_FINISHED :: esp_err where "ESP_ERR_NOT_FINISHED \<equiv> 0x10c"
abbreviation (input) ESP_ERR_NOT_ALLOWED :: esp_err where "ESP_ERR_NOT_ALLOWED \<equiv> 0x10d"
abbreviation (input) ESP_ERR_OTA_VALIDATE_FAILED :: esp_err where
  "ESP_ERR_OTA_VALIDATE_FAILED \<equiv> 0x1503"
abbreviation (input) ESP_ERR_OTA_ROLLBACK_INVALID_STATE :: esp_err where
  "ESP_ERR_OTA_ROLLBACK_INVALID_STATE \<equiv> 0x1505"

text \<open>
  What C leaves undefined is an outcome of its own, so that a theorem that an operation
  returns also says that it stays inside its arrays.
\<close>

datatype memory_fault = OutOfBounds

section \<open>Ticks\<close>

text \<open>
  \<open>pdMS_TO_TICKS\<close> multiplies in \<open>TickType_t\<close>, so it can wrap; the tick rate is the
  ESP-IDF default of 100 Hz, which \<open>sdkconfig.defaults\<close> leaves as it is.
\<close>

definition pdMS_TO_TICKS_at :: "u32 \<Rightarrow> u32 \<Rightarrow> tick" where
  "pdMS_TO_TICKS_at hz ms = (ms * hz) div 1000"

abbreviation (input) configTICK_RATE_HZ :: u32 where "configTICK_RATE_HZ \<equiv> 100"
abbreviation (input) portTICK_PERIOD_MS :: u32 where "portTICK_PERIOD_MS \<equiv> 10"

abbreviation pdMS_TO_TICKS :: "u32 \<Rightarrow> tick" where
  "pdMS_TO_TICKS \<equiv> pdMS_TO_TICKS_at configTICK_RATE_HZ"

section \<open>Operations with a result code\<close>

text \<open>
  An operation of a driver takes the state it works on and returns its result code with
  the new state. \<open>return_on_errors\<close> runs operations in order and returns at the first
  one that fails, as a run of \<open>ESP_RETURN_ON_ERROR\<close> statements does; \<open>when_op\<close> is an
  operation under an \<open>if\<close> without \<open>else\<close>.
\<close>

type_synonym 's op = "'s \<Rightarrow> esp_err \<times> 's"

fun return_on_errors :: "'s op list \<Rightarrow> 's op" where
  "return_on_errors [] s = (ESP_OK, s)"
| "return_on_errors (f # fs) s =
     (case f s of (err, s') \<Rightarrow> if err \<noteq> ESP_OK then (err, s') else return_on_errors fs s')"

definition when_op :: "bool \<Rightarrow> 's op \<Rightarrow> 's op" where
  "when_op c f s = (if c then f s else (ESP_OK, s))"

text \<open>
  The component proofs draw on two collections: \<open>inv_intro\<close>, the lemmas that say an
  operation keeps an invariant, and \<open>frame_simps\<close>, the ones that say what it leaves
  alone.
\<close>

named_theorems inv_intro "an operation preserves an invariant"
named_theorems frame_simps "fields an operation does not write"

lemma when_op_True [simp]: "when_op True f = f"
  and when_op_False [simp]: "when_op False f = (\<lambda>s. (ESP_OK, s))"
  by (simp_all add: when_op_def fun_eq_iff)

text \<open>A relation that every operation of a run respects and that composes, holds of the run.\<close>

lemma return_on_errors_rel:
  assumes "\<And>f s. f \<in> set fs \<Longrightarrow> R s (snd (f s))"
    and "\<And>s. R s s"
    and "\<And>a b c. R a b \<Longrightarrow> R b c \<Longrightarrow> R a c"
  shows "R s (snd (return_on_errors fs s))"
  using assms(1)
proof (induction fs arbitrary: s)
  case Nil
  show ?case by (simp add: assms(2))
next
  case (Cons f fs)
  have step: "R s (snd (f s))" by (rule Cons.prems) simp
  have rest: "R s' (snd (return_on_errors fs s'))" for s'
    by (rule Cons.IH) (simp add: Cons.prems)
  show ?case
    using step assms(3) [OF step rest] by (auto split: prod.splits)
qed

lemma return_on_errors_inv:
  assumes "\<And>f s. f \<in> set fs \<Longrightarrow> P s \<Longrightarrow> P (snd (f s))" and "P s"
  shows "P (snd (return_on_errors fs s))"
  using assms
proof (induction fs arbitrary: s)
  case (Cons f fs)
  have "P (snd (f s))" using Cons.prems by simp
  then have "P (snd (return_on_errors fs (snd (f s))))"
    using Cons.IH Cons.prems(1) by simp
  with \<open>P (snd (f s))\<close> show ?case by (auto split: prod.splits)
qed simp

lemma return_on_errors_append:
  "return_on_errors (fs @ gs) s =
     (case return_on_errors fs s of (err, s') \<Rightarrow>
        if err \<noteq> ESP_OK then (err, s') else return_on_errors gs s')"
  by (induction fs arbitrary: s) (auto split: prod.splits)

section \<open>Word lemmas\<close>

lemma unat_u32_less [simp]: "unat (w :: u32) < 4294967296"
  using unsigned_less [of w] by simp

lemma unat_of_nat_u32: "n < 4294967296 \<Longrightarrow> unat (of_nat n :: u32) = n"
  by (simp only: unat_of_nat) simp

lemma unat_u32_plus: "unat (a + b :: u32) = (unat a + unat b) mod 4294967296"
  by (simp add: unat_word_ariths)

lemma unat_wrapping_diff:
  fixes s :: u32
  assumes "d < 2 ^ 32"
  shows "unat ((s + of_nat d) - s) = d"
  using assms by (simp add: unat_of_nat take_bit_nat_eq_self)

text \<open>The unsigned difference of two time stamps measures the real distance across a wrap.\<close>

lemma wrapping_elapsed_iff:
  fixes s dur :: u32
  assumes "d < 2 ^ 32"
  shows "dur \<le> (s + of_nat d) - s \<longleftrightarrow> unat dur \<le> d"
  using unat_wrapping_diff [OF assms, of s] by (simp add: word_le_nat_alt)

lemma sint_nonneg_iff:
  fixes w :: u32
  shows "0 \<le> sint w \<longleftrightarrow> unat w < 2 ^ 31"
proof -
  let ?u = "uint w"
  have b: "?u < 4294967296" "0 \<le> ?u" using uint_lt2p [of w] by simp_all
  have eq: "sint w = (?u + 2147483648) mod 4294967296 - 2147483648"
    using int_word_sint [where 'a=32, of ?u] by simp
  have "0 \<le> sint w \<longleftrightarrow> ?u < 2147483648"
  proof (cases "?u < 2147483648")
    case True
    with b eq show ?thesis by (simp add: mod_pos_pos_trivial)
  next
    case False
    have "(?u + 2147483648) mod 4294967296 = ((?u - 2147483648) + 4294967296) mod 4294967296"
      by (simp add: algebra_simps)
    also have "\<dots> = ?u - 2147483648"
      unfolding mod_add_self2 using False b by (intro mod_pos_pos_trivial) simp_all
    finally show ?thesis using eq False b by simp
  qed
  moreover have "unat w < 2 ^ 31 \<longleftrightarrow> int (unat w) < int (2 ^ 31)" by (simp only: of_nat_less_iff)
  ultimately show ?thesis by simp
qed
text \<open>A signed comparison with a deadline less than half the counter's range away.\<close>

lemma sint_wrapping_deadline:
  assumes "delay < 2 ^ 31" and "d < 2 ^ 32"
  shows "0 \<le> sint ((now + of_nat d) - (now + of_nat delay) :: u32) \<longleftrightarrow>
    delay \<le> d \<and> d < delay + 2 ^ 31"
proof (cases "delay \<le> d")
  case True
  then have "(now + of_nat d) - (now + of_nat delay) = (of_nat (d - delay) :: u32)"
    by simp
  moreover have "unat (of_nat (d - delay) :: u32) = d - delay"
    using assms by (simp add: unat_of_nat)
  ultimately show ?thesis using True by (simp only: sint_nonneg_iff) (simp add: less_diff_conv2 add.commute)
next
  case False
  have "(of_nat (2 ^ 32 + d - delay) :: u32) = of_nat (2 ^ 32 + d) - of_nat delay"
    using assms by (intro of_nat_diff) simp
  then have "(now + of_nat d) - (now + of_nat delay) = (of_nat (2 ^ 32 + d - delay) :: u32)"
    by simp
  moreover have "unat (of_nat (2 ^ 32 + d - delay) :: u32) = 2 ^ 32 + d - delay"
    using assms False by (intro unat_of_nat_u32) simp
  ultimately show ?thesis using False assms by (simp only: sint_nonneg_iff) simp
qed
section \<open>Bit masks as sets\<close>

definition bit_set :: "u32 \<Rightarrow> nat set" where
  "bit_set w = {n. bit w n}"

lemma bit_set_0 [simp]: "bit_set 0 = {}"
  by (simp add: bit_set_def)

lemma bit_set_inject [simp]: "bit_set v = bit_set w \<longleftrightarrow> v = w"
proof
  assume "bit_set v = bit_set w"
  then have "bit v n \<longleftrightarrow> bit w n" for n by (auto simp: bit_set_def)
  then show "v = w" by (intro bit_eqI) simp
qed simp

lemma bit_set_empty [simp]: "bit_set w = {} \<longleftrightarrow> w = 0"
  using bit_set_inject [of w 0] by simp

lemma bit_set_exp: "n < 32 \<Longrightarrow> bit_set (2 ^ n) = {n}"
  by (auto simp: bit_set_def bit_exp_iff possible_bit_def)

lemma bit_set_exp_iff: "n < 32 \<Longrightarrow> w = 2 ^ n \<longleftrightarrow> bit_set w = {n}"
  by (metis bit_set_inject bit_set_exp)

lemma bit_set_or: "n < 32 \<Longrightarrow> bit_set (w OR 2 ^ n) = insert n (bit_set w)"
  using bit_set_exp [of n] by (auto simp: bit_set_def bit_or_iff)

lemma bit_exp_u32: "n < 32 \<Longrightarrow> bit (2 ^ n :: u32) m \<longleftrightarrow> m = n"
  by (auto simp: bit_exp_iff possible_bit_def)

lemma bit_set_and_not:
  assumes "n < 32" shows "bit_set (w AND NOT (2 ^ n)) = bit_set w - {n}"
proof -
  have "bit (w AND NOT (2 ^ n)) m \<longleftrightarrow> bit w m \<and> m \<noteq> n" for m
    using bit_imp_le_length [of w m]
    by (simp only: bit_and_iff bit_not_iff possible_bit_word bit_exp_u32 [OF assms]) blast
  then show ?thesis by (auto simp: bit_set_def)
qed

lemma bit_set_and:
  assumes "n < 32" shows "w AND 2 ^ n = 0 \<longleftrightarrow> n \<notin> bit_set w"
proof -
  have "bit_set (w AND 2 ^ n) = bit_set w \<inter> {n}"
    by (auto simp: bit_set_def bit_and_iff bit_exp_u32 [OF assms])
  then show ?thesis by (metis Int_insert_right inf_bot_right bit_set_empty insert_not_empty)
qed

lemma bit_set_and_not_0: "n < 32 \<Longrightarrow> w AND NOT (2 ^ n) = 0 \<longleftrightarrow> bit_set w \<subseteq> {n}"
  by (simp add: bit_set_empty [symmetric] bit_set_and_not del: bit_set_empty)

lemmas bit_set_simps = bit_set_and_not_0 bit_set_exp bit_set_exp_iff bit_set_or bit_set_and_not bit_set_and

end
