(* ===== verification/FanPolicy.thy ===== *)
theory FanPolicy
  imports Prelude
begin

text \<open>
  \<open>components/fan_policy\<close>: the pure decisions of the fan actor (what the touch keys ask
  for, when a timer has run out, which sequence number comes next), with the lemmas about
  the wrap of 32-bit ticks and sequence numbers.
\<close>

section \<open>Operations\<close>

definition fan_policy_transition_required :: "u8 \<Rightarrow> u8 \<Rightarrow> bool" where
  "fan_policy_transition_required applied desired \<longleftrightarrow> applied \<noteq> desired"

definition fan_policy_next_normal_speed :: "u8 \<Rightarrow> u8" where
  "fan_policy_next_normal_speed speed =
     (if speed = 0 then 1 else if speed = 1 then 2 else if speed = 2 then 3 else 0)"

definition fan_policy_toggle_turbo :: "u8 \<Rightarrow> u8" where
  "fan_policy_toggle_turbo speed = (if speed = 4 then 0 else 4)"

definition fan_policy_tick_elapsed :: "u32 \<Rightarrow> u32 \<Rightarrow> u32 \<Rightarrow> bool" where
  "fan_policy_tick_elapsed now started duration \<longleftrightarrow> duration \<le> now - started"

definition fan_policy_next_sequence :: "u32 \<Rightarrow> u32" where
  "fan_policy_next_sequence current =
     (let next = current + 1 in if next = 0 then 1 else next)"

section \<open>Lemmas\<close>

lemma tick_elapsed_iff:
  assumes "d < 2 ^ 32"
  shows "fan_policy_tick_elapsed (started + of_nat d) started duration \<longleftrightarrow> unat duration \<le> d"
  unfolding fan_policy_tick_elapsed_def by (rule wrapping_elapsed_iff [OF assms])

lemma next_sequence_nonzero [simp]: "fan_policy_next_sequence n \<noteq> 0"
  by (simp add: fan_policy_next_sequence_def Let_def)

lemma next_sequence_neq [simp]: "n \<noteq> 0 \<Longrightarrow> fan_policy_next_sequence n \<noteq> n"
  by (auto simp: fan_policy_next_sequence_def Let_def)

text \<open>
  Reading a nonzero sequence number \<open>n\<close> as the residue \<open>n - 1\<close> modulo \<open>2 ^ 32 - 1\<close>, the
  successor is addition of one: the numbers run through all nonzero words before one repeats.
\<close>

lemma unat_next_sequence:
  "unat (fan_policy_next_sequence n) = unat n mod 4294967295 + 1"
proof (cases "unat n = 4294967295")
  case True
  then have "unat (n + 1) = 0" by (simp add: unat_u32_plus)
  then have "n + 1 = 0" by (simp only: unat_eq_zero)
  with True show ?thesis by (simp add: fan_policy_next_sequence_def)
next
  case False
  with unat_u32_less [of n] have lt: "unat n < 4294967295" by linarith
  then have eq: "unat (n + 1) = unat n + 1" by (simp add: unat_u32_plus)
  then have "n + 1 \<noteq> 0" by (metis add_eq_0_iff_both_eq_0 one_neq_zero unat_0)
  with lt eq show ?thesis by (simp add: fan_policy_next_sequence_def)
qed

lemma unat_sequence_iterate:
  assumes "n \<noteq> 0"
  shows "unat ((fan_policy_next_sequence ^^ k) n) = (unat n - 1 + k) mod 4294967295 + 1"
proof (induction k)
  case 0
  have "0 < unat n" using assms by (simp add: unat_gt_0)
  moreover from this have "unat n - 1 < 4294967295" using unat_u32_less [of n] by linarith
  ultimately show ?case by simp
next
  case (Suc k)
  have "((unat n - 1 + k) mod 4294967295 + 1) mod 4294967295
      = (unat n - 1 + Suc k) mod 4294967295"
    by (simp add: mod_Suc_eq)
  with Suc show ?case by (simp add: unat_next_sequence)
qed

text \<open>Command sequence numbers are never zero (zero means "no command yet") and no number
  comes back before all \<open>2 ^ 32 - 1\<close> nonzero numbers have been handed out, across the wrap
  of the counter.\<close>

theorem sequence_numbers_distinct:
  assumes "n \<noteq> 0" and "i < j" and "j - i < 2 ^ 32 - 1"
  shows "(fan_policy_next_sequence ^^ j) n \<noteq> 0 \<and>
    (fan_policy_next_sequence ^^ i) n \<noteq> (fan_policy_next_sequence ^^ j) n"
proof -
  let ?u = "unat n - 1"
  have "(?u + i) mod 4294967295 \<noteq> (?u + j) mod 4294967295"
  proof
    assume "(?u + i) mod 4294967295 = (?u + j) mod 4294967295"
    then have "4294967295 dvd (?u + j) - (?u + i)"
      using assms(2) by (intro mod_eq_dvd_iff_nat [THEN iffD1]) simp_all
    with assms(2,3) show False by (auto dest: dvd_imp_le)
  qed
  then have "unat ((fan_policy_next_sequence ^^ i) n) \<noteq> unat ((fan_policy_next_sequence ^^ j) n)"
    by (simp add: unat_sequence_iterate [OF assms(1)])
  moreover have "unat ((fan_policy_next_sequence ^^ j) n) \<noteq> 0"
    by (simp add: unat_sequence_iterate [OF assms(1)])
  ultimately show ?thesis by auto
qed

theorem sequence_numbers_distinct_witness:
  "(0xffffffff :: u32) \<noteq> 0 \<and> (fan_policy_next_sequence ^^ 2) 0xffffffff \<noteq> 0 \<and>
   (fan_policy_next_sequence ^^ 0) 0xffffffff \<noteq> (fan_policy_next_sequence ^^ 2) 0xffffffff"
  using sequence_numbers_distinct [of "0xffffffff" 0 2] by simp

end
