(* ===== verification/RecoveryPolicy.thy ===== *)
theory RecoveryPolicy
  imports Prelude
begin

text \<open>
  \<open>components/recovery_policy\<close>: the retry timer of the optional services (LEDs, touch,
  network). A \<open>NULL\<close> policy is \<open>None\<close>; a read past the delay table is the outcome
  \<open>OutOfBounds\<close>.
\<close>

section \<open>State and operations\<close>

record recovery_policy =
  rp_ready :: bool
  rp_backoff_index :: u8
  rp_retry_at :: u32

definition s_delays_seconds :: "u32 list" where
  "s_delays_seconds = [1, 5, 30, 60]"

definition recovery_policy_mark_failed ::
    "recovery_policy option \<Rightarrow> u32 \<Rightarrow> u32 \<Rightarrow> memory_fault + recovery_policy option" where
  "recovery_policy_mark_failed policy now_ticks ticks_per_second =
     (case policy of
        None \<Rightarrow> Inr None
      | Some p \<Rightarrow>
          if ticks_per_second = 0 then Inr (Some p)
          else
            let i = unat (rp_backoff_index p) in
            if length s_delays_seconds \<le> i then Inl OutOfBounds
            else Inr (Some (p\<lparr>
              rp_ready := False,
              rp_retry_at := now_ticks + s_delays_seconds ! i * ticks_per_second,
              rp_backoff_index :=
                (if i + 1 < length s_delays_seconds then rp_backoff_index p + 1
                 else rp_backoff_index p)\<rparr>)))"

definition recovery_policy_is_due :: "recovery_policy option \<Rightarrow> u32 \<Rightarrow> bool" where
  "recovery_policy_is_due policy now_ticks =
     (case policy of
        None \<Rightarrow> False
      | Some p \<Rightarrow> \<not> rp_ready p \<and> 0 \<le> sint (now_ticks - rp_retry_at p))"

definition recovery_policy_mark_ready :: "recovery_policy option \<Rightarrow> recovery_policy option" where
  "recovery_policy_mark_ready policy =
     map_option (\<lambda>p. p\<lparr>rp_ready := True, rp_backoff_index := 0\<rparr>) policy"

definition recovery_policy_delay_seconds :: "recovery_policy option \<Rightarrow> u32" where
  "recovery_policy_delay_seconds policy =
     (case policy of
        None \<Rightarrow> 0
      | Some p \<Rightarrow>
          let i = unat (rp_backoff_index p);
              index = (if length s_delays_seconds \<le> i then length s_delays_seconds - 1 else i)
          in s_delays_seconds ! index)"

section \<open>Invariant and lemmas\<close>

text \<open>The index stays inside the delay table.\<close>

definition recovery_inv :: "recovery_policy \<Rightarrow> bool" where
  "recovery_inv p \<longleftrightarrow> unat (rp_backoff_index p) < 4"

lemma length_delays [simp]: "length s_delays_seconds = 4"
  by (simp add: s_delays_seconds_def)

lemma unat_u8_Suc: "unat (i :: u8) < 4 \<Longrightarrow> unat (i + 1) = unat i + 1"
  by (simp add: unat_word_ariths)

text \<open>One failure, in the invariant: the operation returns, and what it leaves.\<close>

lemma mark_failed_inv:
  assumes "recovery_inv p" and "tps \<noteq> 0"
  obtains q where "recovery_policy_mark_failed (Some p) now tps = Inr (Some q)"
    and "recovery_inv q" and "\<not> rp_ready q"
    and "rp_retry_at q = now + s_delays_seconds ! unat (rp_backoff_index p) * tps"
    and "unat (rp_backoff_index q) = min 3 (unat (rp_backoff_index p) + 1)"
  using assms
  by (auto simp: recovery_policy_mark_failed_def recovery_inv_def Let_def unat_u8_Suc
      not_less)

lemma mark_ready_inv [inv_intro]:
  "recovery_policy_mark_ready (Some p) = Some q \<Longrightarrow> recovery_inv q"
  by (auto simp: recovery_policy_mark_ready_def recovery_inv_def)

text \<open>Failures at the given times, one after the other, with no success in between.\<close>

fun failures :: "recovery_policy \<Rightarrow> u32 list \<Rightarrow> u32 \<Rightarrow> memory_fault + recovery_policy" where
  "failures p [] tps = Inr p"
| "failures p (now # nows) tps =
     (case recovery_policy_mark_failed (Some p) now tps of
        Inr (Some q) \<Rightarrow> failures q nows tps
      | Inr None \<Rightarrow> Inr p
      | Inl e \<Rightarrow> Inl e)"

lemma failures_append:
  "failures p (xs @ ys) tps =
     (case failures p xs tps of Inr q \<Rightarrow> failures q ys tps | Inl e \<Rightarrow> Inl e)"
  if "recovery_inv p" "tps \<noteq> 0"
  using that
proof (induction xs arbitrary: p)
  case (Cons x xs)
  then show ?case by (auto elim!: mark_failed_inv [of p tps x])
qed simp

lemma failures_index:
  "recovery_inv p \<Longrightarrow> tps \<noteq> 0 \<Longrightarrow>
     \<exists>q. failures p nows tps = Inr q \<and> recovery_inv q \<and>
         unat (rp_backoff_index q) = min 3 (unat (rp_backoff_index p) + length nows)"
proof (induction nows arbitrary: p)
  case Nil
  then show ?case by (auto simp: recovery_inv_def)
next
  case (Cons now nows)
  obtain q where q: "recovery_policy_mark_failed (Some p) now tps = Inr (Some q)"
      "recovery_inv q" "unat (rp_backoff_index q) = min 3 (unat (rp_backoff_index p) + 1)"
    using Cons.prems by (rule mark_failed_inv)
  from Cons.IH [OF q(2) Cons.prems(2)] q(1,3) show ?case by auto
qed

section \<open>Properties\<close>

text \<open>However often a service fails, the retry timer never reads past its delay table and
  the delay after the n-th failure in a row is 1, 5, 30 and from then on 60 seconds.\<close>

theorem backoff_schedule:
  assumes "rp_backoff_index p = 0" and "tps \<noteq> 0"
  shows "\<exists>q. failures p (nows @ [now]) tps = Inr q \<and> \<not> rp_ready q \<and>
    unat (rp_backoff_index q) < length s_delays_seconds \<and>
    rp_retry_at q = now + [1, 5, 30, 60] ! min 3 (length nows) * tps"
proof -
  have inv: "recovery_inv p" using assms(1) by (simp add: recovery_inv_def)
  obtain q where q: "failures p nows tps = Inr q" "recovery_inv q"
      "unat (rp_backoff_index q) = min 3 (length nows)"
    using failures_index [OF inv assms(2), of nows] assms(1) by auto
  obtain r where "recovery_policy_mark_failed (Some q) now tps = Inr (Some r)"
      "recovery_inv r" "\<not> rp_ready r"
      "rp_retry_at r = now + s_delays_seconds ! unat (rp_backoff_index q) * tps"
    using q(2) assms(2) by (rule mark_failed_inv)
  with q show ?thesis
    by (simp add: failures_append [OF inv assms(2)] s_delays_seconds_def recovery_inv_def)
qed

theorem backoff_schedule_witness:
  "\<exists>q. failures \<lparr>rp_ready = False, rp_backoff_index = 0, rp_retry_at = 0\<rparr>
      ([10, 20, 30, 40, 50] @ [600]) 100 = Inr q \<and> \<not> rp_ready q \<and>
    unat (rp_backoff_index q) < length s_delays_seconds \<and>
    rp_retry_at q = 600 + [1, 5, 30, 60] ! min 3 (length [10, 20, 30, 40, 50 :: u32]) * 100"
  by (rule backoff_schedule) simp_all

text \<open>After a failure a service becomes due exactly when its delay has passed, not a tick
  earlier, on either side of the wrap of the tick counter, and stays due for the next
  \<open>2 ^ 31\<close> ticks.\<close>

theorem due_after_delay:
  assumes "recovery_policy_mark_failed (Some p) now tps = Inr (Some q)"
    and "tps \<noteq> 0"
    and "delay = unat (s_delays_seconds ! unat (rp_backoff_index p)) * unat tps"
    and "delay < 2 ^ 31" and "d < 2 ^ 32"
  shows "recovery_policy_is_due (Some q) (now + of_nat d) \<longleftrightarrow>
    delay \<le> d \<and> d < delay + 2 ^ 31"
proof -
  have "rp_retry_at q = now + s_delays_seconds ! unat (rp_backoff_index p) * tps"
    and "\<not> rp_ready q"
    using assms(1,2) by (auto simp: recovery_policy_mark_failed_def Let_def split: if_splits)
  moreover have "s_delays_seconds ! unat (rp_backoff_index p) * tps = of_nat delay"
    by (simp add: assms(3))
  ultimately show ?thesis
    using sint_wrapping_deadline [OF assms(4,5)] by (simp add: recovery_policy_is_due_def)
qed

theorem due_after_delay_witness:
  "recovery_policy_is_due
      (Some \<lparr>rp_ready = False, rp_backoff_index = 1, rp_retry_at = 0xfffffff0 + 100\<rparr>)
      (0xfffffff0 + of_nat 100) \<longleftrightarrow> (100::nat) \<le> 100 \<and> (100::nat) < 100 + 2 ^ 31"
  by (rule due_after_delay [where tps = 100 and
        p = "\<lparr>rp_ready = True, rp_backoff_index = 0, rp_retry_at = 0\<rparr>"])
    (simp_all add: recovery_policy_mark_failed_def s_delays_seconds_def)

end
