(* ===== verification/TouchGesture.thy ===== *)
theory TouchGesture
  imports Prelude
begin

text \<open>
  \<open>components/touch_gesture\<close>: the gesture filter between the touch edges and the keys. The
  operations follow the C functions line by line (a \<open>NULL\<close> gesture is \<open>None\<close>); an abstract
  machine over sets of pads says what the filter promises, and the bit masks refine it.
\<close>

section \<open>State and operations\<close>

record touch_gesture =
  tg_active_mask :: u32
  tg_candidate_started :: u32
  tg_release_started :: u32
  tg_candidate_key :: u8
  tg_armed :: bool
  tg_release_pending :: bool

abbreviation (input) ACTIVE_STABLE_MS :: u32 where "ACTIVE_STABLE_MS \<equiv> 40"
abbreviation (input) RELEASE_STABLE_MS :: u32 where "RELEASE_STABLE_MS \<equiv> 120"
abbreviation (input) TOUCH_GESTURE_KEY_COUNT :: u8 where "TOUCH_GESTURE_KEY_COUNT \<equiv> 6"

definition elapsed :: "u32 \<Rightarrow> u32 \<Rightarrow> u32 \<Rightarrow> bool" where
  "elapsed now started interval \<longleftrightarrow> interval \<le> now - started"

definition gesture_cleared :: touch_gesture where
  "gesture_cleared = \<lparr>tg_active_mask = 0, tg_candidate_started = 0, tg_release_started = 0,
     tg_candidate_key = 0, tg_armed = False, tg_release_pending = False\<rparr>"

definition touch_gesture_init :: "touch_gesture option \<Rightarrow> touch_gesture option" where
  "touch_gesture_init gesture = map_option (\<lambda>_. gesture_cleared\<lparr>tg_armed := True\<rparr>) gesture"

text \<open>The edge of a valid key: first the press, then the release branch of the function.\<close>

definition gesture_press :: "touch_gesture \<Rightarrow> u8 \<Rightarrow> u32 \<Rightarrow> touch_gesture" where
  "gesture_press g key now_ms =
     (let bit = push_bit (unat (key - 1)) 1 in
      if tg_active_mask g AND bit \<noteq> 0 then g
      else
        let g = g\<lparr>tg_active_mask := tg_active_mask g OR bit, tg_release_pending := False\<rparr> in
        if \<not> tg_armed g then g
        else if tg_active_mask g = bit \<and> tg_candidate_key g = 0 then
          g\<lparr>tg_candidate_key := key, tg_candidate_started := now_ms\<rparr>
        else g\<lparr>tg_candidate_key := 0, tg_armed := False\<rparr>)"

definition gesture_release :: "touch_gesture \<Rightarrow> u8 \<Rightarrow> u32 \<Rightarrow> touch_gesture" where
  "gesture_release g key now_ms =
     (let bit = push_bit (unat (key - 1)) 1;
          g = g\<lparr>tg_active_mask := tg_active_mask g AND NOT bit\<rparr>;
          g = (if tg_armed g \<and> tg_candidate_key g = key then g\<lparr>tg_candidate_key := 0\<rparr> else g)
      in if \<not> tg_armed g \<and> tg_active_mask g = 0
         then g\<lparr>tg_release_pending := True, tg_release_started := now_ms\<rparr> else g)"

definition touch_gesture_edge ::
    "touch_gesture option \<Rightarrow> u8 \<Rightarrow> bool \<Rightarrow> u32 \<Rightarrow> touch_gesture option" where
  "touch_gesture_edge gesture key active now_ms =
     (case gesture of
        None \<Rightarrow> None
      | Some g \<Rightarrow>
          if key < 1 \<or> TOUCH_GESTURE_KEY_COUNT < key then Some g
          else if active then Some (gesture_press g key now_ms)
          else Some (gesture_release g key now_ms))"

definition touch_gesture_poll ::
    "touch_gesture option \<Rightarrow> u32 \<Rightarrow> u8 \<times> touch_gesture option" where
  "touch_gesture_poll gesture now_ms =
     (case gesture of
        None \<Rightarrow> (0, None)
      | Some g \<Rightarrow>
          if \<not> tg_armed g then
            (0, Some (if tg_release_pending g \<and> tg_active_mask g = 0 \<and>
                         elapsed now_ms (tg_release_started g) RELEASE_STABLE_MS
                      then g\<lparr>tg_armed := True, tg_release_pending := False\<rparr> else g))
          else if tg_candidate_key g = 0 \<or>
                  tg_active_mask g \<noteq> push_bit (unat (tg_candidate_key g - 1)) 1 \<or>
                  \<not> elapsed now_ms (tg_candidate_started g) ACTIVE_STABLE_MS then (0, Some g)
          else (tg_candidate_key g,
                Some (g\<lparr>tg_candidate_key := 0, tg_armed := False, tg_release_pending := False\<rparr>)))"

definition touch_gesture_discard_until_quiet ::
    "touch_gesture option \<Rightarrow> u32 \<Rightarrow> touch_gesture option" where
  "touch_gesture_discard_until_quiet gesture now_ms =
     map_option (\<lambda>_. gesture_cleared\<lparr>tg_release_pending := True, tg_release_started := now_ms\<rparr>)
       gesture"

section \<open>The calls the driver makes, as events\<close>

datatype touch_event = Edge u8 bool u32 | Poll u32 | Discard u32

fun gesture_step :: "touch_gesture option \<Rightarrow> touch_event \<Rightarrow> u8 \<times> touch_gesture option" where
  "gesture_step g (Edge key active t) = (0, touch_gesture_edge g key active t)"
| "gesture_step g (Poll t) = touch_gesture_poll g t"
| "gesture_step g (Discard t) = (0, touch_gesture_discard_until_quiet g t)"

fun gesture_run ::
    "touch_gesture option \<Rightarrow> touch_event list \<Rightarrow> u8 list \<times> touch_gesture option" where
  "gesture_run g [] = ([], g)"
| "gesture_run g (e # es) =
     (case gesture_step g e of (k, g') \<Rightarrow>
        case gesture_run g' es of (ks, g'') \<Rightarrow> (k # ks, g''))"

section \<open>What the filter promises\<close>

text \<open>
  Pads are numbered from 0. A touch starts from \<open>Idle\<close> with a candidate pad; a second pad
  or an accepted action latches the machine until all pads are up and stay up.
\<close>

datatype phase = Idle | Candidate nat u32 | Latched | Releasing u32

record gesture_spec =
  pads :: "nat set"
  phase :: phase

definition spec_press :: "nat \<Rightarrow> u32 \<Rightarrow> gesture_spec \<Rightarrow> gesture_spec" where
  "spec_press n t s =
     (if n \<in> pads s then s
      else \<lparr>pads = insert n (pads s),
            phase = (if phase s = Idle \<and> pads s = {} then Candidate n t else Latched)\<rparr>)"

definition spec_release :: "nat \<Rightarrow> u32 \<Rightarrow> gesture_spec \<Rightarrow> gesture_spec" where
  "spec_release n t s =
     \<lparr>pads = pads s - {n},
      phase = (case phase s of
          Idle \<Rightarrow> Idle
        | Candidate m t0 \<Rightarrow> if m = n then Idle else Candidate m t0
        | _ \<Rightarrow> if pads s - {n} = {} then Releasing t else phase s)\<rparr>"

definition spec_poll :: "u32 \<Rightarrow> gesture_spec \<Rightarrow> nat option \<times> gesture_spec" where
  "spec_poll t s =
     (case phase s of
        Releasing t0 \<Rightarrow> (None, if RELEASE_STABLE_MS \<le> t - t0 then s\<lparr>phase := Idle\<rparr> else s)
      | Candidate n t0 \<Rightarrow>
          if ACTIVE_STABLE_MS \<le> t - t0 then (Some n, s\<lparr>phase := Latched\<rparr>) else (None, s)
      | _ \<Rightarrow> (None, s))"

fun spec_step :: "gesture_spec \<Rightarrow> touch_event \<Rightarrow> nat option \<times> gesture_spec" where
  "spec_step s (Edge key active t) =
     (None,
      if key < 1 \<or> TOUCH_GESTURE_KEY_COUNT < key then s
      else if active then spec_press (unat (key - 1)) t s
      else spec_release (unat (key - 1)) t s)"
| "spec_step s (Poll t) = spec_poll t s"
| "spec_step s (Discard t) = (None, \<lparr>pads = {}, phase = Releasing t\<rparr>)"

fun spec_run :: "gesture_spec \<Rightarrow> touch_event list \<Rightarrow> nat option list \<times> gesture_spec" where
  "spec_run s [] = ([], s)"
| "spec_run s (e # es) =
     (case spec_step s e of (k, s') \<Rightarrow>
        case spec_run s' es of (ks, s'') \<Rightarrow> (k # ks, s''))"

text \<open>The state and the output of the C code, read in the abstract machine.\<close>

definition gesture_abs :: "touch_gesture \<Rightarrow> gesture_spec" where
  "gesture_abs g =
     \<lparr>pads = bit_set (tg_active_mask g),
      phase =
        (if tg_armed g then
           if tg_candidate_key g = 0 then Idle
           else Candidate (unat (tg_candidate_key g - 1)) (tg_candidate_started g)
         else if tg_release_pending g then Releasing (tg_release_started g) else Latched)\<rparr>"

definition key_abs :: "u8 \<Rightarrow> nat option" where
  "key_abs key = (if key = 0 then None else Some (unat (key - 1)))"

section \<open>Invariant\<close>

definition gesture_inv :: "touch_gesture \<Rightarrow> bool" where
  "gesture_inv g \<longleftrightarrow>
     (tg_candidate_key g \<noteq> 0 \<longrightarrow>
        tg_armed g \<and> tg_candidate_key g \<le> 6 \<and>
        bit_set (tg_active_mask g) = {unat (tg_candidate_key g - 1)}) \<and>
     (tg_armed g \<and> tg_candidate_key g = 0 \<longrightarrow> tg_active_mask g = 0) \<and>
     (tg_release_pending g \<longrightarrow> \<not> tg_armed g \<and> tg_active_mask g = 0)"

lemma key_index_less: "(key :: u8) \<noteq> 0 \<Longrightarrow> key \<le> 6 \<Longrightarrow> unat (key - 1) < 6"
  by (auto simp: word_le_nat_alt unat_minus_one unat_eq_zero)

lemma key_index_inject: "unat (a - 1 :: u8) = unat (b - 1) \<longleftrightarrow> a = b"
  by (simp add: word_unat_eq_iff [symmetric])

lemma valid_key_iff: "\<not> (key < 1 \<or> 6 < key) \<longleftrightarrow> (key :: u8) \<noteq> 0 \<and> key \<le> 6"
  by (auto simp: word_less_nat_alt word_le_nat_alt unat_gt_0)
section \<open>Each operation keeps the invariant and refines the abstract step\<close>

lemma valid_keyE:
  fixes key :: u8
  assumes "\<not> (key < 1 \<or> 6 < key)"
  obtains n where "n = unat (key - 1)" "n < 32" "key \<noteq> 0" "key \<le> 6"
proof -
  from assms have "key \<noteq> 0" "key \<le> 6" unfolding valid_key_iff by simp_all
  moreover from this have "unat (key - 1) < 32" using key_index_less [of key] by linarith
  ultimately show thesis by (intro that) simp_all
qed

lemmas gesture_defs = gesture_abs_def gesture_inv_def Let_def bit_set_simps

lemma press_refines:
  assumes "gesture_inv g" and "\<not> (key < 1 \<or> 6 < key)"
  shows "gesture_abs (gesture_press g key t) = spec_press (unat (key - 1)) t (gesture_abs g)"
    and "gesture_inv (gesture_press g key t)"
proof -
  from assms(2) obtain n where n: "n = unat (key - 1)" "n < 32" "key \<noteq> 0" "key \<le> 6"
    by (rule valid_keyE)
  note inv = assms(1) [unfolded gesture_inv_def]
  show "gesture_abs (gesture_press g key t) = spec_press (unat (key - 1)) t (gesture_abs g)"
    unfolding n(1) [symmetric] gesture_press_def spec_press_def
    using inv n
    by (cases "n \<in> bit_set (tg_active_mask g)"; cases "tg_armed g";
        cases "tg_candidate_key g = 0")
      (simp_all add: gesture_abs_def Let_def bit_set_simps)
  show "gesture_inv (gesture_press g key t)"
    unfolding gesture_press_def gesture_inv_def n(1) [symmetric]
    using inv n
    by (cases "n \<in> bit_set (tg_active_mask g)"; cases "tg_armed g";
        cases "tg_candidate_key g = 0"; cases "tg_release_pending g")
      (simp_all add: Let_def bit_set_simps)
qed

lemma release_refines:
  assumes "gesture_inv g" and "\<not> (key < 1 \<or> 6 < key)"
  shows "gesture_abs (gesture_release g key t) = spec_release (unat (key - 1)) t (gesture_abs g)"
    and "gesture_inv (gesture_release g key t)"
proof -
  from assms(2) obtain n where n: "n = unat (key - 1)" "n < 32" "key \<noteq> 0" "key \<le> 6"
    by (rule valid_keyE)
  have same: "unat (tg_candidate_key g - 1) = n \<longleftrightarrow> tg_candidate_key g = key"
    by (simp add: n(1) key_index_inject)
  note inv = assms(1) [unfolded gesture_inv_def]
  show "gesture_abs (gesture_release g key t) = spec_release (unat (key - 1)) t (gesture_abs g)"
    unfolding n(1) [symmetric] gesture_release_def spec_release_def
    using inv n(2-) same
    by (cases "bit_set (tg_active_mask g) \<subseteq> {n}"; cases "tg_armed g";
        cases "tg_candidate_key g = key"; cases "tg_candidate_key g = 0";
        cases "tg_release_pending g")
      (simp_all add: gesture_abs_def Let_def bit_set_simps)
  show "gesture_inv (gesture_release g key t)"
    unfolding gesture_release_def gesture_inv_def n(1) [symmetric]
    using inv n(2-) same
    by (cases "bit_set (tg_active_mask g) \<subseteq> {n}"; cases "tg_armed g";
        cases "tg_candidate_key g = key"; cases "tg_candidate_key g = 0";
        cases "tg_release_pending g")
      (simp_all add: Let_def bit_set_simps)
qed

lemma poll_refines:
  assumes "gesture_inv g"
  shows "\<exists>h. snd (touch_gesture_poll (Some g) t) = Some h \<and> gesture_inv h \<and>
    spec_poll t (gesture_abs g) = (key_abs (fst (touch_gesture_poll (Some g) t)), gesture_abs h)"
proof -
  have lt: "unat (tg_candidate_key g - 1) < 32" if "tg_candidate_key g \<noteq> 0"
    using that assms key_index_less [of "tg_candidate_key g"] by (simp add: gesture_inv_def)
  note inv = assms [unfolded gesture_inv_def]
  show ?thesis
    using inv lt
    by (cases "tg_armed g"; cases "tg_candidate_key g = 0"; cases "tg_release_pending g")
      (simp_all add: touch_gesture_poll_def spec_poll_def gesture_abs_def gesture_inv_def
        elapsed_def key_abs_def bit_set_simps)
qed
lemma discard_refines:
  "\<exists>h. touch_gesture_discard_until_quiet (Some g) t = Some h \<and> gesture_inv h \<and>
     gesture_abs h = \<lparr>pads = {}, phase = Releasing t\<rparr>"
  by (simp add: touch_gesture_discard_until_quiet_def gesture_cleared_def gesture_inv_def
      gesture_abs_def)

lemma edge_refines:
  assumes "gesture_inv g"
  shows "\<exists>h. touch_gesture_edge (Some g) key active t = Some h \<and> gesture_inv h \<and>
    snd (spec_step (gesture_abs g) (Edge key active t)) = gesture_abs h"
  using assms press_refines [OF assms] release_refines [OF assms]
  by (simp add: touch_gesture_edge_def)

lemma step_refines:
  assumes "gesture_inv g"
  shows "\<exists>h. snd (gesture_step (Some g) e) = Some h \<and> gesture_inv h \<and>
    spec_step (gesture_abs g) e = (key_abs (fst (gesture_step (Some g) e)), gesture_abs h)"
proof (cases e)
  case (Edge key active t)
  with edge_refines [OF assms, of key active t] show ?thesis by (auto simp: key_abs_def)
next
  case (Poll t)
  with poll_refines [OF assms, of t] show ?thesis by simp
next
  case (Discard t)
  with discard_refines [of g t] show ?thesis by (auto simp: key_abs_def)
qed

lemma run_refines:
  "gesture_inv g \<Longrightarrow>
     \<exists>h. snd (gesture_run (Some g) es) = Some h \<and> gesture_inv h \<and>
       spec_run (gesture_abs g) es = (map key_abs (fst (gesture_run (Some g) es)), gesture_abs h)"
proof (induction es arbitrary: g)
  case (Cons e es)
  from step_refines [OF Cons.prems, of e] obtain h where
    h: "snd (gesture_step (Some g) e) = Some h" "gesture_inv h"
      "spec_step (gesture_abs g) e = (key_abs (fst (gesture_step (Some g) e)), gesture_abs h)"
    by blast
  from Cons.IH [OF h(2)] h show ?case by (auto split: prod.splits)
qed simp

lemma init_inv: "touch_gesture_init (Some g0) = Some g \<Longrightarrow>
    gesture_inv g \<and> gesture_abs g = \<lparr>pads = {}, phase = Idle\<rparr>"
  by (auto simp: touch_gesture_init_def gesture_cleared_def gesture_inv_def gesture_abs_def)

section \<open>Consequences in the abstract machine\<close>

definition spec_after :: "gesture_spec \<Rightarrow> touch_event list \<Rightarrow> gesture_spec" where
  "spec_after s es = snd (spec_run s es)"

lemma spec_after_simps [simp]:
  "spec_after s [] = s"
  "spec_after s (e # es) = spec_after (snd (spec_step s e)) es"
  by (simp_all add: spec_after_def split: prod.splits)

lemma spec_after_append [simp]: "spec_after s (xs @ ys) = spec_after (spec_after s xs) ys"
  by (induction xs arbitrary: s) simp_all

text \<open>An event that leaves a candidate touch of \<open>key\<close> alone.\<close>

fun undisturbed :: "u8 \<Rightarrow> touch_event \<Rightarrow> bool" where
  "undisturbed key (Edge k active t) \<longleftrightarrow>
     (k < 1 \<or> TOUCH_GESTURE_KEY_COUNT < k) \<or> (if active then k = key else k \<noteq> key)"
| "undisturbed key (Poll t) \<longleftrightarrow> True"
| "undisturbed key (Discard t) \<longleftrightarrow> False"

definition spec_inv :: "gesture_spec \<Rightarrow> bool" where
  "spec_inv s \<longleftrightarrow>
     (case phase s of
        Idle \<Rightarrow> pads s = {} | Candidate n t \<Rightarrow> pads s = {n} | Latched \<Rightarrow> True
      | Releasing t \<Rightarrow> pads s = {})"

lemma spec_inv_step: "spec_inv s \<Longrightarrow> spec_inv (snd (spec_step s e))"
  by (cases e; cases "phase s")
    (auto simp: spec_inv_def spec_press_def spec_release_def spec_poll_def)

lemma spec_inv_after: "spec_inv s \<Longrightarrow> spec_inv (spec_after s es)"
  by (induction es arbitrary: s) (simp_all add: spec_inv_step)

text \<open>What one step must have been for a candidate to be there after it.\<close>

lemma candidate_step:
  assumes "spec_inv s" and "phase (snd (spec_step s e)) = Candidate n t0"
  shows "(\<exists>key. e = Edge key True t0 \<and> n = unat (key - 1) \<and> \<not> (key < 1 \<or> 6 < key)) \<or>
    phase s = Candidate n t0 \<and> (\<forall>key. n = unat (key - 1) \<longrightarrow> undisturbed key e)"
  using assms
  by (cases e; cases "phase s")
    (auto simp: spec_inv_def spec_press_def spec_release_def spec_poll_def key_index_inject
      split: if_splits)

lemma candidate_origin:
  assumes "spec_inv s" and "phase s = Idle"
    and "phase (spec_after s es) = Candidate n t0"
  shows "\<exists>es1 key es2. es = es1 @ Edge key True t0 # es2 \<and> n = unat (key - 1) \<and>
    \<not> (key < 1 \<or> 6 < key) \<and> (\<forall>e \<in> set es2. undisturbed key e)"
  using assms(3)
proof (induction es rule: rev_induct)
  case Nil
  with assms(2) show ?case by simp
next
  case (snoc e es)
  have "phase (snd (spec_step (spec_after s es) e)) = Candidate n t0"
    using snoc.prems by simp
  from candidate_step [OF spec_inv_after [OF assms(1)] this] show ?case
  proof (elim disjE exE conjE)
    fix key
    assume "e = Edge key True t0" "n = unat (key - 1)" "\<not> (key < 1 \<or> 6 < key)"
    then show ?thesis by (intro exI [of _ es] exI [of _ key] exI [of _ "[]"]) simp
  next
    assume "phase (spec_after s es) = Candidate n t0"
      and q: "\<forall>key. n = unat (key - 1) \<longrightarrow> undisturbed key e"
    from snoc.IH [OF this(1)] obtain es1 key es2 where
      "es = es1 @ Edge key True t0 # es2" "n = unat (key - 1)" "\<not> (key < 1 \<or> 6 < key)"
      "\<forall>e \<in> set es2. undisturbed key e" by blast
    with q show ?thesis
      by (intro exI [of _ es1] exI [of _ key] exI [of _ "es2 @ [e]"]) simp
  qed
qed

text \<open>A latched machine stays latched and silent while a pad is down.\<close>

lemma latched_step:
  assumes "phase s = Latched" and "pads (snd (spec_step s e)) \<noteq> {}"
  shows "fst (spec_step s e) = None \<and> phase (snd (spec_step s e)) = Latched"
  using assms by (cases e) (auto simp: spec_press_def spec_release_def spec_poll_def)

lemma latched_silent:
  assumes "phase s = Latched" and "\<forall>n \<le> length es. pads (spec_after s (take n es)) \<noteq> {}"
  shows "fst (spec_run s es) = replicate (length es) None"
  using assms
proof (induction es arbitrary: s)
  case (Cons e es)
  have "pads (snd (spec_step s e)) \<noteq> {}"
    using Cons.prems(2) [rule_format, of 1] by simp
  from latched_step [OF Cons.prems(1) this]
  have e: "fst (spec_step s e) = None" "phase (snd (spec_step s e)) = Latched" by simp_all
  have "fst (spec_run (snd (spec_step s e)) es) = replicate (length es) None"
  proof (rule Cons.IH [OF e(2)], intro allI impI)
    fix n assume "n \<le> length es"
    then show "pads (spec_after (snd (spec_step s e)) (take n es)) \<noteq> {}"
      using Cons.prems(2) [rule_format, of "Suc n"] by simp
  qed
  with e show ?case by (simp add: split_beta)
qed simp

section \<open>Properties\<close>

text \<open>C40. The gesture filter over bit masks and flags is a refinement of the abstract gesture
  machine over sets of pads: from initialisation, for every sequence of edges, polls and
  overflow discards (keys out of range included), it reports exactly the actions the abstract
  machine reports and ends in the state that represents the abstract one.\<close>

theorem gesture_refinement:
  assumes "touch_gesture_init (Some g0) = Some g"
  shows "\<exists>h. snd (gesture_run (Some g) es) = Some h \<and> gesture_inv h \<and>
    spec_run \<lparr>pads = {}, phase = Idle\<rparr> es =
      (map key_abs (fst (gesture_run (Some g) es)), gesture_abs h)"
  using run_refines [of g es] init_inv [OF assms] by simp

theorem gesture_refinement_witness:
  "\<exists>h. snd (gesture_run (Some (gesture_cleared\<lparr>tg_armed := True\<rparr>))
       [Edge 2 True 0, Edge 3 True 10, Poll 300]) = Some h \<and> gesture_inv h \<and>
    spec_run \<lparr>pads = {}, phase = Idle\<rparr> [Edge 2 True 0, Edge 3 True 10, Poll 300] =
      (map key_abs (fst (gesture_run (Some (gesture_cleared\<lparr>tg_armed := True\<rparr>))
         [Edge 2 True 0, Edge 3 True 10, Poll 300])), gesture_abs h)"
  by (rule gesture_refinement [of gesture_cleared]) (simp add: touch_gesture_init_def)

text \<open>Where a reported key comes from.\<close>

lemma stable_touch_origin:
  assumes "touch_gesture_init (Some g0) = Some g"
    and "touch_gesture_poll (snd (gesture_run (Some g) es)) t = (key, g')" and "key \<noteq> 0"
  shows "\<exists>es1 t0 es2. es = es1 @ Edge key True t0 # es2 \<and> 40 \<le> t - t0 \<and>
    (\<forall>e \<in> set es2. undisturbed key e)"
proof -
  let ?s0 = "\<lparr>pads = {}, phase = Idle\<rparr>"
  from run_refines [of g es] init_inv [OF assms(1)] obtain h where
    h: "snd (gesture_run (Some g) es) = Some h" "gesture_inv h"
      "spec_after ?s0 es = gesture_abs h" by (auto simp: spec_after_def)
  from poll_refines [OF h(2), of t] assms(2) h(1) have
    "fst (spec_poll t (gesture_abs h)) = Some (unat (key - 1))"
    using assms(3) by (auto simp: key_abs_def)
  then obtain t0 where c: "phase (gesture_abs h) = Candidate (unat (key - 1)) t0" "40 \<le> t - t0"
    by (auto simp: spec_poll_def split: phase.splits if_splits)
  have "spec_inv ?s0" by (simp add: spec_inv_def)
  from candidate_origin [OF this _ c(1) [folded h(3)]] obtain es1 key' es2 where
    "es = es1 @ Edge key' True t0 # es2" "unat (key - 1) = unat (key' - 1)"
    "\<forall>e \<in> set es2. undisturbed key' e" by auto
  with c(2) show ?thesis unfolding key_index_inject by blast
qed

text \<open>An action is only reported for a real, stable, single touch: whenever a poll reports
  a key, the events contain a press of exactly that key at least 40 ms before the poll, and
  since that press no other pad was pressed, the pad was not released and no event was
  lost to an overflow.\<close>

theorem action_needs_stable_touch:
  assumes "touch_gesture_init (Some g0) = Some g"
    and "touch_gesture_poll (snd (gesture_run (Some g) es)) t = (key, g')" and "key \<noteq> 0"
  shows "\<exists>es1 t0 es2. es = es1 @ Edge key True t0 # es2 \<and> 40 \<le> t - t0 \<and>
    (\<forall>e \<in> set es2. undisturbed key e)"
  using assms by (rule stable_touch_origin)

theorem action_needs_stable_touch_witness:
  "\<exists>es1 t0 es2. [Edge 1 True 100, Poll 139] = es1 @ Edge 1 True t0 # es2 \<and>
    40 \<le> (140 :: u32) - t0 \<and> (\<forall>e \<in> set es2. undisturbed 1 e)"
  by (rule action_needs_stable_touch
      [of gesture_cleared "gesture_cleared\<lparr>tg_armed := True\<rparr>"])
    (simp_all add: touch_gesture_init_def gesture_cleared_def touch_gesture_edge_def
      touch_gesture_poll_def gesture_press_def Let_def elapsed_def)

text \<open>One touch gives one action: after a poll has reported a key, no later poll reports
  anything while some pad stays down, whatever edges and polls follow.\<close>

theorem one_action_per_touch:
  assumes "touch_gesture_init (Some g0) = Some g"
    and "touch_gesture_poll (snd (gesture_run (Some g) es)) t = (key, Some g')" and "key \<noteq> 0"
    and "\<forall>n \<le> length later. \<forall>h. snd (gesture_run (Some g') (take n later)) = Some h \<longrightarrow>
           tg_active_mask h \<noteq> 0"
  shows "fst (gesture_run (Some g') later) = replicate (length later) 0"
proof -
  from run_refines [of g es] init_inv [OF assms(1)] obtain h where
    h: "snd (gesture_run (Some g) es) = Some h" "gesture_inv h" by auto
  with poll_refines [OF h(2), of t] assms(2) have
    p: "gesture_inv g'" "spec_poll t (gesture_abs h) = (key_abs key, gesture_abs g')" by auto
  have latched: "phase (gesture_abs g') = Latched"
    using p(2) assms(3)
    by (auto simp: spec_poll_def key_abs_def split: phase.splits if_splits)
      (metis gesture_spec.select_convs(2) gesture_spec.surjective gesture_spec.update_convs(2))
  have "pads (spec_after (gesture_abs g') (take n later)) \<noteq> {}" if "n \<le> length later" for n
    using run_refines [OF p(1), of "take n later"] assms(4) that
    by (auto simp: spec_after_def gesture_abs_def)
  then have "fst (spec_run (gesture_abs g') later) = replicate (length later) None"
    by (intro latched_silent [OF latched]) simp
  with run_refines [OF p(1), of later] have
    "map key_abs (fst (gesture_run (Some g') later)) = replicate (length later) None" by auto
  then show ?thesis
    by (auto simp: list_eq_iff_nth_eq key_abs_def split: if_splits)
qed

theorem one_action_per_touch_witness:
  "fst (gesture_run (Some \<lparr>tg_active_mask = 1, tg_candidate_started = 100,
      tg_release_started = 0, tg_candidate_key = 0, tg_armed = False,
      tg_release_pending = False\<rparr>) [Poll 500]) = replicate (length [Poll 500]) 0"
proof (rule one_action_per_touch [where key = 1 and t = 140 and es = "[Edge 1 True 100]"])
  show "touch_gesture_init (Some gesture_cleared) = Some (gesture_cleared\<lparr>tg_armed := True\<rparr>)"
    by (simp add: touch_gesture_init_def)
qed (auto simp: le_Suc_eq gesture_cleared_def touch_gesture_edge_def
      touch_gesture_poll_def gesture_press_def Let_def elapsed_def)

end
