(* ===== verification/ServiceHealth.thy ===== *)
theory ServiceHealth
  imports Prelude
begin

text \<open>
  \<open>main/service_health.c\<close>: the table of service states that every task reports into. Each
  operation runs in one critical section, so it is one atomic update of the table.
\<close>

section \<open>State\<close>

datatype service_state = SERVICE_STATE_STARTING | SERVICE_STATE_READY | SERVICE_STATE_DEGRADED
  | SERVICE_STATE_RETRYING | SERVICE_STATE_FAILED

record service_health_snapshot =
  sh_state :: service_state
  sh_last_error :: u32
  sh_restart_count :: u32
  sh_minimum_free_stack_bytes :: u32

type_synonym service_id = u32
type_synonym health = "service_health_snapshot list"

abbreviation (input) SERVICE_FAN :: service_id where "SERVICE_FAN \<equiv> 0"
abbreviation (input) SERVICE_UI :: service_id where "SERVICE_UI \<equiv> 1"
abbreviation (input) SERVICE_TOUCH :: service_id where "SERVICE_TOUCH \<equiv> 2"
abbreviation (input) SERVICE_NETWORK :: service_id where "SERVICE_NETWORK \<equiv> 3"
abbreviation (input) SERVICE_HTTP :: service_id where "SERVICE_HTTP \<equiv> 4"
abbreviation (input) SERVICE_DNS :: service_id where "SERVICE_DNS \<equiv> 5"
abbreviation (input) SERVICE_OTA_WORKER :: service_id where "SERVICE_OTA_WORKER \<equiv> 6"
abbreviation (input) SERVICE_DIAGNOSTICS :: service_id where "SERVICE_DIAGNOSTICS \<equiv> 7"
abbreviation (input) SERVICE_COUNT :: service_id where "SERVICE_COUNT \<equiv> 8"
abbreviation (input) UINT32_MAX :: u32 where "UINT32_MAX \<equiv> 0xffffffff"

section \<open>Operations\<close>

definition service_health_init :: health where
  "service_health_init =
     replicate (unat SERVICE_COUNT)
       \<lparr>sh_state = SERVICE_STATE_STARTING, sh_last_error = 0, sh_restart_count = 0,
        sh_minimum_free_stack_bytes = UINT32_MAX\<rparr>"

text \<open>An update of one row, under the range check that opens every operation.\<close>

definition update_service ::
    "service_id \<Rightarrow> (service_health_snapshot \<Rightarrow> service_health_snapshot) \<Rightarrow> health \<Rightarrow> health" where
  "update_service service f h =
     (if SERVICE_COUNT \<le> service then h else h[unat service := f (h ! unat service)])"

definition service_health_set ::
    "service_id \<Rightarrow> service_state \<Rightarrow> esp_err \<Rightarrow> health \<Rightarrow> health" where
  "service_health_set service state error =
     update_service service (\<lambda>r.
       let r = r\<lparr>sh_state := state\<rparr>
       in if error \<noteq> ESP_OK then r\<lparr>sh_last_error := error\<rparr> else r)"

definition service_health_note_restart :: "service_id \<Rightarrow> health \<Rightarrow> health" where
  "service_health_note_restart service =
     update_service service (\<lambda>r.
       r\<lparr>sh_restart_count := sh_restart_count r + 1, sh_state := SERVICE_STATE_RETRYING\<rparr>)"

definition service_health_set_stack :: "service_id \<Rightarrow> u32 \<Rightarrow> health \<Rightarrow> health" where
  "service_health_set_stack service free_stack_bytes =
     update_service service (\<lambda>r.
       if free_stack_bytes < sh_minimum_free_stack_bytes r
       then r\<lparr>sh_minimum_free_stack_bytes := free_stack_bytes\<rparr> else r)"

definition service_health_get :: "service_id \<Rightarrow> health \<Rightarrow> service_health_snapshot option" where
  "service_health_get service h =
     (if SERVICE_COUNT \<le> service then None
      else
        let r = h ! unat service in
        Some (if sh_minimum_free_stack_bytes r = UINT32_MAX
              then r\<lparr>sh_minimum_free_stack_bytes := 0\<rparr> else r))"

definition service_health_name :: "service_id \<Rightarrow> string" where
  "service_health_name service =
     (if service < SERVICE_COUNT
      then [''fan'', ''ui'', ''touch'', ''network'', ''http'', ''dns'', ''ota_worker'',
            ''diagnostics''] ! unat service
      else ''unknown'')"

fun service_health_state_name :: "service_state \<Rightarrow> string" where
  "service_health_state_name SERVICE_STATE_STARTING = ''starting''"
| "service_health_state_name SERVICE_STATE_READY = ''ready''"
| "service_health_state_name SERVICE_STATE_DEGRADED = ''degraded''"
| "service_health_state_name SERVICE_STATE_RETRYING = ''retrying''"
| "service_health_state_name SERVICE_STATE_FAILED = ''failed''"

section \<open>Reports over time\<close>

datatype health_op =
    Set service_id service_state esp_err
  | Note_Restart service_id
  | Set_Stack service_id u32

fun health_step :: "health_op \<Rightarrow> health \<Rightarrow> health" where
  "health_step (Set s st e) = service_health_set s st e"
| "health_step (Note_Restart s) = service_health_note_restart s"
| "health_step (Set_Stack s n) = service_health_set_stack s n"

definition health_run :: "health_op list \<Rightarrow> health" where
  "health_run ops = fold health_step ops service_health_init"

text \<open>What a history says about one service, read from the operations themselves.\<close>

fun op_service :: "health_op \<Rightarrow> service_id" where
  "op_service (Set s st e) = s"
| "op_service (Note_Restart s) = s"
| "op_service (Set_Stack s n) = s"

definition history :: "service_id \<Rightarrow> health_op list \<Rightarrow> health_op list" where
  "history s ops = filter (\<lambda>op. op_service op = s) ops"

fun op_states :: "health_op \<Rightarrow> service_state list" where
  "op_states (Set s st e) = [st]"
| "op_states (Note_Restart s) = [SERVICE_STATE_RETRYING]"
| "op_states (Set_Stack s n) = []"

fun op_errors :: "health_op \<Rightarrow> esp_err list" where
  "op_errors (Set s st e) = (if e = ESP_OK then [] else [e])"
| "op_errors _ = []"

fun op_stacks :: "health_op \<Rightarrow> u32 list" where
  "op_stacks (Set_Stack s n) = [n]"
| "op_stacks _ = []"

fun op_restarts :: "health_op \<Rightarrow> bool" where
  "op_restarts (Note_Restart s) = True"
| "op_restarts _ = False"

definition last_or :: "'a \<Rightarrow> 'a list \<Rightarrow> 'a" where
  "last_or d xs = (if xs = [] then d else last xs)"

definition reported_state :: "health_op list \<Rightarrow> service_state" where
  "reported_state ops = last_or SERVICE_STATE_STARTING (concat (map op_states ops))"

definition reported_error :: "health_op list \<Rightarrow> esp_err" where
  "reported_error ops = last_or ESP_OK (concat (map op_errors ops))"

definition reported_restarts :: "health_op list \<Rightarrow> u32" where
  "reported_restarts ops = of_nat (length (filter op_restarts ops))"

definition reported_stack :: "health_op list \<Rightarrow> u32" where
  "reported_stack ops = fold min (concat (map op_stacks ops)) UINT32_MAX"

lemma last_or_simps [simp]:
  "last_or d [] = d" "last_or d (xs @ [x]) = x" "last_or d (xs @ []) = last_or d xs"
  by (simp_all add: last_or_def)

lemma length_health_run [simp]: "length (health_run ops) = 8"
proof -
  have "length (health_step op h) = length h" for op h
    by (cases op) (simp_all add: service_health_set_def service_health_note_restart_def
        service_health_set_stack_def update_service_def)
  then have "length (fold health_step ops h) = length h" for h
    by (induction ops arbitrary: h) simp_all
  then show ?thesis by (simp add: health_run_def service_health_init_def)
qed

lemma health_run_snoc [simp]: "health_run (ops @ [op]) = health_step op (health_run ops)"
  by (simp add: health_run_def)

lemma history_snoc [simp]:
  "history s (ops @ [op]) = history s ops @ (if op_service op = s then [op] else [])"
  by (simp add: history_def)

lemma min_strict: "min a (b :: u32) = (if a < b then a else b)"
  by (auto simp: min_def)

lemma row_of_history:
  assumes "s < 8"
  shows "health_run ops ! unat s =
    \<lparr>sh_state = reported_state (history s ops), sh_last_error = reported_error (history s ops),
     sh_restart_count = reported_restarts (history s ops),
     sh_minimum_free_stack_bytes = reported_stack (history s ops)\<rparr>"
proof (induction ops rule: rev_induct)
  case Nil
  have "unat s < 8" using assms by (simp add: word_less_nat_alt)
  then show ?case
    by (simp add: health_run_def service_health_init_def history_def reported_state_def
        reported_error_def reported_restarts_def reported_stack_def)
next
  case (snoc op ops)
  have lt: "unat s < 8" "\<not> 8 \<le> s" using assms by (simp_all add: word_less_nat_alt not_le)
  have other: "unat s' \<noteq> unat s" if "s' \<noteq> s" for s' :: service_id
    using that by (simp add: word_unat_eq_iff [symmetric])
  show ?case
    using snoc lt assms other
    by (cases op; cases "op_service op = s")
      (simp_all add: service_health_set_def service_health_note_restart_def
        service_health_set_stack_def update_service_def reported_state_def reported_error_def
        reported_restarts_def reported_stack_def Let_def min_strict)
qed

section \<open>Properties\<close>

text \<open>What a service's row reports after any history of reports, whoever made them: the
  state last set (a noted restart sets "retrying"), the last error that was not \<open>ESP_OK\<close> (a
  later success does not erase it), the number of restarts modulo \<open>2 ^ 32\<close> and the least free
  stack ever sampled, 0 when none was; reports about other services or about an id out of
  range do not touch it.\<close>

theorem service_health_reports_history:
  assumes "s < SERVICE_COUNT"
  shows "service_health_get s (health_run ops) =
    Some \<lparr>sh_state = reported_state (history s ops),
      sh_last_error = reported_error (history s ops),
      sh_restart_count = reported_restarts (history s ops),
      sh_minimum_free_stack_bytes =
        (if reported_stack (history s ops) = UINT32_MAX then 0
         else reported_stack (history s ops))\<rparr>"
  using assms row_of_history [OF assms, of ops]
  by (simp add: service_health_get_def Let_def not_le)

theorem service_health_reports_history_witness:
  "service_health_get SERVICE_UI (health_run
     [Set SERVICE_UI SERVICE_STATE_DEGRADED 0x101, Set_Stack 99 4, Set_Stack SERVICE_UI 900,
      Note_Restart SERVICE_UI, Set SERVICE_UI SERVICE_STATE_READY ESP_OK]) =
   Some \<lparr>sh_state = SERVICE_STATE_READY, sh_last_error = 0x101, sh_restart_count = 1,
     sh_minimum_free_stack_bytes = 900\<rparr>"
  by (subst service_health_reports_history)
    (simp_all add: history_def reported_state_def reported_error_def reported_restarts_def
      reported_stack_def last_or_def)

end
