(* ===== verification/Diagnostics.thy ===== *)
theory Diagnostics
  imports ServiceHealth
begin

text \<open>
  \<open>main/diagnostics.c\<close>: what survives a reset in RTC memory (the planned-restart marker, the
  fan fault latch, the breadcrumb ring), the boot-time evaluation of it, and the sampling
  task. The markers are written store by store, because a reset may come between two stores;
  an operation is the fold of its stores.
\<close>

section \<open>Constants and state\<close>

abbreviation (input) RESTART_MARKER_MAGIC :: u32 where "RESTART_MARKER_MAGIC \<equiv> 0x48504133"
abbreviation (input) FAN_FAULT_MAGIC :: u32 where "FAN_FAULT_MAGIC \<equiv> 0x46414e46"
abbreviation (input) BREADCRUMB_MAGIC :: u32 where "BREADCRUMB_MAGIC \<equiv> 0x42524352"
abbreviation (input) BREADCRUMB_COUNT :: nat where "BREADCRUMB_COUNT \<equiv> 16"

text \<open>\<open>esp_reset_reason_t\<close>, with ESP-IDF's documented values.\<close>

type_synonym reset_reason = u32
abbreviation (input) ESP_RST_POWERON :: reset_reason where "ESP_RST_POWERON \<equiv> 1"
abbreviation (input) ESP_RST_SW :: reset_reason where "ESP_RST_SW \<equiv> 3"
abbreviation (input) ESP_RST_BROWNOUT :: reset_reason where "ESP_RST_BROWNOUT \<equiv> 9"
abbreviation (input) ESP_RST_PWR_GLITCH :: reset_reason where "ESP_RST_PWR_GLITCH \<equiv> 14"

type_synonym restart_reason = u32
abbreviation (input) DIAGNOSTICS_RESTART_NONE :: restart_reason where "DIAGNOSTICS_RESTART_NONE \<equiv> 0"
abbreviation (input) DIAGNOSTICS_RESTART_OTA :: restart_reason where "DIAGNOSTICS_RESTART_OTA \<equiv> 1"
abbreviation (input) DIAGNOSTICS_RESTART_ROLLBACK :: restart_reason where
  "DIAGNOSTICS_RESTART_ROLLBACK \<equiv> 2"
abbreviation (input) DIAGNOSTICS_RESTART_PROVISIONING :: restart_reason where
  "DIAGNOSTICS_RESTART_PROVISIONING \<equiv> 3"

type_synonym event = u32
abbreviation (input) DIAGNOSTICS_EVENT_BOOT :: event where "DIAGNOSTICS_EVENT_BOOT \<equiv> 1"
abbreviation (input) DIAGNOSTICS_EVENT_TRANSITION_BEGIN :: event where
  "DIAGNOSTICS_EVENT_TRANSITION_BEGIN \<equiv> 2"
abbreviation (input) DIAGNOSTICS_EVENT_TRANSITION_COMMIT :: event where
  "DIAGNOSTICS_EVENT_TRANSITION_COMMIT \<equiv> 3"
abbreviation (input) DIAGNOSTICS_EVENT_TRANSITION_FAILURE :: event where
  "DIAGNOSTICS_EVENT_TRANSITION_FAILURE \<equiv> 4"
abbreviation (input) DIAGNOSTICS_EVENT_FAULT_LATCHED :: event where
  "DIAGNOSTICS_EVENT_FAULT_LATCHED \<equiv> 5"
abbreviation (input) DIAGNOSTICS_EVENT_MAINTENANCE_BEGIN :: event where
  "DIAGNOSTICS_EVENT_MAINTENANCE_BEGIN \<equiv> 6"
abbreviation (input) DIAGNOSTICS_EVENT_MAINTENANCE_END :: event where
  "DIAGNOSTICS_EVENT_MAINTENANCE_END \<equiv> 7"

record restart_marker =
  rm_magic :: u32
  rm_magic_inverse :: u32
  rm_reason :: u32
  rm_reason_inverse :: u32

record boot_info =
  bi_reset_reason :: reset_reason
  bi_reset_reason_name :: string
  bi_power_related :: bool
  bi_planned :: bool
  bi_planned_reason :: string

record fan_fault_marker =
  ff_magic :: u32
  ff_magic_inverse :: u32
  ff_error :: u32
  ff_phase :: u32
  ff_checksum :: u32

record breadcrumb =
  bc_sequence :: u32
  bc_event :: event
  bc_uptime_ms :: u32
  bc_value :: u32
  bc_detail :: u32

record breadcrumb_slot =
  sl_commit :: u32
  sl_commit_inverse :: u32
  sl_value :: breadcrumb

record breadcrumb_ring =
  br_magic :: u32
  br_magic_inverse :: u32
  br_next_sequence :: u32
  br_slots :: "breadcrumb_slot list"

record flash_counter =
  fc_count :: u32
  fc_bytes :: u32
  fc_time_us :: u32

record flash_counters =
  fl_read :: flash_counter
  fl_write :: flash_counter
  fl_erase :: flash_counter

record diagnostics_runtime =
  rt_free_heap_bytes :: u32
  rt_minimum_free_heap_bytes :: u32
  rt_flash :: flash_counters
  rt_coredump_present :: bool
  rt_coredump_readable :: bool
  rt_coredump_size_bytes :: u32
  rt_coredump_capacity_bytes :: u32

record diagnostics =
  s_restart_marker :: restart_marker
  s_boot_info :: boot_info
  s_fan_fault :: fan_fault_marker
  s_breadcrumbs :: breadcrumb_ring
  s_runtime :: diagnostics_runtime
  s_diagnostics_task :: bool

section \<open>Names\<close>

definition reset_reason_name :: "reset_reason \<Rightarrow> string" where
  "reset_reason_name reason =
     (case map_of [(1, ''power_on''), (2, ''external_reset''), (3, ''software_reset''),
        (4, ''panic''), (5, ''interrupt_watchdog''), (6, ''task_watchdog''), (7, ''watchdog''),
        (8, ''deep_sleep''), (9, ''brownout''), (10, ''sdio''), (11, ''usb''), (12, ''jtag''),
        (13, ''efuse''), (14, ''power_glitch''), (15, ''cpu_lockup'')] reason of
        Some name \<Rightarrow> name | None \<Rightarrow> ''unknown'')"

definition planned_reason_name :: "restart_reason \<Rightarrow> string" where
  "planned_reason_name reason =
     (if reason = DIAGNOSTICS_RESTART_OTA then ''ota_install''
      else if reason = DIAGNOSTICS_RESTART_ROLLBACK then ''ota_rollback''
      else if reason = DIAGNOSTICS_RESTART_PROVISIONING then ''provisioning''
      else ''none'')"

definition diagnostics_event_name :: "event \<Rightarrow> string" where
  "diagnostics_event_name ev =
     (if ev = DIAGNOSTICS_EVENT_BOOT then ''boot''
      else if ev = DIAGNOSTICS_EVENT_TRANSITION_BEGIN then ''transition_begin''
      else if ev = DIAGNOSTICS_EVENT_TRANSITION_COMMIT then ''transition_commit''
      else if ev = DIAGNOSTICS_EVENT_TRANSITION_FAILURE then ''transition_failure''
      else if ev = DIAGNOSTICS_EVENT_FAULT_LATCHED then ''fault_latched''
      else if ev = DIAGNOSTICS_EVENT_MAINTENANCE_BEGIN then ''maintenance_begin''
      else if ev = DIAGNOSTICS_EVENT_MAINTENANCE_END then ''maintenance_end''
      else ''unknown'')"

section \<open>Validity of the retained records\<close>

definition fan_fault_checksum :: "u32 \<Rightarrow> u32 \<Rightarrow> u32" where
  "fan_fault_checksum error phase = FAN_FAULT_MAGIC XOR error XOR phase XOR 0xa55aa55a"

definition fan_fault_is_valid :: "fan_fault_marker \<Rightarrow> bool" where
  "fan_fault_is_valid f \<longleftrightarrow>
     ff_magic f = FAN_FAULT_MAGIC \<and> ff_magic_inverse f = NOT FAN_FAULT_MAGIC \<and>
     ff_checksum f = fan_fault_checksum (ff_error f) (ff_phase f)"

definition breadcrumb_ring_is_valid :: "breadcrumb_ring \<Rightarrow> bool" where
  "breadcrumb_ring_is_valid b \<longleftrightarrow>
     br_magic b = BREADCRUMB_MAGIC \<and> br_magic_inverse b = NOT BREADCRUMB_MAGIC"

definition marker_is_valid :: "restart_marker \<Rightarrow> restart_reason option" where
  "marker_is_valid m =
     (if rm_magic m \<noteq> RESTART_MARKER_MAGIC \<or> rm_magic_inverse m \<noteq> NOT RESTART_MARKER_MAGIC \<or>
         rm_reason m \<noteq> NOT (rm_reason_inverse m) \<or> rm_reason m \<le> DIAGNOSTICS_RESTART_NONE \<or>
         DIAGNOSTICS_RESTART_PROVISIONING < rm_reason m
      then None else Some (rm_reason m))"

section \<open>Writing the retained records\<close>

definition slot_stores :: "breadcrumb \<Rightarrow> (breadcrumb_slot \<Rightarrow> breadcrumb_slot) list" where
  "slot_stores v =
     [(\<lambda>s. s\<lparr>sl_commit := 0\<rparr>),
      (\<lambda>s. s\<lparr>sl_commit_inverse := UINT32_MAX\<rparr>),
      (\<lambda>s. s\<lparr>sl_value := v\<rparr>),
      (\<lambda>s. s\<lparr>sl_commit_inverse := NOT (bc_sequence v)\<rparr>),
      (\<lambda>s. s\<lparr>sl_commit := bc_sequence v\<rparr>)]"

definition diagnostics_record_event ::
    "event \<Rightarrow> u32 \<Rightarrow> u32 \<Rightarrow> us_time \<Rightarrow> diagnostics \<Rightarrow> diagnostics" where
  "diagnostics_record_event ev value detail now_us d =
     (let b = s_breadcrumbs d in
      if \<not> breadcrumb_ring_is_valid b then d
      else
        let sequence = br_next_sequence b;
            b = b\<lparr>br_next_sequence := br_next_sequence b + 1\<rparr>;
            (sequence, b) = (if sequence = 0 then (1, b\<lparr>br_next_sequence := 2\<rparr>) else (sequence, b));
            i = unat ((sequence - 1) mod of_nat BREADCRUMB_COUNT);
            v = \<lparr>bc_sequence = sequence, bc_event = ev, bc_uptime_ms = us_to_ms now_us,
                 bc_value = value, bc_detail = detail\<rparr>
        in d\<lparr>s_breadcrumbs := b\<lparr>br_slots := (br_slots b)[i := fold id (slot_stores v) (br_slots b ! i)]\<rparr>\<rparr>)"

definition diagnostics_get_latest_event :: "diagnostics \<Rightarrow> breadcrumb option" where
  "diagnostics_get_latest_event d =
     (let b = s_breadcrumbs d in
      if \<not> breadcrumb_ring_is_valid b \<or> br_next_sequence b \<le> 1 then None
      else
        let sequence = br_next_sequence b - 1;
            slot = br_slots b ! unat ((sequence - 1) mod of_nat BREADCRUMB_COUNT)
        in if sl_commit slot \<noteq> sequence \<or> sl_commit_inverse slot \<noteq> NOT sequence \<or>
              bc_sequence (sl_value slot) \<noteq> sequence then None
           else Some (sl_value slot))"

definition fault_stores :: "u32 \<Rightarrow> u32 \<Rightarrow> (fan_fault_marker \<Rightarrow> fan_fault_marker) list" where
  "fault_stores error phase =
     [(\<lambda>f. f\<lparr>ff_magic := 0\<rparr>),
      (\<lambda>f. f\<lparr>ff_error := error\<rparr>),
      (\<lambda>f. f\<lparr>ff_phase := phase\<rparr>),
      (\<lambda>f. f\<lparr>ff_checksum := fan_fault_checksum error phase\<rparr>),
      (\<lambda>f. f\<lparr>ff_magic_inverse := NOT FAN_FAULT_MAGIC\<rparr>),
      (\<lambda>f. f\<lparr>ff_magic := FAN_FAULT_MAGIC\<rparr>)]"

definition diagnostics_latch_fan_fault :: "u32 \<Rightarrow> u32 \<Rightarrow> us_time \<Rightarrow> diagnostics \<Rightarrow> diagnostics" where
  "diagnostics_latch_fan_fault error phase now_us d =
     diagnostics_record_event DIAGNOSTICS_EVENT_FAULT_LATCHED phase error now_us
       (d\<lparr>s_fan_fault := fold id (fault_stores error phase) (s_fan_fault d)\<rparr>)"

definition diagnostics_fan_fault_is_latched :: "diagnostics \<Rightarrow> bool" where
  "diagnostics_fan_fault_is_latched d = fan_fault_is_valid (s_fan_fault d)"

definition diagnostics_get_fan_fault :: "diagnostics \<Rightarrow> u32 \<times> u32" where
  "diagnostics_get_fan_fault d =
     (if fan_fault_is_valid (s_fan_fault d)
      then (ff_error (s_fan_fault d), ff_phase (s_fan_fault d)) else (0, 0))"

definition marker_stores :: "restart_reason \<Rightarrow> (restart_marker \<Rightarrow> restart_marker) list" where
  "marker_stores reason =
     [(\<lambda>m. m\<lparr>rm_reason := reason\<rparr>),
      (\<lambda>m. m\<lparr>rm_reason_inverse := NOT (rm_reason m)\<rparr>),
      (\<lambda>m. m\<lparr>rm_magic_inverse := NOT RESTART_MARKER_MAGIC\<rparr>),
      (\<lambda>m. m\<lparr>rm_magic := RESTART_MARKER_MAGIC\<rparr>)]"

definition diagnostics_mark_planned_restart :: "restart_reason \<Rightarrow> diagnostics \<Rightarrow> diagnostics" where
  "diagnostics_mark_planned_restart reason d =
     (if reason \<le> DIAGNOSTICS_RESTART_NONE \<or> DIAGNOSTICS_RESTART_PROVISIONING < reason then d
      else d\<lparr>s_restart_marker := fold id (marker_stores reason) (s_restart_marker d)\<rparr>)"

section \<open>Boot\<close>

definition empty_slot :: breadcrumb_slot where
  "empty_slot = \<lparr>sl_commit = 0, sl_commit_inverse = 0, sl_value =
     \<lparr>bc_sequence = 0, bc_event = 0, bc_uptime_ms = 0, bc_value = 0, bc_detail = 0\<rparr>\<rparr>"

definition empty_ring :: breadcrumb_ring where
  "empty_ring = \<lparr>br_magic = BREADCRUMB_MAGIC, br_magic_inverse = NOT BREADCRUMB_MAGIC,
     br_next_sequence = 1, br_slots = replicate BREADCRUMB_COUNT empty_slot\<rparr>"

definition evaluate_boot :: "reset_reason \<Rightarrow> restart_marker \<Rightarrow> boot_info" where
  "evaluate_boot reason marker =
     (let planned = reason = ESP_RST_SW \<and> marker_is_valid marker \<noteq> None
      in \<lparr>bi_reset_reason = reason,
          bi_reset_reason_name = reset_reason_name reason,
          bi_power_related = (reason = ESP_RST_POWERON \<or> reason = ESP_RST_BROWNOUT \<or>
                              reason = ESP_RST_PWR_GLITCH),
          bi_planned = planned,
          bi_planned_reason = planned_reason_name
            (if planned then the (marker_is_valid marker) else DIAGNOSTICS_RESTART_NONE)\<rparr>)"

text \<open>
  The three updates of the retained memory at boot, in the order of the code: a cold boot
  clears the fault, a cold boot or a bad header clears the ring, the marker is consumed.
\<close>

definition boot_fan_fault :: "reset_reason \<Rightarrow> diagnostics \<Rightarrow> diagnostics" where
  "boot_fan_fault reason d =
     (if reason = ESP_RST_POWERON
      then d\<lparr>s_fan_fault := \<lparr>ff_magic = 0, ff_magic_inverse = 0, ff_error = 0, ff_phase = 0,
                             ff_checksum = 0\<rparr>\<rparr>
      else d)"

definition boot_breadcrumbs :: "reset_reason \<Rightarrow> diagnostics \<Rightarrow> diagnostics" where
  "boot_breadcrumbs reason d =
     (if \<not> breadcrumb_ring_is_valid (s_breadcrumbs d) \<or> reason = ESP_RST_POWERON
      then d\<lparr>s_breadcrumbs := empty_ring\<rparr> else d)"

definition consume_marker :: "diagnostics \<Rightarrow> diagnostics" where
  "consume_marker d =
     d\<lparr>s_restart_marker := \<lparr>rm_magic = 0, rm_magic_inverse = 0, rm_reason = 0,
                             rm_reason_inverse = 0\<rparr>\<rparr>"

definition boot_retained :: "reset_reason \<Rightarrow> diagnostics \<Rightarrow> diagnostics" where
  "boot_retained reason d =
     consume_marker (boot_breadcrumbs reason (boot_fan_fault reason
       (d\<lparr>s_boot_info := evaluate_boot reason (s_restart_marker d)\<rparr>)))"

definition diagnostics_init :: "reset_reason \<Rightarrow> us_time \<Rightarrow> diagnostics \<Rightarrow> diagnostics" where
  "diagnostics_init reason now_us d =
     (let d' = boot_retained reason d
      in diagnostics_record_event DIAGNOSTICS_EVENT_BOOT reason
           (if fan_fault_is_valid (s_fan_fault d') then ff_error (s_fan_fault d') else 0)
           now_us d')"

section \<open>The sampling task\<close>

text \<open>
  What the task reads from ESP-IDF when it starts and in every period, and its two locals.
  The period itself and the log line are not modelled.
\<close>

record coredump_report =
  cd_partition_size :: "u32 option"
  cd_image_get :: "esp_err \<times> u32"
  cd_image_check :: esp_err

record diagnostics_sample =
  ds_free_heap :: u32
  ds_minimum_free_heap :: u32
  ds_flash :: flash_counters
  ds_stack :: u32

definition empty_runtime :: diagnostics_runtime where
  "empty_runtime =
     (let zero = \<lparr>fc_count = 0, fc_bytes = 0, fc_time_us = 0\<rparr>
      in \<lparr>rt_free_heap_bytes = 0, rt_minimum_free_heap_bytes = 0,
          rt_flash = \<lparr>fl_read = zero, fl_write = zero, fl_erase = zero\<rparr>,
          rt_coredump_present = False, rt_coredump_readable = False,
          rt_coredump_size_bytes = 0, rt_coredump_capacity_bytes = 0\<rparr>)"

definition diagnostics_task_start :: "coredump_report \<Rightarrow> diagnostics_runtime \<times> u32" where
  "diagnostics_task_start cd =
     (let runtime = empty_runtime;
          runtime = (case cd_partition_size cd of
              Some bytes \<Rightarrow> runtime\<lparr>rt_coredump_capacity_bytes := bytes\<rparr> | None \<Rightarrow> runtime);
          (dump_err, dump_size) = cd_image_get cd;
          present = dump_err = ESP_OK \<and> dump_size \<noteq> 0
      in (runtime\<lparr>rt_coredump_present := present,
                   rt_coredump_size_bytes := (if present then dump_size else 0),
                   rt_coredump_readable := present \<and> cd_image_check cd = ESP_OK\<rparr>, 0))"

definition diagnostics_task_cycle ::
    "diagnostics_sample \<Rightarrow> diagnostics_runtime \<times> u32 \<Rightarrow> diagnostics \<Rightarrow> health \<Rightarrow>
     (diagnostics_runtime \<times> u32) \<times> diagnostics \<times> health" where
  "diagnostics_task_cycle smp locals d h =
     (case locals of (runtime, logged_breadcrumb) \<Rightarrow>
        let runtime = runtime\<lparr>rt_free_heap_bytes := ds_free_heap smp,
                rt_minimum_free_heap_bytes := ds_minimum_free_heap smp,
                rt_flash := ds_flash smp\<rparr>;
            h = service_health_set_stack SERVICE_DIAGNOSTICS (ds_stack smp) h;
            h = service_health_set SERVICE_DIAGNOSTICS SERVICE_STATE_READY ESP_OK h;
            logged = (case diagnostics_get_latest_event d of
                Some latest \<Rightarrow> if bc_sequence latest \<noteq> logged_breadcrumb
                                then bc_sequence latest else logged_breadcrumb
              | None \<Rightarrow> logged_breadcrumb)
        in ((runtime, logged), d\<lparr>s_runtime := runtime\<rparr>, h))"

definition diagnostics_start :: "bool \<Rightarrow> diagnostics \<Rightarrow> health \<Rightarrow> esp_err \<times> diagnostics \<times> health" where
  "diagnostics_start task_created d h =
     (if s_diagnostics_task d then (ESP_ERR_INVALID_STATE, d, h)
      else if \<not> task_created then
        (ESP_ERR_NO_MEM, d,
         service_health_set SERVICE_DIAGNOSTICS SERVICE_STATE_FAILED ESP_ERR_NO_MEM h)
      else (ESP_OK, d\<lparr>s_diagnostics_task := True\<rparr>, h))"

definition diagnostics_get_boot_info :: "diagnostics \<Rightarrow> boot_info" where
  "diagnostics_get_boot_info d = s_boot_info d"

definition diagnostics_get_flash_counters :: "diagnostics \<Rightarrow> flash_counters" where
  "diagnostics_get_flash_counters d = rt_flash (s_runtime d)"

definition diagnostics_get_runtime :: "diagnostics \<Rightarrow> diagnostics_runtime" where
  "diagnostics_get_runtime d = s_runtime d"

text \<open>All-zero memory, the state before the first power-on boot.\<close>

definition zero_diagnostics :: diagnostics where
  "zero_diagnostics =
     \<lparr>s_restart_marker = \<lparr>rm_magic = 0, rm_magic_inverse = 0, rm_reason = 0, rm_reason_inverse = 0\<rparr>,
      s_boot_info = \<lparr>bi_reset_reason = 0, bi_reset_reason_name = [], bi_power_related = False,
        bi_planned = False, bi_planned_reason = []\<rparr>,
      s_fan_fault = \<lparr>ff_magic = 0, ff_magic_inverse = 0, ff_error = 0, ff_phase = 0,
        ff_checksum = 0\<rparr>,
      s_breadcrumbs = empty_ring\<lparr>br_magic := 0, br_magic_inverse := 0, br_next_sequence := 0\<rparr>,
      s_runtime = empty_runtime, s_diagnostics_task = False\<rparr>"

section \<open>Frame lemmas\<close>

lemma record_event_frame [simp]:
  "s_fan_fault (diagnostics_record_event ev v x now d) = s_fan_fault d"
  "s_restart_marker (diagnostics_record_event ev v x now d) = s_restart_marker d"
  "s_boot_info (diagnostics_record_event ev v x now d) = s_boot_info d"
  by (simp_all add: diagnostics_record_event_def Let_def split: prod.splits)

lemma latch_fan_fault_frame [simp]:
  "s_restart_marker (diagnostics_latch_fan_fault e p now d) = s_restart_marker d"
  "s_boot_info (diagnostics_latch_fan_fault e p now d) = s_boot_info d"
  by (simp_all add: diagnostics_latch_fan_fault_def)

lemma latch_fan_fault_marker [simp]:
  "s_fan_fault (diagnostics_latch_fan_fault e p now d) =
     \<lparr>ff_magic = FAN_FAULT_MAGIC, ff_magic_inverse = NOT FAN_FAULT_MAGIC, ff_error = e,
      ff_phase = p, ff_checksum = fan_fault_checksum e p\<rparr>"
  by (simp add: diagnostics_latch_fan_fault_def fault_stores_def)

lemma boot_retained_simps [simp]:
  "s_boot_info (boot_retained reason d) = evaluate_boot reason (s_restart_marker d)"
  "s_restart_marker (boot_retained reason d) =
     \<lparr>rm_magic = 0, rm_magic_inverse = 0, rm_reason = 0, rm_reason_inverse = 0\<rparr>"
  "s_fan_fault (boot_retained reason d) = s_fan_fault (boot_fan_fault reason d)"
  "s_breadcrumbs (boot_retained reason d) = s_breadcrumbs (boot_breadcrumbs reason d)"
  unfolding boot_retained_def consume_marker_def boot_breadcrumbs_def boot_fan_fault_def
  by (cases "reason = 1"; cases "breadcrumb_ring_is_valid (s_breadcrumbs d)"; simp)+

lemma init_fan_fault:
  "s_fan_fault (diagnostics_init reason now d) =
     (if reason = ESP_RST_POWERON
      then \<lparr>ff_magic = 0, ff_magic_inverse = 0, ff_error = 0, ff_phase = 0, ff_checksum = 0\<rparr>
      else s_fan_fault d)"
  by (simp add: diagnostics_init_def Let_def boot_fan_fault_def)

lemma init_boot_info [simp]:
  "s_boot_info (diagnostics_init reason now d) = evaluate_boot reason (s_restart_marker d)"
  by (simp add: diagnostics_init_def Let_def)

lemma init_restart_marker [simp]:
  "s_restart_marker (diagnostics_init reason now d) =
     \<lparr>rm_magic = 0, rm_magic_inverse = 0, rm_reason = 0, rm_reason_inverse = 0\<rparr>"
  by (simp add: diagnostics_init_def Let_def)

section \<open>Properties of the fan fault latch\<close>

text \<open>Booting once for each reset reason of a list.\<close>

definition boots :: "(reset_reason \<times> us_time) list \<Rightarrow> diagnostics \<Rightarrow> diagnostics" where
  "boots rs d = fold (\<lambda>(r, now). diagnostics_init r now) rs d"

lemma boots_fan_fault:
  "\<forall>(r, now) \<in> set rs. r \<noteq> ESP_RST_POWERON \<Longrightarrow> s_fan_fault (boots rs d) = s_fan_fault d"
  unfolding boots_def by (induction rs arbitrary: d) (auto simp: init_fan_fault)

text \<open>C39. A latched fan fault survives every reset but a power-on: after the latch, whatever
  resets follow (panic, watchdog, brownout, software), the boot code finds the fault latched
  with exactly the error and phase that were latched; the first power-on boot clears it.\<close>

theorem fan_fault_survives_resets:
  assumes "\<forall>(r, now) \<in> set rs. r \<noteq> ESP_RST_POWERON"
  shows "let d' = boots rs (diagnostics_latch_fan_fault error phase now d) in
    diagnostics_fan_fault_is_latched d' \<and>
    diagnostics_get_fan_fault d' = (error, phase) \<and>
    \<not> diagnostics_fan_fault_is_latched (diagnostics_init ESP_RST_POWERON later d')"
  by (simp add: Let_def diagnostics_fan_fault_is_latched_def diagnostics_get_fan_fault_def
      boots_fan_fault [OF assms] init_fan_fault fan_fault_is_valid_def)

theorem fan_fault_survives_resets_witness:
  "let d' = boots [(4, 10), (ESP_RST_SW, 20), (ESP_RST_BROWNOUT, 30)]
      (diagnostics_latch_fan_fault ESP_FAIL 2 5
        zero_diagnostics) in
    diagnostics_fan_fault_is_latched d' \<and>
    diagnostics_get_fan_fault d' = (ESP_FAIL, 2) \<and>
    \<not> diagnostics_fan_fault_is_latched (diagnostics_init ESP_RST_POWERON 40 d')"
  by (rule fan_fault_survives_resets) simp

lemma fan_fault_checksum_cancel [simp]:
  "fan_fault_checksum e p = fan_fault_checksum e' p \<longleftrightarrow> e = e'"
  "fan_fault_checksum e p = fan_fault_checksum e p' \<longleftrightarrow> p = p'"
  by (auto simp: fan_fault_checksum_def bit_eq_iff bit_xor_iff)

text \<open>The record of a fan fault is safe against resets and corruption: a reset after any
  number of the stores that write it leaves the old record, no valid record, or the complete
  new one; and a valid record in which any single field changes is no longer accepted.\<close>

theorem fan_fault_record_integrity:
  "(let f' = fold id (take n (fault_stores error phase)) f in
      f' = f \<or> \<not> fan_fault_is_valid f' \<or> ff_error f' = error \<and> ff_phase f' = phase) \<and>
   (fan_fault_is_valid g \<longrightarrow>
      (x \<noteq> ff_magic g \<longrightarrow> \<not> fan_fault_is_valid (g\<lparr>ff_magic := x\<rparr>)) \<and>
      (x \<noteq> ff_magic_inverse g \<longrightarrow> \<not> fan_fault_is_valid (g\<lparr>ff_magic_inverse := x\<rparr>)) \<and>
      (x \<noteq> ff_error g \<longrightarrow> \<not> fan_fault_is_valid (g\<lparr>ff_error := x\<rparr>)) \<and>
      (x \<noteq> ff_phase g \<longrightarrow> \<not> fan_fault_is_valid (g\<lparr>ff_phase := x\<rparr>)) \<and>
      (x \<noteq> ff_checksum g \<longrightarrow> \<not> fan_fault_is_valid (g\<lparr>ff_checksum := x\<rparr>)))"
proof
  have "n = 0 \<or> n = 1 \<or> n = 2 \<or> n = 3 \<or> n = 4 \<or> n = 5 \<or> 6 \<le> n" by linarith
  then show "let f' = fold id (take n (fault_stores error phase)) f in
      f' = f \<or> \<not> fan_fault_is_valid f' \<or> ff_error f' = error \<and> ff_phase f' = phase"
    by (elim disjE) (simp_all add: Let_def fault_stores_def fan_fault_is_valid_def)
qed (auto simp: fan_fault_is_valid_def)
theorem fan_fault_record_integrity_witness:
  "(let f' = fold id (take 3 (fault_stores ESP_FAIL 2)) (s_fan_fault zero_diagnostics) in
      f' = s_fan_fault zero_diagnostics \<or> \<not> fan_fault_is_valid f' \<or>
      ff_error f' = ESP_FAIL \<and> ff_phase f' = 2) \<and>
   \<not> fan_fault_is_valid
     (s_fan_fault (diagnostics_latch_fan_fault ESP_FAIL 2 0 zero_diagnostics)\<lparr>ff_error := 7\<rparr>)"
  using fan_fault_record_integrity [of 3 ESP_FAIL 2 "s_fan_fault zero_diagnostics"
      "s_fan_fault (diagnostics_latch_fan_fault ESP_FAIL 2 0 zero_diagnostics)" 7]
  by (simp add: fan_fault_is_valid_def)

section \<open>Properties of the restart marker\<close>

text \<open>A planned restart is reported once and only for a software reset: after marking a
  reason, the next boot reports it as planned exactly when the reset was a software reset,
  with the name of that reason, and the boot after that reports no planned restart.\<close>

theorem planned_restart_reported_once:
  assumes "DIAGNOSTICS_RESTART_NONE < reason" and "reason \<le> DIAGNOSTICS_RESTART_PROVISIONING"
  shows "let d1 = diagnostics_init reset now (diagnostics_mark_planned_restart reason d) in
    (bi_planned (s_boot_info d1) \<longleftrightarrow> reset = ESP_RST_SW) \<and>
    bi_planned_reason (s_boot_info d1) =
      planned_reason_name (if reset = ESP_RST_SW then reason else DIAGNOSTICS_RESTART_NONE) \<and>
    \<not> bi_planned (s_boot_info (diagnostics_init reset' now' d1))"
proof -
  have "reason \<noteq> 0" "\<not> 3 < reason" using assms by (auto simp: not_less)
  then have "marker_is_valid (s_restart_marker (diagnostics_mark_planned_restart reason d)) = Some reason"
    by (simp add: diagnostics_mark_planned_restart_def marker_stores_def marker_is_valid_def)
  moreover have "marker_is_valid (s_restart_marker (diagnostics_init reset now d')) = None" for d'
    by (simp add: marker_is_valid_def)
  ultimately show ?thesis by (simp add: evaluate_boot_def Let_def)
qed

theorem planned_restart_reported_once_witness:
  "let d1 = diagnostics_init ESP_RST_SW 9
        (diagnostics_mark_planned_restart DIAGNOSTICS_RESTART_OTA zero_diagnostics) in
    (bi_planned (s_boot_info d1) \<longleftrightarrow> ESP_RST_SW = (ESP_RST_SW :: u32)) \<and>
    bi_planned_reason (s_boot_info d1) = planned_reason_name
      (if ESP_RST_SW = (ESP_RST_SW :: u32) then DIAGNOSTICS_RESTART_OTA
       else DIAGNOSTICS_RESTART_NONE) \<and>
    \<not> bi_planned (s_boot_info (diagnostics_init ESP_RST_SW 11 d1))"
  by (rule planned_restart_reported_once) simp_all

section \<open>Properties of the breadcrumb ring\<close>

definition committed :: "breadcrumb \<Rightarrow> breadcrumb_slot" where
  "committed v = \<lparr>sl_commit = bc_sequence v, sl_commit_inverse = NOT (bc_sequence v), sl_value = v\<rparr>"

lemma slot_stores_committed [simp]: "fold id (slot_stores v) s = committed v"
  by (simp add: slot_stores_def committed_def)

text \<open>The number the next event will carry, and the event as it is stored.\<close>

definition next_recorded :: "breadcrumb_ring \<Rightarrow> u32" where
  "next_recorded b = (if br_next_sequence b = 0 then 1 else br_next_sequence b)"

definition crumb :: "u32 \<Rightarrow> event \<times> u32 \<times> u32 \<times> us_time \<Rightarrow> breadcrumb" where
  "crumb sequence e =
     (case e of (ev, value, detail, now) \<Rightarrow>
        \<lparr>bc_sequence = sequence, bc_event = ev, bc_uptime_ms = us_to_ms now, bc_value = value,
         bc_detail = detail\<rparr>)"

definition slot_index :: "u32 \<Rightarrow> nat" where
  "slot_index sequence = unat ((sequence - 1) mod 16)"

lemma record_event_ring:
  assumes "breadcrumb_ring_is_valid (s_breadcrumbs d)"
  shows "s_breadcrumbs (diagnostics_record_event ev value detail now d) =
    (let b = s_breadcrumbs d; q = next_recorded b in
     b\<lparr>br_next_sequence := q + 1,
       br_slots := (br_slots b)[slot_index q := committed (crumb q (ev, value, detail, now))]\<rparr>)"
  using assms
  by (cases "br_next_sequence (s_breadcrumbs d) = 0")
    (simp_all add: diagnostics_record_event_def next_recorded_def crumb_def slot_index_def Let_def)

lemma slot_index_less: "slot_index q < 16"
proof -
  have "unat ((q - 1) mod 16) = unat (q - 1) mod 16"
    by (simp add: unat_mod)
  then show ?thesis by (simp add: slot_index_def)
qed

lemma wrapped_le_one:
  fixes q :: u32
  assumes "q \<noteq> 0"
  shows "q + 1 \<le> 1 \<longleftrightarrow> q = 0xffffffff"
proof (cases "unat q = 4294967295")
  case True
  then have "q + 1 \<le> 1" by (simp add: word_le_nat_alt unat_u32_plus)
  moreover have "q = 0xffffffff" using True by (simp add: word_unat_eq_iff)
  ultimately show ?thesis by (intro iffI)
next
  case False
  with unat_u32_less [of q] have "unat q < 4294967295" by linarith
  then have "unat (q + 1) = unat q + 1" by (simp add: unat_u32_plus)
  moreover have "0 < unat q" using assms by (simp add: unat_gt_0)
  ultimately show ?thesis using False by (auto simp: word_le_nat_alt)
qed

text \<open>Reading back the event just recorded gives that event, except after sequence number
  \<open>2 ^ 32 - 1\<close>: the counter has then wrapped to 0 and the reader takes the ring for empty
  until the next event is recorded.\<close>

theorem latest_event_after_record:
  assumes "breadcrumb_ring_is_valid (s_breadcrumbs d)" and "length (br_slots (s_breadcrumbs d)) = 16"
  shows "diagnostics_get_latest_event (diagnostics_record_event ev value detail now d) =
    (if br_next_sequence (s_breadcrumbs d) = UINT32_MAX then None
     else Some (crumb (next_recorded (s_breadcrumbs d)) (ev, value, detail, now)))"
proof -
  let ?b = "s_breadcrumbs d" and ?q = "next_recorded (s_breadcrumbs d)"
  have valid: "breadcrumb_ring_is_valid (?b\<lparr>br_next_sequence := x, br_slots := y\<rparr>)" for x y
    using assms(1) by (simp add: breadcrumb_ring_is_valid_def)
  have nonzero: "?q \<noteq> 0" by (simp add: next_recorded_def)
  have "?q + 1 \<le> 1 \<longleftrightarrow> ?q = UINT32_MAX"
    using nonzero by (rule wrapped_le_one)
  moreover have "?q = UINT32_MAX \<longleftrightarrow> br_next_sequence ?b = UINT32_MAX"
    by (simp add: next_recorded_def)
  ultimately show ?thesis
    using assms slot_index_less [of ?q]
    by (simp add: diagnostics_get_latest_event_def record_event_ring [OF assms(1)] Let_def valid
        slot_index_def committed_def crumb_def)
qed
theorem latest_event_after_record_witness:
  "diagnostics_get_latest_event (diagnostics_record_event DIAGNOSTICS_EVENT_BOOT 1 0 5000
     (zero_diagnostics\<lparr>s_breadcrumbs := empty_ring\<lparr>br_next_sequence := UINT32_MAX\<rparr>\<rparr>)) = None"
  by (subst latest_event_after_record)
    (simp_all add: empty_ring_def breadcrumb_ring_is_valid_def)

text \<open>A history of recorded events, from an empty ring.\<close>

definition record_all ::
    "(event \<times> u32 \<times> u32 \<times> us_time) list \<Rightarrow> diagnostics \<Rightarrow> diagnostics" where
  "record_all es d =
     fold (\<lambda>(ev, value, detail, now). diagnostics_record_event ev value detail now) es d"

lemma record_all_snoc [simp]:
  "record_all (es @ [(ev, value, detail, now)]) d =
     diagnostics_record_event ev value detail now (record_all es d)"
  by (simp add: record_all_def)

definition ring_holds :: "(event \<times> u32 \<times> u32 \<times> us_time) list \<Rightarrow> breadcrumb_ring \<Rightarrow> bool" where
  "ring_holds es b \<longleftrightarrow>
     breadcrumb_ring_is_valid b \<and> length (br_slots b) = 16 \<and>
     br_next_sequence b = of_nat (length es + 1) \<and>
     (\<forall>k < length es. length es \<le> k + 16 \<longrightarrow>
        br_slots b ! (k mod 16) = committed (crumb (of_nat (k + 1)) (es ! k)))"

lemma record_all_ring:
  assumes "s_breadcrumbs d = empty_ring" and "length es < 4294967295"
  shows "ring_holds es (s_breadcrumbs (record_all es d))"
  using assms(2)
proof (induction es rule: rev_induct)
  case Nil
  show ?case
    by (simp add: record_all_def assms(1) ring_holds_def empty_ring_def breadcrumb_ring_is_valid_def)
next
  case (snoc e es)
  obtain ev v detail now where e: "e = (ev, v, detail, now)" by (cases e)
  let ?b = "s_breadcrumbs (record_all es d)" and ?n = "length es"
  have IH: "ring_holds es ?b" using snoc by simp
  have lt: "?n + 1 < 4294967296" using snoc.prems by simp
  then have "unat (of_nat (?n + 1) :: u32) = ?n + 1" by (rule unat_of_nat_u32)
  then have q: "next_recorded ?b = of_nat (?n + 1)"
    using IH unfolding next_recorded_def ring_holds_def
    by (metis Suc_eq_plus1 nat.distinct(1) unat_0)
  have i: "slot_index (1 + of_nat ?n) = ?n mod 16"
    using lt by (simp add: slot_index_def unat_mod unat_of_nat_u32)
  have other: "?n mod 16 \<noteq> k mod 16" if "k < ?n" "?n + 1 \<le> k + 16" for k
  proof
    assume "?n mod 16 = k mod 16"
    then have "16 dvd ?n - k" using that(1) by (metis mod_eq_dvd_iff_nat less_imp_le)
    with that show False by (auto dest: dvd_imp_le)
  qed
  show ?case
    using IH
    by (auto simp: other nth_list_update_neq e record_event_ring ring_holds_def q i Let_def breadcrumb_ring_is_valid_def
        nth_append less_Suc_eq)
qed

text \<open>The ring keeps the last 16 events: from an empty ring, after any number of recorded
  events below \<open>2 ^ 32 - 1\<close>, each of the last 16 is in its slot, committed, complete and with
  its position in the history as sequence number, and the reader returns the last one.\<close>

theorem ring_keeps_last_16:
  assumes "s_breadcrumbs d = empty_ring" and "length es < 2 ^ 32 - 1"
    and "k < length es" and "length es \<le> k + 16"
  shows "br_slots (s_breadcrumbs (record_all es d)) ! (k mod 16) =
      committed (crumb (of_nat (k + 1)) (es ! k)) \<and>
    diagnostics_get_latest_event (record_all es d) =
      Some (crumb (of_nat (length es)) (last es))"
proof -
  have r: "ring_holds es (s_breadcrumbs (record_all es d))"
    using assms(1,2) by (intro record_all_ring) simp_all
  obtain n where n: "length es = n + 1" using assms(3) by (cases es) auto
  then have last: "last es = es ! n" by (subst last_conv_nth) auto
  have "br_slots (s_breadcrumbs (record_all es d)) ! (n mod 16) =
      committed (crumb (of_nat (n + 1)) (last es))"
    using r n by (auto simp: ring_holds_def last)
  moreover have "unat (of_nat (n + 2) :: u32) = n + 2" "unat (of_nat (n + 1) :: u32) = n + 1"
    "unat (of_nat n :: u32) = n"
    using assms(2) n by (intro unat_of_nat_u32; simp)+
  moreover have "\<not> of_nat (n + 2) \<le> (1 :: u32)"
    using calculation(2) by (simp only: word_le_nat_alt) simp
  ultimately show ?thesis
    using r n assms(3,4)
    by (simp add: ring_holds_def diagnostics_get_latest_event_def Let_def committed_def crumb_def
        unat_mod split: prod.splits)
qed
theorem ring_keeps_last_16_witness:
  "let d = zero_diagnostics\<lparr>s_breadcrumbs := empty_ring\<rparr>;
       es = map (\<lambda>n. (DIAGNOSTICS_EVENT_TRANSITION_BEGIN, of_nat n, 0, 1000)) [0..<20] in
   br_slots (s_breadcrumbs (record_all es d)) ! (4 mod 16) =
      committed (crumb (of_nat (4 + 1)) (es ! 4)) \<and>
    diagnostics_get_latest_event (record_all es d) =
      Some (crumb (of_nat (length es)) (last es))"
  unfolding Let_def by (rule ring_keeps_last_16) simp_all

end
