(* ===== verification/TransitionCore.thy ===== *)
theory TransitionCore
  imports Prelude
begin

text \<open>
  \<open>components/fan_transition_core\<close>: one break-before-make transaction over a decoder backend
  given by two function pointers. The backend's contract is a locale: which output is active,
  what each call may do to it, and the history of active outputs that the calls leave. The
  transaction's guarantees are proved once in the locale; \<open>FanSelect\<close> interprets it on the
  74HC238 driver.
\<close>

section \<open>The transaction\<close>

type_synonym phase = u32
abbreviation (input) FAN_TRANSITION_PHASE_NONE :: phase where "FAN_TRANSITION_PHASE_NONE \<equiv> 0"
abbreviation (input) FAN_TRANSITION_PHASE_DISABLE :: phase where "FAN_TRANSITION_PHASE_DISABLE \<equiv> 1"
abbreviation (input) FAN_TRANSITION_PHASE_ADDRESS :: phase where "FAN_TRANSITION_PHASE_ADDRESS \<equiv> 2"
abbreviation (input) FAN_TRANSITION_PHASE_ENABLE :: phase where "FAN_TRANSITION_PHASE_ENABLE \<equiv> 3"

text \<open>Function pointers and the out-pointer for the phase may be \<open>NULL\<close>, hence options.\<close>

record 's fan_transition_backend =
  be_enable :: "(bool \<Rightarrow> 's op) option"
  be_set_address :: "(u8 \<Rightarrow> 's op) option"

definition set_phase :: "phase \<Rightarrow> phase option \<Rightarrow> phase option" where
  "set_phase p phase = map_option (\<lambda>_. p) phase"

definition run_transaction ::
    "bool \<Rightarrow> u8 \<Rightarrow> (bool \<Rightarrow> 's op) \<Rightarrow> (u8 \<Rightarrow> 's op) \<Rightarrow> phase option \<Rightarrow> 's
     \<Rightarrow> esp_err \<times> phase option \<times> 's" where
  "run_transaction turn_off address enable set_address phase s =
     (let phase = set_phase FAN_TRANSITION_PHASE_DISABLE phase;
          (err, s) = enable False s
      in if err \<noteq> ESP_OK then (err, phase, snd (enable False s))
      else if turn_off then (ESP_OK, set_phase FAN_TRANSITION_PHASE_NONE phase, s)
      else
        let phase = set_phase FAN_TRANSITION_PHASE_ADDRESS phase;
            (err, s) = set_address address s
        in if err \<noteq> ESP_OK then (err, phase, snd (enable False s))
        else
          let phase = set_phase FAN_TRANSITION_PHASE_ENABLE phase;
              (err, s) = enable True s
          in if err \<noteq> ESP_OK then (err, phase, snd (enable False s))
          else (ESP_OK, set_phase FAN_TRANSITION_PHASE_NONE phase, s))"

definition fan_transition_execute ::
    "bool \<Rightarrow> u8 \<Rightarrow> 's fan_transition_backend option \<Rightarrow> phase option \<Rightarrow> 's
     \<Rightarrow> esp_err \<times> phase option \<times> 's" where
  "fan_transition_execute turn_off address backend phase s =
     (let phase = set_phase FAN_TRANSITION_PHASE_NONE phase in
      case backend of
        None \<Rightarrow> (ESP_ERR_INVALID_ARG, phase, s)
      | Some b \<Rightarrow>
          (case (be_enable b, be_set_address b) of
             (Some enable, Some set_address) \<Rightarrow>
               if 7 < address then (ESP_ERR_INVALID_ARG, phase, s)
               else run_transaction turn_off address enable set_address phase s
           | _ \<Rightarrow> (ESP_ERR_INVALID_ARG, phase, s)))"

lemma set_phase_Some [simp]: "set_phase p (Some q) = Some p"
  by (simp add: set_phase_def)

section \<open>What may be seen at the outputs\<close>

text \<open>
  A history of active outputs breaks before it makes when two different outputs never
  follow each other directly: between them no output is active.
\<close>

fun break_before_make :: "u8 option \<Rightarrow> u8 option list \<Rightarrow> bool" where
  "break_before_make old [] \<longleftrightarrow> True"
| "break_before_make old (new # outs) \<longleftrightarrow>
     (old = None \<or> new = None \<or> new = old) \<and> break_before_make new outs"

definition final_output :: "u8 option \<Rightarrow> u8 option list \<Rightarrow> u8 option" where
  "final_output old outs = (if outs = [] then old else last outs)"

lemma final_output_simps [simp]:
  "final_output old [] = old" "final_output old (x # xs) = final_output x xs"
  by (auto simp: final_output_def)

lemma final_output_append [simp]:
  "final_output old (xs @ ys) = final_output (final_output old xs) ys"
  by (induction xs arbitrary: old) simp_all

lemma break_before_make_append [simp]:
  "break_before_make old (xs @ ys) \<longleftrightarrow>
     break_before_make old xs \<and> break_before_make (final_output old xs) ys"
  by (induction xs arbitrary: old) auto

lemma break_before_make_two:
  "set outs \<subseteq> {None, old} \<Longrightarrow> break_before_make old outs"
proof -
  have "set outs \<subseteq> {None, x} \<Longrightarrow> old \<in> {None, x} \<Longrightarrow> break_before_make old outs" for x
    by (induction outs arbitrary: old) auto
  then show "set outs \<subseteq> {None, old} \<Longrightarrow> break_before_make old outs" by blast
qed

lemma break_before_make_from_off: "set outs \<subseteq> {None, x} \<Longrightarrow> break_before_make None outs"
proof -
  have "set outs \<subseteq> {None, x} \<Longrightarrow> old \<in> {None, x} \<Longrightarrow> break_before_make old outs" for old
    by (induction outs arbitrary: old) auto
  then show "set outs \<subseteq> {None, x} \<Longrightarrow> break_before_make None outs" by blast
qed

text \<open>The outputs seen between two states: never two in direct succession, and none but the old
  one and those in \<open>X\<close>.\<close>

definition seen_between ::
    "u8 set \<Rightarrow> u8 option \<Rightarrow> u8 option list \<Rightarrow> u8 option \<Rightarrow> bool" where
  "seen_between X old outs new \<longleftrightarrow> break_before_make old outs \<and>
     set outs \<subseteq> {None, old} \<union> Some ` X \<and> final_output old outs = new"

lemma seen_between_trans:
  assumes "seen_between X old outs1 mid" and "seen_between X mid outs2 new"
  shows "seen_between X old (outs1 @ outs2) new"
proof -
  have "mid \<in> {None, old} \<union> Some ` X"
    using assms(1) last_in_set [of outs1]
    by (cases "outs1 = []") (auto simp: seen_between_def final_output_def simp del: not_None_eq)
  then show ?thesis using assms by (auto simp: seen_between_def)
qed

lemma seen_between_keep:
  "set outs \<subseteq> {None, old} \<Longrightarrow> final_output old outs = new \<Longrightarrow> seen_between X old outs new"
  using break_before_make_two [of outs old] by (auto simp: seen_between_def)

lemma seen_between_off:
  "set outs \<subseteq> {None, Some x} \<Longrightarrow> x \<in> X \<Longrightarrow> final_output None outs = new \<Longrightarrow>
     seen_between X None outs new"
  using break_before_make_from_off [of outs "Some x"] by (auto simp: seen_between_def)

lemma final_output_silent: "set outs \<subseteq> {None} \<Longrightarrow> final_output None outs = None"
  by (induction outs) auto

section \<open>The backend's contract\<close>

text \<open>
  \<open>active\<close> is the output that is active in a state (\<open>None\<close> when the decoder is disabled),
  \<open>selected\<close> the address on its inputs, \<open>history\<close> the outputs that were active after each
  pin operation so far.
\<close>

locale decoder_backend =
  fixes enable :: "bool \<Rightarrow> 's op"
    and set_address :: "u8 \<Rightarrow> 's op"
    and inv :: "'s \<Rightarrow> bool"
    and active :: "'s \<Rightarrow> u8 option"
    and selected :: "'s \<Rightarrow> u8"
  assumes inv_enable: "inv s \<Longrightarrow> inv (snd (enable b s))"
    and inv_set_address: "inv s \<Longrightarrow> inv (snd (set_address a s))"
    and disable_off: "inv s \<Longrightarrow> fst (enable False s) = ESP_OK \<Longrightarrow> active (snd (enable False s)) = None"
    and disable_stays: "inv s \<Longrightarrow> active s = None \<Longrightarrow> active (snd (enable False s)) = None"
    and address_stays: "inv s \<Longrightarrow> active s = None \<Longrightarrow> active (snd (set_address a s)) = None"
    and address_selects: "inv s \<Longrightarrow> fst (set_address a s) = ESP_OK \<Longrightarrow>
      selected (snd (set_address a s)) = a"
    and enable_on: "inv s \<Longrightarrow> fst (enable True s) = ESP_OK \<Longrightarrow>
      active (snd (enable True s)) = Some (selected s)"
begin

text \<open>A transaction that reports success leaves the requested output, and no phase.\<close>

lemma execute_ok:
  assumes "inv s"
    and "run_transaction turn_off a enable set_address (Some p) s = (ESP_OK, ph, s')"
  shows "inv s' \<and> active s' = (if turn_off then None else Some a) \<and>
    ph = Some FAN_TRANSITION_PHASE_NONE"
proof -
  obtain s1 where s1: "enable False s = (ESP_OK, s1)"
    using assms(2)
    by (auto simp: run_transaction_def Let_def split: prod.splits if_splits)
  then have i1: "inv s1" "active s1 = None"
    using inv_enable [of s False] disable_off [of s] assms(1) by simp_all
  show ?thesis
  proof (cases turn_off)
    case True
    with assms(2) s1 i1 show ?thesis by (simp add: run_transaction_def)
  next
    case False
    then obtain s2 where s2: "set_address a s1 = (ESP_OK, s2)"
      using assms(2) s1
      by (auto simp: run_transaction_def Let_def split: prod.splits if_splits)
    then have i2: "inv s2" "selected s2 = a"
      using inv_set_address [of s1 a] address_selects [of s1 a] i1 by simp_all
    then have "enable True s2 = (ESP_OK, s')" "ph = Some FAN_TRANSITION_PHASE_NONE"
      using assms(2) s1 s2 False
      by (auto simp: run_transaction_def Let_def split: prod.splits if_splits)
    with i2 False show ?thesis
      using inv_enable [of s2 True] enable_on [of s2] by simp
  qed
qed

text \<open>A failed transaction names the phase that failed and ends with a disable call; when that
  call succeeds, or the decoder was disabled before it, no output is active.\<close>

lemma execute_error:
  assumes "inv s"
    and "run_transaction turn_off a enable set_address (Some p) s = (err, ph, s')"
    and "err \<noteq> ESP_OK"
  shows "\<exists>s1. s' = snd (enable False s1) \<and> inv s1 \<and> inv s' \<and>
    (fst (enable False s1) = ESP_OK \<or> active s1 = None \<longrightarrow> active s' = None) \<and>
    (ph = Some FAN_TRANSITION_PHASE_DISABLE \<and> fst (enable False s) = err \<or>
     ph = Some FAN_TRANSITION_PHASE_ADDRESS \<and> active s1 = None \<or>
     ph = Some FAN_TRANSITION_PHASE_ENABLE)"
proof -
  have last: "s' = snd (enable False s1) \<Longrightarrow> inv s1 \<Longrightarrow>
      s' = snd (enable False s1) \<and> inv s1 \<and> inv s' \<and>
      (fst (enable False s1) = ESP_OK \<or> active s1 = None \<longrightarrow> active s' = None)" for s1
    using inv_enable [of s1 False] disable_off [of s1] disable_stays [of s1] by auto
  obtain e1 s1 where s1: "enable False s = (e1, s1)" by (cases "enable False s")
  then have i1: "inv s1" using inv_enable [of s False] assms(1) by simp
  obtain e2 s2 where s2: "set_address a s1 = (e2, s2)" by (cases "set_address a s1")
  then have i2: "inv s2" using inv_set_address [of s1 a] i1 by simp
  obtain e3 s3 where s3: "enable True s2 = (e3, s3)" by (cases "enable True s2")
  then have i3: "inv s3" using inv_enable [of s2 True] i2 by simp
  have off: "e1 = ESP_OK \<Longrightarrow> active s2 = None"
    using disable_off [of s] address_stays [of s1 a] s1 s2 i1 assms(1) by simp
  show ?thesis
  proof (cases "e1 = ESP_OK")
    case False
    with assms(2) s1 have "s' = snd (enable False s1)" "err = e1"
      "ph = Some FAN_TRANSITION_PHASE_DISABLE"
      by (auto simp: run_transaction_def)
    with last [OF this(1) i1] s1 show ?thesis by (intro exI [of _ s1]) simp
  next
    case e1: True
    show ?thesis
    proof (cases "e2 = ESP_OK")
      case False
      with e1 assms(2,3) s1 s2 have "s' = snd (enable False s2)"
        "ph = Some FAN_TRANSITION_PHASE_ADDRESS"
        by (auto simp: run_transaction_def Let_def split: if_splits)
      with last [OF this(1) i2] off [OF e1] show ?thesis by (intro exI [of _ s2]) simp
    next
      case True
      with e1 assms(2,3) s1 s2 s3 have "s' = snd (enable False s3)"
        "ph = Some FAN_TRANSITION_PHASE_ENABLE"
        by (auto simp: run_transaction_def Let_def split: if_splits)
      with last [OF this(1) i3] show ?thesis by (intro exI [of _ s3]) simp
    qed
  qed
qed

lemma execute_inv:
  assumes "inv s" and "run_transaction turn_off a enable set_address (Some p) s = (err, ph, s')"
  shows "inv s'"
  using execute_ok [OF assms(1), of turn_off a p ph s'] execute_error [OF assms] assms(2)
  by (cases "err = ESP_OK") auto

end

section \<open>Histories\<close>

text \<open>
  A backend whose pin operations are observed: each call extends the history, a disable only
  by the output that was active or none, an address change while disabled by nothing active,
  an enable by none or the selected output.
\<close>

locale observed_backend = decoder_backend +
  fixes history :: "'a \<Rightarrow> u8 option list"
  assumes disable_history: "inv s \<Longrightarrow> \<exists>outs. history (snd (enable False s)) = history s @ outs \<and>
      set outs \<subseteq> {None, active s} \<and> final_output (active s) outs = active (snd (enable False s))"
    and address_history: "inv s \<Longrightarrow> active s = None \<Longrightarrow>
      \<exists>outs. history (snd (set_address a s)) = history s @ outs \<and> set outs \<subseteq> {None}"
    and enable_history: "inv s \<Longrightarrow> active s = None \<Longrightarrow>
      \<exists>outs. history (snd (enable True s)) = history s @ outs \<and>
        set outs \<subseteq> {None, Some (selected s)} \<and>
        final_output None outs = active (snd (enable True s))"
begin

lemma disable_seen:
  assumes "inv s"
  shows "\<exists>outs. history (snd (enable False s)) = history s @ outs \<and>
    seen_between X (active s) outs (active (snd (enable False s)))"
  using disable_history [OF assms] by (blast intro: seen_between_keep)

lemma address_seen:
  assumes "inv s" and "active s = None"
  shows "\<exists>outs. history (snd (set_address a s)) = history s @ outs \<and>
    seen_between X None outs None"
proof -
  obtain outs where "history (snd (set_address a s)) = history s @ outs" "set outs \<subseteq> {None}"
    using address_history [OF assms] by blast
  then show ?thesis using seen_between_keep [of outs None None X] final_output_silent by auto
qed

lemma enable_seen:
  assumes "inv s" and "active s = None" and "selected s \<in> X"
  shows "\<exists>outs. history (snd (enable True s)) = history s @ outs \<and>
    seen_between X None outs (active (snd (enable True s)))"
  using enable_history [OF assms(1,2)] assms(3) by (blast intro: seen_between_off)

lemma seen_then:
  assumes "\<exists>outs. history s2 = history s1 @ outs \<and> seen_between X (active s1) outs (active s2)"
    and "\<exists>outs. history s3 = history s2 @ outs \<and> seen_between X (active s2) outs (active s3)"
  shows "\<exists>outs. history s3 = history s1 @ outs \<and> seen_between X (active s1) outs (active s3)"
proof -
  obtain outs1 outs2 where "history s3 = history s1 @ (outs1 @ outs2)"
    "seen_between X (active s1) outs1 (active s2)" "seen_between X (active s2) outs2 (active s3)"
    using assms by force
  with seen_between_trans show ?thesis by blast
qed

text \<open>Whatever fails, a transaction never switches one output directly to another, and no
  output is ever active other than the old one and the requested one.\<close>

lemma execute_break_before_make:
  assumes "inv s" and "run_transaction turn_off a enable set_address (Some p) s = (err, ph, s')"
  shows "\<exists>outs. history s' = history s @ outs \<and>
    seen_between (if turn_off then {} else {a}) (active s) outs (active s')"
proof -
  let ?X = "if turn_off then {} else {a}"
  let ?P = "\<lambda>s s'. \<exists>outs. history s' = history s @ outs \<and>
    seen_between ?X (active s) outs (active s')"
  have off: "inv s \<Longrightarrow> ?P s (snd (enable False s))" for s by (rule disable_seen)
  obtain e1 s1 where s1: "enable False s = (e1, s1)" by (cases "enable False s")
  obtain e2 s2 where s2: "set_address a s1 = (e2, s2)" by (cases "set_address a s1")
  obtain e3 s3 where s3: "enable True s2 = (e3, s3)" by (cases "enable True s2")
  have i1: "inv s1" using inv_enable [of s False] assms(1) s1 by simp
  have i2: "inv s2" using inv_set_address [of s1 a] i1 s2 by simp
  have i3: "inv s3" using inv_enable [of s2 True] i2 s3 by simp
  have p1: "?P s s1" using off [OF assms(1)] s1 by simp
  have p2: "?P s1 s2" and a2: "active s2 = None" if "e1 = ESP_OK"
  proof -
    have "active s1 = None" using disable_off [of s] assms(1) s1 that by simp
    then show "?P s1 s2" "active s2 = None"
      using address_seen [OF i1, of a ?X] address_stays [OF i1, of a] s2 by simp_all
  qed
  have p3: "?P s2 s3" if "e1 = ESP_OK" "e2 = ESP_OK" "\<not> turn_off"
    using enable_seen [OF i2 a2, of ?X] address_selects [OF i1, of a] a2 s2 s3 that by simp
  consider "e1 \<noteq> ESP_OK" "s' = snd (enable False s1)"
    | "e1 = ESP_OK" "turn_off" "s' = s1"
    | "e1 = ESP_OK" "\<not> turn_off" "e2 \<noteq> ESP_OK" "s' = snd (enable False s2)"
    | "e1 = ESP_OK" "\<not> turn_off" "e2 = ESP_OK" "s' = s3 \<or> s' = snd (enable False s3)"
    using assms(2) s1 s2 s3 by (auto simp: run_transaction_def Let_def split: if_splits)
  then show ?thesis
  proof cases
    case 1
    with seen_then [OF p1 off [OF i1]] show ?thesis by simp
  next
    case 2
    with p1 show ?thesis by simp
  next
    case 3
    with seen_then [OF seen_then [OF p1 p2] off [OF i2]] show ?thesis by simp
  next
    case 4
    note made = seen_then [OF seen_then [OF p1 p2] p3]
    from 4 made seen_then [OF made off [OF i3]] show ?thesis by auto
  qed
qed

lemma disable_only:
  assumes "inv s" shows "active (snd (enable False s)) \<in> {None, active s}"
proof -
  obtain outs where "set outs \<subseteq> {None, active s}"
    "final_output (active s) outs = active (snd (enable False s))"
    using disable_history [OF assms] by blast
  then show ?thesis using last_in_set [of outs] by (cases "outs = []") (auto simp: final_output_def)
qed

lemma enable_only:
  assumes "inv s" and "active s = None"
  shows "active (snd (enable True s)) \<in> {None, Some (selected s)}"
proof -
  obtain outs where "set outs \<subseteq> {None, Some (selected s)}"
    "final_output None outs = active (snd (enable True s))"
    using enable_history [OF assms] by blast
  then show ?thesis using last_in_set [of outs] by (cases "outs = []") (auto simp: final_output_def)
qed

text \<open>What a failed transaction can leave active, by the phase it reports.\<close>

lemma execute_error_output:
  assumes "inv s" and run: "run_transaction turn_off a enable set_address (Some p) s = (err, ph, s')"
    and "err \<noteq> ESP_OK"
  shows "ph = Some FAN_TRANSITION_PHASE_DISABLE \<and> active s' \<in> {None, active s} \<or>
    ph = Some FAN_TRANSITION_PHASE_ADDRESS \<and> active s' = None \<or>
    ph = Some FAN_TRANSITION_PHASE_ENABLE \<and> \<not> turn_off \<and> active s' \<in> {None, Some a}"
proof -
  obtain e1 s1 where s1: "enable False s = (e1, s1)" by (cases "enable False s")
  obtain e2 s2 where s2: "set_address a s1 = (e2, s2)" by (cases "set_address a s1")
  obtain e3 s3 where s3: "enable True s2 = (e3, s3)" by (cases "enable True s2")
  have i1: "inv s1" using inv_enable [OF assms(1), of False] s1 by simp
  have i2: "inv s2" using inv_set_address [OF i1, of a] s2 by simp
  have i3: "inv s3" using inv_enable [OF i2, of True] s3 by simp
  consider "e1 \<noteq> ESP_OK" "ph = Some FAN_TRANSITION_PHASE_DISABLE" "s' = snd (enable False s1)"
    | "e1 = ESP_OK" "ph = Some FAN_TRANSITION_PHASE_ADDRESS" "s' = snd (enable False s2)"
    | "e1 = ESP_OK" "\<not> turn_off" "e2 = ESP_OK" "ph = Some FAN_TRANSITION_PHASE_ENABLE"
      "s' = snd (enable False s3)"
    using run assms(3) s1 s2 s3 by (auto simp: run_transaction_def Let_def split: if_splits)
  then show ?thesis
  proof cases
    case 1
    with disable_only [OF assms(1)] disable_only [OF i1] s1 show ?thesis by auto
  next
    case 2
    then have "active s1 = None" using disable_off [OF assms(1)] s1 by simp
    then have "active s2 = None" using address_stays [OF i1, of a] s2 by simp
    with 2 disable_stays [OF i2] show ?thesis by simp
  next
    case 3
    then have "active s1 = None" using disable_off [OF assms(1)] s1 by simp
    then have "active s2 = None" using address_stays [OF i1, of a] s2 by simp
    then have "active s3 \<in> {None, Some a}"
      using enable_only [OF i2] address_selects [OF i1, of a] s2 s3 3(3) by simp
    with 3 disable_only [OF i3] show ?thesis by auto
  qed
qed

end

end
