(* ===== verification/Hc238.thy ===== *)
theory Hc238
  imports Prelude TransitionCore
begin

text \<open>
  \<open>components/hc238\<close>: the driver of the 74HC238 decoder that switches the fan's windings,
  and a model of the decoder itself. The driver reaches the hardware only through the GPIO
  driver of ESP-IDF, a parameter \<open>drv\<close> that says whether a call succeeds and may depend on
  every call before it. The state keeps the log of these calls; the pads, and from them the
  active decoder output, are a replay of the log.
\<close>

section \<open>GPIO calls\<close>

datatype gpio_call = Set_Level gpio u32 | Set_Output gpio

type_synonym gpio_log = "(gpio_call \<times> esp_err) list"
type_synonym gpio_driver = "gpio_log \<Rightarrow> gpio_call \<Rightarrow> esp_err"

record hc238_config =
  A0_GPIO :: gpio
  A1_GPIO :: gpio
  A2_GPIO :: gpio
  E1_GPIO :: gpio
  E2_GPIO :: gpio
  E3_GPIO :: gpio
  A0_FIXED :: int
  A1_FIXED :: int
  A2_FIXED :: int
  E1_FIXED :: int
  E2_FIXED :: int
  E3_FIXED :: int

record hc238_state =
  g_cfg :: hc238_config
  g_initialized :: bool
  g_log :: gpio_log

definition gpio_do :: "gpio_driver \<Rightarrow> gpio_call \<Rightarrow> hc238_state op" where
  "gpio_do drv c s = (let e = drv (g_log s) c in (e, s\<lparr>g_log := g_log s @ [(c, e)]\<rparr>))"

abbreviation gpio_set_level :: "gpio_driver \<Rightarrow> gpio \<Rightarrow> u32 \<Rightarrow> hc238_state op" where
  "gpio_set_level drv p l \<equiv> gpio_do drv (Set_Level p l)"

abbreviation gpio_set_direction_output :: "gpio_driver \<Rightarrow> gpio \<Rightarrow> hc238_state op" where
  "gpio_set_direction_output drv p \<equiv> gpio_do drv (Set_Output p)"

section \<open>Configuration checks\<close>

definition fixed_level_is_valid :: "int \<Rightarrow> bool" where
  "fixed_level_is_valid fixed_level \<longleftrightarrow> -1 \<le> fixed_level \<and> fixed_level \<le> 1"

definition validate_pin :: "(gpio \<Rightarrow> bool) \<Rightarrow> gpio \<Rightarrow> int \<Rightarrow> esp_err" where
  "validate_pin valid_output gpio fixed_level =
     (if \<not> fixed_level_is_valid fixed_level then ESP_ERR_INVALID_ARG
      else if fixed_level < 0 \<and> \<not> valid_output gpio then ESP_ERR_INVALID_ARG
      else ESP_OK)"

fun first_error :: "esp_err list \<Rightarrow> esp_err" where
  "first_error [] = ESP_OK"
| "first_error (e # es) = (if e \<noteq> ESP_OK then e else first_error es)"

definition return_on_false :: "bool \<Rightarrow> esp_err \<Rightarrow> esp_err" where
  "return_on_false b e = (if b then ESP_OK else e)"

text \<open>The double loop over the six inputs: two controlled inputs share a pin.\<close>

fun pin_shared :: "(gpio \<times> int) list \<Rightarrow> bool" where
  "pin_shared [] \<longleftrightarrow> False"
| "pin_shared ((gpio, fixed_level) # ps) \<longleftrightarrow>
     (\<not> 0 \<le> fixed_level \<and> list_ex (\<lambda>(g, f). \<not> (0 \<le> f \<or> gpio \<noteq> g)) ps) \<or> pin_shared ps"

definition validate_config :: "(gpio \<Rightarrow> bool) \<Rightarrow> hc238_config option \<Rightarrow> esp_err" where
  "validate_config valid_output cfg =
     (case cfg of
        None \<Rightarrow> ESP_ERR_INVALID_ARG
      | Some c \<Rightarrow> first_error
          [validate_pin valid_output (A0_GPIO c) (A0_FIXED c),
           validate_pin valid_output (A1_GPIO c) (A1_FIXED c),
           validate_pin valid_output (A2_GPIO c) (A2_FIXED c),
           validate_pin valid_output (E1_GPIO c) (E1_FIXED c),
           validate_pin valid_output (E2_GPIO c) (E2_FIXED c),
           validate_pin valid_output (E3_GPIO c) (E3_FIXED c),
           return_on_false (E1_FIXED c < 0 \<or> E1_FIXED c = 0) ESP_ERR_INVALID_ARG,
           return_on_false (E2_FIXED c < 0 \<or> E2_FIXED c = 0) ESP_ERR_INVALID_ARG,
           return_on_false (E3_FIXED c < 0 \<or> E3_FIXED c = 1) ESP_ERR_INVALID_ARG,
           return_on_false (E1_FIXED c < 0 \<or> E2_FIXED c < 0 \<or> E3_FIXED c < 0)
             ESP_ERR_INVALID_ARG,
           return_on_false
             (\<not> pin_shared (zip [A0_GPIO c, A1_GPIO c, A2_GPIO c, E1_GPIO c, E2_GPIO c, E3_GPIO c]
                              [A0_FIXED c, A1_FIXED c, A2_FIXED c, E1_FIXED c, E2_FIXED c, E3_FIXED c]))
             ESP_ERR_INVALID_ARG])"

section \<open>Operations\<close>

definition configure_output :: "gpio_driver \<Rightarrow> gpio \<Rightarrow> u32 \<Rightarrow> hc238_state op" where
  "configure_output drv gpio initial_level =
     return_on_errors [gpio_set_level drv gpio initial_level, gpio_set_direction_output drv gpio]"

definition set_enable_levels :: "gpio_driver \<Rightarrow> hc238_config \<Rightarrow> bool \<Rightarrow> hc238_state op" where
  "set_enable_levels drv cfg enabled =
     return_on_errors
       [when_op (\<not> enabled \<and> E3_FIXED cfg < 0) (gpio_set_level drv (E3_GPIO cfg) 0),
        when_op (E1_FIXED cfg < 0) (gpio_set_level drv (E1_GPIO cfg) (if enabled then 0 else 1)),
        when_op (E2_FIXED cfg < 0) (gpio_set_level drv (E2_GPIO cfg) (if enabled then 0 else 1)),
        when_op (enabled \<and> E3_FIXED cfg < 0) (gpio_set_level drv (E3_GPIO cfg) 1)]"

definition configure_pins :: "gpio_driver \<Rightarrow> hc238_config \<Rightarrow> hc238_state op" where
  "configure_pins drv cfg =
     return_on_errors
       [when_op (E3_FIXED cfg < 0) (configure_output drv (E3_GPIO cfg) 0),
        when_op (E1_FIXED cfg < 0) (configure_output drv (E1_GPIO cfg) 1),
        when_op (E2_FIXED cfg < 0) (configure_output drv (E2_GPIO cfg) 1),
        when_op (A0_FIXED cfg < 0) (configure_output drv (A0_GPIO cfg) 0),
        when_op (A1_FIXED cfg < 0) (configure_output drv (A1_GPIO cfg) 0),
        when_op (A2_FIXED cfg < 0) (configure_output drv (A2_GPIO cfg) 0)]"

definition hc238_init ::
    "(gpio \<Rightarrow> bool) \<Rightarrow> gpio_driver \<Rightarrow> hc238_config option \<Rightarrow> hc238_state op" where
  "hc238_init valid_output drv cfg s =
     (let s = s\<lparr>g_initialized := False\<rparr>;
          err = validate_config valid_output cfg
      in if err \<noteq> ESP_OK then (err, s)
      else case cfg of
        None \<Rightarrow> (ESP_ERR_INVALID_ARG, s)
      | Some c \<Rightarrow>
          (case configure_pins drv c s of (err, s) \<Rightarrow>
             if err \<noteq> ESP_OK then (err, s)
             else (ESP_OK, s\<lparr>g_cfg := c, g_initialized := True\<rparr>)))"

definition hc238_enable :: "gpio_driver \<Rightarrow> bool \<Rightarrow> hc238_state op" where
  "hc238_enable drv en s =
     (if \<not> g_initialized s then (ESP_ERR_INVALID_STATE, s)
      else set_enable_levels drv (g_cfg s) en s)"

definition address_bit :: "u8 \<Rightarrow> nat \<Rightarrow> u32" where
  "address_bit index n = ucast (drop_bit n index AND 1)"

definition hc238_set_address :: "gpio_driver \<Rightarrow> u8 \<Rightarrow> hc238_state op" where
  "hc238_set_address drv index s =
     (let bit0 = address_bit index 0; bit1 = address_bit index 1; bit2 = address_bit index 2;
          c = g_cfg s
      in if \<not> g_initialized s then (ESP_ERR_INVALID_STATE, s)
      else if \<not> index \<le> 7 then (ESP_ERR_INVALID_ARG, s)
      else if \<not> (A0_FIXED c < 0 \<or> A0_FIXED c = uint bit0) then (ESP_ERR_INVALID_STATE, s)
      else if \<not> (A1_FIXED c < 0 \<or> A1_FIXED c = uint bit1) then (ESP_ERR_INVALID_STATE, s)
      else if \<not> (A2_FIXED c < 0 \<or> A2_FIXED c = uint bit2) then (ESP_ERR_INVALID_STATE, s)
      else return_on_errors
        [when_op (A0_FIXED c < 0) (gpio_set_level drv (A0_GPIO c) bit0),
         when_op (A1_FIXED c < 0) (gpio_set_level drv (A1_GPIO c) bit1),
         when_op (A2_FIXED c < 0) (gpio_set_level drv (A2_GPIO c) bit2)] s)"

section \<open>The pads and the decoder\<close>

text \<open>
  A successful level call sets the pad's latch, a successful direction call connects the
  latch to the pin, a failed call changes nothing. A pin that is not driven reads low: R16,
  R17 and R18 pull the decoder's inputs down.
\<close>

record pad =
  pad_latch :: bool
  pad_driven :: bool

type_synonym pads = "gpio \<Rightarrow> pad"

fun pad_call :: "pads \<Rightarrow> gpio_call \<Rightarrow> pads" where
  "pad_call ps (Set_Level p l) = ps(p := (ps p)\<lparr>pad_latch := l \<noteq> 0\<rparr>)"
| "pad_call ps (Set_Output p) = ps(p := (ps p)\<lparr>pad_driven := True\<rparr>)"

fun pad_step :: "pads \<Rightarrow> gpio_call \<times> esp_err \<Rightarrow> pads" where
  "pad_step ps (c, e) = (if e = ESP_OK then pad_call ps c else ps)"

definition pads_after :: "pads \<Rightarrow> gpio_log \<Rightarrow> pads" where
  "pads_after p0 log = foldl pad_step p0 log"

definition pin_high :: "pads \<Rightarrow> gpio \<Rightarrow> bool" where
  "pin_high ps p \<longleftrightarrow> pad_driven (ps p) \<and> pad_latch (ps p)"

text \<open>An input of the decoder: hard-wired when \<open>FIXED\<close>, else the level of its pin.\<close>

definition input_high :: "pads \<Rightarrow> gpio \<Rightarrow> int \<Rightarrow> bool" where
  "input_high ps gpio fixed_level = (if fixed_level < 0 then pin_high ps gpio else fixed_level = 1)"

definition decoder_enabled :: "hc238_config \<Rightarrow> pads \<Rightarrow> bool" where
  "decoder_enabled c ps \<longleftrightarrow> \<not> input_high ps (E1_GPIO c) (E1_FIXED c) \<and>
     \<not> input_high ps (E2_GPIO c) (E2_FIXED c) \<and> input_high ps (E3_GPIO c) (E3_FIXED c)"

definition decoder_address :: "hc238_config \<Rightarrow> pads \<Rightarrow> u8" where
  "decoder_address c ps =
     of_bool (input_high ps (A0_GPIO c) (A0_FIXED c)) +
     2 * of_bool (input_high ps (A1_GPIO c) (A1_FIXED c)) +
     4 * of_bool (input_high ps (A2_GPIO c) (A2_FIXED c))"

definition active_output :: "hc238_config \<Rightarrow> pads \<Rightarrow> u8 option" where
  "active_output c ps = (if decoder_enabled c ps then Some (decoder_address c ps) else None)"

text \<open>The outputs active after each call of a log.\<close>

fun outputs_seen :: "hc238_config \<Rightarrow> pads \<Rightarrow> gpio_log \<Rightarrow> u8 option list" where
  "outputs_seen c ps [] = []"
| "outputs_seen c ps (e # log) =
     active_output c (pad_step ps e) # outputs_seen c (pad_step ps e) log"

lemma pads_after_simps [simp]:
  "pads_after p0 [] = p0"
  "pads_after p0 (log @ log') = pads_after (pads_after p0 log) log'"
  "pads_after p0 (e # log) = pads_after (pad_step p0 e) log"
  by (simp_all add: pads_after_def)

lemma outputs_seen_append [simp]:
  "outputs_seen c ps (log @ log') =
     outputs_seen c ps log @ outputs_seen c (pads_after ps log) log'"
  by (induction log arbitrary: ps) simp_all

lemma final_output_seen [simp]:
  "final_output (active_output c ps) (outputs_seen c ps log) = active_output c (pads_after ps log)"
  by (induction log arbitrary: ps) simp_all

section \<open>A run of level writes\<close>

text \<open>
  Between two states of the pads, pins stay driven and each pin keeps its level or takes one
  of the levels \<open>W\<close> that the operation writes. Every intermediate state of a run of writes
  is such a successor of the first.
\<close>

definition moved :: "(gpio \<times> bool) set \<Rightarrow> pads \<Rightarrow> pads \<Rightarrow> bool" where
  "moved W a b \<longleftrightarrow> (\<forall>p. pad_driven (a p) \<longrightarrow> pad_driven (b p)) \<and>
     (\<forall>p. pin_high b p = pin_high a p \<or> (p, pin_high b p) \<in> W)"

lemma moved_refl [simp]: "moved W a a"
  by (simp add: moved_def)

lemma moved_trans: "moved W a b \<Longrightarrow> moved W b c \<Longrightarrow> moved W a c"
proof -
  assume ab: "moved W a b" and bc: "moved W b c"
  have "pin_high c p = pin_high a p \<or> (p, pin_high c p) \<in> W" for p
  proof (cases "pin_high c p = pin_high b p")
    case True
    then show ?thesis using ab by (simp add: moved_def)
  next
    case False
    then show ?thesis using bc by (auto simp: moved_def)
  qed
  with ab bc show "moved W a c" by (simp add: moved_def)
qed

lemma moved_mono: "moved V a b \<Longrightarrow> V \<subseteq> W \<Longrightarrow> moved W a b"
  by (auto simp: moved_def)

lemma pin_high_step:
  "pin_high (pad_step ps (Set_Level p l, e)) q =
     (if e = ESP_OK \<and> q = p then pad_driven (ps p) \<and> l \<noteq> 0 else pin_high ps q)"
  by (simp add: pin_high_def)

lemma pad_driven_step:
  "pad_driven (pad_step ps (Set_Level p l, e) q) = pad_driven (ps q)"
  by simp

lemma moved_step:
  assumes "(p, l \<noteq> 0) \<in> W" and "pad_driven (ps p)"
  shows "moved W ps (pad_step ps (Set_Level p l, e))"
  using assms by (auto simp: moved_def pin_high_step pad_driven_step simp del: pad_step.simps)

text \<open>A conditional write: the \<open>FIXED\<close> level of the line, its pin, the level to write.\<close>

type_synonym pin_write = "bool \<times> gpio \<times> u32"

definition do_write :: "gpio_driver \<Rightarrow> pin_write \<Rightarrow> hc238_state op" where
  "do_write drv w = (case w of (c, p, l) \<Rightarrow> when_op c (gpio_set_level drv p l))"

definition written :: "pin_write list \<Rightarrow> (gpio \<times> bool) set" where
  "written ws = {(p, l \<noteq> 0) | p l. (True, p, l) \<in> set ws}"

definition pads_of :: "pads \<Rightarrow> hc238_state \<Rightarrow> pads" where
  "pads_of p0 s = pads_after p0 (g_log s)"

definition all_driven :: "pin_write list \<Rightarrow> pads \<Rightarrow> bool" where
  "all_driven ws ps \<longleftrightarrow> (\<forall>(c, p, l) \<in> set ws. c \<longrightarrow> pad_driven (ps p))"

text \<open>What a run leaves: its writes in the log, each intermediate state a successor, the
  driver's own variables untouched.\<close>

definition ran :: "(gpio \<times> bool) set \<Rightarrow> pads \<Rightarrow> hc238_state \<Rightarrow> hc238_state \<Rightarrow> bool" where
  "ran W p0 s s' \<longleftrightarrow> g_cfg s' = g_cfg s \<and> g_initialized s' = g_initialized s \<and>
     moved W (pads_of p0 s) (pads_of p0 s') \<and>
     (\<exists>log. g_log s' = g_log s @ log \<and>
        (\<forall>c. set (outputs_seen c (pads_of p0 s) log) \<subseteq>
           {active_output c ps | ps. moved W (pads_of p0 s) ps}))"

lemma ran_refl [simp]: "ran W p0 s s"
  by (simp add: ran_def)

lemma ran_trans:
  assumes "ran W p0 s1 s2" and "ran W p0 s2 s3"
  shows "ran W p0 s1 s3"
proof -
  obtain log1 log2 where logs: "g_log s2 = g_log s1 @ log1" "g_log s3 = g_log s2 @ log2"
    "\<And>c. set (outputs_seen c (pads_of p0 s1) log1) \<subseteq>
       {active_output c ps | ps. moved W (pads_of p0 s1) ps}"
    "\<And>c. set (outputs_seen c (pads_of p0 s2) log2) \<subseteq>
       {active_output c ps | ps. moved W (pads_of p0 s2) ps}"
    using assms unfolding ran_def by blast
  have m: "moved W (pads_of p0 s1) (pads_of p0 s2)" "moved W (pads_of p0 s2) (pads_of p0 s3)"
    using assms by (simp_all add: ran_def)
  have p: "pads_after (pads_of p0 s1) log1 = pads_of p0 s2"
    using logs(1) by (simp add: pads_of_def)
  have "set (outputs_seen c (pads_of p0 s2) log2) \<subseteq>
       {active_output c ps | ps. moved W (pads_of p0 s1) ps}" for c
    using logs(4) [of c] moved_trans [OF m(1)] by blast
  with logs p have "set (outputs_seen c (pads_of p0 s1) (log1 @ log2)) \<subseteq>
       {active_output c ps | ps. moved W (pads_of p0 s1) ps}" for c
    by simp
  with assms logs(1,2) moved_trans [OF m] show ?thesis
    unfolding ran_def by (intro conjI exI [of _ "log1 @ log2"]) simp_all
qed

lemma ran_level:
  assumes "(p, l \<noteq> 0) \<in> W" and "pad_driven (pads_of p0 s p)"
  shows "ran W p0 s (snd (gpio_set_level drv p l s))"
proof -
  let ?e = "drv (g_log s) (Set_Level p l)"
  have "moved W (pads_of p0 s) (pad_step (pads_of p0 s) (Set_Level p l, ?e))"
    by (intro moved_step assms)
  then show ?thesis
    by (auto simp: ran_def gpio_do_def Let_def pads_of_def simp del: pad_step.simps)
qed

lemma ran_driven: "ran W p0 s s' \<Longrightarrow> all_driven ws (pads_of p0 s) \<Longrightarrow> all_driven ws (pads_of p0 s')"
  by (auto simp: ran_def moved_def all_driven_def)

lemma ran_write:
  assumes "all_driven (w # ws) (pads_of p0 s)" and "written (w # ws) \<subseteq> W"
  shows "ran W p0 s (snd (do_write drv w s))"
proof -
  obtain c p l where w: "w = (c, p, l)" by (cases w)
  show ?thesis
  proof (cases c)
    case True
    then have "(p, l \<noteq> 0) \<in> W" "pad_driven (pads_of p0 s p)"
      using assms w by (auto simp: written_def all_driven_def)
    with True w show ?thesis by (simp add: do_write_def ran_level)
  qed (simp add: w do_write_def)
qed

lemma ran_writes:
  assumes "all_driven ws (pads_of p0 s)" and "written ws \<subseteq> W"
  shows "ran W p0 s (snd (return_on_errors (map (do_write drv) ws) s))"
  using assms
proof (induction ws arbitrary: s)
  case (Cons w ws)
  obtain e s1 where s1: "do_write drv w s = (e, s1)" by (cases "do_write drv w s")
  have r: "ran W p0 s s1" using ran_write [OF Cons.prems, of drv] s1 by simp
  have "all_driven ws (pads_of p0 s)" using Cons.prems(1) by (simp add: all_driven_def)
  then have "all_driven ws (pads_of p0 s1)" by (rule ran_driven [OF r])
  moreover have "written ws \<subseteq> W" using Cons.prems(2) by (auto simp: written_def)
  ultimately have "ran W p0 s1 (snd (return_on_errors (map (do_write drv) ws) s1))"
    by (rule Cons.IH)
  with r have "ran W p0 s (snd (return_on_errors (map (do_write drv) ws) s1))"
    by (rule ran_trans)
  with r s1 show ?case by simp
qed simp

text \<open>A run that reports success has written every level.\<close>

lemma writes_ok:
  assumes "all_driven ws (pads_of p0 s)"
    and "return_on_errors (map (do_write drv) ws) s = (ESP_OK, s')"
    and "\<And>q b b'. (q, b) \<in> written ws \<Longrightarrow> (q, b') \<in> written ws \<Longrightarrow> b = b'"
    and "(q, b) \<in> written ws"
  shows "pin_high (pads_of p0 s') q = b"
  using assms
proof (induction ws arbitrary: s)
  case (Cons w ws)
  obtain c p l where w: "w = (c, p, l)" by (cases w)
  obtain s1 where s1: "do_write drv w s = (ESP_OK, s1)"
    and rest: "return_on_errors (map (do_write drv) ws) s1 = (ESP_OK, s')"
    using Cons.prems(2) by (auto split: prod.splits if_splits)
  have "ran (written (w # ws)) p0 s s1" using ran_write [OF Cons.prems(1) order_refl, of drv] s1 by simp
  moreover have "all_driven ws (pads_of p0 s)" using Cons.prems(1) by (simp add: all_driven_def)
  ultimately have driven: "all_driven ws (pads_of p0 s1)" by (rule ran_driven)
  have r: "moved (written ws) (pads_of p0 s1) (pads_of p0 s')"
    using ran_writes [OF driven order_refl, of drv] rest by (simp add: ran_def)
  have sub: "(q, b) \<in> written ws \<Longrightarrow> (q, b) \<in> written (w # ws)" for q b
    by (auto simp: written_def)
  have fn: "b = b'" if "(q, b) \<in> written ws" "(q, b') \<in> written ws" for q b b'
    by (rule Cons.prems(3) [OF sub sub]) (fact that)+
  show ?case
  proof (cases "(q, b) \<in> written ws")
    case True
    show ?thesis
      by (rule Cons.IH [OF driven rest fn True])
  next
    case False
    then have qb: "c" "q = p" "b = (l \<noteq> 0)" using Cons.prems(4) w by (auto simp: written_def)
    have "pin_high (pads_of p0 s1) q = b"
      using s1 qb Cons.prems(1) w
      by (auto simp: do_write_def gpio_do_def Let_def pads_of_def pin_high_step all_driven_def
          simp del: pad_step.simps)
    with r Cons.prems(3,4) sub show ?thesis unfolding moved_def by blast
  qed
qed (simp add: written_def)

section \<open>The driver's operations as runs of writes\<close>

definition enable_writes :: "hc238_config \<Rightarrow> bool \<Rightarrow> pin_write list" where
  "enable_writes c en =
     [(\<not> en \<and> E3_FIXED c < 0, E3_GPIO c, 0),
      (E1_FIXED c < 0, E1_GPIO c, if en then 0 else 1),
      (E2_FIXED c < 0, E2_GPIO c, if en then 0 else 1),
      (en \<and> E3_FIXED c < 0, E3_GPIO c, 1)]"

definition address_writes :: "hc238_config \<Rightarrow> u8 \<Rightarrow> pin_write list" where
  "address_writes c a =
     [(A0_FIXED c < 0, A0_GPIO c, address_bit a 0),
      (A1_FIXED c < 0, A1_GPIO c, address_bit a 1),
      (A2_FIXED c < 0, A2_GPIO c, address_bit a 2)]"

lemma set_enable_levels_writes:
  "set_enable_levels drv c en = return_on_errors (map (do_write drv) (enable_writes c en))"
  by (simp add: set_enable_levels_def enable_writes_def do_write_def)

definition controlled_pins :: "hc238_config \<Rightarrow> gpio list" where
  "controlled_pins c = map fst (filter (\<lambda>(g, f). f < 0)
     (zip [A0_GPIO c, A1_GPIO c, A2_GPIO c, E1_GPIO c, E2_GPIO c, E3_GPIO c]
          [A0_FIXED c, A1_FIXED c, A2_FIXED c, E1_FIXED c, E2_FIXED c, E3_FIXED c]))"

definition config_usable :: "hc238_config \<Rightarrow> bool" where
  "config_usable c \<longleftrightarrow> (E1_FIXED c < 0 \<or> E1_FIXED c = 0) \<and> (E2_FIXED c < 0 \<or> E2_FIXED c = 0) \<and>
     (E3_FIXED c < 0 \<or> E3_FIXED c = 1) \<and> (E1_FIXED c < 0 \<or> E2_FIXED c < 0 \<or> E3_FIXED c < 0) \<and>
     (\<forall>f \<in> {A0_FIXED c, A1_FIXED c, A2_FIXED c}. f \<le> 1) \<and> distinct (controlled_pins c)"

lemma not_pin_shared_iff: "\<not> pin_shared ps \<longleftrightarrow> distinct (map fst (filter (\<lambda>(g, f). f < 0) ps))"
  by (induction ps rule: pin_shared.induct) (auto simp: list_ex_iff not_le image_iff)

lemma first_error_ok: "first_error es = ESP_OK \<longleftrightarrow> (\<forall>e \<in> set es. e = ESP_OK)"
  by (induction es) auto

lemma return_on_false_ok [simp]: "e \<noteq> ESP_OK \<Longrightarrow> return_on_false b e = ESP_OK \<longleftrightarrow> b"
  by (simp add: return_on_false_def)

lemma validate_pin_ok:
  "validate_pin valid_output g f = ESP_OK \<longleftrightarrow> -1 \<le> f \<and> f \<le> 1 \<and> (f < 0 \<longrightarrow> valid_output g)"
  by (auto simp: validate_pin_def fixed_level_is_valid_def)

lemma validate_config_usable:
  "validate_config valid_output (Some c) = ESP_OK \<Longrightarrow> config_usable c"
  unfolding validate_config_def option.case first_error_ok config_usable_def controlled_pins_def
    not_pin_shared_iff [symmetric]
  by (simp add: validate_pin_ok del: pin_shared.simps zip_Cons_Cons)

text \<open>The lines of the decoder with their \<open>FIXED\<close> levels.\<close>

definition address_lines :: "hc238_config \<Rightarrow> (gpio \<times> int) list" where
  "address_lines c = [(A0_GPIO c, A0_FIXED c), (A1_GPIO c, A1_FIXED c), (A2_GPIO c, A2_FIXED c)]"

definition enable_lines :: "hc238_config \<Rightarrow> (gpio \<times> int) list" where
  "enable_lines c = [(E1_GPIO c, E1_FIXED c), (E2_GPIO c, E2_FIXED c), (E3_GPIO c, E3_FIXED c)]"

lemma lines_disjoint:
  assumes "config_usable c" and "(p, f) \<in> set (address_lines c)" "f < 0"
    and "(q, g) \<in> set (enable_lines c)" "g < 0"
  shows "p \<noteq> q"
proof -
  have "distinct (map fst (filter (\<lambda>(g, f). f < 0) (address_lines c @ enable_lines c)))"
    using assms(1) unfolding config_usable_def controlled_pins_def address_lines_def enable_lines_def
    by (simp only: zip_Cons_Cons append_Cons append_Nil zip_Nil)
  then have "set (map fst (filter (\<lambda>(g, f). f < 0) (address_lines c))) \<inter>
      set (map fst (filter (\<lambda>(g, f). f < 0) (enable_lines c))) = {}"
    by (simp only: filter_append map_append distinct_append)
  moreover have "p \<in> set (map fst (filter (\<lambda>(g, f). f < 0) (address_lines c)))"
    using assms(2,3) by (force simp: image_iff)
  moreover have "q \<in> set (map fst (filter (\<lambda>(g, f). f < 0) (enable_lines c)))"
    using assms(4,5) by (force simp: image_iff)
  ultimately show ?thesis by blast
qed

lemma enable_lines_distinct:
  assumes "config_usable c" and "E3_FIXED c < 0"
  shows "E1_FIXED c < 0 \<Longrightarrow> E1_GPIO c \<noteq> E3_GPIO c" "E2_FIXED c < 0 \<Longrightarrow> E2_GPIO c \<noteq> E3_GPIO c"
proof -
  have "distinct (map fst (filter (\<lambda>(g, f). f < 0) (enable_lines c)))"
    using assms(1) unfolding config_usable_def controlled_pins_def enable_lines_def
    by (simp only: zip_Cons_Cons zip_Nil filter.simps map_append split: if_splits prod.splits)
      (simp_all split: if_splits)
  then show "E1_FIXED c < 0 \<Longrightarrow> E1_GPIO c \<noteq> E3_GPIO c" "E2_FIXED c < 0 \<Longrightarrow> E2_GPIO c \<noteq> E3_GPIO c"
    using assms(2) by (auto simp: enable_lines_def split: if_splits)
qed

lemma written_Cons:
  "written [] = {}"
  "written ((c, p, l) # ws) = (if c then {(p, l \<noteq> 0)} else {}) \<union> written ws"
  by (auto simp: written_def)

lemma written_enable:
  "(p, b) \<in> written (enable_writes c en) \<longleftrightarrow>
     E3_FIXED c < 0 \<and> p = E3_GPIO c \<and> b = en \<or> E1_FIXED c < 0 \<and> p = E1_GPIO c \<and> b = (\<not> en) \<or>
     E2_FIXED c < 0 \<and> p = E2_GPIO c \<and> b = (\<not> en)"
  by (cases en) (auto simp: written_Cons enable_writes_def)

lemma written_address:
  "(p, b) \<in> written (address_writes c a) \<longleftrightarrow>
     A0_FIXED c < 0 \<and> p = A0_GPIO c \<and> b = (address_bit a 0 \<noteq> 0) \<or>
     A1_FIXED c < 0 \<and> p = A1_GPIO c \<and> b = (address_bit a 1 \<noteq> 0) \<or>
     A2_FIXED c < 0 \<and> p = A2_GPIO c \<and> b = (address_bit a 2 \<noteq> 0)"
  by (auto simp: written_Cons address_writes_def)

lemma written_enable_line:
  "(p, b) \<in> written (enable_writes c en) \<Longrightarrow> \<exists>f. (p, f) \<in> set (enable_lines c) \<and> f < 0"
  unfolding written_enable enable_lines_def by auto

lemma written_address_line:
  "(p, b) \<in> written (address_writes c a) \<Longrightarrow> \<exists>f. (p, f) \<in> set (address_lines c) \<and> f < 0"
  unfolding written_address address_lines_def by auto

lemma input_moved:
  assumes "moved W a b" and "f < 0 \<Longrightarrow> \<forall>l. (p, l) \<notin> W"
  shows "input_high b p f = input_high a p f"
  using assms by (auto simp: input_high_def moved_def)

text \<open>Enable pins and address pins are different pins: each kind of run leaves the other alone.\<close>

lemma enable_keeps_address:
  assumes "config_usable c" and "moved (written (enable_writes c en)) a b"
  shows "decoder_address c b = decoder_address c a"
proof -
  have "input_high b p f = input_high a p f" if "(p, f) \<in> set (address_lines c)" for p f
    using lines_disjoint [OF assms(1) that] written_enable_line [of p]
    by (intro input_moved [OF assms(2)]) blast
  then show ?thesis by (simp add: decoder_address_def address_lines_def)
qed

lemma address_keeps_enable:
  assumes "config_usable c" and "moved (written (address_writes c x)) a b"
  shows "decoder_enabled c b = decoder_enabled c a"
proof -
  have "input_high b p f = input_high a p f" if "(p, f) \<in> set (enable_lines c)" for p f
    using lines_disjoint [OF assms(1) _ _ that] written_address_line [of p]
    by (intro input_moved [OF assms(2)]) blast
  then show ?thesis by (simp add: decoder_enabled_def enable_lines_def)
qed

lemma disable_moves_off:
  assumes "config_usable c" and "moved (written (enable_writes c False)) a b"
    and "decoder_enabled c b"
  shows "decoder_enabled c a"
proof -
  note change = assms(2) [unfolded moved_def written_enable, THEN conjunct2, rule_format]
  note pins = enable_lines_distinct [OF assms(1)]
  have "pin_high a (E3_GPIO c)" if "E3_FIXED c < 0" "pin_high b (E3_GPIO c)"
    using change [of "E3_GPIO c"] pins that by auto
  moreover have "\<not> pin_high a (E1_GPIO c)" if "E1_FIXED c < 0" "\<not> pin_high b (E1_GPIO c)"
    using change [of "E1_GPIO c"] pins that by auto
  moreover have "\<not> pin_high a (E2_GPIO c)" if "E2_FIXED c < 0" "\<not> pin_high b (E2_GPIO c)"
    using change [of "E2_GPIO c"] pins that by auto
  ultimately show ?thesis
    using assms(3) unfolding decoder_enabled_def input_high_def by (simp split: if_splits)
qed

lemma disable_active:
  assumes "config_usable c" and "moved (written (enable_writes c False)) a b"
  shows "active_output c b \<in> {None, active_output c a}"
  using disable_moves_off [OF assms] enable_keeps_address [OF assms]
  by (auto simp: active_output_def)

lemma enable_active:
  assumes "config_usable c" and "moved (written (enable_writes c True)) a b"
  shows "active_output c b \<in> {None, Some (decoder_address c a)}"
  using enable_keeps_address [OF assms] by (auto simp: active_output_def)

lemma address_active:
  assumes "config_usable c" and "moved (written (address_writes c x)) a b"
    and "active_output c a = None"
  shows "active_output c b = None"
  using address_keeps_enable [OF assms(1,2)] assms(3)
  by (auto simp: active_output_def split: if_splits)

section \<open>The driver's invariant\<close>

text \<open>Once initialised, the configuration is usable and every controlled pin is driven.\<close>

definition driver_inv :: "pads \<Rightarrow> hc238_state \<Rightarrow> bool" where
  "driver_inv p0 s \<longleftrightarrow> (g_initialized s \<longrightarrow> config_usable (g_cfg s) \<and>
     (\<forall>(p, f) \<in> set (address_lines (g_cfg s) @ enable_lines (g_cfg s)).
        f < 0 \<longrightarrow> pad_driven (pads_of p0 s p)))"

lemma driver_inv_ran: "driver_inv p0 s \<Longrightarrow> ran W p0 s s' \<Longrightarrow> driver_inv p0 s'"
  unfolding driver_inv_def ran_def moved_def by auto

lemma enable_driven:
  "driver_inv p0 s \<Longrightarrow> g_initialized s \<Longrightarrow> all_driven (enable_writes (g_cfg s) en) (pads_of p0 s)"
  unfolding driver_inv_def all_driven_def enable_writes_def enable_lines_def by auto

lemma address_driven:
  "driver_inv p0 s \<Longrightarrow> g_initialized s \<Longrightarrow> all_driven (address_writes (g_cfg s) a) (pads_of p0 s)"
  unfolding driver_inv_def all_driven_def address_writes_def address_lines_def by auto

lemma hc238_enable_ran:
  assumes "driver_inv p0 s"
  shows "ran (written (enable_writes (g_cfg s) en)) p0 s (snd (hc238_enable drv en s))"
  using ran_writes [OF enable_driven [OF assms] order_refl]
  by (simp add: hc238_enable_def set_enable_levels_writes)

lemma hc238_enable_ok:
  assumes "driver_inv p0 s" and "hc238_enable drv en s = (ESP_OK, s')"
  shows "g_initialized s" and "(q, b) \<in> written (enable_writes (g_cfg s) en) \<Longrightarrow> pin_high (pads_of p0 s') q = b"
proof -
  show init: "g_initialized s" using assms(2) by (simp add: hc238_enable_def split: if_splits)
  then have run: "return_on_errors (map (do_write drv) (enable_writes (g_cfg s) en)) s = (ESP_OK, s')"
    using assms(2) by (simp add: hc238_enable_def set_enable_levels_writes)
  have usable: "config_usable (g_cfg s)" using assms(1) init by (simp add: driver_inv_def)
  have fn: "b = b'" if "(q, b) \<in> written (enable_writes (g_cfg s) en)"
      "(q, b') \<in> written (enable_writes (g_cfg s) en)" for q b b'
    using that enable_lines_distinct [OF usable] unfolding written_enable by metis
  show "(q, b) \<in> written (enable_writes (g_cfg s) en) \<Longrightarrow> pin_high (pads_of p0 s') q = b"
    by (rule writes_ok [OF enable_driven [OF assms(1) init] run fn])
qed

text \<open>The three address bits, and the lines that carry them.\<close>

lemma address_bit_eq: "address_bit a n = of_bool (bit a n)"
  by (simp add: address_bit_def bit_iff_odd_drop_bit and_one_eq odd_iff_mod_2_eq_one)

lemma address_of_bits:
  fixes a :: u8 assumes "a \<le> 7"
  shows "of_bool (bit a 0) + 2 * of_bool (bit a 1) + 4 * of_bool (bit a 2) = a"
proof -
  have "unat a \<le> 7" using assms by (simp add: word_le_nat_alt)
  then have "unat a \<in> {0, 1, 2, 3, 4, 5, 6, 7}" by auto
  then have "a \<in> of_nat ` {0, 1, 2, 3, 4, 5, 6, 7}" by (metis imageI of_nat_unat ucast_id)
  then show ?thesis by (auto simp: bit_iff_odd drop_bit_eq_div)
qed

lemma written_address_bits:
  "(p, b) \<in> written (address_writes c a) \<longleftrightarrow>
     A0_FIXED c < 0 \<and> p = A0_GPIO c \<and> b = bit a 0 \<or>
     A1_FIXED c < 0 \<and> p = A1_GPIO c \<and> b = bit a 1 \<or>
     A2_FIXED c < 0 \<and> p = A2_GPIO c \<and> b = bit a 2"
  unfolding written_address address_bit_eq by simp

lemma address_lines_distinct:
  assumes "config_usable c"
  shows "A0_FIXED c < 0 \<Longrightarrow> A1_FIXED c < 0 \<Longrightarrow> A0_GPIO c \<noteq> A1_GPIO c"
    "A0_FIXED c < 0 \<Longrightarrow> A2_FIXED c < 0 \<Longrightarrow> A0_GPIO c \<noteq> A2_GPIO c"
    "A1_FIXED c < 0 \<Longrightarrow> A2_FIXED c < 0 \<Longrightarrow> A1_GPIO c \<noteq> A2_GPIO c"
proof -
  have "distinct (map fst (filter (\<lambda>(g, f). f < 0) (address_lines c @ enable_lines c)))"
    using assms unfolding config_usable_def controlled_pins_def address_lines_def enable_lines_def
    by (simp only: zip_Cons_Cons append_Cons append_Nil zip_Nil)
  then have "distinct (map fst (filter (\<lambda>(g, f). f < 0) (address_lines c)))"
    by (simp only: filter_append map_append distinct_append)
  then show "A0_FIXED c < 0 \<Longrightarrow> A1_FIXED c < 0 \<Longrightarrow> A0_GPIO c \<noteq> A1_GPIO c"
    "A0_FIXED c < 0 \<Longrightarrow> A2_FIXED c < 0 \<Longrightarrow> A0_GPIO c \<noteq> A2_GPIO c"
    "A1_FIXED c < 0 \<Longrightarrow> A2_FIXED c < 0 \<Longrightarrow> A1_GPIO c \<noteq> A2_GPIO c"
    by (auto simp: address_lines_def split: if_splits)
qed

text \<open>\<open>hc238_set_address\<close> is nothing, or a run of address writes once every fixed line agrees.\<close>

definition address_reachable :: "hc238_config \<Rightarrow> u8 \<Rightarrow> bool" where
  "address_reachable c a \<longleftrightarrow>
     (A0_FIXED c < 0 \<or> A0_FIXED c = of_bool (bit a 0)) \<and>
     (A1_FIXED c < 0 \<or> A1_FIXED c = of_bool (bit a 1)) \<and>
     (A2_FIXED c < 0 \<or> A2_FIXED c = of_bool (bit a 2))"

lemma hc238_set_address_cases:
  "hc238_set_address drv a s =
     (if \<not> g_initialized s then (ESP_ERR_INVALID_STATE, s)
      else if 7 < a then (ESP_ERR_INVALID_ARG, s)
      else if \<not> address_reachable (g_cfg s) a then (ESP_ERR_INVALID_STATE, s)
      else return_on_errors (map (do_write drv) (address_writes (g_cfg s) a)) s)"
proof -
  have merge: "(if \<not> p then x else if \<not> q then x else if \<not> r then x else y) =
      (if \<not> (p \<and> q \<and> r) then x else y)" for p q r and x y :: 'a
    by simp
  have writes: "return_on_errors (map (do_write drv) (address_writes c a)) = return_on_errors
        [when_op (A0_FIXED c < 0) (gpio_set_level drv (A0_GPIO c) (address_bit a 0)),
         when_op (A1_FIXED c < 0) (gpio_set_level drv (A1_GPIO c) (address_bit a 1)),
         when_op (A2_FIXED c < 0) (gpio_set_level drv (A2_GPIO c) (address_bit a 2))]" for c
    by (simp add: address_writes_def do_write_def)
  have bits: "uint (address_bit a n) = of_bool (bit a n)" for n by (simp add: address_bit_eq)
  show ?thesis
    unfolding hc238_set_address_def Let_def address_reachable_def writes bits merge not_le
    by (rule refl)
qed

lemma hc238_set_address_ran:
  assumes "driver_inv p0 s"
  shows "ran (written (address_writes (g_cfg s) a)) p0 s (snd (hc238_set_address drv a s))"
  using ran_writes [OF address_driven [OF assms] order_refl, of a drv]
  by (simp add: hc238_set_address_cases)

lemma hc238_set_address_ok:
  assumes inv: "driver_inv p0 s" and ok: "hc238_set_address drv a s = (ESP_OK, s')"
  shows "decoder_address (g_cfg s) (pads_of p0 s') = a"
proof -
  let ?c = "g_cfg s"
  have init: "g_initialized s" and a: "a \<le> 7" and reach: "address_reachable ?c a"
    and run: "return_on_errors (map (do_write drv) (address_writes ?c a)) s = (ESP_OK, s')"
    using ok unfolding hc238_set_address_cases by (simp_all split: if_splits)
  have usable: "config_usable ?c" using inv init by (simp add: driver_inv_def)
  have fn: "b = b'" if "(q, b) \<in> written (address_writes ?c a)" "(q, b') \<in> written (address_writes ?c a)"
    for q b b'
    using that address_lines_distinct [OF usable] unfolding written_address_bits by metis
  have high: "pin_high (pads_of p0 s') q = b" if "(q, b) \<in> written (address_writes ?c a)" for q b
    by (rule writes_ok [OF address_driven [OF inv init] run fn that])
  have "A0_FIXED ?c < 0 \<Longrightarrow> pin_high (pads_of p0 s') (A0_GPIO ?c) = bit a 0"
    "A1_FIXED ?c < 0 \<Longrightarrow> pin_high (pads_of p0 s') (A1_GPIO ?c) = bit a 1"
    "A2_FIXED ?c < 0 \<Longrightarrow> pin_high (pads_of p0 s') (A2_GPIO ?c) = bit a 2"
    by (rule high; simp add: written_address_bits)+
  then have "input_high (pads_of p0 s') (A0_GPIO ?c) (A0_FIXED ?c) = bit a 0"
    "input_high (pads_of p0 s') (A1_GPIO ?c) (A1_FIXED ?c) = bit a 1"
    "input_high (pads_of p0 s') (A2_GPIO ?c) (A2_FIXED ?c) = bit a 2"
    using reach by (auto simp: input_high_def address_reachable_def split: if_splits)
  then show ?thesis using address_of_bits [OF a] by (simp add: decoder_address_def)
qed

section \<open>The decoder contract\<close>

definition driver_output :: "pads \<Rightarrow> hc238_state \<Rightarrow> u8 option" where
  "driver_output p0 s = active_output (g_cfg s) (pads_of p0 s)"

definition driver_selected :: "pads \<Rightarrow> hc238_state \<Rightarrow> u8" where
  "driver_selected p0 s = decoder_address (g_cfg s) (pads_of p0 s)"

definition driver_history :: "pads \<Rightarrow> hc238_state \<Rightarrow> u8 option list" where
  "driver_history p0 s = outputs_seen (g_cfg s) p0 (g_log s)"

text \<open>A run of writes extends the history by outputs of successors of its first state.\<close>

lemma ran_history:
  assumes "ran W p0 s s'"
    and "\<And>ps. moved W (pads_of p0 s) ps \<Longrightarrow> active_output (g_cfg s) ps \<in> X"
  shows "\<exists>outs. driver_history p0 s' = driver_history p0 s @ outs \<and> set outs \<subseteq> X \<and>
    final_output (driver_output p0 s) outs = driver_output p0 s'"
proof -
  obtain log where log: "g_log s' = g_log s @ log" "g_cfg s' = g_cfg s"
    "set (outputs_seen (g_cfg s) (pads_of p0 s) log) \<subseteq>
       {active_output (g_cfg s) ps | ps. moved W (pads_of p0 s) ps}"
    using assms(1) unfolding ran_def by blast
  then have "set (outputs_seen (g_cfg s) (pads_of p0 s) log) \<subseteq> X" using assms(2) by blast
  with log(1,2) show ?thesis
    by (intro exI [of _ "outputs_seen (g_cfg s) (pads_of p0 s) log"])
      (simp add: driver_history_def driver_output_def pads_of_def)
qed

lemma hc238_uninitialised:
  "\<not> g_initialized s \<Longrightarrow> hc238_enable drv en s = (ESP_ERR_INVALID_STATE, s)"
  "\<not> g_initialized s \<Longrightarrow> hc238_set_address drv a s = (ESP_ERR_INVALID_STATE, s)"
  by (simp_all add: hc238_enable_def hc238_set_address_def)

lemma inv_usable: "driver_inv p0 s \<Longrightarrow> g_initialized s \<Longrightarrow> config_usable (g_cfg s)"
  by (simp add: driver_inv_def)

lemma enabled_written:
  assumes inv: "driver_inv p0 s" and ok: "hc238_enable drv en s = (ESP_OK, s')"
  shows "decoder_enabled (g_cfg s) (pads_of p0 s') = en"
proof -
  let ?c = "g_cfg s" and ?ps = "pads_of p0 s'"
  have usable: "config_usable ?c" using inv_usable [OF inv] hc238_enable_ok(1) [OF inv ok] .
  note high = hc238_enable_ok(2) [OF inv ok]
  have "E3_FIXED ?c < 0 \<Longrightarrow> pin_high ?ps (E3_GPIO ?c) = en"
    "E1_FIXED ?c < 0 \<Longrightarrow> pin_high ?ps (E1_GPIO ?c) = (\<not> en)"
    "E2_FIXED ?c < 0 \<Longrightarrow> pin_high ?ps (E2_GPIO ?c) = (\<not> en)"
    by (rule high; simp add: written_enable)+
  with usable show ?thesis
    unfolding decoder_enabled_def input_high_def config_usable_def by (cases en) auto
qed

lemma disable_leaves:
  assumes inv: "driver_inv p0 s"
  shows "\<exists>outs. driver_history p0 (snd (hc238_enable drv False s)) = driver_history p0 s @ outs \<and>
    set outs \<subseteq> {None, driver_output p0 s} \<and>
    final_output (driver_output p0 s) outs = driver_output p0 (snd (hc238_enable drv False s))"
proof (cases "g_initialized s")
  case True
  show ?thesis
    by (rule ran_history [OF hc238_enable_ran [OF inv]])
      (use disable_active [OF inv_usable [OF inv True]] in \<open>simp add: driver_output_def\<close>)
qed (simp add: hc238_uninitialised)

lemma address_leaves:
  assumes inv: "driver_inv p0 s" and off: "driver_output p0 s = None"
  shows "\<exists>outs. driver_history p0 (snd (hc238_set_address drv a s)) = driver_history p0 s @ outs \<and>
    set outs \<subseteq> {None} \<and>
    final_output (driver_output p0 s) outs = driver_output p0 (snd (hc238_set_address drv a s))"
proof (cases "g_initialized s")
  case True
  show ?thesis
    by (rule ran_history [OF hc238_set_address_ran [OF inv]])
      (use address_active [OF inv_usable [OF inv True]] off in \<open>simp add: driver_output_def\<close>)
qed (use off in \<open>simp add: hc238_uninitialised\<close>)

lemma enable_leaves:
  assumes inv: "driver_inv p0 s"
  shows "\<exists>outs. driver_history p0 (snd (hc238_enable drv True s)) = driver_history p0 s @ outs \<and>
    set outs \<subseteq> {None, Some (driver_selected p0 s)} \<and>
    final_output (driver_output p0 s) outs = driver_output p0 (snd (hc238_enable drv True s))"
proof (cases "g_initialized s")
  case True
  show ?thesis
    by (rule ran_history [OF hc238_enable_ran [OF inv]])
      (use enable_active [OF inv_usable [OF inv True]] in \<open>simp add: driver_selected_def\<close>)
qed (simp add: hc238_uninitialised)

lemma enable_output:
  assumes inv: "driver_inv p0 s" and s': "hc238_enable drv en s = (ESP_OK, s')"
  shows "driver_output p0 s' = (if en then Some (driver_selected p0 s) else None)"
proof -
  note ran = hc238_enable_ran [OF inv, of en drv, unfolded s' snd_conv]
  then have m: "moved (written (enable_writes (g_cfg s) en)) (pads_of p0 s) (pads_of p0 s')"
    and cfg: "g_cfg s' = g_cfg s"
    by (simp_all add: ran_def)
  from enable_keeps_address [OF inv_usable [OF inv hc238_enable_ok(1) [OF inv s']] m]
  show ?thesis
    using enabled_written [OF inv s'] cfg
    by (simp add: driver_output_def driver_selected_def active_output_def)
qed

lemma silent_stays:
  assumes "\<exists>outs. h' = h @ outs \<and> set outs \<subseteq> {None} \<and> final_output None outs = new"
  shows "new = None"
  using assms final_output_silent by fastforce

interpretation hc: observed_backend "hc238_enable drv" "hc238_set_address drv" "driver_inv p0"
  "driver_output p0" "driver_selected p0" "driver_history p0" for drv p0
proof unfold_locales
  fix s b a
  assume inv: "driver_inv p0 s"
  show "driver_inv p0 (snd (hc238_enable drv b s))"
    by (rule driver_inv_ran [OF inv hc238_enable_ran [OF inv]])
  show "driver_inv p0 (snd (hc238_set_address drv a s))"
    by (rule driver_inv_ran [OF inv hc238_set_address_ran [OF inv]])
  show "fst (hc238_enable drv False s) = ESP_OK \<Longrightarrow> driver_output p0 (snd (hc238_enable drv False s)) = None"
    using enable_output [OF inv, of drv False] by (cases "hc238_enable drv False s") simp
  show "fst (hc238_enable drv True s) = ESP_OK \<Longrightarrow>
      driver_output p0 (snd (hc238_enable drv True s)) = Some (driver_selected p0 s)"
    using enable_output [OF inv, of drv True] by (cases "hc238_enable drv True s") simp
  show "fst (hc238_set_address drv a s) = ESP_OK \<Longrightarrow>
      driver_selected p0 (snd (hc238_set_address drv a s)) = a"
    using hc238_set_address_ok [OF inv, of drv a] hc238_set_address_ran [OF inv, of a drv]
    by (cases "hc238_set_address drv a s") (simp add: driver_selected_def ran_def)
  show "driver_output p0 s = None \<Longrightarrow> driver_output p0 (snd (hc238_enable drv False s)) = None"
    using silent_stays disable_leaves [OF inv, of drv] by simp
  show "\<exists>outs. driver_history p0 (snd (hc238_enable drv False s)) = driver_history p0 s @ outs \<and>
      set outs \<subseteq> {None, driver_output p0 s} \<and>
      final_output (driver_output p0 s) outs = driver_output p0 (snd (hc238_enable drv False s))"
    by (rule disable_leaves [OF inv])
  {
    assume off: "driver_output p0 s = None"
    note leaves = address_leaves [OF inv off, of drv a]
    from leaves show "driver_output p0 (snd (hc238_set_address drv a s)) = None"
      unfolding off by (rule silent_stays)
    from leaves show "\<exists>outs. driver_history p0 (snd (hc238_set_address drv a s)) =
        driver_history p0 s @ outs \<and> set outs \<subseteq> {None}"
      by blast
  }
  show "driver_output p0 s = None \<Longrightarrow>
      \<exists>outs. driver_history p0 (snd (hc238_enable drv True s)) = driver_history p0 s @ outs \<and>
        set outs \<subseteq> {None, Some (driver_selected p0 s)} \<and>
        final_output None outs = driver_output p0 (snd (hc238_enable drv True s))"
    using enable_leaves [OF inv, of drv] by simp
qed

section \<open>Initialisation\<close>

lemma gpio_do_frame [frame_simps]:
  "g_cfg (snd (gpio_do drv c s)) = g_cfg s"
  "g_initialized (snd (gpio_do drv c s)) = g_initialized s"
  "pads_of p0 (snd (gpio_do drv c s)) = pad_step (pads_of p0 s) (c, fst (gpio_do drv c s))"
  by (simp_all add: gpio_do_def Let_def pads_of_def)

text \<open>A pin whose configuration succeeds is driven at its level; no other pin changes.\<close>

lemma configure_output_ok:
  assumes "configure_output drv p l s = (ESP_OK, s')"
  shows "pads_of p0 s' = (pads_of p0 s)(p := \<lparr>pad_latch = l \<noteq> 0, pad_driven = True\<rparr>)"
proof -
  obtain s1 where s1: "gpio_set_level drv p l s = (ESP_OK, s1)"
    and s2: "gpio_set_direction_output drv p s1 = (ESP_OK, s')"
    using assms by (auto simp: configure_output_def split: prod.splits if_splits)
  have "pads_of p0 s1 = pad_step (pads_of p0 s) (Set_Level p l, ESP_OK)"
    using gpio_do_frame(3) [of p0 drv "Set_Level p l" s] s1 by simp
  moreover have "pads_of p0 s' = pad_step (pads_of p0 s1) (Set_Output p, ESP_OK)"
    using gpio_do_frame(3) [of p0 drv "Set_Output p" s1] s2 by simp
  ultimately show ?thesis by (simp add: fun_upd_def fun_eq_iff)
qed

definition configure_op :: "gpio_driver \<Rightarrow> pin_write \<Rightarrow> hc238_state op" where
  "configure_op drv w = (case w of (c, p, l) \<Rightarrow> when_op c (configure_output drv p l))"

fun configured :: "pin_write list \<Rightarrow> pads \<Rightarrow> pads" where
  "configured [] ps = ps"
| "configured ((c, p, l) # ws) ps =
     configured ws (if c then ps(p := \<lparr>pad_latch = l \<noteq> 0, pad_driven = True\<rparr>) else ps)"

definition init_writes :: "hc238_config \<Rightarrow> pin_write list" where
  "init_writes c = [(E3_FIXED c < 0, E3_GPIO c, 0), (E1_FIXED c < 0, E1_GPIO c, 1),
     (E2_FIXED c < 0, E2_GPIO c, 1), (A0_FIXED c < 0, A0_GPIO c, 0),
     (A1_FIXED c < 0, A1_GPIO c, 0), (A2_FIXED c < 0, A2_GPIO c, 0)]"

lemma configure_pins_run:
  "configure_pins drv c = return_on_errors (map (configure_op drv) (init_writes c))"
  by (simp add: configure_pins_def init_writes_def configure_op_def)

lemma configure_op_frame:
  "g_cfg (snd (configure_op drv w s)) = g_cfg s \<and>
   g_initialized (snd (configure_op drv w s)) = g_initialized s"
  by (cases w) (auto simp: configure_op_def when_op_def configure_output_def gpio_do_def Let_def
      split: prod.splits)

lemma configure_run_ok:
  "return_on_errors (map (configure_op drv) ws) s = (ESP_OK, s') \<Longrightarrow>
     pads_of p0 s' = configured ws (pads_of p0 s)"
proof (induction ws arbitrary: s)
  case (Cons w ws)
  obtain c p l where w: "w = (c, p, l)" by (cases w)
  obtain s1 where s1: "configure_op drv w s = (ESP_OK, s1)"
    and rest: "return_on_errors (map (configure_op drv) ws) s1 = (ESP_OK, s')"
    using Cons.prems by (auto split: prod.splits if_splits)
  have "pads_of p0 s1 = (if c then (pads_of p0 s)(p := \<lparr>pad_latch = l \<noteq> 0, pad_driven = True\<rparr>)
      else pads_of p0 s)"
    using s1 configure_output_ok [of drv p l s s1 p0] by (cases c) (auto simp: w configure_op_def)
  with Cons.IH [OF rest] show ?case by (simp add: w)
qed simp

text \<open>A pin that is configured, always at one level, ends driven at that level.\<close>

lemma configured_level:
  assumes "\<forall>l. (True, p, l) \<in> set ws \<longrightarrow> (l \<noteq> 0) = b"
    and "(\<exists>l. (True, p, l) \<in> set ws) \<or> ps p = \<lparr>pad_latch = b, pad_driven = True\<rparr>"
  shows "configured ws ps p = \<lparr>pad_latch = b, pad_driven = True\<rparr>"
  using assms
proof (induction ws arbitrary: ps)
  case (Cons w ws)
  obtain c q l where w: "w = (c, q, l)" by (cases w)
  let ?ps = "if c then ps(q := \<lparr>pad_latch = l \<noteq> 0, pad_driven = True\<rparr>) else ps"
  have "(\<exists>l. (True, p, l) \<in> set ws) \<or> ?ps p = \<lparr>pad_latch = b, pad_driven = True\<rparr>"
    using Cons.prems w by auto
  with Cons.IH [of ?ps] Cons.prems(1) show ?case by (simp add: w)
qed simp

text \<open>No pin is configured at two levels: only E1 and E2 start high, and they share no pin with
  the others.\<close>

lemma init_levels_agree:
  assumes usable: "config_usable c"
    and high: "(True, p, l) \<in> set (init_writes c)" "l \<noteq> 0"
    and low: "(True, p, 0) \<in> set (init_writes c)"
  shows False
proof -
  from high have "E1_FIXED c < 0 \<and> p = E1_GPIO c \<or> E2_FIXED c < 0 \<and> p = E2_GPIO c"
    unfolding init_writes_def by auto
  then obtain f where f: "(p, f) \<in> set (enable_lines c)" "f < 0" "E3_FIXED c < 0 \<Longrightarrow> p \<noteq> E3_GPIO c"
    using enable_lines_distinct [OF usable] unfolding enable_lines_def by auto
  from low have "E3_FIXED c < 0 \<and> p = E3_GPIO c \<or> (\<exists>g. (p, g) \<in> set (address_lines c) \<and> g < 0)"
    unfolding init_writes_def address_lines_def by auto
  with f lines_disjoint [OF usable] show False by blast
qed

lemma init_configured:
  assumes "config_usable c" and "(True, p, l) \<in> set (init_writes c)"
  shows "configured (init_writes c) ps p = \<lparr>pad_latch = l \<noteq> 0, pad_driven = True\<rparr>"
proof (rule configured_level)
  show "(\<exists>l. (True, p, l) \<in> set (init_writes c)) \<or> ps p = \<lparr>pad_latch = l \<noteq> 0, pad_driven = True\<rparr>"
    using assms(2) by blast
  show "\<forall>l'. (True, p, l') \<in> set (init_writes c) \<longrightarrow> (l' \<noteq> 0) = (l \<noteq> 0)"
    using init_levels_agree [OF assms(1), of p] assms(2) by metis
qed

lemma init_pads:
  assumes "config_usable c"
  shows "\<forall>(p, f) \<in> set (address_lines c @ enable_lines c). f < 0 \<longrightarrow>
      pad_driven (configured (init_writes c) ps p)"
    and "\<not> decoder_enabled c (configured (init_writes c) ps)"
proof -
  have low: "configured (init_writes c) ps p = \<lparr>pad_latch = False, pad_driven = True\<rparr>"
    if "(True, p, 0) \<in> set (init_writes c)" for p
    using init_configured [OF assms that] by simp
  have high: "configured (init_writes c) ps p = \<lparr>pad_latch = True, pad_driven = True\<rparr>"
    if "(True, p, 1) \<in> set (init_writes c)" for p
    using init_configured [OF assms that] by simp
  have E: "E3_FIXED c < 0 \<Longrightarrow> configured (init_writes c) ps (E3_GPIO c) = \<lparr>pad_latch = False, pad_driven = True\<rparr>"
    "E1_FIXED c < 0 \<Longrightarrow> configured (init_writes c) ps (E1_GPIO c) = \<lparr>pad_latch = True, pad_driven = True\<rparr>"
    "E2_FIXED c < 0 \<Longrightarrow> configured (init_writes c) ps (E2_GPIO c) = \<lparr>pad_latch = True, pad_driven = True\<rparr>"
    by (rule low high; simp add: init_writes_def)+
  have A: "A0_FIXED c < 0 \<Longrightarrow> configured (init_writes c) ps (A0_GPIO c) = \<lparr>pad_latch = False, pad_driven = True\<rparr>"
    "A1_FIXED c < 0 \<Longrightarrow> configured (init_writes c) ps (A1_GPIO c) = \<lparr>pad_latch = False, pad_driven = True\<rparr>"
    "A2_FIXED c < 0 \<Longrightarrow> configured (init_writes c) ps (A2_GPIO c) = \<lparr>pad_latch = False, pad_driven = True\<rparr>"
    by (rule low; simp add: init_writes_def)+
  show "\<forall>(p, f) \<in> set (address_lines c @ enable_lines c). f < 0 \<longrightarrow>
      pad_driven (configured (init_writes c) ps p)"
    unfolding address_lines_def enable_lines_def by (simp only: append_Cons append_Nil) (simp add: E A)
  show "\<not> decoder_enabled c (configured (init_writes c) ps)"
    using assms unfolding decoder_enabled_def input_high_def pin_high_def config_usable_def
    by (auto simp: E)
qed

lemma hc238_init_ok:
  assumes "hc238_init valid_output drv cfg s = (ESP_OK, s')"
  obtains c s1 where "cfg = Some c" "validate_config valid_output (Some c) = ESP_OK"
    "configure_pins drv c (s\<lparr>g_initialized := False\<rparr>) = (ESP_OK, s1)"
    "s' = s1\<lparr>g_cfg := c, g_initialized := True\<rparr>"
proof -
  have ok: "validate_config valid_output cfg = ESP_OK"
    using assms by (simp add: hc238_init_def Let_def split: if_split_asm)
  then obtain c where c: "cfg = Some c"
    by (cases cfg) (simp_all add: validate_config_def)
  obtain e s1 where s1: "configure_pins drv c (s\<lparr>g_initialized := False\<rparr>) = (e, s1)"
    by (cases "configure_pins drv c (s\<lparr>g_initialized := False\<rparr>)")
  have "e = ESP_OK \<and> s' = s1\<lparr>g_cfg := c, g_initialized := True\<rparr>"
    using assms ok s1 unfolding hc238_init_def c by (simp add: Let_def split: if_split_asm)
  with that [OF c] ok c s1 show ?thesis by simp
qed

lemma hc238_init_ready:
  assumes "hc238_init valid_output drv (Some c) s = (ESP_OK, s')"
  shows "g_initialized s' \<and> g_cfg s' = c \<and> config_usable c \<and> driver_inv p0 s' \<and>
    driver_output p0 s' = None"
proof -
  obtain c' s1 where c': "Some c = Some c'" and ok': "validate_config valid_output (Some c') = ESP_OK"
    and run': "configure_pins drv c' (s\<lparr>g_initialized := False\<rparr>) = (ESP_OK, s1)"
    and s'': "s' = s1\<lparr>g_cfg := c', g_initialized := True\<rparr>"
    by (rule hc238_init_ok [OF assms])
  from c' have c: "c' = c" by simp
  note ok = ok' [unfolded c] and run = run' [unfolded c] and s' = s'' [unfolded c]
  note usable = validate_config_usable [OF ok]
  have "pads_of p0 s' = configured (init_writes c) (pads_of p0 s)"
    using configure_run_ok [OF run [unfolded configure_pins_run], of p0]
    by (simp add: s' pads_of_def)
  moreover have "g_cfg s' = c" "g_initialized s'" by (simp_all add: s')
  ultimately show ?thesis
    using init_pads [OF usable, of "pads_of p0 s"] usable
    unfolding driver_inv_def driver_output_def active_output_def by simp
qed

text \<open>An initialisation that reports success leaves a driver whose configuration allows the
  decoder to be switched on and off, whose every controlled pin is driven, and whose decoder
  has no active output, from any pads and however the calls before it went.\<close>

theorem init_leaves_decoder_off:
  assumes "hc238_init valid_output drv (Some c) s = (ESP_OK, s')"
  shows "g_initialized s' \<and> g_cfg s' = c \<and> config_usable c \<and> driver_inv p0 s' \<and>
    driver_output p0 s' = None"
  by (rule hc238_init_ready [OF assms])

definition sample_config :: hc238_config where
  "sample_config = \<lparr>A0_GPIO = -1, A1_GPIO = 18, A2_GPIO = 17, E1_GPIO = 21, E2_GPIO = -1,
     E3_GPIO = 16, A0_FIXED = 0, A1_FIXED = -1, A2_FIXED = -1, E1_FIXED = -1, E2_FIXED = 0,
     E3_FIXED = -1\<rparr>"

definition undriven_pads :: pads where
  "undriven_pads = (\<lambda>_. \<lparr>pad_latch = True, pad_driven = False\<rparr>)"

theorem init_leaves_decoder_off_witness:
  "driver_output undriven_pads (snd (hc238_init (\<lambda>g. 0 \<le> g) (\<lambda>_ _. ESP_OK) (Some sample_config)
     \<lparr>g_cfg = sample_config, g_initialized = False, g_log = []\<rparr>)) = None"
proof -
  let ?s = "\<lparr>g_cfg = sample_config, g_initialized = False, g_log = []\<rparr>"
  have "fst (hc238_init (\<lambda>g. 0 \<le> g) (\<lambda>_ _. ESP_OK) (Some sample_config) ?s) = ESP_OK"
    by code_simp
  then show ?thesis
    using init_leaves_decoder_off [of "\<lambda>g. 0 \<le> g" "\<lambda>_ _. ESP_OK" sample_config ?s _ undriven_pads]
    by (cases "hc238_init (\<lambda>g. 0 \<le> g) (\<lambda>_ _. ESP_OK) (Some sample_config) ?s") simp
qed

text \<open>While the pin of E3 reads low no output is active; configuring it at level 0 keeps it low,
  and configuring other pins leaves it alone.\<close>

definition quiet :: "hc238_config \<Rightarrow> pads \<Rightarrow> hc238_state \<Rightarrow> hc238_state \<Rightarrow> bool" where
  "quiet c p0 s s' \<longleftrightarrow> (\<exists>log. g_log s' = g_log s @ log \<and>
     set (outputs_seen c (pads_of p0 s) log) \<subseteq> {None})"

lemma quiet_refl: "quiet c p0 s s"
  by (simp add: quiet_def)

lemma quiet_trans:
  assumes "quiet c p0 s1 s2" and "quiet c p0 s2 s3" shows "quiet c p0 s1 s3"
proof -
  obtain log1 log2 where logs: "g_log s2 = g_log s1 @ log1" "g_log s3 = g_log s2 @ log2"
    and outs: "set (outputs_seen c (pads_of p0 s1) log1) \<subseteq> {None}"
      "set (outputs_seen c (pads_of p0 s2) log2) \<subseteq> {None}"
    using assms unfolding quiet_def by blast
  have "pads_after (pads_of p0 s1) log1 = pads_of p0 s2" using logs(1) by (simp add: pads_of_def)
  with logs outs show ?thesis unfolding quiet_def by (intro exI [of _ "log1 @ log2"]) simp
qed

lemma low_E3_quiet:
  assumes "E3_FIXED c < 0" and "\<not> pin_high (pads_of p0 (snd (gpio_do drv call s))) (E3_GPIO c)"
  shows "quiet c p0 s (snd (gpio_do drv call s))"
  using assms
  by (auto simp: quiet_def gpio_do_def Let_def pads_of_def active_output_def decoder_enabled_def
      input_high_def)

lemma configure_quiet_rel:
  assumes "E3_FIXED c < 0" and "cond \<Longrightarrow> p \<noteq> E3_GPIO c"
    and "\<not> pad_latch (pads_of p0 s (E3_GPIO c))"
  shows "quiet c p0 s (snd (configure_op drv (cond, p, l) s)) \<and>
    \<not> pad_latch (pads_of p0 (snd (configure_op drv (cond, p, l) s)) (E3_GPIO c))"
proof (cases cond)
  case True
  let ?R = "\<lambda>s s'. \<not> pad_latch (pads_of p0 s (E3_GPIO c)) \<longrightarrow>
    quiet c p0 s s' \<and> \<not> pad_latch (pads_of p0 s' (E3_GPIO c))"
  have step: "?R s (snd (gpio_do drv call s))" if "call \<in> {Set_Level p l, Set_Output p}" for call s
  proof
    assume "\<not> pad_latch (pads_of p0 s (E3_GPIO c))"
    then have latch: "\<not> pad_latch (pads_of p0 (snd (gpio_do drv call s)) (E3_GPIO c))"
      using that assms(2) [OF True] by (auto simp: frame_simps)
    then have "\<not> pin_high (pads_of p0 (snd (gpio_do drv call s))) (E3_GPIO c)"
      by (simp add: pin_high_def)
    from low_E3_quiet [OF assms(1) this] latch
    show "quiet c p0 s (snd (gpio_do drv call s)) \<and>
      \<not> pad_latch (pads_of p0 (snd (gpio_do drv call s)) (E3_GPIO c))" by simp
  qed
  have "?R s (snd (configure_output drv p l s))"
    unfolding configure_output_def
    by (rule return_on_errors_rel [where R = ?R]) (use step quiet_refl quiet_trans in auto)
  with assms(3) True show ?thesis by (simp add: configure_op_def)
qed (use assms(3) quiet_refl in \<open>simp add: configure_op_def\<close>)

lemma configure_run_quiet:
  assumes "E3_FIXED c < 0" and "\<forall>(cond, p, l) \<in> set ws. cond \<longrightarrow> p \<noteq> E3_GPIO c"
    and "\<not> pad_latch (pads_of p0 s (E3_GPIO c))"
  shows "quiet c p0 s (snd (return_on_errors (map (configure_op drv) ws) s))"
proof -
  let ?R = "\<lambda>s s'. \<not> pad_latch (pads_of p0 s (E3_GPIO c)) \<longrightarrow>
    quiet c p0 s s' \<and> \<not> pad_latch (pads_of p0 s' (E3_GPIO c))"
  have "?R s (snd (return_on_errors (map (configure_op drv) ws) s))"
  proof (rule return_on_errors_rel [where R = ?R])
    fix f and s :: hc238_state
    assume "f \<in> set (map (configure_op drv) ws)"
    then obtain cond p l where f: "f = configure_op drv (cond, p, l)" and "(cond, p, l) \<in> set ws"
      by auto
    with assms(2) have "cond \<Longrightarrow> p \<noteq> E3_GPIO c" by auto
    with f configure_quiet_rel [OF assms(1)] show "?R s (snd (f s))" by blast
  qed (use quiet_refl quiet_trans in blast)+
  with assms(3) show ?thesis by simp
qed

lemma configure_E3_quiet:
  assumes "E3_FIXED c < 0" and low: "\<not> pin_high (pads_of p0 s) (E3_GPIO c)"
    and run: "configure_output drv (E3_GPIO c) 0 s = (e, s')"
  shows "quiet c p0 s s'" and "e = ESP_OK \<Longrightarrow> \<not> pad_latch (pads_of p0 s' (E3_GPIO c))"
proof -
  let ?p = "E3_GPIO c"
  obtain e1 s1 where s1: "gpio_set_level drv ?p 0 s = (e1, s1)"
    by (cases "gpio_set_level drv ?p 0 s")
  then have low1: "\<not> pin_high (pads_of p0 s1) ?p"
    and latch1: "e1 = ESP_OK \<Longrightarrow> \<not> pad_latch (pads_of p0 s1 ?p)"
    using low frame_simps(3) [of p0 drv "Set_Level ?p 0" s] by (simp_all add: pin_high_def)
  have q1: "quiet c p0 s s1"
    using low_E3_quiet [OF assms(1), of p0 drv "Set_Level ?p 0" s] low1 s1 by simp
  obtain e2 s2 where s2: "gpio_set_direction_output drv ?p s1 = (e2, s2)"
    by (cases "gpio_set_direction_output drv ?p s1")
  then have latch2: "\<not> pad_latch (pads_of p0 s2 ?p)" if "e1 = ESP_OK"
    using latch1 [OF that] frame_simps(3) [of p0 drv "Set_Output ?p" s1] by simp
  then have q2: "quiet c p0 s1 s2" if "e1 = ESP_OK"
    using low_E3_quiet [OF assms(1), of p0 drv "Set_Output ?p" s1] s2 that by (simp add: pin_high_def)
  have s': "(e, s') = (if e1 \<noteq> ESP_OK then (e1, s1) else (e2, s2))"
    using run s1 s2 by (simp add: configure_output_def split: if_splits)
  show "quiet c p0 s s'" using s' q1 quiet_trans [OF q1 q2] by (auto split: if_splits)
  show "e = ESP_OK \<Longrightarrow> \<not> pad_latch (pads_of p0 s' ?p)" using s' latch2 by (auto split: if_splits)
qed

lemma configure_pins_quiet:
  assumes usable: "config_usable c" and E3: "E3_FIXED c < 0"
    and low: "\<not> pin_high (pads_of p0 s) (E3_GPIO c)"
  shows "quiet c p0 s (snd (configure_pins drv c s))"
proof -
  let ?rest = "tl (init_writes c)"
  obtain e s1 where s1: "configure_output drv (E3_GPIO c) 0 s = (e, s1)"
    by (cases "configure_output drv (E3_GPIO c) 0 s")
  note first = configure_E3_quiet [OF E3 low s1]
  have run: "configure_pins drv c s =
      (if e \<noteq> ESP_OK then (e, s1) else return_on_errors (map (configure_op drv) ?rest) s1)"
    using s1 E3 by (simp add: configure_pins_run init_writes_def configure_op_def)
  have E3_line: "(E3_GPIO c, E3_FIXED c) \<in> set (enable_lines c)" by (simp add: enable_lines_def)
  have "A0_FIXED c < 0 \<Longrightarrow> A0_GPIO c \<noteq> E3_GPIO c" "A1_FIXED c < 0 \<Longrightarrow> A1_GPIO c \<noteq> E3_GPIO c"
    "A2_FIXED c < 0 \<Longrightarrow> A2_GPIO c \<noteq> E3_GPIO c"
    by (rule lines_disjoint [OF usable _ _ E3_line E3]; simp add: address_lines_def)+
  then have others: "\<forall>(cond, p, l) \<in> set ?rest. cond \<longrightarrow> p \<noteq> E3_GPIO c"
    using enable_lines_distinct [OF usable E3] by (simp add: init_writes_def)
  show ?thesis
  proof (cases "e = ESP_OK")
    case True
    with quiet_trans [OF first(1) configure_run_quiet [OF E3 others first(2)]] run
    show ?thesis by simp
  qed (use run first(1) in simp)
qed

text \<open>When E3 is driven by the processor and reads low (as R18 pulls it before the pin is an
  output), initialisation never activates an output: not between its calls, not when a call
  fails and it gives up half way, and not with a configuration it refuses.\<close>

theorem init_never_pulses:
  assumes "E3_FIXED c < 0" and "\<not> pin_high (pads_of p0 s) (E3_GPIO c)"
  shows "\<exists>log. g_log (snd (hc238_init valid_output drv (Some c) s)) = g_log s @ log \<and>
    set (outputs_seen c (pads_of p0 s) log) \<subseteq> {None}"
proof (cases "validate_config valid_output (Some c) = ESP_OK")
  case True
  have "quiet c p0 (s\<lparr>g_initialized := False\<rparr>)
      (snd (configure_pins drv c (s\<lparr>g_initialized := False\<rparr>)))"
    by (rule configure_pins_quiet [OF validate_config_usable [OF True] assms(1)])
      (use assms(2) in \<open>simp add: pads_of_def\<close>)
  then show ?thesis
    using True by (auto simp: hc238_init_def Let_def quiet_def pads_of_def split: prod.splits)
qed (simp add: hc238_init_def Let_def)

text \<open>The second direction call fails: the run stops there, and nothing was active.\<close>

theorem init_never_pulses_witness:
  "\<exists>log. g_log (snd (hc238_init (\<lambda>g. 0 \<le> g)
       (\<lambda>log c. if c = Set_Output 21 then ESP_FAIL else ESP_OK) (Some sample_config)
       \<lparr>g_cfg = sample_config, g_initialized = False, g_log = []\<rparr>)) = log \<and>
     set (outputs_seen sample_config undriven_pads log) \<subseteq> {None}"
  using init_never_pulses [of sample_config undriven_pads
      "\<lparr>g_cfg = sample_config, g_initialized = False, g_log = []\<rparr>" "\<lambda>g. 0 \<le> g"
      "\<lambda>log c. if c = Set_Output 21 then ESP_FAIL else ESP_OK"]
  by (simp add: sample_config_def undriven_pads_def pads_of_def pin_high_def)

end

