(* ===== verification/Board.thy ===== *)
theory Board
  imports Prelude
begin

text \<open>
  \<open>components/board\<close>: the wiring of the HPA300 board, as the constants the drivers are
  configured with. \<open>GPIO_NUM_NC\<close> is -1; an HC238 line is \<open>FIXED\<close> at 0 or 1, or driven by
  the processor (-1).
\<close>

abbreviation (input) GPIO_NUM_NC :: gpio where "GPIO_NUM_NC \<equiv> -1"

section \<open>Touch keys\<close>

definition touch_keys :: "u32 list" where
  "touch_keys = [3, 2, 1, 5, 6, 4]"

section \<open>LEDs\<close>

type_synonym led_index = int
abbreviation (input) LED_OFF :: led_index where "LED_OFF \<equiv> -1"
abbreviation (input) LED_1 :: led_index where "LED_1 \<equiv> 0"
abbreviation (input) LED_2 :: led_index where "LED_2 \<equiv> 1"
abbreviation (input) LED_3 :: led_index where "LED_3 \<equiv> 2"
abbreviation (input) LED_4 :: led_index where "LED_4 \<equiv> 3"
abbreviation (input) LED_5 :: led_index where "LED_5 \<equiv> 4"
abbreviation (input) LED_6 :: led_index where "LED_6 \<equiv> 5"
abbreviation (input) LED_7 :: led_index where "LED_7 \<equiv> 6"
abbreviation (input) LED_8 :: led_index where "LED_8 \<equiv> 7"
abbreviation (input) LED_9 :: led_index where "LED_9 \<equiv> 8"
abbreviation (input) NUM_LEDS :: nat where "NUM_LEDS \<equiv> 9"
abbreviation (input) BOARD_FAN_SPEED_COUNT :: nat where "BOARD_FAN_SPEED_COUNT \<equiv> 5"

definition led_gpios :: "gpio list" where
  "led_gpios = [12, 15, 8, 13, 7, 9, 14, 11, 10]"

definition fan_led_map :: "led_index list" where
  "fan_led_map = [LED_OFF, LED_7, LED_4, LED_1, LED_8]"

section \<open>HC238 fan selector\<close>

abbreviation (input) HC238_A0_GPIO :: gpio where "HC238_A0_GPIO \<equiv> GPIO_NUM_NC"
abbreviation (input) HC238_A0_FIXED :: int where "HC238_A0_FIXED \<equiv> 0"
abbreviation (input) HC238_A1_GPIO :: gpio where "HC238_A1_GPIO \<equiv> 18"
abbreviation (input) HC238_A1_FIXED :: int where "HC238_A1_FIXED \<equiv> -1"
abbreviation (input) HC238_A2_GPIO :: gpio where "HC238_A2_GPIO \<equiv> 17"
abbreviation (input) HC238_A2_FIXED :: int where "HC238_A2_FIXED \<equiv> -1"
abbreviation (input) HC238_E1_GPIO :: gpio where "HC238_E1_GPIO \<equiv> GPIO_NUM_NC"
abbreviation (input) HC238_E1_FIXED :: int where "HC238_E1_FIXED \<equiv> 0"
abbreviation (input) HC238_E2_GPIO :: gpio where "HC238_E2_GPIO \<equiv> GPIO_NUM_NC"
abbreviation (input) HC238_E2_FIXED :: int where "HC238_E2_FIXED \<equiv> 0"
abbreviation (input) HC238_E3_GPIO :: gpio where "HC238_E3_GPIO \<equiv> 16"
abbreviation (input) HC238_E3_FIXED :: int where "HC238_E3_FIXED \<equiv> -1"

abbreviation (input) FAN_1 :: u8 where "FAN_1 \<equiv> 0"
abbreviation (input) FAN_2 :: u8 where "FAN_2 \<equiv> 2"
abbreviation (input) FAN_3 :: u8 where "FAN_3 \<equiv> 4"
abbreviation (input) FAN_4 :: u8 where "FAN_4 \<equiv> 6"

section \<open>Facts of the wiring\<close>

text \<open>No pin has two uses, and every fan speed above Off has an LED of its own.\<close>

definition hc238_pins :: "gpio list" where
  "hc238_pins = [HC238_A1_GPIO, HC238_A2_GPIO, HC238_E3_GPIO]"

lemma board_pins_distinct: "distinct (map uint touch_keys @ led_gpios @ hc238_pins)"
  by (simp add: touch_keys_def led_gpios_def hc238_pins_def)

lemma fan_leds_distinct:
  "distinct fan_led_map" "length fan_led_map = BOARD_FAN_SPEED_COUNT" "length led_gpios = NUM_LEDS"
  "\<forall>l \<in> set (tl fan_led_map). 0 \<le> l \<and> nat l < NUM_LEDS"
  by (simp_all add: fan_led_map_def led_gpios_def)

end
