(* ===== verification/FanSelect.thy ===== *)
theory FanSelect
  imports Hc238 Board
begin

text \<open>
  \<open>main/fan_select.c\<close>: the fan speeds, the decoder output of each, the configuration of the
  decoder driver from the board, and one break-before-make transaction per speed change. The
  transaction's guarantees come from \<open>TransitionCore\<close> through the interpretation \<open>hc\<close> of
  its decoder contract on the 74HC238 driver.
\<close>

section \<open>Operations\<close>

type_synonym fan_speed = u32
abbreviation (input) FAN_SPEED_OFF :: fan_speed where "FAN_SPEED_OFF \<equiv> 0"
abbreviation (input) FAN_SPEED_1 :: fan_speed where "FAN_SPEED_1 \<equiv> 1"
abbreviation (input) FAN_SPEED_2 :: fan_speed where "FAN_SPEED_2 \<equiv> 2"
abbreviation (input) FAN_SPEED_3 :: fan_speed where "FAN_SPEED_3 \<equiv> 3"
abbreviation (input) FAN_SPEED_4 :: fan_speed where "FAN_SPEED_4 \<equiv> 4"
abbreviation (input) NUM_FAN_SPEEDS :: fan_speed where "NUM_FAN_SPEEDS \<equiv> 5"

definition transition_enable :: "gpio_driver \<Rightarrow> bool \<Rightarrow> hc238_state op" where
  "transition_enable drv enabled = hc238_enable drv enabled"

definition transition_set_address :: "gpio_driver \<Rightarrow> u8 \<Rightarrow> hc238_state op" where
  "transition_set_address drv address = hc238_set_address drv address"

definition board_config :: hc238_config where
  "board_config =
     \<lparr>A0_GPIO = HC238_A0_GPIO, A1_GPIO = HC238_A1_GPIO, A2_GPIO = HC238_A2_GPIO,
      E1_GPIO = HC238_E1_GPIO, E2_GPIO = HC238_E2_GPIO, E3_GPIO = HC238_E3_GPIO,
      A0_FIXED = HC238_A0_FIXED, A1_FIXED = HC238_A1_FIXED, A2_FIXED = HC238_A2_FIXED,
      E1_FIXED = HC238_E1_FIXED, E2_FIXED = HC238_E2_FIXED, E3_FIXED = HC238_E3_FIXED\<rparr>"

definition fan_init :: "(gpio \<Rightarrow> bool) \<Rightarrow> gpio_driver \<Rightarrow> hc238_state op" where
  "fan_init valid_output drv s =
     (case hc238_init valid_output drv (Some board_config) s of
        (err, s) \<Rightarrow> if err \<noteq> ESP_OK then (err, s) else (ESP_OK, s))"

definition output_map :: "u8 list" where
  "output_map = [0, FAN_1, FAN_2, FAN_3, FAN_4]"

definition fan_transition ::
    "gpio_driver \<Rightarrow> fan_speed \<Rightarrow> phase option \<Rightarrow> hc238_state \<Rightarrow> esp_err \<times> phase option \<times> hc238_state"
  where
  "fan_transition drv speed phase s =
     (let phase = set_phase FAN_TRANSITION_PHASE_NONE phase
      in if speed < FAN_SPEED_OFF \<or> NUM_FAN_SPEEDS \<le> speed then (ESP_ERR_INVALID_ARG, phase, s)
      else
        let out_idx = output_map ! unat speed;
            backend = \<lparr>be_enable = Some (transition_enable drv),
                       be_set_address = Some (transition_set_address drv)\<rparr>
        in fan_transition_execute (speed = FAN_SPEED_OFF) out_idx (Some backend) phase s)"

section \<open>Lemmas\<close>

lemma fan_init_eq: "fan_init valid_output drv = hc238_init valid_output drv (Some board_config)"
  by (rule ext) (auto simp: fan_init_def split: prod.splits)

lemma valid_speed_cases:
  assumes "speed < NUM_FAN_SPEEDS"
  shows "speed \<in> {FAN_SPEED_OFF, FAN_SPEED_1, FAN_SPEED_2, FAN_SPEED_3, FAN_SPEED_4}"
proof -
  have "unat speed < 5" using assms by (simp add: word_less_nat_alt)
  then have "unat speed \<in> {0, 1, 2, 3, 4}" by auto
  then have "speed \<in> of_nat ` {0, 1, 2, 3, 4}" by (metis imageI of_nat_unat ucast_id)
  then show ?thesis by auto
qed

lemma output_map_valid: "speed < NUM_FAN_SPEEDS \<Longrightarrow> output_map ! unat speed \<le> 7"
  by (drule valid_speed_cases) (auto simp: output_map_def)

text \<open>The static assertions of the file: outputs are distinct and agree with the wired A0.\<close>

lemma output_map_assertions:
  "distinct (tl output_map)" "\<forall>out \<in> set output_map. \<not> bit out 0 \<and> address_reachable board_config out"
  by (simp_all add: output_map_def address_reachable_def board_config_def bit_iff_odd drop_bit_eq_div)

lemma output_map_inj:
  assumes "s < NUM_FAN_SPEEDS" "t < NUM_FAN_SPEEDS" "s \<noteq> 0" "t \<noteq> 0"
    and "output_map ! unat s = output_map ! unat t"
  shows "s = t"
  using valid_speed_cases [OF assms(1)] valid_speed_cases [OF assms(2)] assms(3-5)
  by (auto simp: output_map_def)

text \<open>The output that a speed asks for.\<close>

definition speed_output :: "fan_speed \<Rightarrow> u8 option" where
  "speed_output speed = (if speed = FAN_SPEED_OFF then None else Some (output_map ! unat speed))"

lemma fan_transition_run:
  "speed < NUM_FAN_SPEEDS \<Longrightarrow> fan_transition drv speed (Some p) s =
     run_transaction (speed = FAN_SPEED_OFF) (output_map ! unat speed) (hc238_enable drv)
       (hc238_set_address drv) (Some FAN_TRANSITION_PHASE_NONE) s"
  using output_map_valid [of speed]
  by (simp add: fan_transition_def fan_transition_execute_def transition_enable_def [abs_def]
      transition_set_address_def [abs_def] Let_def not_less [symmetric])

lemma fan_transition_invalid:
  "NUM_FAN_SPEEDS \<le> speed \<Longrightarrow>
     fan_transition drv speed (Some p) s = (ESP_ERR_INVALID_ARG, Some FAN_TRANSITION_PHASE_NONE, s)"
  by (simp add: fan_transition_def Let_def)

lemma fan_transition_inv [inv_intro]:
  assumes "driver_inv p0 s" and "fan_transition drv speed (Some p) s = (err, ph, s')"
  shows "driver_inv p0 s'"
proof (cases "speed < NUM_FAN_SPEEDS")
  case True
  then show ?thesis using hc.execute_inv [OF assms(1)] assms(2) by (simp add: fan_transition_run)
qed (use assms in \<open>simp add: fan_transition_invalid\<close>)

text \<open>A driver right after its initialisation, for examples.\<close>

definition all_calls_succeed :: gpio_driver where
  "all_calls_succeed = (\<lambda>_ _. ESP_OK)"

definition blank_state :: hc238_state where
  "blank_state = \<lparr>g_cfg = board_config, g_initialized = False, g_log = []\<rparr>"

definition ready_state :: hc238_state where
  "ready_state = snd (fan_init (\<lambda>g. 0 \<le> g) all_calls_succeed blank_state)"

lemma ready_state_inv: "driver_inv undriven_pads ready_state"
proof -
  have "fst (fan_init (\<lambda>g. 0 \<le> g) all_calls_succeed blank_state) = ESP_OK" by code_simp
  then show ?thesis
    using hc238_init_ready [of "\<lambda>g. 0 \<le> g" all_calls_succeed board_config blank_state _ undriven_pads]
    unfolding ready_state_def fan_init_eq
    by (cases "hc238_init (\<lambda>g. 0 \<le> g) all_calls_succeed (Some board_config) blank_state") simp
qed

lemma fan_transition_output:
  assumes "driver_inv p0 s" and "fan_transition drv speed (Some p) s = (ESP_OK, ph, s')"
  shows "speed < NUM_FAN_SPEEDS" and "driver_output p0 s' = speed_output speed"
    and "ph = Some FAN_TRANSITION_PHASE_NONE" and "driver_inv p0 s'"
proof -
  show valid: "speed < NUM_FAN_SPEEDS"
    using assms(2) by (cases "speed < NUM_FAN_SPEEDS") (simp_all add: fan_transition_invalid)
  show "driver_output p0 s' = speed_output speed" "ph = Some FAN_TRANSITION_PHASE_NONE" "driver_inv p0 s'"
    using hc.execute_ok [OF assms(1)] assms(2) valid
    by (simp_all add: fan_transition_run speed_output_def)
qed

section \<open>Properties\<close>

text \<open>C5. A speed change that reports success leaves exactly the output of that speed active (no
  output for Off, and no two speeds share one), with no failed phase recorded; a speed that is
  not one of the five is refused.\<close>

theorem fan_transition_selects:
  assumes "driver_inv p0 s" and "fan_transition drv speed (Some p) s = (ESP_OK, ph, s')"
  shows "speed < NUM_FAN_SPEEDS \<and> driver_output p0 s' = speed_output speed \<and>
    ph = Some FAN_TRANSITION_PHASE_NONE \<and> driver_inv p0 s'"
  using fan_transition_output [OF assms] by simp

theorem fan_transition_selects_witness:
  "driver_output undriven_pads
     (snd (snd (fan_transition all_calls_succeed FAN_SPEED_3 (Some 7) ready_state))) = Some FAN_3"
proof -
  have "fst (fan_transition all_calls_succeed FAN_SPEED_3 (Some 7) ready_state) = ESP_OK"
    by code_simp
  then show ?thesis
    using fan_transition_selects [OF ready_state_inv, of all_calls_succeed FAN_SPEED_3 7]
    by (cases "fan_transition all_calls_succeed FAN_SPEED_3 (Some 7) ready_state")
      (simp add: speed_output_def output_map_def)
qed

text \<open>C4. Break before make: whatever fails on the way, a speed change never lets one output
  follow another without all outputs off in between, and never activates an output other than
  the one active before and the one asked for.\<close>

theorem fan_transition_breaks_before_making:
  assumes "driver_inv p0 s" and "fan_transition drv speed (Some p) s = (err, ph, s')"
  shows "\<exists>outs. driver_history p0 s' = driver_history p0 s @ outs \<and>
    break_before_make (driver_output p0 s) outs \<and>
    set outs \<subseteq> {None, driver_output p0 s, speed_output speed} \<and>
    final_output (driver_output p0 s) outs = driver_output p0 s'"
proof (cases "speed < NUM_FAN_SPEEDS")
  case True
  then obtain outs where "driver_history p0 s' = driver_history p0 s @ outs"
    "seen_between (if speed = FAN_SPEED_OFF then {} else {output_map ! unat speed})
       (driver_output p0 s) outs (driver_output p0 s')"
    using hc.execute_break_before_make [OF assms(1)] assms(2) by (simp add: fan_transition_run) blast
  then show ?thesis
    by (intro exI [of _ outs]) (auto simp: seen_between_def speed_output_def split: if_splits)
next
  case False
  then show ?thesis using assms(2) by (intro exI [of _ "[]"]) (simp add: fan_transition_invalid)
qed

text \<open>E3 cannot be raised again: the history of a change whose last call fails.\<close>

definition E3_stuck_low :: gpio_driver where
  "E3_stuck_low = (\<lambda>_ c. if c = Set_Level HC238_E3_GPIO 1 then ESP_FAIL else ESP_OK)"

theorem fan_transition_breaks_before_making_witness:
  "\<exists>outs. driver_history undriven_pads
       (snd (snd (fan_transition E3_stuck_low FAN_SPEED_4 (Some 0) ready_state))) =
     driver_history undriven_pads ready_state @ outs \<and>
     break_before_make (driver_output undriven_pads ready_state) outs"
  using fan_transition_breaks_before_making [OF ready_state_inv, of E3_stuck_low FAN_SPEED_4 0]
  by (cases "fan_transition E3_stuck_low FAN_SPEED_4 (Some 0) ready_state") force

text \<open>A failed speed change ends with a disable of the decoder and reports where it failed.
  If that disable succeeds no output is active; if it fails too, the active output can only be
  the old one (failed to disable) or the requested one (failed while enabling), and none when
  the address could not be set.\<close>

theorem fan_transition_failure:
  assumes "driver_inv p0 s" and "fan_transition drv speed (Some p) s = (err, ph, s')"
    and "err \<noteq> ESP_OK" and "speed < NUM_FAN_SPEEDS"
  shows "\<exists>s1. s' = snd (hc238_enable drv False s1) \<and>
    (fst (hc238_enable drv False s1) = ESP_OK \<longrightarrow> driver_output p0 s' = None) \<and>
    (ph = Some FAN_TRANSITION_PHASE_DISABLE \<and> driver_output p0 s' \<in> {None, driver_output p0 s} \<or>
     ph = Some FAN_TRANSITION_PHASE_ADDRESS \<and> driver_output p0 s' = None \<or>
     ph = Some FAN_TRANSITION_PHASE_ENABLE \<and> driver_output p0 s' \<in> {None, speed_output speed})"
proof -
  note run = assms(2) [unfolded fan_transition_run [OF assms(4)]]
  from hc.execute_error [OF assms(1) run assms(3)] hc.execute_error_output [OF assms(1) run assms(3)]
  show ?thesis by (simp add: speed_output_def) blast
qed

theorem fan_transition_failure_witness:
  "driver_output undriven_pads
     (snd (snd (fan_transition E3_stuck_low FAN_SPEED_4 (Some 0) ready_state))) \<in> {None, Some FAN_4}"
proof -
  let ?run = "fan_transition E3_stuck_low FAN_SPEED_4 (Some 0) ready_state"
  have "fst ?run = ESP_FAIL" and "fst (snd ?run) = Some FAN_TRANSITION_PHASE_ENABLE"
    by code_simp+
  then show ?thesis
    using fan_transition_failure [OF ready_state_inv, of E3_stuck_low FAN_SPEED_4 0]
    by (cases ?run) (auto simp: speed_output_def output_map_def)
qed

end
