(* ===== verification/FanControl.thy ===== *)
theory FanControl
  imports FanPolicy FanSelect Diagnostics
begin

text \<open>
  \<open>main/fan_control.c\<close>: the fan actor. One task owns the fan's state and the decoder; other
  tasks leave commands in a mailbox of one place, ask for maintenance, and read the published
  snapshot. The actor's cycle is split here where another task can run in between; every
  stage reads its clocks from a \<open>cycle_input\<close>. The sequence lock around the snapshot is in
  \<open>SnapshotLock\<close>; here a snapshot is published and read in one step.
\<close>

section \<open>Constants and types\<close>

abbreviation (input) CONTROL_BUDGET_US :: u32 where "CONTROL_BUDGET_US \<equiv> 1000"
abbreviation (input) CONTROL_DEADLINE_US :: u32 where "CONTROL_DEADLINE_US \<equiv> 20000"
abbreviation (input) SIZEOF_COREDUMP :: u32 where "SIZEOF_COREDUMP \<equiv> 196"
abbreviation (input) SIZEOF_STACKTYPE :: u32 where "SIZEOF_STACKTYPE \<equiv> 1"

type_synonym fan_control_source = u32
abbreviation (input) FAN_CONTROL_SOURCE_BOOT :: fan_control_source where
  "FAN_CONTROL_SOURCE_BOOT \<equiv> 0"
abbreviation (input) FAN_CONTROL_SOURCE_TOUCH :: fan_control_source where
  "FAN_CONTROL_SOURCE_TOUCH \<equiv> 1"
abbreviation (input) FAN_CONTROL_SOURCE_REST :: fan_control_source where
  "FAN_CONTROL_SOURCE_REST \<equiv> 2"
abbreviation (input) FAN_CONTROL_SOURCE_TIMER :: fan_control_source where
  "FAN_CONTROL_SOURCE_TIMER \<equiv> 3"
abbreviation (input) FAN_CONTROL_SOURCE_MAINTENANCE :: fan_control_source where
  "FAN_CONTROL_SOURCE_MAINTENANCE \<equiv> 4"

type_synonym fan_control_action = u32
abbreviation (input) FAN_CONTROL_ACTION_SET_SPEED :: fan_control_action where
  "FAN_CONTROL_ACTION_SET_SPEED \<equiv> 0"
abbreviation (input) FAN_CONTROL_ACTION_CYCLE_NORMAL :: fan_control_action where
  "FAN_CONTROL_ACTION_CYCLE_NORMAL \<equiv> 1"
abbreviation (input) FAN_CONTROL_ACTION_TOGGLE_TURBO :: fan_control_action where
  "FAN_CONTROL_ACTION_TOGGLE_TURBO \<equiv> 2"
abbreviation (input) FAN_CONTROL_ACTION_CYCLE_TIMER :: fan_control_action where
  "FAN_CONTROL_ACTION_CYCLE_TIMER \<equiv> 3"

type_synonym fan_shutoff_mode = u32
abbreviation (input) FAN_SHUTOFF_2H :: fan_shutoff_mode where "FAN_SHUTOFF_2H \<equiv> 0"
abbreviation (input) FAN_SHUTOFF_4H :: fan_shutoff_mode where "FAN_SHUTOFF_4H \<equiv> 1"
abbreviation (input) FAN_SHUTOFF_8H :: fan_shutoff_mode where "FAN_SHUTOFF_8H \<equiv> 2"
abbreviation (input) FAN_SHUTOFF_ALWAYS_ON :: fan_shutoff_mode where "FAN_SHUTOFF_ALWAYS_ON \<equiv> 3"
abbreviation (input) NUM_FAN_SHUTOFF_MODES :: fan_shutoff_mode where "NUM_FAN_SHUTOFF_MODES \<equiv> 4"

datatype fan_control_state =
  FAN_CONTROL_STATE_STARTING | FAN_CONTROL_STATE_READY
  | FAN_CONTROL_STATE_MAINTENANCE | FAN_CONTROL_STATE_FAULT_LATCHED

record fan_control_snapshot =
  fc_applied_speed :: fan_speed
  fc_desired_speed :: fan_speed
  fc_last_change_source :: fan_control_source
  fc_state :: fan_control_state
  fc_shutoff_mode :: fan_shutoff_mode
  fc_shutoff_active :: bool
  fc_pending :: bool
  fc_fault_latched :: bool
  fc_maintenance_active :: bool
  fc_accepted_sequence :: u32
  fc_applied_sequence :: u32
  fc_control_cycles :: u32
  fc_max_cycle_us :: u32
  fc_budget_overruns :: u32
  fc_deadline_misses :: u32
  fc_transitions_attempted :: u32
  fc_transitions_completed :: u32
  fc_duplicate_commands :: u32
  fc_coalesced_commands :: u32
  fc_rejected_commands :: u32
  fc_last_transition_us :: u32
  fc_minimum_transition_interval_ms :: u32
  fc_maximum_transitions_per_minute :: u32
  fc_stack_min_free_bytes :: u32
  fc_fault_error :: u32
  fc_fault_phase :: phase

record fan_command =
  cmd_action :: fan_control_action
  cmd_speed :: fan_speed
  cmd_source :: fan_control_source
  cmd_cancel_timer :: bool
  cmd_sequence :: u32

record fan_coredump_snapshot =
  cd_begin_sequence :: u32
  cd_version :: u32
  cd_size :: u32
  cd_reset_reason :: u32
  cd_uptime_ms :: u32
  cd_control :: fan_control_snapshot
  cd_end_sequence :: u32

text \<open>
  The task's local variables (from \<open>fs_local\<close> to \<open>fs_window_transitions\<close>), the file's
  statics, and the components the task calls: diagnostics, the health table, the decoder
  driver. \<open>fs_task\<close> is \<open>s_task != NULL\<close>; the two event bits are \<open>EVENT_INITIALIZED\<close> and
  \<open>EVENT_QUIESCED\<close>.
\<close>

record fan_sys =
  fs_local :: fan_control_snapshot
  fs_timer_started :: tick
  fs_last_transition_us :: us_time
  fs_window_started_us :: us_time
  fs_window_transitions :: u32
  fs_mailbox :: "fan_command option"
  fs_task :: bool
  fs_initialized :: bool
  fs_quiesced :: bool
  fs_init_result :: esp_err
  fs_snapshot_sequence :: u32
  fs_snapshot :: fan_control_snapshot
  fs_command_sequence :: u32
  fs_coalesced_commands :: u32
  fs_rejected_commands :: u32
  fs_maintenance_requested :: bool
  fs_coredump :: fan_coredump_snapshot
  fs_diag :: diagnostics
  fs_health :: health
  fs_hw :: hc238_state

text \<open>What one cycle reads from the clocks and from FreeRTOS, by place.\<close>

record cycle_input =
  ci_now :: tick
  ci_last_wake :: tick
  ci_cycle_started_us :: us_time
  ci_timer_event_us :: us_time
  ci_begin_event_us :: us_time
  ci_transition_started_us :: us_time
  ci_transition_ended_us :: us_time
  ci_result_event_us :: us_time
  ci_latch_event_us :: us_time
  ci_stack_high_water :: u32
  ci_cycle_ended_us :: us_time
  ci_publish_us :: us_time

section \<open>Publishing and reading the snapshot\<close>

definition next_odd :: "u32 \<Rightarrow> u32" where
  "next_odd sequence = (let s = sequence + 1 in if s AND 1 = 0 then s + 1 else s)"

definition publish_coredump ::
    "fan_control_snapshot \<Rightarrow> us_time \<Rightarrow> diagnostics \<Rightarrow> fan_coredump_snapshot \<Rightarrow> fan_coredump_snapshot"
  where
  "publish_coredump snapshot now_us d c =
     (let begin_seq = next_odd (cd_begin_sequence c) in
      c\<lparr>cd_begin_sequence := begin_seq + 1, cd_version := 2, cd_size := SIZEOF_COREDUMP,
        cd_reset_reason := bi_reset_reason (diagnostics_get_boot_info d),
        cd_uptime_ms := us_to_ms now_us, cd_control := snapshot,
        cd_end_sequence := begin_seq + 1\<rparr>)"

definition publish_snapshot :: "fan_control_snapshot \<Rightarrow> us_time \<Rightarrow> fan_sys \<Rightarrow> fan_sys" where
  "publish_snapshot snapshot now_us s =
     (let sequence = next_odd (fs_snapshot_sequence s) in
      s\<lparr>fs_snapshot := snapshot, fs_snapshot_sequence := sequence + 1,
        fs_coredump := publish_coredump snapshot now_us (fs_diag s) (fs_coredump s)\<rparr>)"

text \<open>The reader's loop over its (at most four) attempts: what each attempt reads before, as
  the copy, and after. Every caller passes the address of a local variable, so the \<open>NULL\<close>
  check in front of the loop is left out.\<close>

fun read_attempts :: "(u32 \<times> 'a \<times> u32) list \<Rightarrow> esp_err \<times> 'a option" where
  "read_attempts [] = (ESP_ERR_TIMEOUT, None)"
| "read_attempts ((before, copy, after) # rest) =
     (if before AND 1 \<noteq> 0 then read_attempts rest
      else if before = after \<and> after AND 1 = 0 then (ESP_OK, Some copy)
      else read_attempts rest)"

definition fan_control_get_snapshot :: "fan_sys \<Rightarrow> esp_err \<times> fan_control_snapshot option" where
  "fan_control_get_snapshot s =
     read_attempts (replicate 4 (fs_snapshot_sequence s, fs_snapshot s, fs_snapshot_sequence s))"

section \<open>Commands and timer\<close>

definition s_shutoff_duration_ms :: "u32 list" where
  "s_shutoff_duration_ms =
     [2 * 60 * 60 * 1000, 4 * 60 * 60 * 1000, 8 * 60 * 60 * 1000, 0]"

definition cancel_timer :: "fan_control_snapshot \<Rightarrow> fan_control_snapshot" where
  "cancel_timer st = st\<lparr>fc_shutoff_mode := FAN_SHUTOFF_ALWAYS_ON, fc_shutoff_active := False\<rparr>"

definition change_speed ::
    "fan_speed \<Rightarrow> fan_control_source \<Rightarrow> bool \<Rightarrow> fan_control_snapshot \<Rightarrow> fan_control_snapshot" where
  "change_speed speed source cancel st =
     (let st = st\<lparr>fc_desired_speed := speed, fc_last_change_source := source\<rparr>;
          st = (if cancel then cancel_timer st else st)
      in if fc_desired_speed st = FAN_SPEED_OFF then cancel_timer st else st)"

definition cycle_timer_mode ::
    "fan_command \<Rightarrow> tick \<Rightarrow> fan_control_snapshot \<Rightarrow> tick \<Rightarrow> fan_control_snapshot \<times> tick" where
  "cycle_timer_mode command now st timer_started =
     (let (st, timer_started) =
        (if fc_desired_speed st \<noteq> FAN_SPEED_OFF then
           let mode = (fc_shutoff_mode st + 1) mod NUM_FAN_SHUTOFF_MODES in
           (st\<lparr>fc_shutoff_mode := mode, fc_shutoff_active := mode \<noteq> FAN_SHUTOFF_ALWAYS_ON\<rparr>, now)
         else (st, timer_started))
      in (st\<lparr>fc_applied_sequence := cmd_sequence command\<rparr>, timer_started))"

definition interpret_command ::
    "fan_control_snapshot \<Rightarrow> fan_command \<Rightarrow> tick \<Rightarrow> tick \<Rightarrow> fan_control_snapshot \<times> tick" where
  "interpret_command st command now timer_started =
     (let st = st\<lparr>fc_accepted_sequence := cmd_sequence command\<rparr> in
      if cmd_action command = FAN_CONTROL_ACTION_CYCLE_NORMAL then
        (change_speed (ucast (fan_policy_next_normal_speed (ucast (fc_desired_speed st))))
           FAN_CONTROL_SOURCE_TOUCH False st, timer_started)
      else if cmd_action command = FAN_CONTROL_ACTION_TOGGLE_TURBO then
        (change_speed (ucast (fan_policy_toggle_turbo (ucast (fc_desired_speed st))))
           FAN_CONTROL_SOURCE_TOUCH False st, timer_started)
      else if cmd_action command = FAN_CONTROL_ACTION_CYCLE_TIMER then
        cycle_timer_mode command now st timer_started
      else
        (change_speed (cmd_speed command) (cmd_source command)
           (cmd_cancel_timer command \<or> cmd_speed command = FAN_SPEED_OFF) st, timer_started))"

definition timer_expired ::
    "fan_control_snapshot \<Rightarrow> tick \<Rightarrow> tick \<Rightarrow> memory_fault + (bool \<times> fan_control_snapshot)" where
  "timer_expired st now timer_started =
     (if \<not> fc_shutoff_active st \<or> fc_desired_speed st = FAN_SPEED_OFF then Inr (False, st)
      else if length s_shutoff_duration_ms \<le> unat (fc_shutoff_mode st) then Inl OutOfBounds
      else
        let duration = s_shutoff_duration_ms ! unat (fc_shutoff_mode st) in
        if \<not> fan_policy_tick_elapsed now timer_started (pdMS_TO_TICKS duration)
        then Inr (False, st)
        else Inr (True, cancel_timer (st\<lparr>fc_desired_speed := FAN_SPEED_OFF,
               fc_last_change_source := FAN_CONTROL_SOURCE_TIMER\<rparr>)))"

section \<open>Accounting\<close>

definition note_interval :: "us_time \<Rightarrow> us_time \<Rightarrow> fan_control_snapshot \<Rightarrow> fan_control_snapshot" where
  "note_interval now_us last_transition_us st =
     (if last_transition_us \<noteq> 0 then
        let interval_ms = us_to_ms (now_us - last_transition_us) in
        if fc_minimum_transition_interval_ms st = 0 \<or>
           interval_ms < fc_minimum_transition_interval_ms st
        then st\<lparr>fc_minimum_transition_interval_ms := interval_ms\<rparr> else st
      else st)"

definition update_transition_rate :: "us_time \<Rightarrow> fan_sys \<Rightarrow> fan_sys" where
  "update_transition_rate now_us s =
     (let st = note_interval now_us (fs_last_transition_us s) (fs_local s);
          fresh = (fs_window_started_us s = 0 \<or> now_us - fs_window_started_us s \<ge> 60000000);
          started = (if fresh then now_us else fs_window_started_us s);
          transitions = (if fresh then 0 else fs_window_transitions s) + 1;
          st = (if fc_maximum_transitions_per_minute st < transitions
                then st\<lparr>fc_maximum_transitions_per_minute := transitions\<rparr> else st)
      in s\<lparr>fs_local := st, fs_last_transition_us := now_us, fs_window_started_us := started,
           fs_window_transitions := transitions\<rparr>)"

section \<open>The actor's cycle\<close>

definition record_event :: "event \<Rightarrow> u32 \<Rightarrow> u32 \<Rightarrow> us_time \<Rightarrow> fan_sys \<Rightarrow> fan_sys" where
  "record_event ev value detail now_us s =
     s\<lparr>fs_diag := diagnostics_record_event ev value detail now_us (fs_diag s)\<rparr>"

definition enter_maintenance :: "fan_control_snapshot \<Rightarrow> fan_control_snapshot" where
  "enter_maintenance st =
     cancel_timer (st\<lparr>fc_state := FAN_CONTROL_STATE_MAINTENANCE, fc_maintenance_active := True,
       fc_desired_speed := FAN_SPEED_OFF,
       fc_last_change_source := FAN_CONTROL_SOURCE_MAINTENANCE\<rparr>)"

text \<open>The start of a cycle; its result is the local \<open>maintenance\<close>, read once per cycle.\<close>

definition cycle_begin :: "fan_sys \<Rightarrow> bool \<times> fan_sys" where
  "cycle_begin s =
     (let st = (fs_local s)\<lparr>fc_control_cycles := fc_control_cycles (fs_local s) + 1,
                 fc_coalesced_commands := fs_coalesced_commands s,
                 fc_rejected_commands := fs_rejected_commands s\<rparr>;
          maintenance = fs_maintenance_requested s
      in (maintenance,
          if maintenance \<and> \<not> fc_fault_latched st then s\<lparr>fs_local := enter_maintenance st\<rparr>
          else if \<not> maintenance \<and> \<not> fc_fault_latched st then
            s\<lparr>fs_local := st\<lparr>fc_state := FAN_CONTROL_STATE_READY, fc_maintenance_active := False\<rparr>,
              fs_quiesced := False\<rparr>
          else s\<lparr>fs_local := st\<rparr>))"

definition cycle_receive :: "bool \<Rightarrow> cycle_input \<Rightarrow> fan_sys \<Rightarrow> fan_sys" where
  "cycle_receive maintenance inp s =
     (case fs_mailbox s of
        Some command \<Rightarrow>
          if \<not> fc_fault_latched (fs_local s) \<and> \<not> maintenance then
            (case interpret_command (fs_local s) command (ci_now inp) (fs_timer_started s) of
               (st, started) \<Rightarrow> s\<lparr>fs_mailbox := None, fs_local := st, fs_timer_started := started\<rparr>)
          else s
      | None \<Rightarrow> s)"

definition cycle_timer :: "bool \<Rightarrow> cycle_input \<Rightarrow> fan_sys \<Rightarrow> memory_fault + fan_sys" where
  "cycle_timer maintenance inp s =
     (if \<not> fc_fault_latched (fs_local s) \<and> \<not> maintenance then
        (case timer_expired (fs_local s) (ci_now inp) (fs_timer_started s) of
           Inl e \<Rightarrow> Inl e
         | Inr (expired, st) \<Rightarrow>
             let s = s\<lparr>fs_local := st\<rparr> in
             Inr (if expired
                  then record_event DIAGNOSTICS_EVENT_TRANSITION_BEGIN FAN_SPEED_OFF
                         FAN_CONTROL_SOURCE_TIMER (ci_timer_event_us inp) s
                  else s))
      else Inr s)"

definition transition_done :: "us_time \<Rightarrow> us_time \<Rightarrow> fan_sys \<Rightarrow> fan_sys" where
  "transition_done started_us event_us s =
     (let st = fs_local s;
          s = s\<lparr>fs_local := st\<lparr>fc_applied_speed := fc_desired_speed st,
                fc_applied_sequence := fc_accepted_sequence st,
                fc_transitions_completed := fc_transitions_completed st + 1\<rparr>\<rparr>;
          s = update_transition_rate started_us s
      in record_event DIAGNOSTICS_EVENT_TRANSITION_COMMIT (fc_applied_speed (fs_local s))
           (fc_applied_sequence (fs_local s)) event_us s)"

definition latch_fault :: "esp_err \<Rightarrow> phase \<Rightarrow> fan_control_snapshot \<Rightarrow> fan_control_snapshot" where
  "latch_fault err phase st =
     cancel_timer (st\<lparr>fc_applied_speed := FAN_SPEED_OFF, fc_desired_speed := FAN_SPEED_OFF,
       fc_fault_latched := True, fc_state := FAN_CONTROL_STATE_FAULT_LATCHED,
       fc_fault_error := err, fc_fault_phase := phase\<rparr>)"

definition transition_failed :: "esp_err \<Rightarrow> phase \<Rightarrow> us_time \<Rightarrow> us_time \<Rightarrow> fan_sys \<Rightarrow> fan_sys" where
  "transition_failed err phase event_us latch_us s =
     (let s = s\<lparr>fs_local := latch_fault err phase (fs_local s)\<rparr>;
          s = record_event DIAGNOSTICS_EVENT_TRANSITION_FAILURE phase err event_us s
      in s\<lparr>fs_diag := diagnostics_latch_fan_fault err phase latch_us (fs_diag s)\<rparr>)"

definition attempt_transition :: "gpio_driver \<Rightarrow> cycle_input \<Rightarrow> fan_sys \<Rightarrow> fan_sys" where
  "attempt_transition drv inp s =
     (let st = fs_local s;
          s = s\<lparr>fs_local := st\<lparr>fc_transitions_attempted := fc_transitions_attempted st + 1\<rparr>\<rparr>;
          s = record_event DIAGNOSTICS_EVENT_TRANSITION_BEGIN (fc_desired_speed st)
                (fc_last_change_source st) (ci_begin_event_us inp) s;
          (err, ph, hw) = fan_transition drv (fc_desired_speed st)
                            (Some FAN_TRANSITION_PHASE_NONE) (fs_hw s);
          phase = (case ph of None \<Rightarrow> FAN_TRANSITION_PHASE_NONE | Some p \<Rightarrow> p);
          s = s\<lparr>fs_hw := hw,
                fs_local := (fs_local s)\<lparr>fc_last_transition_us :=
                  word_of_int (ci_transition_ended_us inp - ci_transition_started_us inp)\<rparr>\<rparr>
      in if err = ESP_OK
         then transition_done (ci_transition_started_us inp) (ci_result_event_us inp) s
         else transition_failed err phase (ci_result_event_us inp) (ci_latch_event_us inp) s)"

definition cycle_transition :: "gpio_driver \<Rightarrow> cycle_input \<Rightarrow> fan_sys \<Rightarrow> fan_sys" where
  "cycle_transition drv inp s =
     (let st = fs_local s in
      if \<not> fc_fault_latched st \<and>
         fan_policy_transition_required (ucast (fc_applied_speed st)) (ucast (fc_desired_speed st))
      then attempt_transition drv inp s
      else if \<not> fc_fault_latched st \<and> fc_accepted_sequence st \<noteq> 0 \<and>
              fc_applied_sequence st \<noteq> fc_accepted_sequence st
      then s\<lparr>fs_local := st\<lparr>fc_duplicate_commands := fc_duplicate_commands st + 1,
                            fc_applied_sequence := fc_accepted_sequence st\<rparr>\<rparr>
      else s)"

definition sample_stack :: "u32 \<Rightarrow> fan_sys \<Rightarrow> fan_sys" where
  "sample_stack high_water s =
     (let st = fs_local s in
      if fc_control_cycles st mod 100 = 0 then
        s\<lparr>fs_local := st\<lparr>fc_stack_min_free_bytes := high_water * SIZEOF_STACKTYPE\<rparr>,
          fs_health := service_health_set_stack SERVICE_FAN (high_water * SIZEOF_STACKTYPE)
                         (fs_health s)\<rparr>
      else s)"

definition account_time :: "u32 \<Rightarrow> u32 \<Rightarrow> fan_control_snapshot \<Rightarrow> fan_control_snapshot" where
  "account_time lateness_us cycle_us st =
     (let st = (if fc_max_cycle_us st < cycle_us then st\<lparr>fc_max_cycle_us := cycle_us\<rparr> else st);
          st = (if CONTROL_BUDGET_US < cycle_us
                then st\<lparr>fc_budget_overruns := fc_budget_overruns st + 1\<rparr> else st)
      in if CONTROL_DEADLINE_US < lateness_us + cycle_us
         then st\<lparr>fc_deadline_misses := fc_deadline_misses st + 1\<rparr> else st)"

definition cycle_account :: "cycle_input \<Rightarrow> fan_sys \<Rightarrow> fan_sys" where
  "cycle_account inp s =
     (let st = fs_local s;
          lateness_us = (ci_now inp - ci_last_wake inp) * portTICK_PERIOD_MS * 1000;
          s = s\<lparr>fs_local := st\<lparr>fc_pending := fc_desired_speed st \<noteq> fc_applied_speed st \<or>
                                fc_accepted_sequence st \<noteq> fc_applied_sequence st\<rparr>\<rparr>;
          s = sample_stack (ci_stack_high_water inp) s;
          cycle_us = word_of_int (ci_cycle_ended_us inp - ci_cycle_started_us inp)
      in s\<lparr>fs_local := account_time lateness_us cycle_us (fs_local s)\<rparr>)"

definition cycle_finish :: "bool \<Rightarrow> cycle_input \<Rightarrow> fan_sys \<Rightarrow> fan_sys" where
  "cycle_finish maintenance inp s =
     (let st = fs_local s;
          s = (if maintenance \<and> fc_applied_speed st = FAN_SPEED_OFF \<and> \<not> fc_fault_latched st
               then s\<lparr>fs_quiesced := True\<rparr> else s)
      in publish_snapshot st (ci_publish_us inp) s)"

text \<open>One undisturbed cycle.\<close>

definition cycle :: "gpio_driver \<Rightarrow> cycle_input \<Rightarrow> fan_sys \<Rightarrow> memory_fault + fan_sys" where
  "cycle drv inp s =
     (case cycle_begin s of (maintenance, s) \<Rightarrow>
        (case cycle_timer maintenance inp (cycle_receive maintenance inp s) of
           Inl e \<Rightarrow> Inl e
         | Inr s \<Rightarrow> Inr (cycle_finish maintenance inp
                          (cycle_account inp (cycle_transition drv inp s)))))"

section \<open>Start of the task\<close>

definition zero_snapshot :: fan_control_snapshot where
  "zero_snapshot =
     \<lparr>fc_applied_speed = 0, fc_desired_speed = 0, fc_last_change_source = 0,
      fc_state = FAN_CONTROL_STATE_STARTING, fc_shutoff_mode = 0, fc_shutoff_active = False,
      fc_pending = False, fc_fault_latched = False, fc_maintenance_active = False,
      fc_accepted_sequence = 0, fc_applied_sequence = 0, fc_control_cycles = 0,
      fc_max_cycle_us = 0, fc_budget_overruns = 0, fc_deadline_misses = 0,
      fc_transitions_attempted = 0, fc_transitions_completed = 0, fc_duplicate_commands = 0,
      fc_coalesced_commands = 0, fc_rejected_commands = 0, fc_last_transition_us = 0,
      fc_minimum_transition_interval_ms = 0, fc_maximum_transitions_per_minute = 0,
      fc_stack_min_free_bytes = 0, fc_fault_error = 0, fc_fault_phase = 0\<rparr>"

definition starting_snapshot :: fan_control_snapshot where
  "starting_snapshot =
     zero_snapshot\<lparr>fc_applied_speed := FAN_SPEED_OFF, fc_desired_speed := FAN_SPEED_OFF,
       fc_last_change_source := FAN_CONTROL_SOURCE_BOOT, fc_state := FAN_CONTROL_STATE_STARTING,
       fc_shutoff_mode := FAN_SHUTOFF_ALWAYS_ON\<rparr>"

definition start_fault :: "esp_err \<Rightarrow> phase \<Rightarrow> us_time \<Rightarrow> fan_sys \<Rightarrow> fan_sys" where
  "start_fault err phase now_us s =
     s\<lparr>fs_diag := diagnostics_latch_fan_fault err phase now_us (fs_diag s),
       fs_local := (fs_local s)\<lparr>fc_fault_latched := True, fc_fault_error := err,
                                fc_fault_phase := phase\<rparr>\<rparr>"

text \<open>The retained fault is read, the decoder initialised and switched off.\<close>

definition start_decoder :: "(gpio \<Rightarrow> bool) \<Rightarrow> gpio_driver \<Rightarrow> us_time \<Rightarrow> fan_sys \<Rightarrow> fan_sys" where
  "start_decoder valid_output drv now_us s =
     (let (retained_error, retained_phase) = diagnostics_get_fan_fault (fs_diag s);
          s = s\<lparr>fs_local := starting_snapshot\<lparr>
                fc_fault_latched := diagnostics_fan_fault_is_latched (fs_diag s),
                fc_fault_error := retained_error, fc_fault_phase := retained_phase\<rparr>,
              fs_timer_started := 0, fs_last_transition_us := 0, fs_window_started_us := 0,
              fs_window_transitions := 0\<rparr>;
          (err, hw) = fan_init valid_output drv (fs_hw s);
          s = s\<lparr>fs_init_result := err, fs_hw := hw\<rparr>
      in if err \<noteq> ESP_OK then start_fault err FAN_TRANSITION_PHASE_DISABLE now_us s
      else
        let (err, ph, hw) = fan_transition drv FAN_SPEED_OFF (Some FAN_TRANSITION_PHASE_NONE)
                              (fs_hw s);
            phase = (case ph of None \<Rightarrow> FAN_TRANSITION_PHASE_NONE | Some p \<Rightarrow> p);
            s = s\<lparr>fs_init_result := err, fs_hw := hw\<rparr>
        in if err \<noteq> ESP_OK then start_fault err phase now_us s else s)"

text \<open>The task up to its loop; \<open>wdt\<close> is what \<open>esp_task_wdt_add_user\<close> returns. A task whose
  \<open>s_init_result\<close> is not \<open>ESP_OK\<close> suspends itself and never runs a cycle.\<close>

definition fan_control_task_start ::
    "(gpio \<Rightarrow> bool) \<Rightarrow> gpio_driver \<Rightarrow> esp_err \<Rightarrow> us_time \<Rightarrow> us_time \<Rightarrow> fan_sys \<Rightarrow> fan_sys" where
  "fan_control_task_start valid_output drv wdt fault_us publish_us s =
     (let s = start_decoder valid_output drv fault_us s;
          s = (if fs_init_result s = ESP_OK then s\<lparr>fs_init_result := wdt\<rparr> else s);
          st = fs_local s;
          latched = fc_fault_latched st;
          st = st\<lparr>fc_state := if latched then FAN_CONTROL_STATE_FAULT_LATCHED
                              else FAN_CONTROL_STATE_READY\<rparr>;
          s = s\<lparr>fs_local := st,
                fs_health := service_health_set SERVICE_FAN
                  (if latched then SERVICE_STATE_FAILED else SERVICE_STATE_READY)
                  (if latched then fc_fault_error st else ESP_OK) (fs_health s)\<rparr>;
          s = publish_snapshot st publish_us s
      in s\<lparr>fs_initialized := True\<rparr>)"

text \<open>What \<open>fan_control_init\<close> gets from FreeRTOS: whether the queue, the event group and the
  task were created, and whether the task reached its loop within the second it waits.\<close>

record fan_init_env =
  ie_mailbox :: bool
  ie_events :: bool
  ie_task :: bool
  ie_started :: bool

definition fan_control_init ::
    "fan_init_env \<Rightarrow> (fan_sys \<Rightarrow> fan_sys) \<Rightarrow> fan_sys \<Rightarrow> esp_err \<times> fan_sys" where
  "fan_control_init env task s =
     (if fs_task s then (ESP_ERR_INVALID_STATE, s)
      else
        let s = s\<lparr>fs_mailbox := None, fs_initialized := False, fs_quiesced := False\<rparr>
        in if \<not> ie_mailbox env \<or> \<not> ie_events env then (ESP_ERR_NO_MEM, s)
        else
          let s = s\<lparr>fs_snapshot := starting_snapshot\<rparr>
          in if \<not> ie_task env then (ESP_ERR_NO_MEM, s)
          else
            let s = s\<lparr>fs_task := True\<rparr>;
                s = (if ie_started env then task s else s)
            in (if fs_initialized s then fs_init_result s else ESP_ERR_TIMEOUT, s))"

section \<open>What other tasks call\<close>

text \<open>The critical section of \<open>submit_command\<close>; \<open>pass\<close> is whether \<open>xQueueOverwrite\<close> succeeds.\<close>

definition submit_locked ::
    "bool \<Rightarrow> fan_command \<Rightarrow> fan_sys \<Rightarrow> esp_err \<times> u32 option \<times> fan_sys" where
  "submit_locked pass command s =
     (if fs_maintenance_requested s then
        (ESP_ERR_NOT_ALLOWED, None, s\<lparr>fs_rejected_commands := fs_rejected_commands s + 1\<rparr>)
      else
        let next = fan_policy_next_sequence (fs_command_sequence s);
            s = s\<lparr>fs_command_sequence := next\<rparr>;
            command = command\<lparr>cmd_sequence := next\<rparr>;
            s = (if fs_mailbox s \<noteq> None
                 then s\<lparr>fs_coalesced_commands := fs_coalesced_commands s + 1\<rparr> else s)
        in if \<not> pass then
             (ESP_FAIL, None, s\<lparr>fs_rejected_commands := fs_rejected_commands s + 1\<rparr>)
           else (ESP_OK, Some next, s\<lparr>fs_mailbox := Some command\<rparr>))"

text \<open>\<open>view\<close> is what reading the snapshot gave, at some moment before.\<close>

definition submit_command ::
    "bool \<Rightarrow> esp_err \<times> fan_control_snapshot option \<Rightarrow> fan_command \<Rightarrow> fan_sys
     \<Rightarrow> esp_err \<times> u32 option \<times> fan_sys" where
  "submit_command pass view command s =
     (case view of
        (err, Some st) \<Rightarrow>
          if \<not> fs_task s \<or> err \<noteq> ESP_OK then (ESP_ERR_INVALID_STATE, None, s)
          else if fc_fault_latched st then
            (ESP_ERR_INVALID_STATE, None, s\<lparr>fs_rejected_commands := fs_rejected_commands s + 1\<rparr>)
          else submit_locked pass command s
      | (_, None) \<Rightarrow> (ESP_ERR_INVALID_STATE, None, s))"

definition fan_control_submit_speed ::
    "bool \<Rightarrow> esp_err \<times> fan_control_snapshot option \<Rightarrow> fan_speed \<Rightarrow> fan_control_source \<Rightarrow> bool
     \<Rightarrow> fan_sys \<Rightarrow> esp_err \<times> u32 option \<times> fan_sys" where
  "fan_control_submit_speed pass view speed source cancel s =
     (if speed < FAN_SPEED_OFF \<or> NUM_FAN_SPEEDS \<le> speed then (ESP_ERR_INVALID_ARG, None, s)
      else submit_command pass view
        \<lparr>cmd_action = FAN_CONTROL_ACTION_SET_SPEED, cmd_speed = speed, cmd_source = source,
         cmd_cancel_timer = cancel, cmd_sequence = 0\<rparr> s)"

definition fan_control_submit_action ::
    "bool \<Rightarrow> esp_err \<times> fan_control_snapshot option \<Rightarrow> fan_control_action
     \<Rightarrow> fan_sys \<Rightarrow> esp_err \<times> u32 option \<times> fan_sys" where
  "fan_control_submit_action pass view action s =
     (if action \<le> FAN_CONTROL_ACTION_SET_SPEED \<or> FAN_CONTROL_ACTION_CYCLE_TIMER < action
      then (ESP_ERR_INVALID_ARG, None, s)
      else submit_command pass view
        \<lparr>cmd_action = action, cmd_speed = FAN_SPEED_OFF, cmd_source = FAN_CONTROL_SOURCE_TOUCH,
         cmd_cancel_timer = False, cmd_sequence = 0\<rparr> s)"

definition fan_control_end_maintenance :: "us_time \<Rightarrow> fan_sys \<Rightarrow> fan_sys" where
  "fan_control_end_maintenance now_us s =
     (let was_active = fs_maintenance_requested s;
          s = s\<lparr>fs_maintenance_requested := False\<rparr>
      in if was_active then record_event DIAGNOSTICS_EVENT_MAINTENANCE_END 0 0 now_us s else s)"

text \<open>\<open>fan_control_quiesce\<close> up to its wait, and after it.\<close>

definition quiesce_request :: "us_time \<Rightarrow> fan_sys \<Rightarrow> fan_sys" where
  "quiesce_request now_us s =
     (let s = s\<lparr>fs_maintenance_requested := True\<rparr>;
          s = (if fs_mailbox s \<noteq> None
               then s\<lparr>fs_coalesced_commands := fs_coalesced_commands s + 1\<rparr> else s);
          s = s\<lparr>fs_mailbox := None\<rparr>
      in record_event DIAGNOSTICS_EVENT_MAINTENANCE_BEGIN 0 0 now_us s)"

definition quiesce_result :: "us_time \<Rightarrow> fan_sys \<Rightarrow> esp_err \<times> fan_sys" where
  "quiesce_result now_us s =
     (if \<not> fs_quiesced s then (ESP_ERR_TIMEOUT, fan_control_end_maintenance now_us s)
      else (ESP_OK, s))"

text \<open>The wait returns as soon as the bit is set, at the latest after \<open>inputs\<close> cycles.\<close>

fun wait_quiesced :: "gpio_driver \<Rightarrow> cycle_input list \<Rightarrow> fan_sys \<Rightarrow> memory_fault + fan_sys" where
  "wait_quiesced drv [] s = Inr s"
| "wait_quiesced drv (inp # rest) s =
     (if fs_quiesced s then Inr s
      else case cycle drv inp s of Inl e \<Rightarrow> Inl e | Inr s \<Rightarrow> wait_quiesced drv rest s)"

definition fan_control_quiesce ::
    "gpio_driver \<Rightarrow> cycle_input list \<Rightarrow> us_time \<Rightarrow> us_time \<Rightarrow> fan_sys
     \<Rightarrow> memory_fault + esp_err \<times> fan_sys" where
  "fan_control_quiesce drv inputs begin_us end_us s =
     (if \<not> fs_task s then Inr (ESP_ERR_INVALID_STATE, s)
      else case wait_quiesced drv inputs (quiesce_request begin_us s) of
        Inl e \<Rightarrow> Inl e
      | Inr s \<Rightarrow> Inr (quiesce_result end_us s))"

section \<open>Names\<close>

fun fan_control_state_name :: "fan_control_state \<Rightarrow> string" where
  "fan_control_state_name FAN_CONTROL_STATE_STARTING = ''starting''"
| "fan_control_state_name FAN_CONTROL_STATE_READY = ''ready''"
| "fan_control_state_name FAN_CONTROL_STATE_MAINTENANCE = ''maintenance''"
| "fan_control_state_name FAN_CONTROL_STATE_FAULT_LATCHED = ''fault_latched''"

definition fan_control_source_name :: "fan_control_source \<Rightarrow> string" where
  "fan_control_source_name source =
     (if source = FAN_CONTROL_SOURCE_BOOT then ''boot''
      else if source = FAN_CONTROL_SOURCE_TOUCH then ''touch''
      else if source = FAN_CONTROL_SOURCE_REST then ''rest''
      else if source = FAN_CONTROL_SOURCE_TIMER then ''timer''
      else if source = FAN_CONTROL_SOURCE_MAINTENANCE then ''maintenance''
      else ''unknown'')"

definition fan_control_phase_name :: "phase \<Rightarrow> string" where
  "fan_control_phase_name phase =
     (if phase = FAN_TRANSITION_PHASE_NONE then ''none''
      else if phase = FAN_TRANSITION_PHASE_DISABLE then ''disable''
      else if phase = FAN_TRANSITION_PHASE_ADDRESS then ''address''
      else if phase = FAN_TRANSITION_PHASE_ENABLE then ''enable''
      else ''unknown'')"

definition fan_control_shutoff_mode_name :: "fan_shutoff_mode \<Rightarrow> string" where
  "fan_control_shutoff_mode_name mode =
     (if mode = FAN_SHUTOFF_2H then ''2h''
      else if mode = FAN_SHUTOFF_4H then ''4h''
      else if mode = FAN_SHUTOFF_8H then ''8h''
      else if mode = FAN_SHUTOFF_ALWAYS_ON then ''always_on''
      else ''unknown'')"

end
