(* ===== verification/FanActor.thy ===== *)
theory FanActor
  imports FanControl
begin

text \<open>
  The fan actor among the other tasks: the stages of its cycle and the critical sections of
  the calls it shares its state with, interleaved in any order, and what holds in every state
  they reach.
\<close>

section \<open>The step relation\<close>

text \<open>
  Between the stages other tasks may run. Only the actor writes its local state, the
  decoder driver and the snapshot; the others reach the mailbox, the counters, the
  maintenance flag and the diagnostics ring. \<open>Suspended\<close> is the task after a failed start.
\<close>

datatype stage = Begun | Received | Timed | Moved | Accounted

datatype actor_pc = Suspended | Sleeping | In_Cycle stage cycle_input bool

inductive actor_step :: "gpio_driver \<Rightarrow> actor_pc \<times> fan_sys \<Rightarrow> actor_pc \<times> fan_sys \<Rightarrow> bool"
  for drv where
  begin_step: "cycle_begin s = (m, s') \<Longrightarrow>
    actor_step drv (Sleeping, s) (In_Cycle Begun inp m, s')"
| receive_step: "actor_step drv (In_Cycle Begun inp m, s) (In_Cycle Received inp m, cycle_receive m inp s)"
| timer_step: "cycle_timer m inp s = Inr s' \<Longrightarrow>
    actor_step drv (In_Cycle Received inp m, s) (In_Cycle Timed inp m, s')"
| transition_step: "actor_step drv (In_Cycle Timed inp m, s) (In_Cycle Moved inp m, cycle_transition drv inp s)"
| account_step: "actor_step drv (In_Cycle Moved inp m, s) (In_Cycle Accounted inp m, cycle_account inp s)"
| finish_step: "actor_step drv (In_Cycle Accounted inp m, s) (Sleeping, cycle_finish m inp s)"

text \<open>The commands that the two public calls can put into the mailbox.\<close>

definition valid_command :: "fan_command \<Rightarrow> bool" where
  "valid_command c \<longleftrightarrow> cmd_speed c < NUM_FAN_SPEEDS \<and> cmd_action c \<le> FAN_CONTROL_ACTION_CYCLE_TIMER"

inductive client_step :: "fan_sys \<Rightarrow> fan_sys \<Rightarrow> bool" where
  submit_step: "valid_command c \<Longrightarrow> client_step s (snd (snd (submit_locked pass c s)))"
| refuse_step: "client_step s (s\<lparr>fs_rejected_commands := fs_rejected_commands s + 1\<rparr>)"
| quiesce_step: "client_step s (quiesce_request now_us s)"
| release_step: "client_step s (fan_control_end_maintenance now_us s)"
| event_step: "client_step s (record_event ev value detail now_us s)"

inductive fan_step :: "gpio_driver \<Rightarrow> actor_pc \<times> fan_sys \<Rightarrow> actor_pc \<times> fan_sys \<Rightarrow> bool"
  for drv where
  by_actor: "actor_step drv a b \<Longrightarrow> fan_step drv a b"
| by_client: "client_step s s' \<Longrightarrow> fan_step drv (pc, s) (pc, s')"

inductive_cases actor_stepE: "actor_step drv (pc, s) (pc', s')"
inductive_cases client_stepE: "client_step s s'"
inductive_cases fan_stepE: "fan_step drv (pc, s) (pc', s')"

text \<open>The task's start from the state the boot leaves: no task, no maintenance, an empty mailbox.\<close>

definition boot_state :: "fan_sys \<Rightarrow> bool" where
  "boot_state s \<longleftrightarrow> fs_mailbox s = None \<and> \<not> fs_maintenance_requested s \<and> \<not> fs_quiesced s"

inductive reachable :: "(gpio \<Rightarrow> bool) \<Rightarrow> gpio_driver \<Rightarrow> actor_pc \<times> fan_sys \<Rightarrow> bool"
  for valid_output drv where
  started: "boot_state s0 \<Longrightarrow> s = fan_control_task_start valid_output drv wdt fault_us publish_us s0 \<Longrightarrow>
    pc = (if fs_init_result s = ESP_OK then Sleeping else Suspended) \<Longrightarrow>
    reachable valid_output drv (pc, s)"
| step: "reachable valid_output drv a \<Longrightarrow> fan_step drv a b \<Longrightarrow> reachable valid_output drv b"

section \<open>The invariant\<close>

definition state_ok :: "fan_control_snapshot \<Rightarrow> bool" where
  "state_ok st \<longleftrightarrow> fc_applied_speed st < NUM_FAN_SPEEDS \<and> fc_desired_speed st < NUM_FAN_SPEEDS \<and>
     fc_shutoff_mode st < NUM_FAN_SHUTOFF_MODES \<and>
     (fc_shutoff_active st \<longleftrightarrow> fc_shutoff_mode st \<noteq> FAN_SHUTOFF_ALWAYS_ON) \<and>
     (fc_shutoff_active st \<longrightarrow> fc_desired_speed st \<noteq> FAN_SPEED_OFF) \<and>
     (fc_fault_latched st \<longrightarrow> fc_applied_speed st = FAN_SPEED_OFF \<and> fc_desired_speed st = FAN_SPEED_OFF) \<and>
     (fc_accepted_sequence st = 0 \<longrightarrow> fc_applied_sequence st = 0)"

definition mailbox_ok :: "fan_sys \<Rightarrow> bool" where
  "mailbox_ok s \<longleftrightarrow> (fs_maintenance_requested s \<longrightarrow> fs_mailbox s = None) \<and>
     (\<forall>c. fs_mailbox s = Some c \<longrightarrow> valid_command c \<and> cmd_sequence c \<noteq> 0)"

definition hw_ok :: "pads \<Rightarrow> fan_sys \<Rightarrow> bool" where
  "hw_ok p0 s \<longleftrightarrow> driver_inv p0 (fs_hw s) \<and>
     (\<not> fc_fault_latched (fs_local s) \<longrightarrow>
        driver_output p0 (fs_hw s) = speed_output (fc_applied_speed (fs_local s))) \<and>
     (fc_fault_latched (fs_local s) \<longrightarrow> diagnostics_fan_fault_is_latched (fs_diag s))"

definition quiesced_ok :: "fan_sys \<Rightarrow> bool" where
  "quiesced_ok s \<longleftrightarrow> (fs_quiesced s \<longrightarrow> \<not> fc_fault_latched (fs_local s) \<and>
     fc_applied_speed (fs_local s) = FAN_SPEED_OFF \<and> fc_desired_speed (fs_local s) = FAN_SPEED_OFF)"

definition sys_ok :: "pads \<Rightarrow> fan_sys \<Rightarrow> bool" where
  "sys_ok p0 s \<longleftrightarrow> state_ok (fs_local s) \<and> mailbox_ok s \<and> hw_ok p0 s \<and> quiesced_ok s"

text \<open>After the transition stage the desired speed is the applied one and the accepted command
  has been applied, unless a fault is latched.\<close>

definition settled :: "fan_control_snapshot \<Rightarrow> bool" where
  "settled st \<longleftrightarrow> \<not> fc_fault_latched st \<longrightarrow> fc_desired_speed st = fc_applied_speed st \<and>
     fc_accepted_sequence st = fc_applied_sequence st"

definition in_maintenance :: "bool \<Rightarrow> fan_sys \<Rightarrow> bool" where
  "in_maintenance m s \<longleftrightarrow> (fs_quiesced s \<longrightarrow> m) \<and>
     (m \<and> \<not> fc_fault_latched (fs_local s) \<longrightarrow> fc_desired_speed (fs_local s) = FAN_SPEED_OFF)"

definition pending_ok :: "fan_control_snapshot \<Rightarrow> bool" where
  "pending_ok st \<longleftrightarrow> (fc_pending st \<longleftrightarrow> fc_desired_speed st \<noteq> fc_applied_speed st \<or>
     fc_accepted_sequence st \<noteq> fc_applied_sequence st)"

fun pc_ok :: "actor_pc \<Rightarrow> fan_sys \<Rightarrow> bool" where
  "pc_ok (In_Cycle stage inp m) s \<longleftrightarrow> in_maintenance m s \<and>
     (stage \<in> {Moved, Accounted} \<longrightarrow> settled (fs_local s)) \<and>
     (stage = Accounted \<longrightarrow> pending_ok (fs_local s))"
| "pc_ok _ s \<longleftrightarrow> settled (fs_local s) \<and> pending_ok (fs_local s) \<and> fs_snapshot s = fs_local s"

section \<open>The stages keep the invariant\<close>

lemma record_event_sys [simp]:
  "fs_local (record_event ev v x t s) = fs_local s"
  "fs_hw (record_event ev v x t s) = fs_hw s"
  "fs_mailbox (record_event ev v x t s) = fs_mailbox s"
  "fs_quiesced (record_event ev v x t s) = fs_quiesced s"
  "fs_maintenance_requested (record_event ev v x t s) = fs_maintenance_requested s"
  "fs_snapshot (record_event ev v x t s) = fs_snapshot s"
  "fs_task (record_event ev v x t s) = fs_task s"
  "diagnostics_fan_fault_is_latched (fs_diag (record_event ev v x t s)) =
     diagnostics_fan_fault_is_latched (fs_diag s)"
  by (simp_all add: record_event_def diagnostics_fan_fault_is_latched_def)

lemma publish_snapshot_sys [simp]:
  "fs_local (publish_snapshot st t s) = fs_local s"
  "fs_hw (publish_snapshot st t s) = fs_hw s"
  "fs_mailbox (publish_snapshot st t s) = fs_mailbox s"
  "fs_quiesced (publish_snapshot st t s) = fs_quiesced s"
  "fs_maintenance_requested (publish_snapshot st t s) = fs_maintenance_requested s"
  "fs_snapshot (publish_snapshot st t s) = st"
  "fs_diag (publish_snapshot st t s) = fs_diag s"
  "fs_task (publish_snapshot st t s) = fs_task s"
  "fs_init_result (publish_snapshot st t s) = fs_init_result s"
  by (simp_all add: publish_snapshot_def Let_def)

lemmas sys_defs = sys_ok_def mailbox_ok_def hw_ok_def quiesced_ok_def

text \<open>The invariant only looks at a few fields.\<close>

lemma sys_ok_cong:
  assumes "sys_ok p0 s" and "fs_local s' = fs_local s" "fs_hw s' = fs_hw s"
    "fs_mailbox s' = fs_mailbox s" "fs_maintenance_requested s' = fs_maintenance_requested s"
    "fs_quiesced s' = fs_quiesced s"
    "diagnostics_fan_fault_is_latched (fs_diag s') = diagnostics_fan_fault_is_latched (fs_diag s)"
  shows "sys_ok p0 s'"
  using assms by (simp add: sys_defs)

lemma mode_cases:
  fixes mode :: u32 assumes "mode < 4" shows "mode \<in> {0, 1, 2, 3}"
proof -
  have "unat mode < 4" using assms by (simp add: word_less_nat_alt)
  then have "unat mode \<in> {0, 1, 2, 3}" by auto
  then have "mode \<in> of_nat ` {0, 1, 2, 3}" by (metis imageI of_nat_unat ucast_id)
  then show ?thesis by auto
qed

lemma next_speed_valid: "ucast (fan_policy_next_normal_speed v) < (5 :: u32)"
  by (simp add: fan_policy_next_normal_speed_def)

lemma turbo_valid: "ucast (fan_policy_toggle_turbo v) < (5 :: u32)"
  by (simp add: fan_policy_toggle_turbo_def)

lemma change_speed_ok:
  assumes "state_ok st" "speed < NUM_FAN_SPEEDS" "\<not> fc_fault_latched st"
  shows "state_ok (change_speed speed source c st)"
  using assms by (auto simp: state_ok_def change_speed_def cancel_timer_def Let_def)

lemma cycle_timer_mode_ok:
  assumes "state_ok st" and "\<not> fc_fault_latched st" "fc_accepted_sequence st \<noteq> 0"
  shows "state_ok (fst (cycle_timer_mode c now st started))"
proof -
  have "fc_shutoff_mode st \<in> {0, 1, 2, 3}" using assms(1) by (intro mode_cases) (simp add: state_ok_def)
  then show ?thesis
    using assms by (auto simp: state_ok_def cycle_timer_mode_def Let_def)
qed

lemma interpret_frame [simp]:
  "fc_applied_speed (fst (interpret_command st c now started)) = fc_applied_speed st"
  "fc_fault_latched (fst (interpret_command st c now started)) = fc_fault_latched st"
  by (simp_all add: interpret_command_def change_speed_def cycle_timer_mode_def cancel_timer_def Let_def)

lemma interpret_command_ok:
  assumes "state_ok st" "\<not> fc_fault_latched st" "valid_command c" "cmd_sequence c \<noteq> 0"
  shows "state_ok (fst (interpret_command st c now started))"
proof -
  have "state_ok (st\<lparr>fc_accepted_sequence := cmd_sequence c\<rparr>)"
    using assms by (simp add: state_ok_def)
  then show ?thesis
    using assms next_speed_valid turbo_valid
    by (simp add: interpret_command_def change_speed_ok cycle_timer_mode_ok valid_command_def Let_def)
qed

lemma state_ok_counters [simp]:
  "state_ok (st\<lparr>fc_control_cycles := n\<rparr>) = state_ok st"
  "state_ok (st\<lparr>fc_coalesced_commands := n\<rparr>) = state_ok st"
  "state_ok (st\<lparr>fc_rejected_commands := n\<rparr>) = state_ok st"
  "state_ok (st\<lparr>fc_state := x\<rparr>) = state_ok st"
  "state_ok (st\<lparr>fc_maintenance_active := b\<rparr>) = state_ok st"
  "state_ok (st\<lparr>fc_transitions_attempted := n\<rparr>) = state_ok st"
  "state_ok (st\<lparr>fc_transitions_completed := n\<rparr>) = state_ok st"
  "state_ok (st\<lparr>fc_last_transition_us := n\<rparr>) = state_ok st"
  "state_ok (st\<lparr>fc_pending := b\<rparr>) = state_ok st"
  "state_ok (st\<lparr>fc_stack_min_free_bytes := n\<rparr>) = state_ok st"
  "state_ok (st\<lparr>fc_max_cycle_us := n\<rparr>) = state_ok st"
  "state_ok (st\<lparr>fc_budget_overruns := n\<rparr>) = state_ok st"
  "state_ok (st\<lparr>fc_deadline_misses := n\<rparr>) = state_ok st"
  "state_ok (st\<lparr>fc_minimum_transition_interval_ms := n\<rparr>) = state_ok st"
  "state_ok (st\<lparr>fc_maximum_transitions_per_minute := n\<rparr>) = state_ok st"
  by (simp_all add: state_ok_def)

lemma enter_maintenance_ok: "state_ok st \<Longrightarrow> \<not> fc_fault_latched st \<Longrightarrow> state_ok (enter_maintenance st)"
  by (simp add: state_ok_def enter_maintenance_def cancel_timer_def)

lemma enter_maintenance_frame [simp]:
  "fc_applied_speed (enter_maintenance st) = fc_applied_speed st"
  "fc_fault_latched (enter_maintenance st) = fc_fault_latched st"
  "fc_desired_speed (enter_maintenance st) = FAN_SPEED_OFF"
  by (simp_all add: enter_maintenance_def cancel_timer_def)

lemma cycle_begin_ok:
  assumes ok: "sys_ok p0 s" and run: "cycle_begin s = (m, s')"
  shows "sys_ok p0 s' \<and> in_maintenance m s'"
proof -
  have m: "m = fs_maintenance_requested s" using run by (simp add: cycle_begin_def Let_def)
  consider "m" "\<not> fc_fault_latched (fs_local s)" | "\<not> m" "\<not> fc_fault_latched (fs_local s)"
    | "fc_fault_latched (fs_local s)" by blast
  then show ?thesis
  proof cases
    case 1
    with ok run m show ?thesis
      by (auto simp: cycle_begin_def sys_defs in_maintenance_def enter_maintenance_ok Let_def)
  next
    case 2
    with ok run m show ?thesis
      by (auto simp: cycle_begin_def sys_defs in_maintenance_def Let_def)
  next
    case 3
    with ok run m show ?thesis
      by (auto simp: cycle_begin_def sys_defs in_maintenance_def Let_def)
  qed
qed

lemma cycle_receive_ok:
  assumes "sys_ok p0 s" and "in_maintenance m s"
  shows "sys_ok p0 (cycle_receive m inp s) \<and> in_maintenance m (cycle_receive m inp s)"
proof (cases "fs_mailbox s")
  case None
  with assms show ?thesis by (simp add: cycle_receive_def)
next
  case (Some c)
  show ?thesis
  proof (cases "\<not> fc_fault_latched (fs_local s) \<and> \<not> m")
    case True
    then have "state_ok (fst (interpret_command (fs_local s) c (ci_now inp) (fs_timer_started s)))"
      using assms(1) Some by (intro interpret_command_ok) (simp_all add: sys_defs)
    with True Some assms show ?thesis
      by (auto simp: cycle_receive_def sys_defs in_maintenance_def split_beta)
  qed (use Some assms in \<open>auto simp: cycle_receive_def\<close>)
qed

lemma timer_expired_ok:
  assumes "state_ok st" and "timer_expired st now started = Inr (e, st')" and "\<not> fc_fault_latched st"
  shows "state_ok st'" and "fc_applied_speed st' = fc_applied_speed st"
    and "fc_fault_latched st' = fc_fault_latched st"
  using assms by (auto simp: timer_expired_def state_ok_def cancel_timer_def Let_def split: if_splits)

lemma timer_expired_total:
  assumes "state_ok st"
  shows "\<exists>r. timer_expired st now started = Inr r"
proof -
  have "fc_shutoff_mode st \<in> {0, 1, 2, 3}" using assms by (intro mode_cases) (simp add: state_ok_def)
  then show ?thesis by (auto simp: timer_expired_def s_shutoff_duration_ms_def Let_def)
qed

lemma cycle_timer_ok:
  assumes ok: "sys_ok p0 s" "in_maintenance m s" and run: "cycle_timer m inp s = Inr s'"
  shows "sys_ok p0 s' \<and> in_maintenance m s'"
proof (cases "\<not> fc_fault_latched (fs_local s) \<and> \<not> m")
  case True
  obtain e st where st: "timer_expired (fs_local s) (ci_now inp) (fs_timer_started s) = Inr (e, st)"
    using timer_expired_total [of "fs_local s" "ci_now inp" "fs_timer_started s"] ok(1)
    by (auto simp: sys_ok_def)
  note st_ok = timer_expired_ok [OF _ st]
  let ?s = "s\<lparr>fs_local := st\<rparr>"
  have "sys_ok p0 ?s" using ok st_ok True by (auto simp: sys_defs in_maintenance_def)
  moreover have "in_maintenance m ?s" using ok True by (simp add: in_maintenance_def)
  moreover have "s' = ?s \<or> s' = record_event DIAGNOSTICS_EVENT_TRANSITION_BEGIN FAN_SPEED_OFF
      FAN_CONTROL_SOURCE_TIMER (ci_timer_event_us inp) ?s"
    using run True st by (auto simp: cycle_timer_def Let_def split: if_splits)
  ultimately show ?thesis
    using sys_ok_cong [of p0 ?s s'] by (auto simp: in_maintenance_def)
qed (use ok run in \<open>auto simp: cycle_timer_def\<close>)

lemma cycle_timer_total:
  assumes "sys_ok p0 s"
  shows "\<exists>s'. cycle_timer m inp s = Inr s'"
  using timer_expired_total [of "fs_local s" "ci_now inp" "fs_timer_started s"] assms
  by (auto simp: cycle_timer_def sys_ok_def Let_def split: prod.splits)

lemma ucast_speed_inject:
  assumes "v < (5 :: u32)" "w < 5"
  shows "(ucast v :: u8) = ucast w \<longleftrightarrow> v = w"
proof -
  have "v \<in> {0, 1, 2, 3, 4}" "w \<in> {0, 1, 2, 3, 4}" using assms valid_speed_cases by auto
  then show ?thesis by auto
qed

lemma transition_required_iff:
  "state_ok st \<Longrightarrow>
     fan_policy_transition_required (ucast (fc_applied_speed st)) (ucast (fc_desired_speed st)) \<longleftrightarrow>
     fc_applied_speed st \<noteq> fc_desired_speed st"
  by (simp add: fan_policy_transition_required_def state_ok_def ucast_speed_inject)

text \<open>What a completed and a failed transition leave.\<close>

lemma update_transition_rate_frame [simp]:
  "fs_hw (update_transition_rate t s) = fs_hw s"
  "fs_mailbox (update_transition_rate t s) = fs_mailbox s"
  "fs_quiesced (update_transition_rate t s) = fs_quiesced s"
  "fs_maintenance_requested (update_transition_rate t s) = fs_maintenance_requested s"
  "fs_diag (update_transition_rate t s) = fs_diag s"
  "fs_snapshot (update_transition_rate t s) = fs_snapshot s"
  "fs_task (update_transition_rate t s) = fs_task s"
  by (simp_all add: update_transition_rate_def Let_def)

lemma note_interval_frame [simp]:
  "state_ok (note_interval t l st) = state_ok st"
  "fc_applied_speed (note_interval t l st) = fc_applied_speed st"
  "fc_desired_speed (note_interval t l st) = fc_desired_speed st"
  "fc_fault_latched (note_interval t l st) = fc_fault_latched st"
  "fc_accepted_sequence (note_interval t l st) = fc_accepted_sequence st"
  "fc_applied_sequence (note_interval t l st) = fc_applied_sequence st"
  "fc_shutoff_active (note_interval t l st) = fc_shutoff_active st"
  "fc_shutoff_mode (note_interval t l st) = fc_shutoff_mode st"
  by (simp_all add: note_interval_def Let_def)

lemma update_transition_rate_local [simp]:
  "state_ok (fs_local (update_transition_rate t s)) = state_ok (fs_local s)"
  "fc_applied_speed (fs_local (update_transition_rate t s)) = fc_applied_speed (fs_local s)"
  "fc_desired_speed (fs_local (update_transition_rate t s)) = fc_desired_speed (fs_local s)"
  "fc_fault_latched (fs_local (update_transition_rate t s)) = fc_fault_latched (fs_local s)"
  "fc_accepted_sequence (fs_local (update_transition_rate t s)) = fc_accepted_sequence (fs_local s)"
  "fc_applied_sequence (fs_local (update_transition_rate t s)) = fc_applied_sequence (fs_local s)"
  "fc_shutoff_active (fs_local (update_transition_rate t s)) = fc_shutoff_active (fs_local s)"
  "fc_shutoff_mode (fs_local (update_transition_rate t s)) = fc_shutoff_mode (fs_local s)"
  by (simp_all add: update_transition_rate_def Let_def)

lemma transition_done_frame [simp]:
  "fs_hw (transition_done a b s) = fs_hw s"
  "fs_mailbox (transition_done a b s) = fs_mailbox s"
  "fs_quiesced (transition_done a b s) = fs_quiesced s"
  "fs_maintenance_requested (transition_done a b s) = fs_maintenance_requested s"
  "fs_snapshot (transition_done a b s) = fs_snapshot s"
  "fs_task (transition_done a b s) = fs_task s"
  "fc_applied_speed (fs_local (transition_done a b s)) = fc_desired_speed (fs_local s)"
  "fc_desired_speed (fs_local (transition_done a b s)) = fc_desired_speed (fs_local s)"
  "fc_fault_latched (fs_local (transition_done a b s)) = fc_fault_latched (fs_local s)"
  "fc_accepted_sequence (fs_local (transition_done a b s)) = fc_accepted_sequence (fs_local s)"
  "fc_applied_sequence (fs_local (transition_done a b s)) = fc_accepted_sequence (fs_local s)"
  by (simp_all add: transition_done_def Let_def)

lemma transition_done_ok:
  "state_ok (fs_local s) \<Longrightarrow> \<not> fc_fault_latched (fs_local s) \<Longrightarrow> state_ok (fs_local (transition_done a b s))"
  by (simp add: transition_done_def Let_def state_ok_def)

lemma latched_after_latch [simp]:
  "diagnostics_fan_fault_is_latched (diagnostics_latch_fan_fault e p t d)"
  by (simp add: diagnostics_fan_fault_is_latched_def fan_fault_is_valid_def)

lemma transition_failed_frame [simp]:
  "fs_hw (transition_failed e p a b s) = fs_hw s"
  "fs_mailbox (transition_failed e p a b s) = fs_mailbox s"
  "fs_quiesced (transition_failed e p a b s) = fs_quiesced s"
  "fs_maintenance_requested (transition_failed e p a b s) = fs_maintenance_requested s"
  "fs_snapshot (transition_failed e p a b s) = fs_snapshot s"
  "fs_task (transition_failed e p a b s) = fs_task s"
  "fs_local (transition_failed e p a b s) = latch_fault e p (fs_local s)"
  "diagnostics_fan_fault_is_latched (fs_diag (transition_failed e p a b s))"
  by (simp_all add: transition_failed_def Let_def)

lemma latch_fault_ok [simp]:
  "state_ok st \<Longrightarrow> state_ok (latch_fault e p st)"
  "fc_fault_latched (latch_fault e p st)"
  "fc_applied_speed (latch_fault e p st) = FAN_SPEED_OFF"
  "fc_desired_speed (latch_fault e p st) = FAN_SPEED_OFF"
  by (simp_all add: latch_fault_def state_ok_def cancel_timer_def)

text \<open>An attempted transition either succeeds or latches the fault.\<close>

definition attempting :: "cycle_input \<Rightarrow> hc238_state \<Rightarrow> fan_sys \<Rightarrow> fan_sys" where
  "attempting inp hw s =
     (let st = fs_local s; st' = st\<lparr>fc_transitions_attempted := fc_transitions_attempted st + 1\<rparr>
      in (record_event DIAGNOSTICS_EVENT_TRANSITION_BEGIN (fc_desired_speed st)
           (fc_last_change_source st) (ci_begin_event_us inp) (s\<lparr>fs_local := st'\<rparr>))
         \<lparr>fs_hw := hw, fs_local := st'\<lparr>fc_last_transition_us :=
            word_of_int (ci_transition_ended_us inp - ci_transition_started_us inp)\<rparr>\<rparr>)"

lemma attempting_frame [simp]:
  "fs_hw (attempting inp hw s) = hw"
  "fs_mailbox (attempting inp hw s) = fs_mailbox s"
  "fs_quiesced (attempting inp hw s) = fs_quiesced s"
  "fs_maintenance_requested (attempting inp hw s) = fs_maintenance_requested s"
  "fs_snapshot (attempting inp hw s) = fs_snapshot s"
  "fs_task (attempting inp hw s) = fs_task s"
  "state_ok (fs_local (attempting inp hw s)) = state_ok (fs_local s)"
  "fc_applied_speed (fs_local (attempting inp hw s)) = fc_applied_speed (fs_local s)"
  "fc_desired_speed (fs_local (attempting inp hw s)) = fc_desired_speed (fs_local s)"
  "fc_fault_latched (fs_local (attempting inp hw s)) = fc_fault_latched (fs_local s)"
  "fc_accepted_sequence (fs_local (attempting inp hw s)) = fc_accepted_sequence (fs_local s)"
  by (simp_all add: attempting_def Let_def)

lemma attempt_transition_cases:
  assumes "fan_transition drv (fc_desired_speed (fs_local s)) (Some 0) (fs_hw s) = (err, ph, hw)"
  shows "attempt_transition drv inp s =
    (if err = ESP_OK
     then transition_done (ci_transition_started_us inp) (ci_result_event_us inp) (attempting inp hw s)
     else transition_failed err (case ph of None \<Rightarrow> 0 | Some p \<Rightarrow> p) (ci_result_event_us inp)
            (ci_latch_event_us inp) (attempting inp hw s))"
  using assms by (simp add: attempt_transition_def attempting_def Let_def)

lemma attempt_transition_ok:
  assumes ok: "sys_ok p0 s" "in_maintenance m s" and "\<not> fc_fault_latched (fs_local s)"
    and "fc_applied_speed (fs_local s) \<noteq> fc_desired_speed (fs_local s)"
  shows "sys_ok p0 (attempt_transition drv inp s) \<and> in_maintenance m (attempt_transition drv inp s) \<and>
    settled (fs_local (attempt_transition drv inp s))"
proof -
  obtain err ph hw where run:
      "fan_transition drv (fc_desired_speed (fs_local s)) (Some 0) (fs_hw s) = (err, ph, hw)"
    by (cases "fan_transition drv (fc_desired_speed (fs_local s)) (Some 0) (fs_hw s)")
  have inv: "driver_inv p0 (fs_hw s)" using ok(1) by (simp add: sys_defs)
  have bit: "\<not> fs_quiesced s" using ok(1) assms(3,4) by (auto simp: sys_defs)
  show ?thesis
  proof (cases "err = ESP_OK")
    case True
    note sel = fan_transition_output [OF inv run [unfolded True]]
    show ?thesis unfolding attempt_transition_cases [OF run]
      using True sel ok assms(3) bit
      by (simp add: sys_defs in_maintenance_def settled_def transition_done_ok)
  next
    case False
    have inv': "driver_inv p0 hw" by (rule fan_transition_inv [OF inv run])
    show ?thesis unfolding attempt_transition_cases [OF run]
      using False inv' ok assms(3) bit
      by (simp add: sys_defs in_maintenance_def settled_def)
  qed
qed

lemma cycle_transition_ok:
  assumes ok: "sys_ok p0 s" "in_maintenance m s"
  shows "sys_ok p0 (cycle_transition drv inp s) \<and> in_maintenance m (cycle_transition drv inp s) \<and>
    settled (fs_local (cycle_transition drv inp s))"
proof -
  let ?st = "fs_local s"
  have st: "state_ok ?st" using ok(1) by (simp add: sys_ok_def)
  consider "\<not> fc_fault_latched ?st" "fc_applied_speed ?st \<noteq> fc_desired_speed ?st"
    | "\<not> fc_fault_latched ?st" "fc_applied_speed ?st = fc_desired_speed ?st"
    | "fc_fault_latched ?st" by blast
  then show ?thesis
  proof cases
    case 1
    with attempt_transition_ok [OF ok] transition_required_iff [OF st] show ?thesis
      by (simp add: cycle_transition_def Let_def)
  next
    case 2
    with ok transition_required_iff [OF st] show ?thesis
      by (auto simp: cycle_transition_def sys_defs in_maintenance_def settled_def state_ok_def Let_def)
  next
    case 3
    with ok show ?thesis by (simp add: cycle_transition_def settled_def Let_def)
  qed
qed

lemma account_time_frame [simp]:
  "state_ok (account_time l c st) = state_ok st"
  "fc_applied_speed (account_time l c st) = fc_applied_speed st"
  "fc_desired_speed (account_time l c st) = fc_desired_speed st"
  "fc_fault_latched (account_time l c st) = fc_fault_latched st"
  "fc_accepted_sequence (account_time l c st) = fc_accepted_sequence st"
  "fc_applied_sequence (account_time l c st) = fc_applied_sequence st"
  "fc_pending (account_time l c st) = fc_pending st"
  by (simp_all add: account_time_def Let_def)

lemma sample_stack_frame [simp]:
  "fs_hw (sample_stack n s) = fs_hw s"
  "fs_mailbox (sample_stack n s) = fs_mailbox s"
  "fs_quiesced (sample_stack n s) = fs_quiesced s"
  "fs_maintenance_requested (sample_stack n s) = fs_maintenance_requested s"
  "fs_diag (sample_stack n s) = fs_diag s"
  "fs_snapshot (sample_stack n s) = fs_snapshot s"
  "fs_task (sample_stack n s) = fs_task s"
  "state_ok (fs_local (sample_stack n s)) = state_ok (fs_local s)"
  "fc_applied_speed (fs_local (sample_stack n s)) = fc_applied_speed (fs_local s)"
  "fc_desired_speed (fs_local (sample_stack n s)) = fc_desired_speed (fs_local s)"
  "fc_fault_latched (fs_local (sample_stack n s)) = fc_fault_latched (fs_local s)"
  "fc_accepted_sequence (fs_local (sample_stack n s)) = fc_accepted_sequence (fs_local s)"
  "fc_applied_sequence (fs_local (sample_stack n s)) = fc_applied_sequence (fs_local s)"
  "fc_pending (fs_local (sample_stack n s)) = fc_pending (fs_local s)"
  by (simp_all add: sample_stack_def Let_def)

lemma cycle_account_frame [simp]:
  "fs_hw (cycle_account inp s) = fs_hw s"
  "fs_mailbox (cycle_account inp s) = fs_mailbox s"
  "fs_quiesced (cycle_account inp s) = fs_quiesced s"
  "fs_maintenance_requested (cycle_account inp s) = fs_maintenance_requested s"
  "fs_diag (cycle_account inp s) = fs_diag s"
  "fs_snapshot (cycle_account inp s) = fs_snapshot s"
  "fs_task (cycle_account inp s) = fs_task s"
  "state_ok (fs_local (cycle_account inp s)) = state_ok (fs_local s)"
  "fc_applied_speed (fs_local (cycle_account inp s)) = fc_applied_speed (fs_local s)"
  "fc_desired_speed (fs_local (cycle_account inp s)) = fc_desired_speed (fs_local s)"
  "fc_fault_latched (fs_local (cycle_account inp s)) = fc_fault_latched (fs_local s)"
  "fc_accepted_sequence (fs_local (cycle_account inp s)) = fc_accepted_sequence (fs_local s)"
  "fc_applied_sequence (fs_local (cycle_account inp s)) = fc_applied_sequence (fs_local s)"
  "fc_pending (fs_local (cycle_account inp s)) \<longleftrightarrow>
     fc_desired_speed (fs_local s) \<noteq> fc_applied_speed (fs_local s) \<or>
     fc_accepted_sequence (fs_local s) \<noteq> fc_applied_sequence (fs_local s)"
  by (simp_all add: cycle_account_def Let_def)

lemma cycle_account_ok:
  assumes "sys_ok p0 s" "in_maintenance m s" "settled (fs_local s)"
  shows "sys_ok p0 (cycle_account inp s) \<and> in_maintenance m (cycle_account inp s) \<and>
    settled (fs_local (cycle_account inp s)) \<and> pending_ok (fs_local (cycle_account inp s))"
  using assms by (simp add: sys_defs in_maintenance_def settled_def pending_ok_def)

lemma cycle_finish_frame [simp]:
  "fs_local (cycle_finish m inp s) = fs_local s"
  "fs_hw (cycle_finish m inp s) = fs_hw s"
  "fs_mailbox (cycle_finish m inp s) = fs_mailbox s"
  "fs_maintenance_requested (cycle_finish m inp s) = fs_maintenance_requested s"
  "fs_diag (cycle_finish m inp s) = fs_diag s"
  "fs_task (cycle_finish m inp s) = fs_task s"
  "fs_snapshot (cycle_finish m inp s) = fs_local s"
  "fs_quiesced (cycle_finish m inp s) \<longleftrightarrow>
     m \<and> fc_applied_speed (fs_local s) = FAN_SPEED_OFF \<and> \<not> fc_fault_latched (fs_local s) \<or> fs_quiesced s"
  by (auto simp: cycle_finish_def Let_def)

lemma cycle_finish_ok:
  assumes "sys_ok p0 s" "in_maintenance m s"
  shows "sys_ok p0 (cycle_finish m inp s)"
  using assms by (auto simp: sys_defs in_maintenance_def)

fun actor_ok :: "pads \<Rightarrow> actor_pc \<times> fan_sys \<Rightarrow> bool" where
  "actor_ok p0 (pc, s) \<longleftrightarrow> sys_ok p0 s \<and> pc_ok pc s"

lemma actor_step_ok:
  assumes "actor_step drv a b" and "actor_ok p0 a"
  shows "actor_ok p0 b"
  using assms
proof (induction rule: actor_step.induct)
  case (begin_step s m s' inp)
  with cycle_begin_ok [of p0 s m s'] show ?case by simp
next
  case (receive_step inp m s)
  with cycle_receive_ok [of p0 s m inp] show ?case by simp
next
  case (timer_step m inp s s')
  with cycle_timer_ok [of p0 s m inp s'] show ?case by simp
next
  case (transition_step inp m s)
  with cycle_transition_ok [of p0 s m drv inp] show ?case by simp
next
  case (account_step inp m s)
  with cycle_account_ok [of p0 s m inp] show ?case by simp
next
  case (finish_step inp m s)
  with cycle_finish_ok [of p0 s m inp] show ?case by simp
qed

text \<open>The calls of other tasks touch neither the actor's state nor the decoder.\<close>

lemma submit_locked_frame [simp]:
  "fs_local (snd (snd (submit_locked pass c s))) = fs_local s"
  "fs_hw (snd (snd (submit_locked pass c s))) = fs_hw s"
  "fs_quiesced (snd (snd (submit_locked pass c s))) = fs_quiesced s"
  "fs_maintenance_requested (snd (snd (submit_locked pass c s))) = fs_maintenance_requested s"
  "fs_diag (snd (snd (submit_locked pass c s))) = fs_diag s"
  "fs_snapshot (snd (snd (submit_locked pass c s))) = fs_snapshot s"
  "fs_task (snd (snd (submit_locked pass c s))) = fs_task s"
  by (simp_all add: submit_locked_def Let_def)

lemma submit_locked_mailbox:
  "mailbox_ok s \<Longrightarrow> valid_command c \<Longrightarrow> mailbox_ok (snd (snd (submit_locked pass c s)))"
  by (auto simp: submit_locked_def mailbox_ok_def valid_command_def Let_def)

lemma quiesce_request_frame [simp]:
  "fs_local (quiesce_request t s) = fs_local s"
  "fs_hw (quiesce_request t s) = fs_hw s"
  "fs_mailbox (quiesce_request t s) = None"
  "fs_quiesced (quiesce_request t s) = fs_quiesced s"
  "fs_maintenance_requested (quiesce_request t s)"
  "diagnostics_fan_fault_is_latched (fs_diag (quiesce_request t s)) =
     diagnostics_fan_fault_is_latched (fs_diag s)"
  "fs_snapshot (quiesce_request t s) = fs_snapshot s"
  "fs_task (quiesce_request t s) = fs_task s"
  by (simp_all add: quiesce_request_def Let_def)

lemma end_maintenance_frame [simp]:
  "fs_local (fan_control_end_maintenance t s) = fs_local s"
  "fs_hw (fan_control_end_maintenance t s) = fs_hw s"
  "fs_mailbox (fan_control_end_maintenance t s) = fs_mailbox s"
  "fs_quiesced (fan_control_end_maintenance t s) = fs_quiesced s"
  "\<not> fs_maintenance_requested (fan_control_end_maintenance t s)"
  "diagnostics_fan_fault_is_latched (fs_diag (fan_control_end_maintenance t s)) =
     diagnostics_fan_fault_is_latched (fs_diag s)"
  "fs_snapshot (fan_control_end_maintenance t s) = fs_snapshot s"
  "fs_task (fan_control_end_maintenance t s) = fs_task s"
  by (simp_all add: fan_control_end_maintenance_def Let_def)

lemma client_step_frame:
  assumes "client_step s s'"
  shows "fs_local s' = fs_local s" "fs_hw s' = fs_hw s" "fs_quiesced s' = fs_quiesced s"
    "fs_snapshot s' = fs_snapshot s" "fs_task s' = fs_task s"
    "diagnostics_fan_fault_is_latched (fs_diag s') = diagnostics_fan_fault_is_latched (fs_diag s)"
  using assms by (induction rule: client_step.induct) simp_all

lemma client_step_mailbox:
  assumes "client_step s s'" and "mailbox_ok s"
  shows "mailbox_ok s'"
  using assms(1)
proof (cases rule: client_step.cases)
  case submit_step
  with assms(2) submit_locked_mailbox show ?thesis by simp
qed (use assms(2) in \<open>simp_all add: mailbox_ok_def\<close>)

lemma client_step_ok:
  assumes step: "client_step s s'" and ok: "sys_ok p0 s" "pc_ok pc s"
  shows "actor_ok p0 (pc, s')"
proof -
  note frame = client_step_frame [OF step]
  have "sys_ok p0 s'"
    using ok(1) frame client_step_mailbox [OF step] by (simp add: sys_ok_def hw_ok_def quiesced_ok_def)
  moreover have "pc_ok pc s'"
    using ok(2) frame by (cases pc) (simp_all add: in_maintenance_def)
  ultimately show ?thesis by simp
qed

lemma fan_step_ok:
  assumes "fan_step drv a b" and "actor_ok p0 a"
  shows "actor_ok p0 b"
  using assms
proof (induction rule: fan_step.induct)
  case (by_actor a b)
  then show ?case by (rule actor_step_ok)
next
  case (by_client s s' pc)
  then show ?case using client_step_ok [of s s' p0 pc] by simp
qed

section \<open>The start\<close>

lemma hc238_init_failed:
  assumes "hc238_init valid_output drv cfg s = (err, s')" and "err \<noteq> ESP_OK"
  shows "\<not> g_initialized s'"
proof -
  have keep: "\<not> g_initialized (snd (configure_pins drv c (s\<lparr>g_initialized := False\<rparr>)))" for c
    unfolding configure_pins_run
    by (rule return_on_errors_inv [where P = "\<lambda>s. \<not> g_initialized s"])
      (use configure_op_frame in auto)
  show ?thesis
  proof (cases "validate_config valid_output cfg = ESP_OK")
    case True
    then obtain c where "cfg = Some c" by (cases cfg) (simp_all add: validate_config_def)
    with assms True keep [of c] show ?thesis
      by (auto simp: hc238_init_def Let_def split: prod.splits if_splits)
  qed (use assms in \<open>auto simp: hc238_init_def Let_def\<close>)
qed

lemma fan_init_ready:
  assumes "fan_init valid_output drv s = (err, s')"
  shows "driver_inv p0 s'"
  using assms hc238_init_failed [of valid_output drv "Some board_config" s err s']
    hc238_init_ready [of valid_output drv board_config s s' p0]
  by (cases "err = ESP_OK") (simp_all add: fan_init_eq driver_inv_def)

lemma starting_snapshot_fields [simp]:
  "fc_applied_speed starting_snapshot = 0" "fc_desired_speed starting_snapshot = 0"
  "fc_shutoff_mode starting_snapshot = 3" "\<not> fc_shutoff_active starting_snapshot"
  "fc_accepted_sequence starting_snapshot = 0" "fc_applied_sequence starting_snapshot = 0"
  "\<not> fc_pending starting_snapshot"
  by (simp_all add: starting_snapshot_def zero_snapshot_def)

definition just_started :: "fan_control_snapshot \<Rightarrow> bool" where
  "just_started st \<longleftrightarrow> fc_applied_speed st = 0 \<and> fc_desired_speed st = 0 \<and>
     fc_shutoff_mode st = 3 \<and> \<not> fc_shutoff_active st \<and> fc_accepted_sequence st = 0 \<and>
     fc_applied_sequence st = 0 \<and> \<not> fc_pending st"

lemma start_decoder_ok:
  assumes "s' = start_decoder valid_output drv t s"
  shows "hw_ok p0 s' \<and> just_started (fs_local s') \<and> fs_mailbox s' = fs_mailbox s \<and>
    fs_quiesced s' = fs_quiesced s \<and> fs_maintenance_requested s' = fs_maintenance_requested s \<and>
    (fs_init_result s' \<noteq> ESP_OK \<longrightarrow> fc_fault_latched (fs_local s'))"
proof -
  obtain e1 hw1 where init: "fan_init valid_output drv (fs_hw s) = (e1, hw1)"
    by (cases "fan_init valid_output drv (fs_hw s)")
  obtain e2 ph hw2 where off: "fan_transition drv FAN_SPEED_OFF (Some 0) hw1 = (e2, ph, hw2)"
    by (cases "fan_transition drv FAN_SPEED_OFF (Some 0) hw1")
  obtain fe fp where fault: "diagnostics_get_fan_fault (fs_diag s) = (fe, fp)"
    by (cases "diagnostics_get_fan_fault (fs_diag s)")
  have inv1: "driver_inv p0 hw1" by (rule fan_init_ready [OF init])
  have inv2: "driver_inv p0 hw2" by (rule fan_transition_inv [OF inv1 off])
  show ?thesis
  proof (cases "e1 = ESP_OK")
    case False
    with assms init fault inv1 show ?thesis
      by (simp add: start_decoder_def start_fault_def hw_ok_def just_started_def Let_def)
  next
    case e1: True
    show ?thesis
    proof (cases "e2 = ESP_OK")
      case True
      have "driver_output p0 hw2 = speed_output 0"
        by (rule fan_transition_output(2) [OF inv1 off [unfolded True]])
      with assms init fault inv2 off e1 True show ?thesis
        by (simp add: start_decoder_def hw_ok_def just_started_def Let_def)
    next
      case False
      with assms init fault inv2 off e1 show ?thesis
        by (simp add: start_decoder_def start_fault_def hw_ok_def just_started_def Let_def)
    qed
  qed
qed

lemma task_start_ok:
  assumes boot: "boot_state s" and s': "s' = fan_control_task_start valid_output drv wdt t1 t2 s"
  shows "sys_ok p0 s' \<and> settled (fs_local s') \<and> pending_ok (fs_local s') \<and> fs_snapshot s' = fs_local s' \<and>
    (fs_init_result s' \<noteq> ESP_OK \<longrightarrow> fc_fault_latched (fs_local s') \<or> wdt \<noteq> ESP_OK)"
proof -
  define sd where "sd = start_decoder valid_output drv t1 s"
  note start = start_decoder_ok [OF sd_def, of p0]
  have "state_ok (fs_local s')" "settled (fs_local s')" "pending_ok (fs_local s')"
    "fs_snapshot s' = fs_local s'"
    using start unfolding s' fan_control_task_start_def Let_def sd_def [symmetric]
    by (auto simp: state_ok_def settled_def pending_ok_def just_started_def)
  moreover have "hw_ok p0 s'" "mailbox_ok s'" "quiesced_ok s'"
    using start boot unfolding s' fan_control_task_start_def Let_def sd_def [symmetric]
    by (auto simp: hw_ok_def mailbox_ok_def quiesced_ok_def boot_state_def)
  moreover have "fs_init_result s' \<noteq> ESP_OK \<longrightarrow> fc_fault_latched (fs_local s') \<or> wdt \<noteq> ESP_OK"
    using start unfolding s' fan_control_task_start_def Let_def sd_def [symmetric] by auto
  ultimately show ?thesis by (simp add: sys_ok_def)
qed

lemma reachable_ok:
  assumes "reachable valid_output drv a"
  shows "actor_ok p0 a"
  using assms
proof (induction rule: reachable.induct)
  case (started s0 s wdt fault_us publish_us pc)
  with task_start_ok [OF started(1,2), of p0] show ?case by (cases "fs_init_result s = ESP_OK") simp_all
next
  case (step a b)
  then show ?case using fan_step_ok by blast
qed

lemma reachable_sys:
  assumes "reachable valid_output drv (pc, s)"
  shows "sys_ok p0 s" and "pc_ok pc s"
  using reachable_ok [OF assms, of p0] by simp_all

section \<open>A system for examples\<close>

definition sample_input :: cycle_input where
  "sample_input =
     \<lparr>ci_now = 101, ci_last_wake = 101, ci_cycle_started_us = 1010000, ci_timer_event_us = 1010010,
      ci_begin_event_us = 1010020, ci_transition_started_us = 1010030,
      ci_transition_ended_us = 1010060, ci_result_event_us = 1010070,
      ci_latch_event_us = 1010080, ci_stack_high_water = 900, ci_cycle_ended_us = 1010100,
      ci_publish_us = 1010110\<rparr>"

definition sample_boot :: fan_sys where
  "sample_boot =
     \<lparr>fs_local = zero_snapshot, fs_timer_started = 0, fs_last_transition_us = 0,
      fs_window_started_us = 0, fs_window_transitions = 0, fs_mailbox = None, fs_task = True,
      fs_initialized = False, fs_quiesced = False, fs_init_result = ESP_ERR_INVALID_STATE,
      fs_snapshot_sequence = 0, fs_snapshot = starting_snapshot, fs_command_sequence = 0,
      fs_coalesced_commands = 0, fs_rejected_commands = 0, fs_maintenance_requested = False,
      fs_coredump = \<lparr>cd_begin_sequence = 0, cd_version = 0, cd_size = 0, cd_reset_reason = 0,
        cd_uptime_ms = 0, cd_control = zero_snapshot, cd_end_sequence = 0\<rparr>,
      fs_diag = diagnostics_init ESP_RST_POWERON 0 zero_diagnostics,
      fs_health = service_health_init, fs_hw = blank_state\<rparr>"

definition sample_running :: "gpio_driver \<Rightarrow> fan_sys" where
  "sample_running drv = fan_control_task_start (\<lambda>g. 0 \<le> g) drv ESP_OK 900 950 sample_boot"

lemma sample_running_reachable:
  assumes "fs_init_result (sample_running drv) = ESP_OK"
  shows "reachable (\<lambda>g. 0 \<le> g) drv (Sleeping, sample_running drv)"
proof (rule started)
  show "boot_state sample_boot" by (simp add: boot_state_def sample_boot_def)
  show "sample_running drv = fan_control_task_start (\<lambda>g. 0 \<le> g) drv ESP_OK 900 950 sample_boot"
    by (simp add: sample_running_def)
qed (use assms in simp)

lemma actor_step_faulted:
  assumes "actor_step drv a b" and "fc_fault_latched (fs_local (snd a))"
  shows "fc_fault_latched (fs_local (snd b)) \<and> fs_hw (snd b) = fs_hw (snd a) \<and>
    fc_fault_error (fs_local (snd b)) = fc_fault_error (fs_local (snd a)) \<and>
    fc_fault_phase (fs_local (snd b)) = fc_fault_phase (fs_local (snd a))"
  using assms
proof (induction rule: actor_step.induct)
  case (begin_step s m s' inp)
  then show ?case by (auto simp: cycle_begin_def Let_def)
next
  case (receive_step inp m s)
  then show ?case by (simp add: cycle_receive_def split: option.splits)
next
  case (timer_step m inp s s')
  then show ?case by (simp add: cycle_timer_def)
next
  case (transition_step inp m s)
  then show ?case by (simp add: cycle_transition_def Let_def)
next
  case (account_step inp m s)
  then show ?case by (simp add: cycle_account_def sample_stack_def account_time_def Let_def)
qed simp

lemma fan_step_faulted:
  assumes "fan_step drv a b" and "fc_fault_latched (fs_local (snd a))"
  shows "fc_fault_latched (fs_local (snd b)) \<and> fs_hw (snd b) = fs_hw (snd a) \<and>
    fc_fault_error (fs_local (snd b)) = fc_fault_error (fs_local (snd a)) \<and>
    fc_fault_phase (fs_local (snd b)) = fc_fault_phase (fs_local (snd a))"
  using assms
proof (induction rule: fan_step.induct)
  case (by_actor a b)
  then show ?case by (rule actor_step_faulted)
next
  case (by_client s s' pc)
  then show ?case by (simp add: client_step_frame)
qed

text \<open>What a latched fault leaves at the decoder: no active output, unless its pins could not even be
  configured or the last call to it, which was to disable it, failed.\<close>

definition disable_failed :: "gpio_driver \<Rightarrow> hc238_state \<Rightarrow> bool" where
  "disable_failed drv hw \<longleftrightarrow>
     (\<exists>s. hw = snd (hc238_enable drv False s) \<and> fst (hc238_enable drv False s) \<noteq> ESP_OK)"

definition given_up :: "gpio_driver \<Rightarrow> pads \<Rightarrow> hc238_state \<Rightarrow> bool" where
  "given_up drv p0 hw \<longleftrightarrow> driver_output p0 hw = None \<or> \<not> g_initialized hw \<or> disable_failed drv hw"

lemma failed_transition_given_up:
  assumes "driver_inv p0 s" and "fan_transition drv speed (Some p) s = (err, ph, s')"
    and "err \<noteq> ESP_OK" and "speed < NUM_FAN_SPEEDS"
  shows "given_up drv p0 s'"
  using fan_transition_failure [OF assms] unfolding given_up_def disable_failed_def by blast

lemma start_given_up: "given_up drv p0 (fs_hw (start_decoder valid_output drv t s))"
proof -
  obtain e1 hw1 where init: "fan_init valid_output drv (fs_hw s) = (e1, hw1)"
    by (cases "fan_init valid_output drv (fs_hw s)")
  obtain e2 ph hw2 where off: "fan_transition drv FAN_SPEED_OFF (Some 0) hw1 = (e2, ph, hw2)"
    by (cases "fan_transition drv FAN_SPEED_OFF (Some 0) hw1")
  obtain fe fp where fault: "diagnostics_get_fan_fault (fs_diag s) = (fe, fp)"
    by (cases "diagnostics_get_fan_fault (fs_diag s)")
  have inv1: "driver_inv p0 hw1" by (rule fan_init_ready [OF init])
  have "fs_hw (start_decoder valid_output drv t s) = (if e1 = ESP_OK then hw2 else hw1)"
    using init off fault by (simp add: start_decoder_def start_fault_def Let_def)
  moreover have "e1 \<noteq> ESP_OK \<Longrightarrow> given_up drv p0 hw1"
    using hc238_init_failed [OF init [unfolded fan_init_eq]] by (simp add: given_up_def)
  moreover have "e2 \<noteq> ESP_OK \<Longrightarrow> given_up drv p0 hw2" by (rule failed_transition_given_up [OF inv1 off]) simp_all
  moreover have "e2 = ESP_OK \<Longrightarrow> given_up drv p0 hw2"
    using fan_transition_output(2) [OF inv1] off by (simp add: given_up_def speed_output_def)
  ultimately show ?thesis by auto
qed

lemma transition_given_up:
  assumes "sys_ok p0 s" and "\<not> fc_fault_latched (fs_local s)" and "fc_fault_latched (fs_local (cycle_transition drv inp s))"
  shows "given_up drv p0 (fs_hw (cycle_transition drv inp s))"
proof -
  obtain err ph hw where run: "fan_transition drv (fc_desired_speed (fs_local s)) (Some 0) (fs_hw s) = (err, ph, hw)"
    by (cases "fan_transition drv (fc_desired_speed (fs_local s)) (Some 0) (fs_hw s)")
  have ok: "driver_inv p0 (fs_hw s)" "fc_desired_speed (fs_local s) < NUM_FAN_SPEEDS"
    using assms(1) by (simp_all add: sys_defs state_ok_def)
  have "err \<noteq> ESP_OK \<and> fs_hw (cycle_transition drv inp s) = hw"
    using assms(2,3) by (auto simp: cycle_transition_def attempt_transition_cases [OF run] Let_def split: if_splits)
  then show ?thesis using failed_transition_given_up [OF ok(1) run _ ok(2)] by simp
qed

lemma actor_step_latches:
  assumes "actor_step drv a b" and "actor_ok p0 a" and "\<not> fc_fault_latched (fs_local (snd a))"
    and "fc_fault_latched (fs_local (snd b))"
  shows "given_up drv p0 (fs_hw (snd b))"
  using assms
proof (induction rule: actor_step.induct)
  case (begin_step s m s' inp)
  then show ?case by (auto simp: cycle_begin_def Let_def split: if_splits)
next
  case (receive_step inp m s)
  then show ?case by (simp add: cycle_receive_def split_beta split: option.splits if_splits)
next
  case (timer_step m inp s s')
  have "fc_fault_latched (fs_local s') = fc_fault_latched (fs_local s)"
    using timer_step(1) by (auto simp: cycle_timer_def timer_expired_def cancel_timer_def Let_def
        split: if_splits sum.splits)
  then show ?case using timer_step(3,4) by simp
next
  case (transition_step inp m s)
  then show ?case using transition_given_up [of p0 s drv inp] by simp
next
  case (account_step inp m s)
  then show ?case by simp
next
  case (finish_step inp m s)
  then show ?case by simp
qed

lemma reachable_given_up:
  assumes "reachable valid_output drv a" and "fc_fault_latched (fs_local (snd a))"
  shows "given_up drv p0 (fs_hw (snd a))"
  using assms
proof (induction rule: reachable.induct)
  case (started s0 s wdt fault_us publish_us pc)
  have "fs_hw s = fs_hw (start_decoder valid_output drv fault_us s0)"
    unfolding started(2) by (simp add: fan_control_task_start_def publish_snapshot_def Let_def)
  then show ?case using start_given_up by simp
next
  case (step a b)
  show ?case
  proof (cases "fc_fault_latched (fs_local (snd a))")
    case True
    then show ?thesis using step fan_step_faulted [OF step(2)] by simp
  next
    case False
    from step(2) show ?thesis
    proof cases
      case by_actor
      then show ?thesis using actor_step_latches reachable_ok [OF step(1)] False step.prems by blast
    next
      case (by_client s s' pc)
      then show ?thesis using False step.prems client_step_frame(1) by simp
    qed
  qed
qed

text \<open>An undisturbed cycle is a run of the actor's steps.\<close>

lemma cycle_ok:
  assumes "actor_ok p0 (Sleeping, s)" and "cycle drv inp s = Inr s'"
  shows "actor_ok p0 (Sleeping, s')"
proof -
  obtain m s1 where s1: "cycle_begin s = (m, s1)" by (cases "cycle_begin s")
  have "actor_ok p0 (In_Cycle Begun inp m, s1)"
    by (rule actor_step_ok [OF begin_step [OF s1] assms(1)])
  from actor_step_ok [OF receive_step this]
  have r: "actor_ok p0 (In_Cycle Received inp m, cycle_receive m inp s1)" .
  obtain s2 where s2: "cycle_timer m inp (cycle_receive m inp s1) = Inr s2"
    using assms(2) s1 by (auto simp: cycle_def split: sum.splits)
  have "s' = cycle_finish m inp (cycle_account inp (cycle_transition drv inp s2))"
    using assms(2) s1 s2 by (simp add: cycle_def)
  with actor_step_ok [OF finish_step actor_step_ok [OF account_step actor_step_ok [OF transition_step
          actor_step_ok [OF timer_step [OF s2] r]]]]
  show ?thesis by blast
qed

lemma cycle_total:
  assumes "actor_ok p0 (Sleeping, s)"
  shows "\<exists>s'. cycle drv inp s = Inr s'"
proof -
  obtain m s1 where s1: "cycle_begin s = (m, s1)" by (cases "cycle_begin s")
  have "actor_ok p0 (In_Cycle Begun inp m, s1)"
    by (rule actor_step_ok [OF begin_step [OF s1] assms])
  from actor_step_ok [OF receive_step this]
  have "sys_ok p0 (cycle_receive m inp s1)" by simp
  from cycle_timer_total [OF this, of m inp] s1 show ?thesis by (auto simp: cycle_def)
qed

lemma duration_ticks:
  "unat (pdMS_TO_TICKS (s_shutoff_duration_ms ! 0)) = 2 * 360000"
  "unat (pdMS_TO_TICKS (s_shutoff_duration_ms ! 1)) = 4 * 360000"
  "unat (pdMS_TO_TICKS (s_shutoff_duration_ms ! 2)) = 8 * 360000"
  by (simp_all add: s_shutoff_duration_ms_def pdMS_TO_TICKS_at_def)

text \<open>A cycle that finds a command, and one that finds a maintenance request.\<close>

lemma cycle_runs:
  assumes "cycle drv inp s = Inr s'" and "cycle_begin s = (m, s1)"
  obtains s2 where "cycle_timer m inp (cycle_receive m inp s1) = Inr s2"
    "s' = cycle_finish m inp (cycle_account inp (cycle_transition drv inp s2))"
  using assms by (auto simp: cycle_def split: sum.splits)

lemma cycle_begin_maintenance:
  assumes "fs_maintenance_requested s" "\<not> fc_fault_latched (fs_local s)" "cycle_begin s = (m, s1)"
  shows "m" "fs_mailbox s1 = fs_mailbox s" "fs_hw s1 = fs_hw s" "\<not> fc_fault_latched (fs_local s1)"
    "fc_applied_speed (fs_local s1) = fc_applied_speed (fs_local s)"
    "fc_desired_speed (fs_local s1) = FAN_SPEED_OFF"
    "fs_maintenance_requested s1"
  using assms by (simp_all add: cycle_begin_def Let_def) (auto simp: enter_maintenance_def cancel_timer_def)

lemma cycle_begin_ready:
  assumes "\<not> fs_maintenance_requested s" "\<not> fc_fault_latched (fs_local s)" "cycle_begin s = (m, s1)"
  shows "\<not> m" "fs_mailbox s1 = fs_mailbox s" "fs_hw s1 = fs_hw s" "\<not> fc_fault_latched (fs_local s1)"
    "fc_applied_speed (fs_local s1) = fc_applied_speed (fs_local s)"
  using assms by (auto simp: cycle_begin_def Let_def)

lemma cycle_transition_desired:
  assumes "\<not> fc_fault_latched (fs_local (cycle_transition drv inp s))"
  shows "fc_desired_speed (fs_local (cycle_transition drv inp s)) = fc_desired_speed (fs_local s)"
    and "fc_accepted_sequence (fs_local (cycle_transition drv inp s)) = fc_accepted_sequence (fs_local s)"
    and "fc_last_change_source (fs_local (cycle_transition drv inp s)) = fc_last_change_source (fs_local s)"
proof -
  obtain err ph hw where run:
      "fan_transition drv (fc_desired_speed (fs_local s)) (Some 0) (fs_hw s) = (err, ph, hw)"
    by (cases "fan_transition drv (fc_desired_speed (fs_local s)) (Some 0) (fs_hw s)")
  let ?trans = "\<not> fc_fault_latched (fs_local s) \<and> fan_policy_transition_required
      (ucast (fc_applied_speed (fs_local s))) (ucast (fc_desired_speed (fs_local s)))"
  have ok: "err = ESP_OK" if ?trans
    using assms that by (auto simp: cycle_transition_def attempt_transition_cases [OF run] Let_def split: if_splits)
  have src: "fc_last_change_source (fs_local (transition_done a b (attempting inp hw s))) =
      fc_last_change_source (fs_local s)" for a b
    by (simp add: transition_done_def attempting_def update_transition_rate_def note_interval_def Let_def)
  show "fc_desired_speed (fs_local (cycle_transition drv inp s)) = fc_desired_speed (fs_local s)"
    "fc_accepted_sequence (fs_local (cycle_transition drv inp s)) = fc_accepted_sequence (fs_local s)"
    "fc_last_change_source (fs_local (cycle_transition drv inp s)) = fc_last_change_source (fs_local s)"
    using ok src by (cases ?trans; simp add: cycle_transition_def attempt_transition_cases [OF run] Let_def)+
qed

lemma submit_speed_accepted:
  assumes "fan_control_submit_speed pass view speed source cancel s = (ESP_OK, Some n, s1)"
  obtains c where "cmd_speed c = speed" "cmd_action c = FAN_CONTROL_ACTION_SET_SPEED"
    "cmd_sequence c = n" "fs_mailbox s1 = Some c" "\<not> fs_maintenance_requested s1"
    "fs_local s1 = fs_local s" "client_step s s1"
proof -
  let ?c = "\<lparr>cmd_action = FAN_CONTROL_ACTION_SET_SPEED, cmd_speed = speed, cmd_source = source,
    cmd_cancel_timer = cancel, cmd_sequence = 0\<rparr>"
  have "speed < NUM_FAN_SPEEDS"
    using assms by (auto simp: fan_control_submit_speed_def split: if_splits)
  then have "valid_command ?c" by (simp add: valid_command_def)
  moreover have run: "submit_locked pass ?c s = (ESP_OK, Some n, s1)"
    using assms
    by (auto simp: fan_control_submit_speed_def submit_command_def split: if_splits option.splits prod.splits)
  ultimately have "client_step s s1" using submit_step [of ?c s pass] by simp
  moreover have "fs_mailbox s1 = Some (?c\<lparr>cmd_sequence := n\<rparr>)" "\<not> fs_maintenance_requested s1"
    "fs_local s1 = fs_local s"
    using run by (auto simp: submit_locked_def Let_def split: if_splits)
  ultimately show ?thesis using that [of "?c\<lparr>cmd_sequence := n\<rparr>"] by simp
qed

lemma timer_stage_result:
  assumes "cycle_timer m inp s = Inr s'"
  shows "fc_accepted_sequence (fs_local s') = fc_accepted_sequence (fs_local s)"
    and "fc_desired_speed (fs_local s') = fc_desired_speed (fs_local s) \<or>
      fc_desired_speed (fs_local s') = FAN_SPEED_OFF \<and>
      fc_last_change_source (fs_local s') = FAN_CONTROL_SOURCE_TIMER"
  using assms by (auto simp: cycle_timer_def timer_expired_def cancel_timer_def Let_def
      split: if_splits sum.splits)

lemma cycle_account_source [simp]:
  "fc_last_change_source (fs_local (cycle_account inp s)) = fc_last_change_source (fs_local s)"
  by (simp add: cycle_account_def account_time_def sample_stack_def Let_def)

text \<open>A maintenance cycle on a decoder that can be switched off sets the bit.\<close>

lemma maintenance_cycle:
  assumes ok: "actor_ok p0 (Sleeping, s)" and req: "fs_maintenance_requested s"
    and nofault: "\<not> fc_fault_latched (fs_local s)"
    and off: "fst (fan_transition drv FAN_SPEED_OFF (Some 0) (fs_hw s)) = ESP_OK"
  shows "\<exists>s'. cycle drv inp s = Inr s' \<and> fs_quiesced s' \<and> actor_ok p0 (Sleeping, s')"
proof -
  obtain m b where b: "cycle_begin s = (m, b)" by (cases "cycle_begin s")
  note begun = cycle_begin_maintenance [OF req nofault b]
  have "fs_mailbox s = None" using ok req by (simp add: sys_defs)
  with begun have r: "cycle_receive m inp b = b" by (simp add: cycle_receive_def)
  have t: "cycle_timer m inp b = Inr b" using begun by (simp add: cycle_timer_def)
  have sys: "sys_ok p0 b" using cycle_begin_ok [OF _ b, of p0] ok by simp
  then have st: "state_ok (fs_local b)" by (simp add: sys_ok_def)
  let ?tr = "cycle_transition drv inp b"
  obtain ph hw where run: "fan_transition drv (fc_desired_speed (fs_local b)) (Some 0) (fs_hw b) = (ESP_OK, ph, hw)"
    using off begun(3,6) by (cases "fan_transition drv FAN_SPEED_OFF (Some 0) (fs_hw s)") simp
  have "fc_applied_speed (fs_local ?tr) = FAN_SPEED_OFF \<and> \<not> fc_fault_latched (fs_local ?tr)"
    using begun transition_required_iff [OF st]
    by (auto simp: cycle_transition_def attempt_transition_cases [OF run] Let_def)
  with begun(1) have "fs_quiesced (cycle_finish m inp (cycle_account inp ?tr))" by simp
  moreover have "cycle drv inp s = Inr (cycle_finish m inp (cycle_account inp ?tr))"
    by (simp add: cycle_def b r t)
  ultimately show ?thesis using cycle_ok [OF ok] by blast
qed

lemma wait_quiesced_ok:
  assumes "wait_quiesced drv inputs s = Inr s'" and "actor_ok p0 (Sleeping, s)"
  shows "actor_ok p0 (Sleeping, s')"
  using assms
proof (induction inputs arbitrary: s)
  case (Cons inp rest)
  then show ?case using cycle_ok [OF Cons.prems(2)] by (auto split: if_splits sum.splits)
qed (auto split: if_splits)

lemma wait_quiesced_total:
  assumes "actor_ok p0 (Sleeping, s)"
  shows "\<exists>s'. wait_quiesced drv inputs s = Inr s'"
  using assms
proof (induction inputs arbitrary: s)
  case (Cons inp rest)
  obtain s1 where s1: "cycle drv inp s = Inr s1" using cycle_total [OF Cons.prems] by blast
  with Cons.IH [OF cycle_ok [OF Cons.prems s1]] show ?case by auto
qed simp

lemma cycle_request_frame:
  assumes "cycle drv inp s = Inr s'" shows "fs_maintenance_requested s' = fs_maintenance_requested s"
proof -
  obtain m b where b: "cycle_begin s = (m, b)" by (cases "cycle_begin s")
  obtain t where t: "cycle_timer m inp (cycle_receive m inp b) = Inr t"
    "s' = cycle_finish m inp (cycle_account inp (cycle_transition drv inp t))"
    using cycle_runs [OF assms b] .
  obtain err ph hw where run: "fan_transition drv (fc_desired_speed (fs_local t)) (Some 0) (fs_hw t) = (err, ph, hw)"
    by (cases "fan_transition drv (fc_desired_speed (fs_local t)) (Some 0) (fs_hw t)")
  have "fs_maintenance_requested b = fs_maintenance_requested s"
    using b by (auto simp: cycle_begin_def Let_def split: if_splits)
  moreover have "fs_maintenance_requested (cycle_receive m inp b) = fs_maintenance_requested b"
    by (simp add: cycle_receive_def split_beta split: option.splits)
  moreover have "fs_maintenance_requested t = fs_maintenance_requested (cycle_receive m inp b)"
    using t(1) by (auto simp: cycle_timer_def Let_def split: if_splits sum.splits)
  moreover have "fs_maintenance_requested (cycle_transition drv inp t) = fs_maintenance_requested t"
    by (simp add: cycle_transition_def attempt_transition_cases [OF run] Let_def)
  ultimately show ?thesis by (simp add: t(2))
qed

lemma wait_quiesced_request:
  assumes "wait_quiesced drv inputs s = Inr s'"
  shows "fs_maintenance_requested s' = fs_maintenance_requested s"
  using assms
proof (induction inputs arbitrary: s)
  case (Cons inp rest)
  then show ?case using cycle_request_frame by (fastforce split: if_splits sum.splits)
qed (auto split: if_splits)

lemma actor_reaches:
  "reachable valid_output drv a \<Longrightarrow> actor_step drv a b \<Longrightarrow> reachable valid_output drv b"
  by (blast intro: reachable.step by_actor)

lemma client_reaches:
  "reachable valid_output drv (pc, s) \<Longrightarrow> client_step s s' \<Longrightarrow> reachable valid_output drv (pc, s')"
  by (blast intro: reachable.step by_client)

lemma cycle_reaches:
  assumes r: "reachable valid_output drv (Sleeping, s)" and run: "cycle drv inp s = Inr s'"
  shows "reachable valid_output drv (Sleeping, s')"
proof -
  obtain m b where b: "cycle_begin s = (m, b)" by (cases "cycle_begin s")
  obtain t where t: "cycle_timer m inp (cycle_receive m inp b) = Inr t"
    and s': "s' = cycle_finish m inp (cycle_account inp (cycle_transition drv inp t))"
    using cycle_runs [OF run b] .
  note r1 = actor_reaches [OF actor_reaches [OF r begin_step [OF b]] receive_step]
  note r2 = actor_reaches [OF actor_reaches [OF r1 timer_step [OF t]] transition_step]
  show ?thesis
    using actor_reaches [OF actor_reaches [OF r2 account_step] finish_step] by (simp add: s')
qed

text \<open>A running system whose driver never fails, and one whose first call fails.\<close>

lemma sample_init_ok: "fs_init_result (sample_running all_calls_succeed) = ESP_OK"
  by code_simp

lemma sample_facts:
  "\<not> fc_fault_latched (fs_local (sample_running all_calls_succeed))"
  "\<not> fc_fault_latched (fs_snapshot (sample_running all_calls_succeed))"
  "fs_task (sample_running all_calls_succeed)"
  "fst (fan_transition all_calls_succeed FAN_SPEED_OFF (Some 0)
     (fs_hw (sample_running all_calls_succeed))) = ESP_OK"
  by code_simp+

lemmas sample_reachable = sample_running_reachable [OF sample_init_ok]

definition no_call_succeeds :: gpio_driver where
  "no_call_succeeds = (\<lambda>_ _. ESP_FAIL)"

lemma sample_faulted:
  "reachable (\<lambda>g. 0 \<le> g) no_call_succeeds (Suspended, sample_running no_call_succeeds)"
  "fc_fault_latched (fs_local (sample_running no_call_succeeds))"
proof -
  have result: "fs_init_result (sample_running no_call_succeeds) = ESP_FAIL" by code_simp
  show "reachable (\<lambda>g. 0 \<le> g) no_call_succeeds (Suspended, sample_running no_call_succeeds)"
  proof (rule started)
    show "boot_state sample_boot" by (simp add: boot_state_def sample_boot_def)
  qed (use result in \<open>simp_all add: sample_running_def\<close>)
  show "fc_fault_latched (fs_local (sample_running no_call_succeeds))" by code_simp
qed

section \<open>Properties\<close>

text \<open>C1. The confirmation that maintenance waits for is never wrong: however the actor's stages
  and the calls of the other tasks interleave, while the \<open>QUIESCED\<close> bit is set no fault is
  latched, Off is both the desired and the applied speed, and no decoder output is active.\<close>

theorem quiesced_means_off:
  assumes "reachable valid_output drv (pc, s)" and "fs_quiesced s"
  shows "\<not> fc_fault_latched (fs_local s) \<and> fc_desired_speed (fs_local s) = FAN_SPEED_OFF \<and>
    fc_applied_speed (fs_local s) = FAN_SPEED_OFF \<and> driver_output p0 (fs_hw s) = None"
  using reachable_sys(1) [OF assms(1), of p0] assms(2) by (simp add: sys_defs speed_output_def)

theorem quiesced_means_off_witness:
  "\<exists>s. reachable (\<lambda>g. 0 \<le> g) all_calls_succeed (Sleeping, s) \<and> fs_quiesced s \<and>
     driver_output undriven_pads (fs_hw s) = None"
proof -
  let ?q = "quiesce_request 1000 (sample_running all_calls_succeed)"
  have r: "reachable (\<lambda>g. 0 \<le> g) all_calls_succeed (Sleeping, ?q)"
    by (rule client_reaches [OF sample_reachable quiesce_step])
  obtain s where s: "cycle all_calls_succeed sample_input ?q = Inr s" "fs_quiesced s"
    using maintenance_cycle [OF reachable_ok [OF r, of undriven_pads], of all_calls_succeed sample_input]
      sample_facts by auto
  have r': "reachable (\<lambda>g. 0 \<le> g) all_calls_succeed (Sleeping, s)" by (rule cycle_reaches [OF r s(1)])
  from quiesced_means_off [OF r' s(2), of undriven_pads] r' s(2) show ?thesis by blast
qed

text \<open>C2. What the actor publishes is what the decoder does: between two cycles, unless a fault is
  latched, the published snapshot is settled (the desired speed is applied, the accepted
  command is applied, nothing is pending) and the active decoder output is the one of the
  published speed.\<close>

theorem published_speed_is_active:
  assumes "reachable valid_output drv (Sleeping, s)" and "\<not> fc_fault_latched (fs_snapshot s)"
  shows "driver_output p0 (fs_hw s) = speed_output (fc_applied_speed (fs_snapshot s)) \<and>
    fc_desired_speed (fs_snapshot s) = fc_applied_speed (fs_snapshot s) \<and>
    fc_accepted_sequence (fs_snapshot s) = fc_applied_sequence (fs_snapshot s) \<and>
    \<not> fc_pending (fs_snapshot s)"
  using reachable_sys(1) [OF assms(1), of p0] reachable_sys(2) [OF assms(1)] assms(2)
  by (auto simp: sys_defs settled_def pending_ok_def)

theorem published_speed_is_active_witness:
  "driver_output undriven_pads (fs_hw (sample_running all_calls_succeed)) = speed_output
     (fc_applied_speed (fs_snapshot (sample_running all_calls_succeed)))"
  using published_speed_is_active [OF sample_reachable sample_facts(2), of undriven_pads] by blast

text \<open>C17. The shut-off timer and the speed agree in every reachable state: the mode and the speeds
  are in range (so the table of durations is never read outside), the timer is active exactly
  when a duration is selected, and never while the fan is to be off.\<close>

theorem timer_state_consistent:
  assumes "reachable valid_output drv (pc, s)"
  shows "(fc_shutoff_active (fs_local s) \<longleftrightarrow> fc_shutoff_mode (fs_local s) \<in> {FAN_SHUTOFF_2H, FAN_SHUTOFF_4H, FAN_SHUTOFF_8H}) \<and>
    (fc_shutoff_active (fs_local s) \<longrightarrow> fc_desired_speed (fs_local s) \<noteq> FAN_SPEED_OFF) \<and>
    (\<exists>s'. cycle_timer m inp s = Inr s')"
proof -
  have ok: "sys_ok undriven_pads s" by (rule reachable_sys [OF assms])
  then have "fc_shutoff_mode (fs_local s) \<in> {0, 1, 2, 3}" by (intro mode_cases) (simp add: sys_defs state_ok_def)
  with ok cycle_timer_total [OF ok] show ?thesis by (auto simp: sys_defs state_ok_def)
qed

theorem timer_state_consistent_witness:
  "\<exists>s'. cycle_timer False sample_input (sample_running all_calls_succeed) = Inr s'"
  using timer_state_consistent [OF sample_reachable] by blast

text \<open>C3. A latched fault is final: whatever the tasks do afterwards, no GPIO call is made any
  more and the decoder keeps the output it has; that is none, unless its pins could not be configured or the call that was to
  disable it, the last one made, failed itself. Off stays both the desired and the applied speed, the error
  and phase stay those of the first failure, and the retained record that survives a reset stays valid.\<close>

theorem fault_is_final:
  assumes "reachable valid_output drv a" and "fc_fault_latched (fs_local (snd a))"
    and "(fan_step drv)\<^sup>*\<^sup>* a b"
  shows "fc_fault_latched (fs_local (snd b)) \<and> g_log (fs_hw (snd b)) = g_log (fs_hw (snd a)) \<and>
    driver_output p0 (fs_hw (snd b)) = driver_output p0 (fs_hw (snd a)) \<and>
    (driver_output p0 (fs_hw (snd b)) = None \<or> \<not> g_initialized (fs_hw (snd b)) \<or>
     (\<exists>s. fs_hw (snd b) = snd (hc238_enable drv False s) \<and> fst (hc238_enable drv False s) \<noteq> ESP_OK)) \<and>
    fc_applied_speed (fs_local (snd b)) = FAN_SPEED_OFF \<and>
    fc_desired_speed (fs_local (snd b)) = FAN_SPEED_OFF \<and>
    fc_fault_error (fs_local (snd b)) = fc_fault_error (fs_local (snd a)) \<and>
    fc_fault_phase (fs_local (snd b)) = fc_fault_phase (fs_local (snd a)) \<and>
    diagnostics_fan_fault_is_latched (fs_diag (snd b))"
proof -
  have "reachable valid_output drv b \<and> fc_fault_latched (fs_local (snd b)) \<and> fs_hw (snd b) = fs_hw (snd a) \<and>
    fc_fault_error (fs_local (snd b)) = fc_fault_error (fs_local (snd a)) \<and>
    fc_fault_phase (fs_local (snd b)) = fc_fault_phase (fs_local (snd a))"
    using assms(3,1,2)
  proof (induction rule: rtranclp_induct)
    case base
    then show ?case by simp
  next
    case (step b c)
    then show ?case using fan_step_faulted [OF step(2)] reachable.step [OF _ step(2)] by simp
  qed
  moreover from this have "given_up drv p0 (fs_hw (snd b))" using reachable_given_up by blast
  ultimately show ?thesis
    using reachable_sys(1) [of valid_output drv "fst b" "snd b" undriven_pads]
    by (simp add: sys_defs state_ok_def given_up_def disable_failed_def)
qed

theorem fault_is_final_witness:
  "g_log (fs_hw (quiesce_request 1000 (sample_running no_call_succeeds))) =
     g_log (fs_hw (sample_running no_call_succeeds))"
proof -
  have "(fan_step no_call_succeeds)\<^sup>*\<^sup>* (Suspended, sample_running no_call_succeeds)
      (Suspended, quiesce_request 1000 (sample_running no_call_succeeds))"
    by (intro r_into_rtranclp by_client quiesce_step)
  from fault_is_final [OF sample_faulted(1) _ this] sample_faulted(2) show ?thesis by simp
qed

text \<open>No command survives maintenance: while it is requested the mailbox is empty and every
  submission is refused without a trace in the mailbox, so a release starts from an empty
  mailbox and only commands accepted after it are executed.\<close>

theorem maintenance_keeps_mailbox_empty:
  assumes "reachable valid_output drv (pc, s)" and "fs_maintenance_requested s"
  shows "fs_mailbox s = None \<and> fs_mailbox (fan_control_end_maintenance t s) = None \<and>
    fst (submit_locked pass c s) = ESP_ERR_NOT_ALLOWED \<and>
    fs_mailbox (snd (snd (submit_locked pass c s))) = None"
  using reachable_sys(1) [OF assms(1), of undriven_pads] assms(2)
  by (simp add: sys_defs submit_locked_def)

theorem maintenance_keeps_mailbox_empty_witness:
  "fs_mailbox (fan_control_end_maintenance 2000
     (quiesce_request 1000 (sample_running all_calls_succeed))) = None"
  using maintenance_keeps_mailbox_empty [OF client_reaches [OF sample_reachable
      quiesce_step [of _ 1000]], of 2000] quiesce_request_frame(5) by blast

text \<open>C32. The shut-off timer runs for exactly its 2, 4 or 8 hours: at a tick \<open>d\<close> after its start it
  has expired if and only if \<open>d\<close> ticks of 10 ms are that long, wherever the 32-bit tick
  counter wraps, and the conversion of the duration to ticks does not overflow. Expiry asks for
  Off, names the timer as the source and selects Always On again.\<close>

theorem shutoff_on_time:
  assumes "fc_shutoff_active st" and "fc_desired_speed st \<noteq> FAN_SPEED_OFF"
    and "(fc_shutoff_mode st, hours) \<in> {(FAN_SHUTOFF_2H, 2), (FAN_SHUTOFF_4H, 4), (FAN_SHUTOFF_8H, 8)}"
    and "d < 2 ^ 32"
  shows "timer_expired st (started + of_nat d) started =
    (if hours * 60 * 60 * 1000 \<le> 10 * d
     then Inr (True, st\<lparr>fc_desired_speed := FAN_SPEED_OFF, fc_last_change_source := FAN_CONTROL_SOURCE_TIMER,
                        fc_shutoff_mode := FAN_SHUTOFF_ALWAYS_ON, fc_shutoff_active := False\<rparr>)
     else Inr (False, st))"
proof -
  have "fan_policy_tick_elapsed (started + of_nat d) started
      (pdMS_TO_TICKS (s_shutoff_duration_ms ! unat (fc_shutoff_mode st))) \<longleftrightarrow> hours * 360000 \<le> d"
    unfolding tick_elapsed_iff [OF assms(4)] using assms(3) duration_ticks by auto
  moreover have "unat (fc_shutoff_mode st) < length s_shutoff_duration_ms"
    using assms(3) by (auto simp: s_shutoff_duration_ms_def)
  moreover have "hours * 60 * 60 * 1000 \<le> 10 * d \<longleftrightarrow> hours * 360000 \<le> d" by linarith
  ultimately show ?thesis
    using assms(1,2) by (simp add: timer_expired_def cancel_timer_def Let_def)
qed

theorem shutoff_on_time_witness:
  "timer_expired (starting_snapshot\<lparr>fc_desired_speed := 3, fc_shutoff_mode := FAN_SHUTOFF_8H,
       fc_shutoff_active := True\<rparr>) (0xfffffff0 + of_nat 2880000) 0xfffffff0 =
     Inr (True, starting_snapshot\<lparr>fc_desired_speed := FAN_SPEED_OFF, fc_last_change_source := FAN_CONTROL_SOURCE_TIMER,
       fc_shutoff_mode := FAN_SHUTOFF_ALWAYS_ON, fc_shutoff_active := False\<rparr>)"
  using shutoff_on_time [where hours = 8 and d = 2880000 and started = "0xfffffff0" and
      st = "starting_snapshot\<lparr>fc_desired_speed := 3, fc_shutoff_mode := FAN_SHUTOFF_8H,
        fc_shutoff_active := True\<rparr>"]
  by simp

text \<open>C15. A set-speed command that is accepted takes effect in the next cycle: unless the
  transition fails (and latches the fault), the cycle acknowledges the command's number, and
  the speed is applied and its output active, or the shut-off timer ran out in that very
  cycle and the fan is off.\<close>

theorem accepted_speed_is_applied:
  assumes "reachable valid_output drv (Sleeping, s)" and "\<not> fc_fault_latched (fs_local s)"
    and "fan_control_submit_speed pass view speed source cancel s = (ESP_OK, Some n, s1)"
    and "cycle drv inp s1 = Inr s2"
  shows "fc_fault_latched (fs_snapshot s2) \<or>
    fc_applied_sequence (fs_snapshot s2) = n \<and>
    driver_output p0 (fs_hw s2) = speed_output (fc_applied_speed (fs_snapshot s2)) \<and>
    (fc_applied_speed (fs_snapshot s2) = speed \<or>
     fc_applied_speed (fs_snapshot s2) = FAN_SPEED_OFF \<and>
       fc_last_change_source (fs_snapshot s2) = FAN_CONTROL_SOURCE_TIMER)"
proof (cases "fc_fault_latched (fs_snapshot s2)")
  case False
  obtain c where c: "cmd_speed c = speed" "cmd_action c = FAN_CONTROL_ACTION_SET_SPEED" "cmd_sequence c = n"
    and s1: "fs_mailbox s1 = Some c" "\<not> fs_maintenance_requested s1" "fs_local s1 = fs_local s"
    and sub: "client_step s s1" using submit_speed_accepted [OF assms(3)] .
  have "actor_ok p0 (Sleeping, s1)" using client_step_ok [OF sub, of p0 Sleeping] reachable_ok [OF assms(1), of p0] by simp
  from cycle_ok [OF this assms(4)] have ok: "actor_ok p0 (Sleeping, s2)" .
  obtain m b where b: "cycle_begin s1 = (m, b)" by (cases "cycle_begin s1")
  note ready = cycle_begin_ready [OF s1(2) _ b] 
  let ?r = "cycle_receive m inp b"
  have r: "fc_desired_speed (fs_local ?r) = speed" "fc_accepted_sequence (fs_local ?r) = n"
    using ready s1 assms(2) c
    by (simp_all add: cycle_receive_def interpret_command_def change_speed_def cancel_timer_def split_beta Let_def)
  obtain t where t: "cycle_timer m inp ?r = Inr t"
    and s2: "s2 = cycle_finish m inp (cycle_account inp (cycle_transition drv inp t))"
    using cycle_runs [OF assms(4) b] .
  note d = cycle_transition_desired [of drv inp t]
  have "fc_accepted_sequence (fs_local s2) = n"
    "fc_desired_speed (fs_local s2) = speed \<or> fc_desired_speed (fs_local s2) = FAN_SPEED_OFF \<and>
       fc_last_change_source (fs_local s2) = FAN_CONTROL_SOURCE_TIMER"
    using False timer_stage_result [OF t] r d by (simp_all add: s2)
  with ok False show ?thesis by (auto simp: sys_defs settled_def)
qed simp

theorem accepted_speed_is_applied_witness:
  "\<exists>n s1 s2. fan_control_submit_speed True (fan_control_get_snapshot (sample_running all_calls_succeed))
      FAN_SPEED_2 FAN_CONTROL_SOURCE_REST False (sample_running all_calls_succeed) = (ESP_OK, Some n, s1) \<and>
     cycle all_calls_succeed sample_input s1 = Inr s2 \<and>
     (fc_fault_latched (fs_snapshot s2) \<or> fc_applied_sequence (fs_snapshot s2) = n)"
proof -
  let ?s = "sample_running all_calls_succeed"
  let ?run = "fan_control_submit_speed True (fan_control_get_snapshot ?s) FAN_SPEED_2
    FAN_CONTROL_SOURCE_REST False ?s"
  have "fst ?run = ESP_OK" "fst (snd ?run) = Some 1" by code_simp+
  then obtain s1 where s1: "?run = (ESP_OK, Some 1, s1)" by (cases ?run) simp
  obtain s2 where s2: "cycle all_calls_succeed sample_input s1 = Inr s2"
  proof -
    obtain c where "client_step ?s s1" using submit_speed_accepted [OF s1] .
    from cycle_total [OF reachable_ok [OF client_reaches [OF sample_reachable this], of undriven_pads],
        of all_calls_succeed sample_input] that
    show ?thesis by blast
  qed
  from accepted_speed_is_applied [OF sample_reachable sample_facts(1) s1 s2] s1 s2 show ?thesis by blast
qed

text \<open>C16. Quiescing the fan succeeds whenever it can: with no fault latched and a decoder that can
  be switched off, the request returns \<open>ESP_OK\<close> after at most one cycle of the actor, with
  the fan off, the decoder disabled, the mailbox empty and maintenance requested.\<close>

theorem quiesce_succeeds:
  assumes "reachable valid_output drv (Sleeping, s)" and "fs_task s"
    and "\<not> fc_fault_latched (fs_local s)"
    and "fst (fan_transition drv FAN_SPEED_OFF (Some 0) (fs_hw s)) = ESP_OK"
  shows "\<exists>s'. fan_control_quiesce drv (inp # rest) begin_us end_us s = Inr (ESP_OK, s') \<and>
    fc_applied_speed (fs_local s') = FAN_SPEED_OFF \<and> driver_output p0 (fs_hw s') = None \<and>
    fs_mailbox s' = None \<and> fs_maintenance_requested s'"
proof -
  let ?q = "quiesce_request begin_us s"
  have q: "actor_ok p0 (Sleeping, ?q)"
    using client_step_ok [OF quiesce_step, of p0 s Sleeping begin_us] reachable_ok [OF assms(1), of p0] by simp
  have "\<exists>s'. wait_quiesced drv (inp # rest) ?q = Inr s' \<and> fs_quiesced s'"
  proof (cases "fs_quiesced ?q")
    case False
    from maintenance_cycle [OF q, of drv inp] assms(3,4)
    obtain s1 where "cycle drv inp ?q = Inr s1" "fs_quiesced s1" by auto
    with False show ?thesis by (cases rest) simp_all
  qed simp
  then obtain s' where s': "wait_quiesced drv (inp # rest) ?q = Inr s'" "fs_quiesced s'" by blast
  have "actor_ok p0 (Sleeping, s')" by (rule wait_quiesced_ok [OF s'(1) q])
  moreover have "fs_maintenance_requested s'" using wait_quiesced_request [OF s'(1)] by simp
  ultimately show ?thesis
    using s' assms(2) by (simp add: fan_control_quiesce_def quiesce_result_def sys_defs speed_output_def)
qed

theorem quiesce_succeeds_witness:
  "\<exists>s. fan_control_quiesce all_calls_succeed [sample_input] 1000 9000 (sample_running all_calls_succeed) =
     Inr (ESP_OK, s)"
  using quiesce_succeeds [OF sample_reachable sample_facts(3,1,4)] by blast

text \<open>Quiescing has two outcomes and never faults: \<open>ESP_OK\<close> with the fan off, or
  \<open>ESP_ERR_TIMEOUT\<close> with the maintenance request withdrawn, so that a failed maintenance
  operation leaves the fan usable.\<close>

theorem quiesce_outcomes:
  assumes "reachable valid_output drv (Sleeping, s)" and "fs_task s"
  shows "\<exists>err s'. fan_control_quiesce drv inputs begin_us end_us s = Inr (err, s') \<and>
    (err = ESP_OK \<and> fs_maintenance_requested s' \<and> driver_output p0 (fs_hw s') = None \<or>
     err = ESP_ERR_TIMEOUT \<and> \<not> fs_maintenance_requested s')"
proof -
  let ?q = "quiesce_request begin_us s"
  have q: "actor_ok p0 (Sleeping, ?q)"
    using client_step_ok [OF quiesce_step, of p0 s Sleeping begin_us] reachable_ok [OF assms(1), of p0] by simp
  obtain s' where s': "wait_quiesced drv inputs ?q = Inr s'" using wait_quiesced_total [OF q] by blast
  have "actor_ok p0 (Sleeping, s')" by (rule wait_quiesced_ok [OF s' q])
  moreover have "fs_maintenance_requested s'" using wait_quiesced_request [OF s'] by simp
  ultimately show ?thesis
    using s' assms(2) by (simp add: fan_control_quiesce_def quiesce_result_def sys_defs speed_output_def)
qed

theorem quiesce_outcomes_witness:
  "\<exists>err s. fan_control_quiesce all_calls_succeed [] 1000 9000 (sample_running all_calls_succeed) =
     Inr (err, s)"
  using quiesce_outcomes [OF sample_reachable sample_facts(3)] by blast

end
