(* ===== verification/SnapshotLock.thy ===== *)
theory SnapshotLock
  imports FanControl
begin

text \<open>
  The sequence lock of \<open>main/fan_control.c\<close>: \<open>publish_snapshot\<close> writes the snapshot word by word
  between two increments of the sequence number, \<open>fan_control_get_snapshot\<close> copies it word by
  word between two reads of the number. The processor has one core, so the two tasks
  interleave access by access; every interleaving is a run of the step relation. A call of the
  reader is up to four attempts (\<open>reading\<close>), each the run from its first access to its last.
\<close>

section \<open>Steps of the writer and the reader\<close>

text \<open>
  The number of increments so far (\<open>lk_total\<close>) and the snapshots published so far are ghost
  state, as are the totals that the reader's program counter remembers.
\<close>

datatype 'w writer_pc = W_Idle | W_Again "'w list" | W_Copy "'w list" nat u32

datatype 'w reader_pc = R_Idle | R_Copy u32 "'w list" nat | R_Done u32 "'w list" u32 nat nat

record 'w lock_state =
  lk_seq :: u32
  lk_words :: "'w list"
  lk_writer :: "'w writer_pc"
  lk_reader :: "'w reader_pc"
  lk_total :: nat
  lk_published :: "'w list list"

definition bump :: "'w lock_state \<Rightarrow> 'w writer_pc \<Rightarrow> 'w lock_state" where
  "bump s pc = s\<lparr>lk_seq := lk_seq s + 1, lk_total := lk_total s + 1, lk_writer := pc\<rparr>"

inductive lock_step :: "'w lock_state \<Rightarrow> 'w lock_state \<Rightarrow> bool" where
  write_begin: "lk_writer s = W_Idle \<Longrightarrow> length v = length (lk_words s) \<Longrightarrow>
    pc = (if (lk_seq s + 1) AND 1 = 0 then W_Again v else W_Copy v 0 (lk_seq s + 1)) \<Longrightarrow>
    lock_step s (bump s pc)"
| write_again: "lk_writer s = W_Again v \<Longrightarrow>
    lock_step s (bump s (W_Copy v 0 (lk_seq s + 1)))"
| write_word: "lk_writer s = W_Copy v i q \<Longrightarrow> i < length v \<Longrightarrow>
    lock_step s (s\<lparr>lk_words := (lk_words s)[i := v ! i], lk_writer := W_Copy v (Suc i) q\<rparr>)"
| write_end: "lk_writer s = W_Copy v i q \<Longrightarrow> i = length v \<Longrightarrow>
    lock_step s (s\<lparr>lk_seq := q + 1, lk_total := lk_total s + 1, lk_writer := W_Idle,
                   lk_published := lk_published s @ [v]\<rparr>)"
| read_begin: "lk_reader s = R_Idle \<Longrightarrow> lk_seq s AND 1 = 0 \<Longrightarrow>
    lock_step s (s\<lparr>lk_reader := R_Copy (lk_seq s) [] (lk_total s)\<rparr>)"
| read_word: "lk_reader s = R_Copy b c t \<Longrightarrow> length c < length (lk_words s) \<Longrightarrow>
    lock_step s (s\<lparr>lk_reader := R_Copy b (c @ [lk_words s ! length c]) t\<rparr>)"
| read_end: "lk_reader s = R_Copy b c t \<Longrightarrow> length c = length (lk_words s) \<Longrightarrow>
    lock_step s (s\<lparr>lk_reader := R_Done b c (lk_seq s) t (lk_total s)\<rparr>)"
| read_return: "lk_reader s = R_Done b c a t u \<Longrightarrow> lock_step s (s\<lparr>lk_reader := R_Idle\<rparr>)"

text \<open>The start: the snapshot that \<open>fan_control_init\<close> stored counts as published.\<close>

definition lock_start :: "'w list \<Rightarrow> 'w lock_state" where
  "lock_start v = \<lparr>lk_seq = 0, lk_words = v, lk_writer = W_Idle, lk_reader = R_Idle,
     lk_total = 0, lk_published = [v]\<rparr>"

definition lock_reachable :: "'w list \<Rightarrow> 'w lock_state \<Rightarrow> bool" where
  "lock_reachable v s \<longleftrightarrow> lock_step\<^sup>*\<^sup>* (lock_start v) s"

section \<open>The invariant\<close>

definition writer_ok :: "'w lock_state \<Rightarrow> bool" where
  "writer_ok s \<longleftrightarrow> lk_seq s = of_nat (lk_total s) \<and> lk_published s \<noteq> [] \<and>
     (case lk_writer s of
        W_Idle \<Rightarrow> even (lk_total s) \<and> lk_words s = last (lk_published s)
      | W_Again v \<Rightarrow> False
      | W_Copy v i q \<Rightarrow> odd (lk_total s) \<and> q = lk_seq s \<and> i \<le> length v \<and>
          length v = length (lk_words s) \<and> take i (lk_words s) = take i v)"

text \<open>While the total is the one the reader began with, nothing has been written.\<close>

definition reader_ok :: "'w lock_state \<Rightarrow> bool" where
  "reader_ok s \<longleftrightarrow>
     (case lk_reader s of
        R_Idle \<Rightarrow> True
      | R_Copy b c t \<Rightarrow> b = of_nat t \<and> even t \<and> t \<le> lk_total s \<and> length c \<le> length (lk_words s) \<and>
          (lk_total s = t \<longrightarrow> c = take (length c) (lk_words s))
      | R_Done b c a t u \<Rightarrow> b = of_nat t \<and> a = of_nat u \<and> even t \<and> t \<le> u \<and>
          (u = t \<longrightarrow> c \<in> set (lk_published s)))"

lemma u32_even_iff: "(w :: u32) AND 1 = 0 \<longleftrightarrow> even (unat w)"
  by (simp add: and_one_eq even_iff_mod_2_eq_zero unat_arith_simps unat_mod)

lemma of_nat_even_iff: "(of_nat n :: u32) AND 1 = 0 \<longleftrightarrow> even n"
  by (simp add: u32_even_iff unat_of_nat dvd_mod_iff)

lemma bump_ok:
  assumes "writer_ok s" and "reader_ok s"
  shows "reader_ok (bump s pc)" and "lk_seq (bump s pc) = of_nat (lk_total (bump s pc))"
  using assms by (auto simp: bump_def reader_ok_def writer_ok_def split: reader_pc.splits)

lemma take_update_next: "i < length v \<Longrightarrow> length v = length w \<Longrightarrow> take i w = take i v \<Longrightarrow>
    take (Suc i) (w[i := v ! i]) = take (Suc i) v"
  by (simp add: take_Suc_conv_app_nth take_update_cancel)

lemma reader_ok_write:
  assumes "reader_ok s" "odd (lk_total s)" "length w = length (lk_words s)"
    and "s' = s\<lparr>lk_words := w, lk_writer := pc\<rparr>"
  shows "reader_ok s'"
  using assms by (auto simp: reader_ok_def split: reader_pc.splits)

lemma reader_ok_publish:
  assumes "reader_ok s" "odd (lk_total s)"
    and "s' = s\<lparr>lk_seq := q, lk_total := lk_total s + 1, lk_writer := pc, lk_published := lk_published s @ [v]\<rparr>"
  shows "reader_ok s'"
  using assms by (auto simp: reader_ok_def split: reader_pc.splits)

lemma writer_ok_reader [simp]: "writer_ok (s\<lparr>lk_reader := r\<rparr>) = writer_ok s"
  by (simp add: writer_ok_def split: writer_pc.splits)

lemma writer_at_end:
  assumes "writer_ok s" and "lk_writer s = W_Copy v (length v) q"
  shows "lk_words s = v"
proof -
  note w = assms(1) [unfolded writer_ok_def assms(2) writer_pc.case]
  from w have eq: "take (length v) (lk_words s) = take (length v) v" by (elim conjE)
  from w have len: "length v = length (lk_words s)" by (elim conjE)
  from eq show ?thesis by (simp only: len take_all order_refl)
qed

lemma lock_step_ok:
  assumes "lock_step s s'" and "writer_ok s" and "reader_ok s"
  shows "writer_ok s' \<and> reader_ok s'"
  using assms
proof (induction rule: lock_step.induct)
  case (write_begin s v pc)
  then have odd: "even (lk_total s)" "lk_seq s + 1 = of_nat (lk_total s + 1)" by (simp_all add: writer_ok_def)
  then have "(lk_seq s + 1) AND 1 \<noteq> 0" unfolding odd(2) of_nat_even_iff by simp
  with write_begin(3) have pc: "pc = W_Copy v 0 (lk_seq s + 1)" by simp
  from bump_ok [OF write_begin(4,5)] odd write_begin(1,2,4) show ?case
    unfolding pc by (auto simp: writer_ok_def bump_def add.commute)
next
  case (write_again s v)
  then show ?case by (simp add: writer_ok_def)
next
  case (write_word s v i q)
  moreover from this have "reader_ok (s\<lparr>lk_words := (lk_words s)[i := v ! i], lk_writer := W_Copy v (Suc i) q\<rparr>)"
    by (intro reader_ok_write [OF _ _ _ refl]) (simp_all add: writer_ok_def)
  ultimately show ?case by (simp add: writer_ok_def take_update_next)
next
  case (write_end s v i q)
  moreover from this have "reader_ok (s\<lparr>lk_seq := q + 1, lk_total := lk_total s + 1, lk_writer := W_Idle,
      lk_published := lk_published s @ [v]\<rparr>)"
    by (intro reader_ok_publish [OF _ _ refl]) (simp_all add: writer_ok_def)
  moreover have "lk_words s = v" using writer_at_end [OF write_end(3)] write_end(1,2) by simp
  ultimately show ?case by (simp add: writer_ok_def)
next
  case (read_begin s)
  then have "lk_seq s = of_nat (lk_total s)" by (simp add: writer_ok_def)
  with read_begin show ?case by (simp add: reader_ok_def of_nat_even_iff)
next
  case (read_word s b c t)
  then show ?case by (auto simp: reader_ok_def take_Suc_conv_app_nth)
next
  case (read_end s b c t)
  then show ?case
    by (auto simp: writer_ok_def reader_ok_def split: writer_pc.splits)
next
  case (read_return s b c a t u)
  then show ?case by (simp add: reader_ok_def)
qed

lemma lock_reachable_ok:
  assumes "lock_reachable v s"
  shows "writer_ok s \<and> reader_ok s"
  using assms unfolding lock_reachable_def
proof (induction rule: rtranclp_induct)
  case base
  show ?case by (simp add: lock_start_def writer_ok_def reader_ok_def)
next
  case (step s s')
  then show ?case using lock_step_ok by blast
qed

section \<open>Properties\<close>

text \<open>With fewer than \<open>2 ^ 32\<close> increments between two reads, equal numbers mean no increment.\<close>

lemma same_number:
  assumes "before = of_nat t" and "after = (of_nat u :: u32)" and "t \<le> u" and "before = after" and "u < t + 2 ^ 32"
  shows "t = u"
proof -
  have "(of_nat (u - t) :: u32) = 0" using assms(1-4) by (simp add: of_nat_diff)
  moreover have "u - t < 4294967296" using assms(3,5) by simp
  ultimately have "u - t = 0" by (metis unat_0 unat_of_nat_u32)
  with assms(3) show ?thesis by simp
qed

text \<open>An undisturbed read of two words.\<close>

definition example_read :: "nat lock_state" where
  "example_read = (lock_start [1, 2])\<lparr>lk_reader := R_Done 0 [1, 2] 0 0 0\<rparr>"

lemma example_reachable: "lock_reachable [1, 2] example_read"
proof -
  let ?s = "lock_start [1, 2 :: nat]"
  let ?r = "\<lambda>c. ?s\<lparr>lk_reader := R_Copy 0 c 0\<rparr>"
  note [trans] = rtranclp.rtrancl_into_rtrancl
  have "lock_step\<^sup>*\<^sup>* ?s ?s" by simp
  also have "lock_step ?s (?r [])" using read_begin [of ?s] by (simp add: lock_start_def)
  also have "lock_step (?r []) (?r [1])" using read_word [of "?r []" 0 "[]" 0] by (simp add: lock_start_def)
  also have "lock_step (?r [1]) (?r [1, 2])" using read_word [of "?r [1]" 0 "[1]" 0] by (simp add: lock_start_def)
  also have "lock_step (?r [1, 2]) example_read"
    using read_end [of "?r [1, 2]" 0 "[1, 2]" 0] by (simp add: lock_start_def example_read_def)
  finally show ?thesis by (simp add: lock_reachable_def)
qed

text \<open>
  A call of \<open>fan_control_get_snapshot\<close> as a run of the system: its attempts one after the other.
  An attempt reads an odd number and gives up, or it copies; what it has read goes to the loop
  \<open>read_attempts\<close>. Fewer than \<open>2 ^ 32\<close> increments happen during one attempt.
\<close>

inductive attempt :: "'w lock_state \<Rightarrow> u32 \<times> 'w list \<times> u32 \<Rightarrow> 'w lock_state \<Rightarrow> bool" where
  met_odd: "lk_reader s = R_Idle \<Longrightarrow> lock_step\<^sup>*\<^sup>* s s' \<Longrightarrow> lk_reader s' = R_Idle \<Longrightarrow> lk_seq s' AND 1 \<noteq> 0 \<Longrightarrow>
    attempt s (lk_seq s', copy, after) s'"
| copied: "lk_reader s = R_Idle \<Longrightarrow> lock_step\<^sup>*\<^sup>* s m \<Longrightarrow> lk_reader m = R_Done before copy after t u \<Longrightarrow>
    u < t + 2 ^ 32 \<Longrightarrow> attempt s (before, copy, after) (m\<lparr>lk_reader := R_Idle\<rparr>)"

inductive reading :: "'w lock_state \<Rightarrow> (u32 \<times> 'w list \<times> u32) list \<Rightarrow> 'w lock_state \<Rightarrow> bool" where
  no_more: "reading s [] s"
| another: "attempt s a m \<Longrightarrow> reading m as s' \<Longrightarrow> reading s (a # as) s'"

lemma attempt_steps: "attempt s a s' \<Longrightarrow> lock_step\<^sup>*\<^sup>* s s'"
  by (induction rule: attempt.induct) (auto intro: rtranclp.rtrancl_into_rtrancl read_return)

lemma reading_steps: "reading s as s' \<Longrightarrow> lock_step\<^sup>*\<^sup>* s s'"
  by (induction rule: reading.induct) (auto dest: attempt_steps)

lemma lock_reachable_steps: "lock_reachable v s \<Longrightarrow> lock_step\<^sup>*\<^sup>* s s' \<Longrightarrow> lock_reachable v s'"
  by (simp add: lock_reachable_def)

text \<open>The snapshot in force at a moment of a run from \<open>s\<close> to \<open>s'\<close>.\<close>

definition in_force_between :: "'w lock_state \<Rightarrow> 'w list \<Rightarrow> 'w lock_state \<Rightarrow> bool" where
  "in_force_between s copy s' \<longleftrightarrow>
     (\<exists>m. lock_step\<^sup>*\<^sup>* s m \<and> lock_step\<^sup>*\<^sup>* m s' \<and> copy = last (lk_published m))"

lemma in_force_step: "in_force_between s c m \<Longrightarrow> lock_step m s' \<Longrightarrow> in_force_between s c s'"
  unfolding in_force_between_def by (elim exE conjE) (rule exI, intro conjI, assumption, rule rtranclp.rtrancl_into_rtrancl)

lemma in_force_wider:
  "in_force_between a c b \<Longrightarrow> lock_step\<^sup>*\<^sup>* s a \<Longrightarrow> lock_step\<^sup>*\<^sup>* b s' \<Longrightarrow> in_force_between s c s'"
  unfolding in_force_between_def
  by (elim exE conjE) (rule exI, intro conjI, erule (1) rtranclp_trans, erule (1) rtranclp_trans)

text \<open>A copy made with an unchanged number was the snapshot in force when the attempt ended.\<close>

lemma copy_ends:
  assumes "writer_ok m" and "reader_ok m" and "lk_reader m = R_Copy b c t" and "length c = length (lk_words m)"
    and "lk_total m = t"
  shows "c = last (lk_published m)"
proof -
  note r = assms(2) [unfolded reader_ok_def assms(3) reader_pc.case]
  have "even (lk_total m)" using r assms(5) by simp
  then have "lk_words m = last (lk_published m)"
    using assms(1) by (auto simp: writer_ok_def split: writer_pc.splits)
  moreover have "c = lk_words m" using r assms(4,5) by simp
  ultimately show ?thesis by simp
qed

lemma done_in_force:
  assumes "lock_step\<^sup>*\<^sup>* s m" and "lock_reachable v s" and "lk_reader s = R_Idle"
    and "lk_reader m = R_Done before copy after t t"
  shows "in_force_between s copy m"
  using assms(1,4)
proof (induction rule: rtranclp_induct)
  case base
  then show ?case using assms(3) by simp
next
  case (step y z)
  have run: "lock_step\<^sup>*\<^sup>* s z" using step.hyps by (rule rtranclp.rtrancl_into_rtrancl)
  have ok: "writer_ok y" "reader_ok y"
    using lock_reachable_ok [OF lock_reachable_steps [OF assms(2) step.hyps(1)]] by simp_all
  show ?case
  proof (cases "lk_reader y = lk_reader z")
    case True
    then have "in_force_between s copy y" using step.IH step.prems by simp
    then show ?thesis using step.hyps(2) by (rule in_force_step)
  next
    case False
    with step.hyps(2) step.prems have y: "lk_reader y = R_Copy before copy t" "length copy = length (lk_words y)" "lk_total y = t"
      "lk_published z = lk_published y"
      by (auto elim!: lock_step.cases simp: bump_def)
    have "copy = last (lk_published z)" using copy_ends [OF ok y(1-3)] y(4) by simp
    then show ?thesis unfolding in_force_between_def using run by blast
  qed
qed

lemma attempt_in_force:
  assumes "attempt s (before, copy, after) s'" and "lock_reachable v s"
    and "before AND 1 = 0" and "before = after"
  shows "in_force_between s copy s'"
  using assms(1)
proof cases
  case met_odd
  then show ?thesis using assms(3) by simp
next
  case (copied m t u)
  have "reader_ok m" using lock_reachable_ok [OF lock_reachable_steps [OF assms(2) copied(3)]] by simp
  then have "before = of_nat t" "after = of_nat u" "t \<le> u" using copied(4) by (simp_all add: reader_ok_def)
  then have "t = u" using same_number assms(4) copied(5) by blast
  then have "in_force_between s copy m"
    using done_in_force [OF copied(3) assms(2) copied(2)] copied(4) by blast
  moreover have "lock_step m s'" unfolding copied(1) by (rule read_return [OF copied(4)])
  ultimately show ?thesis by (rule in_force_step)
qed

lemma reading_result:
  assumes "reading s as s'" and "lock_reachable v s" and "read_attempts as = (err, c)"
  shows "if err = ESP_OK then \<exists>copy. c = Some copy \<and> in_force_between s copy s'
    else err = ESP_ERR_TIMEOUT \<and> c = None \<and> (\<forall>(before, copy, after) \<in> set as. before \<noteq> after \<or> odd (unat before))"
  using assms
proof (induction rule: reading.induct)
  case (no_more s)
  then show ?case by simp
next
  case (another s a m as s')
  obtain before copy after where a: "a = (before, copy, after)" by (cases a)
  have m: "lock_reachable v m" using lock_reachable_steps [OF another.prems(1) attempt_steps [OF another.hyps(1)]] .
  show ?case
  proof (cases "before AND 1 = 0 \<and> before = after")
    case True
    then have "in_force_between s copy m" using attempt_in_force [OF another.hyps(1) [unfolded a] another.prems(1)] by blast
    then have "in_force_between s copy s'" using in_force_wider reading_steps [OF another.hyps(2)] by blast
    then show ?thesis using another.prems(2) True a by auto
  next
    case False
    then have rest: "read_attempts as = (err, c)" using another.prems(2) a by (auto split: if_splits)
    from another.IH [OF m rest] have "if err = ESP_OK then \<exists>copy. c = Some copy \<and> in_force_between m copy s'
      else err = ESP_ERR_TIMEOUT \<and> c = None \<and> (\<forall>(before, copy, after) \<in> set as. before \<noteq> after \<or> odd (unat before))" .
    moreover have "in_force_between m x s' \<Longrightarrow> in_force_between s x s'" for x
      by (rule in_force_wider [OF _ attempt_steps [OF another.hyps(1)] rtranclp.rtrancl_refl])
    ultimately show ?thesis using False a u32_even_iff [of before] by (auto split: if_splits)
  qed
qed

text \<open>C33. \<open>fan_control_get_snapshot\<close> never returns a torn or a stale snapshot. Let its attempts be
  interleaved word by word with a writer in any way, with fewer than \<open>2 ^ 32\<close> increments within
  one attempt. Then \<open>ESP_OK\<close> comes with the snapshot that was the last one published as a
  whole at some moment between the start and the end of the call; otherwise the call gives up
  with \<open>ESP_ERR_TIMEOUT\<close> and no copy, and then every attempt met a write.\<close>

theorem get_snapshot_consistent:
  assumes "lock_reachable v s" and "reading s as s'" and "read_attempts as = (err, c)"
  shows "err = ESP_OK \<and> (\<exists>m. lock_step\<^sup>*\<^sup>* s m \<and> lock_step\<^sup>*\<^sup>* m s' \<and> c = Some (last (lk_published m))) \<or>
    err = ESP_ERR_TIMEOUT \<and> c = None \<and> (\<forall>(before, copy, after) \<in> set as. before \<noteq> after \<or> odd (unat before))"
  using reading_result [OF assms(2,1,3)] unfolding in_force_between_def by (cases "err = ESP_OK") auto

theorem get_snapshot_consistent_witness:
  "\<exists>m. lock_step\<^sup>*\<^sup>* (lock_start [1, 2 :: nat]) m \<and> lock_step\<^sup>*\<^sup>* m (example_read\<lparr>lk_reader := R_Idle\<rparr>) \<and>
     snd (read_attempts [(0, [1, 2], 0)]) = Some (last (lk_published m))"
proof -
  let ?s = "lock_start [1, 2 :: nat]"
  have start: "lock_reachable [1, 2] ?s" by (simp add: lock_reachable_def)
  have "attempt ?s (0, [1, 2], 0) (example_read\<lparr>lk_reader := R_Idle\<rparr>)"
    by (rule copied [of _ _ _ _ _ 0 0]) (use example_reachable in \<open>simp_all add: lock_reachable_def lock_start_def example_read_def\<close>)
  from another [OF this no_more] get_snapshot_consistent [OF start, of "[(0, [1, 2], 0)]" _ ESP_OK "Some [1, 2]"]
  show ?thesis by auto
qed

end
