(* ===== verification/DnsServer.thy ===== *)
theory DnsServer
  imports Prelude
begin

text \<open>
  \<open>components/dns_server\<close>: the captive-portal DNS server. Packets are byte lists, the buffer
  has \<open>DNS_PACKET_MAX\<close> bytes; a read or write outside it is \<open>Inl OutOfBounds\<close>. Sizes are at
  most a few hundred, so \<open>size_t\<close> is \<open>nat\<close>. Sockets, the interface table and FreeRTOS are
  inputs of the operations.
\<close>

section \<open>Buffers\<close>

abbreviation (input) DNS_PACKET_MAX :: nat where "DNS_PACKET_MAX \<equiv> 256"
abbreviation (input) SIZEOF_HEADER :: nat where "SIZEOF_HEADER \<equiv> 12"
abbreviation (input) SIZEOF_ANSWER :: nat where "SIZEOF_ANSWER \<equiv> 16"

definition read_u8 :: "u8 list \<Rightarrow> nat \<Rightarrow> memory_fault + u8" where
  "read_u8 p i = (if i < length p then Inr (p ! i) else Inl OutOfBounds)"

text \<open>\<open>ntohs\<close> of the two bytes at \<open>i\<close>: network order is most significant byte first.\<close>

definition read_u16 :: "u8 list \<Rightarrow> nat \<Rightarrow> memory_fault + u16" where
  "read_u16 p i =
     (if i + 1 < length p then Inr (ucast (p ! i) * 256 + ucast (p ! (i + 1))) else Inl OutOfBounds)"

definition write_bytes :: "u8 list \<Rightarrow> nat \<Rightarrow> u8 list \<Rightarrow> memory_fault + u8 list" where
  "write_bytes p i bs =
     (if i + length bs \<le> length p then Inr (take i p @ bs @ drop (i + length bs) p)
      else Inl OutOfBounds)"

definition u16_bytes :: "u16 \<Rightarrow> u8 list" where
  "u16_bytes w = [ucast (drop_bit 8 w), ucast w]"

definition u32_bytes :: "u32 \<Rightarrow> u8 list" where
  "u32_bytes w = [ucast (drop_bit 24 w), ucast (drop_bit 16 w), ucast (drop_bit 8 w), ucast w]"

text \<open>An \<open>esp_ip4_addr_t\<close> is in network order in memory; as a little-endian word its lowest
  byte comes first.\<close>

definition address_bytes :: "u32 \<Rightarrow> u8 list" where
  "address_bytes w = rev (u32_bytes w)"

section \<open>Parsing the question\<close>

function label_end :: "u8 list \<Rightarrow> nat \<Rightarrow> nat \<Rightarrow> memory_fault + nat option" where
  "label_end packet len offset =
     (if offset < len then
        case read_u8 packet offset of
          Inl e \<Rightarrow> Inl e
        | Inr label_length \<Rightarrow>
            if label_length = 0 then Inr (Some offset)
            else if label_length AND 0xc0 \<noteq> 0 \<or> len \<le> offset + 1 + unat label_length then Inr None
            else label_end packet len (offset + (1 + unat label_length))
      else Inr (Some offset))"
  by pat_completeness auto
termination by (relation "measure (\<lambda>(_, len, offset). len - offset)") auto

declare label_end.simps [simp del]

definition question_end_offset :: "u8 list \<Rightarrow> nat \<Rightarrow> memory_fault + nat" where
  "question_end_offset packet len =
     (case label_end packet len SIZEOF_HEADER of
        Inl e \<Rightarrow> Inl e
      | Inr None \<Rightarrow> Inr 0
      | Inr (Some offset) \<Rightarrow> if len < offset + 5 then Inr 0 else Inr (offset + 5))"

section \<open>Building the response\<close>

definition answer_bytes :: "u32 \<Rightarrow> u8 list" where
  "answer_bytes address =
     u16_bytes 0xc00c @ u16_bytes 1 @ u16_bytes 1 @ u32_bytes 60 @ u16_bytes 4 @ address_bytes address"

text \<open>The header fields from \<open>flags\<close> on; \<open>id\<close> and \<open>question_count\<close> stay as received.\<close>

definition write_header :: "u8 list \<Rightarrow> memory_fault + u8 list" where
  "write_header packet =
     (case write_bytes packet 2 (u16_bytes 0x8180) of
        Inl e \<Rightarrow> Inl e
      | Inr p \<Rightarrow> write_bytes p 6 (u16_bytes 1 @ u16_bytes 0 @ u16_bytes 0))"

definition answer_question :: "u8 list \<Rightarrow> nat \<Rightarrow> u32 \<Rightarrow> memory_fault + nat \<times> u8 list" where
  "answer_question packet question_end address =
     (case (read_u16 packet (question_end - 4), read_u16 packet (question_end - 2)) of
        (Inr query_type, Inr query_class) \<Rightarrow>
          if query_type \<noteq> 1 \<or> query_class \<noteq> 1 then Inr (0, packet)
          else
            (case write_header packet of
               Inl e \<Rightarrow> Inl e
             | Inr p \<Rightarrow>
                 (case write_bytes p question_end (answer_bytes address) of
                    Inl e \<Rightarrow> Inl e
                  | Inr p \<Rightarrow> Inr (question_end + SIZEOF_ANSWER, p)))
      | _ \<Rightarrow> Inl OutOfBounds)"

definition build_response :: "u8 list \<Rightarrow> nat \<Rightarrow> nat \<Rightarrow> u32 \<Rightarrow> memory_fault + nat \<times> u8 list" where
  "build_response packet request_length capacity address =
     (if request_length < SIZEOF_HEADER then Inr (0, packet)
      else case read_u16 packet 4 of
        Inl e \<Rightarrow> Inl e
      | Inr question_count \<Rightarrow>
          if question_count \<noteq> 1 then Inr (0, packet)
          else case question_end_offset packet request_length of
            Inl e \<Rightarrow> Inl e
          | Inr question_end \<Rightarrow>
              if question_end = 0 \<or> capacity < question_end + SIZEOF_ANSWER then Inr (0, packet)
              else answer_question packet question_end address)"

section \<open>The task\<close>

text \<open>
  \<open>ds_socket\<close> is \<open>socket_fd >= 0\<close>; \<open>ds_task\<close> is \<open>task != NULL\<close>; the last three fields are the
  event bits.
\<close>

record dns_server =
  ds_running :: bool
  ds_task :: bool
  ds_in_use :: bool
  ds_socket :: bool
  ds_netif_key :: "string option"
  ds_started :: bool
  ds_stopped :: bool
  ds_failed :: bool

definition dns_task_open :: "bool \<Rightarrow> bool \<Rightarrow> dns_server \<Rightarrow> dns_server" where
  "dns_task_open socket_ok bind_ok s =
     (if \<not> socket_ok \<or> \<not> bind_ok
      then s\<lparr>ds_socket := False, ds_running := False, ds_task := False, ds_failed := True,
             ds_stopped := True\<rparr>
      else s\<lparr>ds_socket := True, ds_started := True\<rparr>)"

text \<open>
  One turn of the loop: \<open>received\<close> is what \<open>recvfrom\<close> stored at the start of the buffer (empty
  on a timeout or an error), \<open>stale\<close> what the rest of the buffer holds, \<open>ip\<close> the address of
  the interface if it has one. The result is the datagram sent, if any.
\<close>

definition dns_task_turn :: "u8 list \<Rightarrow> u8 list \<Rightarrow> u32 option \<Rightarrow> memory_fault + u8 list option" where
  "dns_task_turn received stale ip =
     (if received = [] then Inr None
      else case ip of
        None \<Rightarrow> Inr None
      | Some address \<Rightarrow>
          let packet = received @ drop (length received) stale in
          (case build_response packet (length received) DNS_PACKET_MAX address of
             Inl e \<Rightarrow> Inl e
           | Inr (response_length, packet) \<Rightarrow>
               if 0 < response_length then
                 (if response_length \<le> length packet then Inr (Some (take response_length packet))
                  else Inl OutOfBounds)
               else Inr None))"

definition dns_task_exit :: "dns_server \<Rightarrow> dns_server" where
  "dns_task_exit s = s\<lparr>ds_socket := False, ds_task := False, ds_stopped := True\<rparr>"

section \<open>Starting and stopping\<close>

text \<open>What the task does while a caller waits for the event bits is \<open>during\<close>.\<close>

definition dns_server_start ::
    "string option \<Rightarrow> bool \<Rightarrow> bool \<Rightarrow> (dns_server \<Rightarrow> dns_server) \<Rightarrow> (dns_server \<Rightarrow> dns_server)
     \<Rightarrow> dns_server \<Rightarrow> bool \<times> dns_server" where
  "dns_server_start netif_key events_ok task_ok during during2 s =
     (case netif_key of
        None \<Rightarrow> (False, s)
      | Some key \<Rightarrow>
          if ds_in_use s then (False, s)
          else
            let s = \<lparr>ds_running = True, ds_task = task_ok, ds_in_use = True, ds_socket = False,
                     ds_netif_key = Some key, ds_started = False, ds_stopped = False,
                     ds_failed = False\<rparr>
            in if \<not> task_ok \<or> \<not> events_ok then (False, s\<lparr>ds_in_use := False\<rparr>)
            else
              let s = during s
              in if \<not> ds_started s then (False, (during2 s)\<lparr>ds_in_use := False\<rparr>)
              else (True, s))"

definition dns_server_stop ::
    "bool \<Rightarrow> (dns_server \<Rightarrow> dns_server) \<Rightarrow> dns_server \<Rightarrow> dns_server" where
  "dns_server_stop handle during s =
     (if \<not> handle then s
      else
        let s = during (s\<lparr>ds_running := False\<rparr>)
        in if \<not> ds_stopped s then s else s\<lparr>ds_in_use := False\<rparr>)"

section \<open>The parser stays inside the packet\<close>

lemma label_end_bounds:
  assumes "len \<le> length packet" and "offset \<le> len"
  shows "\<exists>r. label_end packet len offset = Inr r \<and> (\<forall>o'. r = Some o' \<longrightarrow> offset \<le> o' \<and> o' \<le> len)"
  using assms
proof (induction packet len offset rule: label_end.induct)
  case (1 packet len offset)
  show ?case
  proof (cases "offset < len")
    case False
    then show ?thesis using 1(3) by (simp add: label_end.simps)
  next
    case True
    then have r: "read_u8 packet offset = Inr (packet ! offset)" using 1(2) by (simp add: read_u8_def)
    let ?n = "packet ! offset"
    show ?thesis
    proof (cases "?n = 0 \<or> ?n AND 0xc0 \<noteq> 0 \<or> len \<le> offset + 1 + unat ?n")
      case True
      with \<open>offset < len\<close> r show ?thesis
        by (subst label_end.simps) auto
    next
      case False
      with \<open>offset < len\<close> r have "label_end packet len offset = label_end packet len (offset + (1 + unat ?n))"
        by (subst label_end.simps) simp
      moreover from 1(1) [OF True r] False 1(2)
      have "\<exists>r. label_end packet len (offset + (1 + unat ?n)) = Inr r \<and>
          (\<forall>o'. r = Some o' \<longrightarrow> offset + (1 + unat ?n) \<le> o' \<and> o' \<le> len)" by simp
      ultimately show ?thesis by (metis add_leE)
    qed
  qed
qed

lemma question_end_bounds:
  assumes "len \<le> length packet" and "SIZEOF_HEADER \<le> len"
  shows "\<exists>n. question_end_offset packet len = Inr n \<and> (n = 0 \<or> SIZEOF_HEADER + 5 \<le> n \<and> n \<le> len)"
  using label_end_bounds [OF assms(1), of SIZEOF_HEADER] assms(2)
  by (auto simp: question_end_offset_def split: option.splits)

lemma bytes_lengths [simp]:
  "length (u16_bytes w) = 2" "length (u32_bytes v) = 4" "length (address_bytes v) = 4"
  "length (answer_bytes v) = SIZEOF_ANSWER"
  by (simp_all add: u16_bytes_def u32_bytes_def address_bytes_def answer_bytes_def)

lemma write_header_eq:
  assumes "SIZEOF_HEADER \<le> length p"
  shows "write_header p = Inr (take 2 p @ u16_bytes 0x8180 @ take 2 (drop 4 p) @
    u16_bytes 1 @ u16_bytes 0 @ u16_bytes 0 @ drop 12 p)"
proof -
  have "write_bytes p 2 (u16_bytes 0x8180) = Inr (take 2 p @ u16_bytes 0x8180 @ drop 4 p)"
    using assms by (simp add: write_bytes_def)
  then show ?thesis
    using assms by (simp add: write_header_def write_bytes_def drop_take min_def)
qed

text \<open>The response to a question that ends at \<open>q\<close>.\<close>

definition response_bytes :: "u8 list \<Rightarrow> nat \<Rightarrow> u32 \<Rightarrow> u8 list" where
  "response_bytes p q address =
     take 2 p @ u16_bytes 0x8180 @ take 2 (drop 4 p) @ u16_bytes 1 @ u16_bytes 0 @ u16_bytes 0 @
     take (q - 12) (drop 12 p) @ answer_bytes address"

lemma answer_question_eq:
  assumes "17 \<le> q" "q + SIZEOF_ANSWER \<le> length p"
  shows "answer_question p q address =
    (if read_u16 p (q - 4) = Inr 1 \<and> read_u16 p (q - 2) = Inr 1
     then Inr (q + SIZEOF_ANSWER, response_bytes p q address @ drop (q + SIZEOF_ANSWER) p)
     else Inr (0, p))"
proof -
  have r: "\<exists>a. read_u16 p (q - 4) = Inr a" "\<exists>b. read_u16 p (q - 2) = Inr b"
    using assms by (simp_all add: read_u16_def)
  then obtain a b where ab: "read_u16 p (q - 4) = Inr a" "read_u16 p (q - 2) = Inr b" by blast
  let ?h = "take 2 p @ u16_bytes 0x8180 @ take 2 (drop 4 p) @ u16_bytes 1 @ u16_bytes 0 @ u16_bytes 0"
  have len: "length ?h = 12" using assms by simp
  have h: "write_header p = Inr (?h @ drop 12 p)" using write_header_eq [of p] assms by simp
  have "write_bytes (?h @ drop 12 p) q (answer_bytes address) =
      Inr (take q (?h @ drop 12 p) @ answer_bytes address @ drop (q + 16) (?h @ drop 12 p))"
    using assms len by (simp add: write_bytes_def)
  moreover have "take q (?h @ drop 12 p) = ?h @ take (q - 12) (drop 12 p)"
    using assms(1) by (simp only: take_append len) simp
  moreover have "drop (q + 16) (?h @ drop 12 p) = drop (q + 16) p"
    using assms(1) by (simp only: drop_append len) (simp add: add.commute)
  ultimately show ?thesis
    using ab h by (simp add: answer_question_def response_bytes_def)
qed

lemma length_response_bytes:
  "17 \<le> q \<Longrightarrow> q + SIZEOF_ANSWER \<le> length p \<Longrightarrow> length (response_bytes p q address) = q + SIZEOF_ANSWER"
  by (simp add: response_bytes_def)

text \<open>A response is empty, or the answer to the question found by the parser.\<close>

lemma build_response_cases:
  assumes "len \<le> length p" and "capacity \<le> length p"
  shows "\<exists>n p'. build_response p len capacity address = Inr (n, p') \<and> length p' = length p \<and>
    (n = 0 \<or> (\<exists>q. 17 \<le> q \<and> q \<le> len \<and> n = q + SIZEOF_ANSWER \<and> n \<le> capacity \<and>
       question_end_offset p len = Inr q \<and>
       p' = response_bytes p q address @ drop n p))"
proof (cases "len < SIZEOF_HEADER")
  case True
  then show ?thesis by (simp add: build_response_def)
next
  case False
  then obtain c where c: "read_u16 p 4 = Inr c" using assms(1) by (simp add: read_u16_def)
  obtain q where q: "question_end_offset p len = Inr q" "q = 0 \<or> 17 \<le> q \<and> q \<le> len"
    using question_end_bounds [OF assms(1)] False by auto
  show ?thesis
  proof (cases "c \<noteq> 1 \<or> q = 0 \<or> capacity < q + SIZEOF_ANSWER")
    case True
    then show ?thesis using False c q(1) by (auto simp: build_response_def)
  next
    case ok: False
    then have b: "build_response p len capacity address = answer_question p q address"
      using False c q(1) by (simp add: build_response_def)
    have bounds: "17 \<le> q" "q \<le> len" "q + SIZEOF_ANSWER \<le> length p" using ok q(2) assms(2) by auto
    show ?thesis
      unfolding b answer_question_eq [OF bounds(1,3)]
      using ok bounds q(1) length_response_bytes [OF bounds(1,3), of address] by auto
  qed
qed

section \<open>Encoding a query\<close>

text \<open>A name as its labels, and the query a resolver sends for its IPv4 address.\<close>

definition valid_label :: "u8 list \<Rightarrow> bool" where
  "valid_label l \<longleftrightarrow> 1 \<le> length l \<and> length l \<le> 63"

fun encode_labels :: "u8 list list \<Rightarrow> u8 list" where
  "encode_labels [] = []"
| "encode_labels (l # ls) = of_nat (length l) # l @ encode_labels ls"

definition encode_name :: "u8 list list \<Rightarrow> u8 list" where
  "encode_name ls = encode_labels ls @ [0]"

definition encode_query :: "u8 list \<Rightarrow> u8 list \<Rightarrow> u8 list \<Rightarrow> u8 list list \<Rightarrow> u8 list" where
  "encode_query ident flags counts ls = ident @ flags @ [0, 1] @ counts @ encode_name ls @ [0, 1, 0, 1]"

definition encode_response :: "u8 list \<Rightarrow> u8 list list \<Rightarrow> u32 \<Rightarrow> u8 list" where
  "encode_response ident ls address =
     ident @ [0x81, 0x80] @ [0, 1] @ [0, 1] @ [0, 0, 0, 0] @ encode_name ls @ [0, 1, 0, 1] @
     [0xc0, 0x0c, 0, 1, 0, 1, 0, 0, 0, 60, 0, 4] @ address_bytes address"

lemma label_length_byte:
  assumes "valid_label l"
  shows "(of_nat (length l) :: u8) AND 0xc0 = 0" "(of_nat (length l) :: u8) \<noteq> 0"
    "unat (of_nat (length l) :: u8) = length l"
proof -
  show u: "unat (of_nat (length l) :: u8) = length l"
    using assms by (simp add: valid_label_def unat_of_nat)
  then show "(of_nat (length l) :: u8) \<noteq> 0" using assms by (auto simp: valid_label_def)
  have high: "\<not> bit (of_nat (length l) :: u8) n" if "6 \<le> n" for n
  proof -
    have "length l < 2 ^ n" using assms power_increasing [OF that, of "2 :: nat"]
      by (simp add: valid_label_def)
    then have "\<not> bit (length l) n" by (simp add: bit_iff_odd)
    then have "\<not> bit (unat (of_nat (length l) :: u8)) n" by (simp only: u not_False_eq_True)
    then show ?thesis using bit_imp_le_length by (auto simp: bit_unsigned_iff)
  qed
  have "bit (0xc0 :: u8) n \<Longrightarrow> 6 \<le> n" for n
  proof (rule ccontr)
    assume bit: "bit (0xc0 :: u8) n" and "\<not> 6 \<le> n"
    then have "n \<in> {0, 1, 2, 3, 4, 5}" by auto
    with bit show False by (auto simp: bit_iff_odd)
  qed
  with high show "(of_nat (length l) :: u8) AND 0xc0 = 0"
    by (intro bit_word_eqI) (auto simp: bit_and_iff)
qed

text \<open>The parser finds the end of an encoded name.\<close>

lemma label_end_encoded:
  assumes "\<forall>l \<in> set ls. valid_label l"
    and "len \<le> length (pre @ encode_name ls @ rest)" and "length pre + length (encode_name ls) \<le> len"
  shows "label_end (pre @ encode_name ls @ rest) len (length pre) =
    Inr (Some (length pre + length (encode_labels ls)))"
  using assms
proof (induction ls arbitrary: pre)
  case Nil
  then show ?case by (subst label_end.simps) (auto simp: encode_name_def read_u8_def nth_append)
next
  case (Cons l ls)
  let ?b = "of_nat (length l) :: u8"
  let ?p = "pre @ encode_name (l # ls) @ rest"
  note byte = label_length_byte [of l]
  have valid: "valid_label l" using Cons.prems(1) by simp
  have p: "?p = (pre @ ?b # l) @ encode_name ls @ rest" by (simp add: encode_name_def)
  have b: "read_u8 ?p (length pre) = Inr ?b" by (simp add: read_u8_def encode_name_def nth_append)
  have room: "length pre + 1 + length l < len" using Cons.prems(3) by (simp add: encode_name_def)
  then have "label_end ?p len (length pre) = label_end ?p len (length pre + (1 + length l))"
    using b byte [OF valid] by (subst label_end.simps) simp
  also have "\<dots> = label_end ((pre @ ?b # l) @ encode_name ls @ rest) len (length (pre @ ?b # l))"
    unfolding p by simp
  also have "\<dots> = Inr (Some (length (pre @ ?b # l) + length (encode_labels ls)))"
    by (rule Cons.IH) (use Cons.prems in \<open>simp_all add: encode_name_def\<close>)
  finally show ?case by simp
qed

lemma dns_turn_reply:
  assumes "build_response (received @ drop (length received) stale) (length received) DNS_PACKET_MAX address =
      Inr (length r, r @ rest)"
    and "received \<noteq> []" and "r \<noteq> []"
  shows "dns_task_turn received stale (Some address) = Inr (Some r)"
  using assms by (simp add: dns_task_turn_def Let_def)

text \<open>What the parser finds in an encoded query: one question, its end, and its type and class.\<close>

lemma query_parsed:
  fixes ident flags counts labels extra stale
  defines "r \<equiv> encode_query ident flags counts labels @ extra"
  defines "p \<equiv> r @ drop (length r) stale" and "q \<equiv> 16 + length (encode_name labels)"
  assumes "length ident = 2" "length flags = 2" "length counts = 6"
    and "\<forall>l \<in> set labels. valid_label l" and "length p = DNS_PACKET_MAX" and "q + SIZEOF_ANSWER \<le> DNS_PACKET_MAX"
  shows "question_end_offset p (length r) = Inr q" "read_u16 p 4 = Inr 1"
    "read_u16 p (q - 4) = Inr 1" "read_u16 p (q - 2) = Inr 1"
proof -
  let ?head = "ident @ flags @ [0, 1] @ counts"
  let ?tail = "[0, 1, 0, 1] @ extra @ drop (length r) stale"
  have p: "p = ?head @ encode_name labels @ ?tail" by (simp add: p_def r_def encode_query_def)
  have head: "length ?head = 12" using assms(4-6) by simp
  have "label_end p (length r) 12 = Inr (Some (12 + length (encode_labels labels)))"
    using label_end_encoded [OF assms(7), of "length r" ?head ?tail] head unfolding p
    by (simp add: r_def encode_query_def)
  then show "question_end_offset p (length r) = Inr q"
    using assms(4-6) by (simp add: question_end_offset_def r_def q_def encode_query_def encode_name_def)
  have "p ! 4 = 0" "p ! 5 = 1" using assms(4,5) unfolding p by (simp_all add: nth_append)
  then show "read_u16 p 4 = Inr 1" using assms(8) by (simp add: read_u16_def)
  define H where "H = ?head @ encode_name labels"
  have split: "p = H @ ?tail" unfolding p H_def by simp
  have pos: "length H = q - 4" using head unfolding H_def q_def by simp
  have at: "p ! (length H + k) = ?tail ! k" for k unfolding split by (rule nth_append_length_plus)
  have "p ! (q - 4) = 0" "p ! (q - 4 + 1) = 1" "p ! (q - 2) = 0" "p ! (q - 2 + 1) = 1"
    using at [of 0] at [of 1] at [of 2] at [of 3] pos unfolding q_def by simp_all
  then show "read_u16 p (q - 4) = Inr 1" "read_u16 p (q - 2) = Inr 1"
    using assms(8,9) by (simp_all add: read_u16_def)
qed

section \<open>Properties\<close>

text \<open>C36. Whatever datagram arrives, handling it stays inside the 256-byte buffer: no byte is read
  or written outside it, and what is sent back is nothing, or at most 256 bytes and at most
  one 16-byte answer record longer than the datagram.\<close>

theorem dns_turn_in_bounds:
  assumes "length received \<le> DNS_PACKET_MAX" and "length stale = DNS_PACKET_MAX"
  shows "\<exists>r. dns_task_turn received stale ip = Inr r \<and>
    (\<forall>d. r = Some d \<longrightarrow> length d \<le> DNS_PACKET_MAX \<and> length d \<le> length received + SIZEOF_ANSWER)"
proof (cases "received = [] \<or> ip = None")
  case True
  then show ?thesis by (auto simp: dns_task_turn_def)
next
  case False
  then obtain address where ip: "ip = Some address" by auto
  let ?p = "received @ drop (length received) stale"
  have len: "length ?p = DNS_PACKET_MAX" using assms by simp
  obtain n p' where r: "build_response ?p (length received) DNS_PACKET_MAX address = Inr (n, p')"
    "length p' = DNS_PACKET_MAX" "n = 0 \<or> (\<exists>q. q \<le> length received \<and> n = q + SIZEOF_ANSWER \<and> n \<le> DNS_PACKET_MAX)"
    using build_response_cases [of "length received" ?p DNS_PACKET_MAX address] len by auto
  with False ip show ?thesis by (auto simp: dns_task_turn_def Let_def)
qed

theorem dns_turn_in_bounds_witness:
  "\<exists>r. dns_task_turn (replicate 12 1) (replicate DNS_PACKET_MAX 0) (Some 0x0104a8c0) = Inr r"
  using dns_turn_in_bounds [of "replicate 12 1" "replicate DNS_PACKET_MAX 0" "Some 0x0104a8c0"]
  by auto

text \<open>C37. Every name resolves to the portal: a query for the IPv4 address of any name, with any
  identifier, flags and trailing records, is answered by the same question with one A record
  that holds the interface's address, as long as the answer fits the buffer.\<close>

theorem dns_resolves_every_name:
  assumes "length ident = 2" "length flags = 2" "length counts = 6"
    and "\<forall>l \<in> set labels. valid_label l" and "length stale = DNS_PACKET_MAX"
    and "length (encode_query ident flags counts labels @ extra) \<le> DNS_PACKET_MAX"
    and "length (encode_response ident labels address) \<le> DNS_PACKET_MAX"
  shows "dns_task_turn (encode_query ident flags counts labels @ extra) stale (Some address) =
    Inr (Some (encode_response ident labels address))"
proof -
  let ?r = "encode_query ident flags counts labels @ extra"
  let ?q = "16 + length (encode_name labels)"
  define P where "P = ?r @ drop (length ?r) stale"
  have fit: "?q + SIZEOF_ANSWER \<le> DNS_PACKET_MAX" using assms(1,7) by (simp add: encode_response_def)
  have len: "length P = DNS_PACKET_MAX" using assms by (simp add: P_def)
  note parsed = query_parsed [OF assms(1-4) len [unfolded P_def] fit, folded P_def]
  have room: "17 \<le> ?q" "?q + SIZEOF_ANSWER \<le> length P" using fit len by (simp_all add: encode_name_def)
  have "answer_question P ?q address =
      Inr (?q + SIZEOF_ANSWER, response_bytes P ?q address @ drop (?q + SIZEOF_ANSWER) P)"
    using answer_question_eq [OF room, of address] parsed(3,4) by simp
  then have b: "build_response P (length ?r) DNS_PACKET_MAX address =
      Inr (?q + SIZEOF_ANSWER, response_bytes P ?q address @ drop (?q + SIZEOF_ANSWER) P)"
    using parsed(1,2) fit assms(1-3) by (simp add: build_response_def encode_query_def)
  have "P = ident @ flags @ [0, 1] @ counts @ encode_name labels @ [0, 1, 0, 1] @ extra @ drop (length ?r) stale"
    by (simp add: P_def encode_query_def)
  then have "response_bytes P ?q address = encode_response ident labels address"
    using assms(1-3)
    by (simp add: response_bytes_def encode_response_def answer_bytes_def u16_bytes_def u32_bytes_def)
  moreover have "dns_task_turn ?r stale (Some address) = Inr (Some (response_bytes P ?q address))"
  proof (rule dns_turn_reply)
    show "build_response (?r @ drop (length ?r) stale) (length ?r) DNS_PACKET_MAX address =
        Inr (length (response_bytes P ?q address), response_bytes P ?q address @ drop (?q + SIZEOF_ANSWER) P)"
      unfolding P_def [symmetric] length_response_bytes [OF room] by (rule b)
    show "?r \<noteq> []" by (simp add: encode_query_def)
    show "response_bytes P ?q address \<noteq> []" by (simp add: response_bytes_def u16_bytes_def)
  qed
  ultimately show ?thesis by simp
qed

theorem dns_resolves_every_name_witness:
  "dns_task_turn (encode_query [0x12, 0x34] [1, 0] [0, 0, 0, 0, 0, 1] [[104, 112, 97], [97]] @ [0, 0, 41])
     (replicate DNS_PACKET_MAX 0) (Some 0x0104a8c0) =
   Inr (Some (encode_response [0x12, 0x34] [[104, 112, 97], [97]] 0x0104a8c0))"
  by (rule dns_resolves_every_name)
    (simp_all add: valid_label_def encode_query_def encode_response_def encode_name_def)

end

