(* ===== verification/CString.thy ===== *)
theory CString
  imports Prelude
begin

text \<open>
  C strings: a \<open>char\<close> array is the list of its bytes, its string the bytes before the first
  NUL. The functions of \<open>string.h\<close> and the bounded \<open>snprintf\<close> that the firmware uses.
\<close>

section \<open>Strings in arrays\<close>

definition bytes_of :: "string \<Rightarrow> u8 list" where
  "bytes_of s = map of_char s"

definition c_str :: "u8 list \<Rightarrow> u8 list" where
  "c_str buf = takeWhile (\<lambda>b. b \<noteq> 0) buf"

text \<open>
  Writing a string into an array of \<open>length buf\<close> bytes: as much as fits, then a NUL; the bytes
  behind it stay. \<open>strlcpy\<close> and \<open>snprintf\<close> both do this, and nothing to an empty array.
\<close>

definition store_str :: "u8 list \<Rightarrow> u8 list \<Rightarrow> u8 list" where
  "store_str s buf =
     (if buf = [] then []
      else let n = min (length s) (length buf - 1) in take n s @ [0] @ drop (n + 1) buf)"

definition strlcpy :: "u8 list \<Rightarrow> u8 list \<Rightarrow> u8 list" where
  "strlcpy src buf = store_str (c_str src) buf"

text \<open>\<open>strncmp(a, b, n) == 0\<close> and \<open>strcmp(a, b) == 0\<close>.\<close>

definition strncmp_eq :: "u8 list \<Rightarrow> u8 list \<Rightarrow> nat \<Rightarrow> bool" where
  "strncmp_eq a b n \<longleftrightarrow> c_str (take n a) = c_str (take n b)"

definition strcmp_eq :: "u8 list \<Rightarrow> u8 list \<Rightarrow> bool" where
  "strcmp_eq a b \<longleftrightarrow> c_str a = c_str b"

text \<open>\<open>%u\<close>.\<close>

fun decimal :: "nat \<Rightarrow> string" where
  "decimal n = (if n < 10 then [char_of (48 + n)] else decimal (n div 10) @ [char_of (48 + n mod 10)])"

declare decimal.simps [simp del]

section \<open>Facts\<close>

lemma length_store_str [simp]: "length (store_str s buf) = length buf"
proof (cases buf)
  case (Cons b bs)
  then show ?thesis by (simp add: store_str_def Let_def min_def)
qed (simp add: store_str_def)

lemma length_strlcpy [simp]: "length (strlcpy s buf) = length buf"
  by (simp add: strlcpy_def)

lemma c_str_no_nul [simp]: "0 \<notin> set (c_str buf)"
  by (auto simp: c_str_def dest: set_takeWhileD)

lemma c_str_append_nul: "0 \<notin> set s \<Longrightarrow> c_str (s @ 0 # t) = s"
  by (induction s) (auto simp: c_str_def)

lemma c_str_id: "0 \<notin> set s \<Longrightarrow> c_str s = s"
  by (induction s) (auto simp: c_str_def)

lemma c_str_store_str:
  assumes "0 \<notin> set s"
  shows "c_str (store_str s buf) = take (length buf - 1) s"
proof (cases buf)
  case (Cons b bs)
  have "0 \<notin> set (take n s)" for n using assms by (meson in_set_takeD)
  then show ?thesis using Cons by (simp add: store_str_def Let_def min_def c_str_append_nul)
qed (simp add: store_str_def c_str_def)

lemma c_str_strlcpy: "c_str (strlcpy s buf) = take (length buf - 1) (c_str s)"
  by (simp add: strlcpy_def c_str_store_str)

lemma store_str_fits: "0 \<notin> set s \<Longrightarrow> length s < length buf \<Longrightarrow> c_str (store_str s buf) = s"
  by (simp add: c_str_store_str)

end
