(* ===== verification/OtaUpdate.thy ===== *)
theory OtaUpdate
  imports CString
begin

text \<open>
  \<open>main/ota_update.c\<close>: writing a firmware image into the inactive slot and choosing what boots.
  The ESP-IDF OTA interface is the parameter \<open>api\<close>, working on a flash state \<open>'f\<close>; the layout
  of the image header is the parameter \<open>il\<close>. An operation whose loop would not end is \<open>None\<close>.
\<close>

section \<open>What comes from ESP-IDF\<close>

record partition =
  pt_subtype :: u32
  pt_label :: "u8 list"
  pt_address :: u32
  pt_size :: u32
  pt_erase_size :: u32

record app_desc =
  ad_magic_word :: u32
  ad_version :: "u8 list"
  ad_project_name :: "u8 list"

record image_header =
  ih_magic :: u8
  ih_chip_id :: u16

text \<open>The sizes of the three headers of an image, and how the first and the last are read.\<close>

record image_layout =
  il_image_size :: nat
  il_segment_size :: nat
  il_app_size :: nat
  il_image :: "u8 list \<Rightarrow> image_header"
  il_app :: "u8 list \<Rightarrow> app_desc"
  il_image_magic :: u8
  il_chip_id :: u16
  il_app_magic :: u32

type_synonym ota_handle = u32
type_synonym img_state = u32

record 'f ota_api =
  api_next_update_partition :: "partition option \<Rightarrow> 'f \<Rightarrow> partition option"
  api_running_partition :: "'f \<Rightarrow> partition option"
  api_erase_range :: "partition \<Rightarrow> u32 \<Rightarrow> u32 \<Rightarrow> 'f \<Rightarrow> esp_err \<times> 'f"
  api_begin :: "partition \<Rightarrow> u32 \<Rightarrow> 'f \<Rightarrow> esp_err \<times> ota_handle \<times> 'f"
  api_write :: "ota_handle \<Rightarrow> u8 list \<Rightarrow> 'f \<Rightarrow> esp_err \<times> 'f"
  api_end :: "ota_handle \<Rightarrow> 'f \<Rightarrow> esp_err \<times> 'f"
  api_abort :: "ota_handle \<Rightarrow> 'f \<Rightarrow> 'f"
  api_set_boot_partition :: "partition \<Rightarrow> 'f \<Rightarrow> esp_err \<times> 'f"
  api_partition_description :: "partition \<Rightarrow> 'f \<Rightarrow> esp_err \<times> app_desc"
  api_rollback_is_possible :: "'f \<Rightarrow> bool"
  api_state_partition :: "partition \<Rightarrow> 'f \<Rightarrow> esp_err \<times> img_state"
  api_mark_app_valid :: "'f \<Rightarrow> esp_err \<times> 'f"
  api_mark_app_invalid :: "'f \<Rightarrow> esp_err \<times> 'f"

abbreviation (input) ESP_PARTITION_SUBTYPE_APP_OTA_MIN :: u32 where
  "ESP_PARTITION_SUBTYPE_APP_OTA_MIN \<equiv> 0x10"
abbreviation (input) ESP_PARTITION_SUBTYPE_APP_OTA_MAX :: u32 where
  "ESP_PARTITION_SUBTYPE_APP_OTA_MAX \<equiv> 0x20"
abbreviation (input) ESP_OTA_IMG_PENDING_VERIFY :: img_state where
  "ESP_OTA_IMG_PENDING_VERIFY \<equiv> 1"

section \<open>State\<close>

text \<open>The statics of the file, with the flash they act on and the ticks spent in \<open>vTaskDelay\<close>.\<close>

record 'f ota =
  ou_handle :: ota_handle
  ou_target :: "partition option"
  ou_expected_size :: u32
  ou_written :: u32
  ou_busy :: bool
  ou_flash :: 'f
  ou_delays :: nat

record ota_info =
  oi_running_slot :: "u8 list"
  oi_running_version :: "u8 list"
  oi_previous_available :: bool
  oi_previous_slot :: "u8 list"
  oi_previous_version :: "u8 list"

abbreviation (input) SIZEOF_SLOT :: nat where "SIZEOF_SLOT \<equiv> 8"
abbreviation (input) SIZEOF_VERSION :: nat where "SIZEOF_VERSION \<equiv> 32"

section \<open>Helpers\<close>

definition ota_header_length :: "image_layout \<Rightarrow> nat" where
  "ota_header_length il = il_image_size il + il_segment_size il + il_app_size il"

definition partition_label :: "partition option \<Rightarrow> u8 list \<Rightarrow> u8 list" where
  "partition_label p label =
     (case p of
        None \<Rightarrow> strlcpy (bytes_of ''none'') label
      | Some p \<Rightarrow>
          if ESP_PARTITION_SUBTYPE_APP_OTA_MIN \<le> pt_subtype p
             \<and> pt_subtype p < ESP_PARTITION_SUBTYPE_APP_OTA_MAX
          then store_str (bytes_of (''ota_'' @
                 decimal (unat (pt_subtype p - ESP_PARTITION_SUBTYPE_APP_OTA_MIN)))) label
          else strlcpy (pt_label p) label)"

definition header_app_description :: "image_layout \<Rightarrow> u8 list \<Rightarrow> app_desc" where
  "header_app_description il header = il_app il (drop (il_image_size il + il_segment_size il) header)"

definition copy_app_field :: "u8 list \<Rightarrow> u8 list \<Rightarrow> u8 list" where
  "copy_app_field source destination =
     (if length destination = 0 then destination
      else
        let n = length (c_str source);
            n = (if length destination \<le> n then length destination - 1 else n)
        in take n source @ [0] @ drop (n + 1) destination)"

section \<open>Erasing the inactive slot\<close>

partial_function (option) erase_sectors ::
    "'f ota_api \<Rightarrow> partition \<Rightarrow> u32 \<Rightarrow> 'f ota \<Rightarrow> (esp_err \<times> 'f ota) option" where
  "erase_sectors api p offset s =
     (if offset < pt_size p then
        (case api_erase_range api p offset (pt_erase_size p) (ou_flash s) of (err, f) \<Rightarrow>
           if err \<noteq> ESP_OK then Some (err, s\<lparr>ou_flash := f\<rparr>)
           else erase_sectors api p (offset + pt_erase_size p)
                  (s\<lparr>ou_flash := f, ou_delays := ou_delays s + 1\<rparr>))
      else Some (ESP_OK, s))"

declare erase_sectors.simps [code]

definition erase_inactive_partition ::
    "'f ota_api \<Rightarrow> partition option \<Rightarrow> 'f ota \<Rightarrow> (esp_err \<times> 'f ota) option" where
  "erase_inactive_partition api p s =
     (case p of
        None \<Rightarrow> Some (ESP_ERR_INVALID_ARG, s)
      | Some p \<Rightarrow>
          if pt_erase_size p = 0 then Some (ESP_ERR_INVALID_ARG, s)
          else if pt_size p mod pt_erase_size p \<noteq> 0 then Some (ESP_ERR_INVALID_SIZE, s)
          else erase_sectors api p 0 s)"

section \<open>Writing an image\<close>

text \<open>The checks on the first bytes of the image; \<open>header\<close> holds the \<open>header_length\<close> bytes.\<close>

definition check_header :: "image_layout \<Rightarrow> u8 list \<Rightarrow> esp_err" where
  "check_header il header =
     (let image = il_image il header;
          app = header_app_description il header
      in if ih_magic image \<noteq> il_image_magic il then ESP_ERR_OTA_VALIDATE_FAILED
      else if ih_chip_id image \<noteq> il_chip_id il then ESP_ERR_OTA_VALIDATE_FAILED
      else if ad_magic_word app \<noteq> il_app_magic il then ESP_ERR_OTA_VALIDATE_FAILED
      else if \<not> strncmp_eq (ad_project_name app) (bytes_of ''HPA300-FIRMWARE'' @ [0])
                (length (ad_project_name app))
      then ESP_ERR_OTA_VALIDATE_FAILED
      else ESP_OK)"

text \<open>From the erase on: a failure forgets the target.\<close>

definition open_target ::
    "'f ota_api \<Rightarrow> partition \<Rightarrow> u32 \<Rightarrow> 'f ota \<Rightarrow> (esp_err \<times> 'f ota) option" where
  "open_target api target image_size s =
     (case erase_inactive_partition api (Some target) s of
        None \<Rightarrow> None
      | Some (err, s) \<Rightarrow>
          if err \<noteq> ESP_OK then Some (err, s\<lparr>ou_target := None\<rparr>)
          else case api_begin api target (pt_erase_size target) (ou_flash s) of (err, handle, f) \<Rightarrow>
            let s = s\<lparr>ou_flash := f, ou_handle := handle\<rparr>
            in if err \<noteq> ESP_OK then Some (err, s\<lparr>ou_target := None\<rparr>)
            else Some (ESP_OK, s\<lparr>ou_expected_size := image_size, ou_written := 0, ou_busy := True\<rparr>))"

definition ota_update_begin ::
    "'f ota_api \<Rightarrow> image_layout \<Rightarrow> u8 list option \<Rightarrow> u32 \<Rightarrow> u8 list option \<Rightarrow> 'f ota
     \<Rightarrow> (esp_err \<times> u8 list option \<times> 'f ota) option" where
  "ota_update_begin api il image_header image_size version s =
     (case (image_header, version) of
        (Some header, Some ver) \<Rightarrow>
          if length ver = 0 then Some (ESP_ERR_INVALID_ARG, version, s)
          else if ou_busy s then Some (ESP_ERR_INVALID_STATE, version, s)
          else if length header < ota_header_length il
          then Some (ESP_ERR_OTA_VALIDATE_FAILED, version, s)
          else if check_header il header \<noteq> ESP_OK then Some (check_header il header, version, s)
          else
            let s = s\<lparr>ou_target := api_next_update_partition api None (ou_flash s)\<rparr>
            in (case ou_target s of
                  None \<Rightarrow> Some (ESP_ERR_NOT_FOUND, version, s)
                | Some target \<Rightarrow>
                    if unat image_size \<le> ota_header_length il
                    then Some (ESP_ERR_OTA_VALIDATE_FAILED, version, s)
                    else if pt_size target < image_size
                    then Some (ESP_ERR_INVALID_SIZE, version, s)
                    else
                      let ver = copy_app_field (ad_version (header_app_description il header)) ver
                      in map_option (\<lambda>(err, s). (err, Some ver, s)) (open_target api target image_size s))
      | _ \<Rightarrow> Some (ESP_ERR_INVALID_ARG, version, s))"

definition ota_update_write :: "'f ota_api \<Rightarrow> u8 list option \<Rightarrow> 'f ota op" where
  "ota_update_write api data s =
     (case data of
        None \<Rightarrow> (ESP_ERR_INVALID_STATE, s)
      | Some bytes \<Rightarrow>
          if \<not> ou_busy s \<or> bytes = [] then (ESP_ERR_INVALID_STATE, s)
          else if unat (ou_expected_size s - ou_written s) < length bytes
          then (ESP_ERR_INVALID_SIZE, s)
          else case api_write api (ou_handle s) bytes (ou_flash s) of (err, f) \<Rightarrow>
            let s = s\<lparr>ou_flash := f\<rparr>
            in if err \<noteq> ESP_OK then (err, s)
            else (ESP_OK, s\<lparr>ou_written := ou_written s + of_nat (length bytes)\<rparr>))"

definition ota_update_abort :: "'f ota_api \<Rightarrow> 'f ota \<Rightarrow> 'f ota" where
  "ota_update_abort api s =
     (let s = (if ou_busy s then s\<lparr>ou_flash := api_abort api (ou_handle s) (ou_flash s)\<rparr> else s)
      in s\<lparr>ou_handle := 0, ou_target := None, ou_expected_size := 0, ou_written := 0,
           ou_busy := False\<rparr>)"

definition ota_update_finish :: "'f ota_api \<Rightarrow> 'f ota op" where
  "ota_update_finish api s =
     (if \<not> ou_busy s then (ESP_ERR_INVALID_STATE, s)
      else if ou_written s \<noteq> ou_expected_size s
      then (ESP_ERR_INVALID_SIZE, ota_update_abort api s)
      else case api_end api (ou_handle s) (ou_flash s) of (err, f) \<Rightarrow>
        let s = s\<lparr>ou_flash := f, ou_handle := 0, ou_busy := False, ou_expected_size := 0,
                  ou_written := 0\<rparr>
        in if err \<noteq> ESP_OK then (err, s\<lparr>ou_target := None\<rparr>)
        else case ou_target s of
          None \<Rightarrow> (ESP_ERR_INVALID_ARG, s)
        | Some target \<Rightarrow>
            (case api_set_boot_partition api target (ou_flash s) of (err, f) \<Rightarrow>
               (err, s\<lparr>ou_flash := f, ou_target := None\<rparr>)))"

section \<open>Choosing what boots\<close>

definition empty_info :: ota_info where
  "empty_info = \<lparr>oi_running_slot = replicate SIZEOF_SLOT 0, oi_running_version = replicate SIZEOF_VERSION 0,
     oi_previous_available = False, oi_previous_slot = replicate SIZEOF_SLOT 0,
     oi_previous_version = replicate SIZEOF_VERSION 0\<rparr>"

definition previous_info :: "'f ota_api \<Rightarrow> partition \<Rightarrow> 'f \<Rightarrow> ota_info \<Rightarrow> ota_info" where
  "previous_info api running f info =
     (case api_next_update_partition api (Some running) f of
        None \<Rightarrow> info\<lparr>oi_previous_available := False\<rparr>
      | Some previous \<Rightarrow>
          (case api_partition_description api previous f of (err, description) \<Rightarrow>
             if err \<noteq> ESP_OK then info\<lparr>oi_previous_available := False\<rparr>
             else info\<lparr>oi_previous_slot := partition_label (Some previous) (oi_previous_slot info),
                       oi_previous_version :=
                         copy_app_field (ad_version description) (oi_previous_version info)\<rparr>))"

text \<open>The information is written through the pointer, if there is one, even on an error.\<close>

definition ota_update_get_info ::
    "'f ota_api \<Rightarrow> ota_info option \<Rightarrow> 'f ota \<Rightarrow> esp_err \<times> ota_info option" where
  "ota_update_get_info api info s =
     (if info = None then (ESP_ERR_INVALID_ARG, None)
      else case api_running_partition api (ou_flash s) of
        None \<Rightarrow> (ESP_ERR_NOT_FOUND, Some empty_info)
      | Some running \<Rightarrow>
          let info = empty_info\<lparr>oi_running_slot :=
                       partition_label (Some running) (oi_running_slot empty_info)\<rparr>
          in (case api_partition_description api running (ou_flash s) of (err, description) \<Rightarrow>
            if err \<noteq> ESP_OK then (err, Some info)
            else
              let info = info\<lparr>oi_running_version :=
                           copy_app_field (ad_version description) (oi_running_version info),
                         oi_previous_available := api_rollback_is_possible api (ou_flash s)\<rparr>;
                  info = (if oi_previous_available info
                          then previous_info api running (ou_flash s) info else info)
              in (ESP_OK, Some info)))"

definition ota_update_select_previous :: "'f ota_api \<Rightarrow> 'f ota op" where
  "ota_update_select_previous api s =
     (if ou_busy s then (ESP_ERR_INVALID_STATE, s)
      else if \<not> api_rollback_is_possible api (ou_flash s) then (ESP_ERR_NOT_FOUND, s)
      else case api_next_update_partition api (api_running_partition api (ou_flash s)) (ou_flash s) of
        None \<Rightarrow> (ESP_ERR_NOT_FOUND, s)
      | Some previous \<Rightarrow>
          (case api_set_boot_partition api previous (ou_flash s) of (err, f) \<Rightarrow>
             (err, s\<lparr>ou_flash := f\<rparr>)))"

definition ota_update_boot_is_pending :: "'f ota_api \<Rightarrow> 'f ota \<Rightarrow> bool" where
  "ota_update_boot_is_pending api s =
     (case api_running_partition api (ou_flash s) of
        None \<Rightarrow> False
      | Some running \<Rightarrow>
          (case api_state_partition api running (ou_flash s) of (err, state) \<Rightarrow>
             err = ESP_OK \<and> state = ESP_OTA_IMG_PENDING_VERIFY))"

definition ota_update_confirm_running :: "'f ota_api \<Rightarrow> 'f ota op" where
  "ota_update_confirm_running api s =
     (case api_mark_app_valid api (ou_flash s) of (err, f) \<Rightarrow> (err, s\<lparr>ou_flash := f\<rparr>))"

text \<open>On success the device restarts and the call does not return.\<close>

definition ota_update_rollback_running :: "'f ota_api \<Rightarrow> 'f ota op" where
  "ota_update_rollback_running api s =
     (case api_mark_app_invalid api (ou_flash s) of (err, f) \<Rightarrow> (err, s\<lparr>ou_flash := f\<rparr>))"

section \<open>The erase loop ends\<close>

lemma sector_step:
  assumes "(e :: u32) \<noteq> 0" and "n mod e = 0" and "off mod e = 0" and "off < n"
  shows "off + e \<le> n" and "unat (off + e) = unat off + unat e" and "(off + e) mod e = 0"
proof -
  have e: "0 < unat e" using assms(1) by (simp add: unat_gt_0)
  have m: "unat n mod unat e = 0" "unat off mod unat e = 0"
    using assms(2,3) by (simp_all add: unat_mod [symmetric])
  then obtain a b where ab: "unat n = unat e * a" "unat off = unat e * b"
    by (metis dvdE mod_eq_0_iff_dvd)
  have "b < a" using assms(4) ab e by (simp add: word_less_nat_alt)
  then have le: "unat off + unat e \<le> unat n"
    unfolding ab by (metis Suc_leI add.commute mult_Suc_right mult_le_mono2)
  then have "unat off + unat e < 4294967296" using unat_u32_less [of n] by linarith
  then show u: "unat (off + e) = unat off + unat e" by (simp add: unat_u32_plus)
  show "off + e \<le> n" using le by (simp add: word_le_nat_alt u)
  show "(off + e) mod e = 0" using m by (simp add: word_unat_eq_iff unat_mod u)
qed

text \<open>Aligned, the offset never wraps: each turn erases one sector and waits one tick.\<close>

lemma erase_sectors_returns:
  assumes "pt_erase_size p \<noteq> 0" and "pt_size p mod pt_erase_size p = 0"
    and "offset mod pt_erase_size p = 0"
  shows "\<exists>err s'. erase_sectors api p offset s = Some (err, s')"
  using assms(3)
proof (induction "unat (pt_size p) - unat offset" arbitrary: offset s rule: less_induct)
  case less
  show ?case
  proof (cases "offset < pt_size p")
    case False
    then show ?thesis by (subst erase_sectors.simps) simp
  next
    case True
    note step = sector_step [OF assms(1,2) less.prems True]
    have dec: "unat (pt_size p) - unat (offset + pt_erase_size p) < unat (pt_size p) - unat offset"
      using True step(2) assms(1) by (simp only: word_less_nat_alt unat_gt_0 [symmetric])
    obtain err f where f: "api_erase_range api p offset (pt_erase_size p) (ou_flash s) = (err, f)"
      by (cases "api_erase_range api p offset (pt_erase_size p) (ou_flash s)")
    show ?thesis
      using True f less.hyps [OF dec step(3)] by (subst erase_sectors.simps) simp
  qed
qed


section \<open>What the flash does\<close>

text \<open>
  A view of the flash: the bytes of a partition, the partition and write position of an open
  handle, the partition chosen to boot, and which contents pass the image and signature check.
\<close>

record 'f flash_view =
  fv_bytes :: "partition \<Rightarrow> 'f \<Rightarrow> u8 list"
  fv_session :: "ota_handle \<Rightarrow> 'f \<Rightarrow> (partition \<times> nat) option"
  fv_boot :: "'f \<Rightarrow> partition option"
  fv_valid :: "u8 list \<Rightarrow> bool"

text \<open>Erasing sets bits, programming can only clear them.\<close>

definition erased_at :: "nat \<Rightarrow> nat \<Rightarrow> u8 list \<Rightarrow> u8 list" where
  "erased_at off n b = take off b @ replicate n 0xff @ drop (off + n) b"

definition programmed_at :: "nat \<Rightarrow> u8 list \<Rightarrow> u8 list \<Rightarrow> u8 list" where
  "programmed_at pos d b =
     take pos b @ map2 (AND) (take (length d) (drop pos b)) d @ drop (pos + length d) b"

text \<open>A call changes at most the bytes of the partitions in \<open>P\<close>, and not which slot runs.\<close>

definition touches :: "'f ota_api \<Rightarrow> 'f flash_view \<Rightarrow> partition set \<Rightarrow> 'f \<Rightarrow> 'f \<Rightarrow> bool" where
  "touches api v P f f' \<longleftrightarrow> (\<forall>q. q \<notin> P \<longrightarrow> fv_bytes v q f' = fv_bytes v q f) \<and>
     api_running_partition api f' = api_running_partition api f"

text \<open>
  The documented behaviour of the calls: what each changes whatever it returns, and what it
  has done when it returns \<open>ESP_OK\<close>.
\<close>

definition erase_law :: "'f ota_api \<Rightarrow> 'f flash_view \<Rightarrow> bool" where
  "erase_law api v \<longleftrightarrow> (\<forall>p off n f err f'. api_erase_range api p off n f = (err, f') \<longrightarrow>
     touches api v {p} f f' \<and> fv_boot v f' = fv_boot v f \<and>
     (err = ESP_OK \<longrightarrow> fv_bytes v p f' = erased_at (unat off) (unat n) (fv_bytes v p f)))"

definition begin_law :: "'f ota_api \<Rightarrow> 'f flash_view \<Rightarrow> bool" where
  "begin_law api v \<longleftrightarrow> (\<forall>p n f err h f'. api_begin api p n f = (err, h, f') \<longrightarrow>
     touches api v {p} f f' \<and> fv_boot v f' = fv_boot v f \<and>
     (err = ESP_OK \<longrightarrow> fv_session v h f' = Some (p, 0) \<and>
        (\<exists>m \<le> unat (pt_size p). fv_bytes v p f' = erased_at 0 m (fv_bytes v p f))))"

definition write_law :: "'f ota_api \<Rightarrow> 'f flash_view \<Rightarrow> bool" where
  "write_law api v \<longleftrightarrow> (\<forall>h d f err f' p pos. api_write api h d f = (err, f') \<longrightarrow>
     fv_session v h f = Some (p, pos) \<longrightarrow>
     touches api v {p} f f' \<and> fv_boot v f' = fv_boot v f \<and>
     (\<exists>pos'. fv_session v h f' = Some (p, pos')) \<and>
     (err = ESP_OK \<longrightarrow> fv_session v h f' = Some (p, pos + length d) \<and>
        fv_bytes v p f' = programmed_at pos d (fv_bytes v p f)))"

definition end_law :: "'f ota_api \<Rightarrow> 'f flash_view \<Rightarrow> bool" where
  "end_law api v \<longleftrightarrow> (\<forall>h f err f' p pos. api_end api h f = (err, f') \<longrightarrow>
     fv_session v h f = Some (p, pos) \<longrightarrow>
     touches api v {} f f' \<and> fv_boot v f' = fv_boot v f \<and>
     (err = ESP_OK \<longrightarrow> fv_valid v (fv_bytes v p f)))"

definition boot_law :: "'f ota_api \<Rightarrow> 'f flash_view \<Rightarrow> bool" where
  "boot_law api v \<longleftrightarrow> (\<forall>p f err f'. api_set_boot_partition api p f = (err, f') \<longrightarrow>
     touches api v {} f f' \<and> (err = ESP_OK \<longrightarrow> fv_boot v f' = Some p))"

definition flash_contract :: "'f ota_api \<Rightarrow> 'f flash_view \<Rightarrow> bool" where
  "flash_contract api v \<longleftrightarrow>
     (\<forall>p f. length (fv_bytes v p f) = unat (pt_size p)) \<and>
     (\<forall>f p. api_next_update_partition api None f = Some p \<longrightarrow> api_running_partition api f \<noteq> Some p) \<and>
     erase_law api v \<and> begin_law api v \<and> write_law api v \<and> end_law api v \<and> boot_law api v \<and>
     (\<forall>h f. touches api v {} f (api_abort api h f) \<and> fv_boot v (api_abort api h f) = fv_boot v f) \<and>
     (\<forall>f. touches api v {} f (snd (api_mark_app_valid api f))) \<and>
     (\<forall>f. touches api v {} f (snd (api_mark_app_invalid api f)))"

lemma flash_contractD:
  assumes "flash_contract api v"
  shows "erase_law api v" "begin_law api v" "write_law api v" "end_law api v" "boot_law api v"
    "length (fv_bytes v p f) = unat (pt_size p)"
    "api_next_update_partition api None f = Some p \<Longrightarrow> api_running_partition api f \<noteq> Some p"
    "touches api v {} f (api_abort api h f)" "fv_boot v (api_abort api h f) = fv_boot v f"
    "touches api v {} f (snd (api_mark_app_valid api f))"
    "touches api v {} f (snd (api_mark_app_invalid api f))"
  using assms by (simp_all add: flash_contract_def)

lemma write_lawD:
  assumes "flash_contract api v" and "api_write api h d f = (err, f')" and "fv_session v h f = Some (p, pos)"
  shows "touches api v {p} f f'" "fv_boot v f' = fv_boot v f" "\<exists>pos'. fv_session v h f' = Some (p, pos')"
    "err = ESP_OK \<Longrightarrow> fv_session v h f' = Some (p, pos + length d)"
    "err = ESP_OK \<Longrightarrow> fv_bytes v p f' = programmed_at pos d (fv_bytes v p f)"
  using flash_contractD(3) [OF assms(1)] assms(2,3) unfolding write_law_def by blast+

lemma end_lawD:
  assumes "flash_contract api v" and "api_end api h f = (err, f')" and "fv_session v h f = Some (p, pos)"
  shows "touches api v {} f f'" "fv_boot v f' = fv_boot v f" "err = ESP_OK \<Longrightarrow> fv_valid v (fv_bytes v p f)"
  using flash_contractD(4) [OF assms(1)] assms(2,3) unfolding end_law_def by blast+

lemma boot_lawD:
  assumes "flash_contract api v" and "api_set_boot_partition api p f = (err, f')"
  shows "touches api v {} f f'" "err = ESP_OK \<Longrightarrow> fv_boot v f' = Some p"
  using flash_contractD(5) [OF assms(1)] assms(2) unfolding boot_law_def by blast+

lemma touches_refl: "touches api v P f f"
  by (simp add: touches_def)

lemma touches_trans: "touches api v P a b \<Longrightarrow> touches api v P b c \<Longrightarrow> touches api v P a c"
  by (simp add: touches_def)

lemma touches_mono: "touches api v P f f' \<Longrightarrow> P \<subseteq> Q \<Longrightarrow> touches api v Q f f'"
  by (auto simp: touches_def)

section \<open>The erased slot\<close>

definition erased_up_to :: "'f flash_view \<Rightarrow> partition \<Rightarrow> nat \<Rightarrow> 'f \<Rightarrow> bool" where
  "erased_up_to v p n f \<longleftrightarrow> take n (fv_bytes v p f) = replicate n 0xff"

lemma erased_at_prefix:
  assumes "take off b = replicate off 0xff" and "off + n \<le> length b"
  shows "take (off + n) (erased_at off n b) = replicate (off + n) 0xff"
proof -
  have "length (take off b) = off" using assms(2) by simp
  then show ?thesis by (simp add: erased_at_def assms(1) replicate_add)
qed

lemma erase_sectors_effect:
  assumes contract: "flash_contract api v" and "pt_erase_size p \<noteq> 0"
    and "pt_size p mod pt_erase_size p = 0"
    and "offset mod pt_erase_size p = 0" and "offset \<le> pt_size p"
    and "erase_sectors api p offset s = Some (err, s')"
    and "erased_up_to v p (unat offset) (ou_flash s)"
  shows "touches api v {p} (ou_flash s) (ou_flash s') \<and>
    fv_boot v (ou_flash s') = fv_boot v (ou_flash s) \<and>
    ou_busy s' = ou_busy s \<and> ou_target s' = ou_target s \<and>
    (err = ESP_OK \<longrightarrow> fv_bytes v p (ou_flash s') = replicate (unat (pt_size p)) 0xff)"
  using assms(4-)
proof (induction "unat (pt_size p) - unat offset" arbitrary: offset s rule: less_induct)
  case less
  note prems = less.prems
  show ?case
  proof (cases "offset < pt_size p")
    case False
    then have "offset = pt_size p" using prems(2) by simp
    moreover have "err = ESP_OK" "s' = s" using prems(3) False by (subst (asm) erase_sectors.simps, simp)+
    ultimately show ?thesis
      using prems(4) flash_contractD(6) [OF contract, of p "ou_flash s"]
      by (simp add: touches_refl erased_up_to_def)
  next
    case True
    note step = sector_step [OF assms(2,3) prems(1) True]
    let ?o = "offset + pt_erase_size p"
    have dec: "unat (pt_size p) - unat ?o < unat (pt_size p) - unat offset"
      using True step(2) assms(2) by (simp only: word_less_nat_alt unat_gt_0 [symmetric])
    obtain e f where e: "api_erase_range api p offset (pt_erase_size p) (ou_flash s) = (e, f)"
      by (cases "api_erase_range api p offset (pt_erase_size p) (ou_flash s)")
    have law: "touches api v {p} (ou_flash s) f" "fv_boot v f = fv_boot v (ou_flash s)"
      "e = ESP_OK \<Longrightarrow> fv_bytes v p f = erased_at (unat offset) (unat (pt_erase_size p)) (fv_bytes v p (ou_flash s))"
      using flash_contractD(1) [OF contract] e by (simp_all add: erase_law_def)
    show ?thesis
    proof (cases "e = ESP_OK")
      case False
      then have "err = e" "s' = s\<lparr>ou_flash := f\<rparr>"
        using prems(3) True e by (subst (asm) erase_sectors.simps, simp)+
      then show ?thesis using law(1,2) False by simp
    next
      case ok: True
      let ?s = "s\<lparr>ou_flash := f, ou_delays := ou_delays s + 1\<rparr>"
      have rest: "erase_sectors api p ?o ?s = Some (err, s')"
        using prems(3) True e ok by (subst (asm) erase_sectors.simps) simp
      have "unat ?o \<le> unat (pt_size p)" using step(1) by (simp add: word_le_nat_alt)
      then have "erased_up_to v p (unat ?o) f"
        using law(3) [OF ok] prems(4) erased_at_prefix flash_contractD(6) [OF contract]
        by (simp add: erased_up_to_def step(2))
      then have "touches api v {p} f (ou_flash s') \<and> fv_boot v (ou_flash s') = fv_boot v f \<and>
          ou_busy s' = ou_busy s \<and> ou_target s' = ou_target s \<and>
          (err = ESP_OK \<longrightarrow> fv_bytes v p (ou_flash s') = replicate (unat (pt_size p)) 0xff)"
        using less.hyps [OF dec step(3,1) rest] by simp
      then show ?thesis using law(1,2) touches_trans by auto
    qed
  qed
qed


lemma open_target_returns: "\<exists>err s'. open_target api target n s = Some (err, s')"
proof -
  have "\<exists>err s'. erase_inactive_partition api (Some target) s = Some (err, s')"
    using erase_sectors_returns [of target 0 api s] by (simp add: erase_inactive_partition_def)
  then show ?thesis by (auto simp: open_target_def Let_def split: prod.split)
qed

lemma erase_sectors_busy:
  assumes "erase_sectors api p offset s = Some r"
  shows "ou_busy (snd r) = ou_busy s"
  by (rule erase_sectors.raw_induct [where P = "\<lambda>api p offset s r. ou_busy (snd r) = ou_busy s", OF _ assms])
    (fastforce split: if_splits prod.splits)

lemma erase_inactive_busy:
  "erase_inactive_partition api p s = Some (err, s') \<Longrightarrow> ou_busy s' = ou_busy s"
  using erase_sectors_busy by (fastforce simp: erase_inactive_partition_def split: option.splits if_splits)

text \<open>Opening the target touches nothing else; done, the whole slot is erased.\<close>

definition image_ok :: "'f flash_view \<Rightarrow> partition \<Rightarrow> u8 list \<Rightarrow> u32 \<Rightarrow> 'f ota \<Rightarrow> bool" where
  "image_ok v p img n s \<longleftrightarrow> ou_busy s \<and> ou_target s = Some p \<and>
     fv_session v (ou_handle s) (ou_flash s) = Some (p, length img) \<and>
     ou_written s = of_nat (length img) \<and> ou_expected_size s = n \<and>
     length img \<le> unat n \<and> unat n \<le> unat (pt_size p) \<and>
     fv_bytes v p (ou_flash s) = img @ replicate (unat (pt_size p) - length img) 0xff"

lemma erased_at_full: "m \<le> k \<Longrightarrow> erased_at 0 m (replicate k 0xff) = replicate k 0xff"
  by (simp add: erased_at_def replicate_add [symmetric])

lemma open_target_effect:
  assumes contract: "flash_contract api v"
    and opn: "open_target api p n s = Some (err, s')"
    and "ou_target s = Some p" and "n \<le> pt_size p" and "\<not> ou_busy s"
  shows "touches api v {p} (ou_flash s) (ou_flash s') \<and> fv_boot v (ou_flash s') = fv_boot v (ou_flash s) \<and>
    (if err = ESP_OK then image_ok v p [] n s' else \<not> ou_busy s')"
proof -
  obtain e1 s1 where e1: "erase_inactive_partition api (Some p) s = Some (e1, s1)"
    using opn by (auto simp: open_target_def split: option.splits)
  have s1: "touches api v {p} (ou_flash s) (ou_flash s1) \<and> fv_boot v (ou_flash s1) = fv_boot v (ou_flash s) \<and>
      ou_busy s1 = ou_busy s \<and> ou_target s1 = ou_target s \<and>
      (e1 = ESP_OK \<longrightarrow> fv_bytes v p (ou_flash s1) = replicate (unat (pt_size p)) 0xff)"
  proof (cases "pt_erase_size p = 0 \<or> pt_size p mod pt_erase_size p \<noteq> 0")
    case True
    then have "e1 \<noteq> ESP_OK" "s1 = s"
      using e1 by (simp_all add: erase_inactive_partition_def split: if_splits)
    then show ?thesis by (simp add: touches_refl)
  next
    case False
    then show ?thesis
      using e1 erase_sectors_effect [OF contract, of p 0 s e1 s1]
      by (simp add: erase_inactive_partition_def erased_up_to_def)
  qed
  have busy: "\<not> ou_busy s1" "ou_target s1 = Some p" using s1 assms(3,5) by simp_all
  show ?thesis
  proof (cases "e1 = ESP_OK")
    case False
    then show ?thesis using opn e1 s1 busy by (auto simp: open_target_def)
  next
    case True
    obtain e2 h f where b: "api_begin api p (pt_erase_size p) (ou_flash s1) = (e2, h, f)"
      by (cases "api_begin api p (pt_erase_size p) (ou_flash s1)")
    have law: "touches api v {p} (ou_flash s1) f" "fv_boot v f = fv_boot v (ou_flash s1)"
      "e2 = ESP_OK \<Longrightarrow> fv_session v h f = Some (p, 0) \<and>
        (\<exists>m \<le> unat (pt_size p). fv_bytes v p f = erased_at 0 m (fv_bytes v p (ou_flash s1)))"
      using flash_contractD(2) [OF contract] b by (simp_all add: begin_law_def)
    have s': "err = e2" "s' = (if e2 \<noteq> ESP_OK then s1\<lparr>ou_flash := f, ou_handle := h, ou_target := None\<rparr>
      else s1\<lparr>ou_flash := f, ou_handle := h, ou_expected_size := n, ou_written := 0, ou_busy := True\<rparr>)"
      using opn e1 True b by (auto simp: open_target_def Let_def split: if_splits)
    have t: "touches api v {p} (ou_flash s) f" "fv_boot v f = fv_boot v (ou_flash s)"
      using s1 law(1,2) touches_trans by auto
    show ?thesis
    proof (cases "e2 = ESP_OK")
      case False
      then show ?thesis using s' t busy by simp
    next
      case ok: True
      then have "fv_bytes v p f = replicate (unat (pt_size p)) 0xff"
        using law(3) s1 True erased_at_full by auto
      then show ?thesis using ok s' t busy(2) law(3) assms(4) by (simp add: image_ok_def word_le_nat_alt)
    qed
  qed
qed

lemma ota_update_begin_cases:
  obtains (refused) err ver where "ota_update_begin api il header n version s = Some (err, ver, s)" "err \<noteq> ESP_OK"
  | (no_target) err ver t where "ota_update_begin api il header n version s = Some (err, ver, s\<lparr>ou_target := t\<rparr>)"
      "err \<noteq> ESP_OK" "\<not> ou_busy s"
  | (opened) p err ver s' h where "ota_update_begin api il header n version s = Some (err, ver, s')"
      "header = Some h" "ota_header_length il \<le> length h" "check_header il h = ESP_OK"
      "api_next_update_partition api None (ou_flash s) = Some p" "ota_header_length il < unat n"
      "n \<le> pt_size p" "\<not> ou_busy s"
      "open_target api p n (s\<lparr>ou_target := Some p\<rparr>) = Some (err, s')"
proof -
  consider "\<exists>err ver. ota_update_begin api il header n version s = Some (err, ver, s) \<and> err \<noteq> ESP_OK"
    | h ver where "header = Some h" "version = Some ver" "length ver \<noteq> 0" "\<not> ou_busy s"
      "ota_header_length il \<le> length h" "check_header il h = ESP_OK"
  proof (cases header; cases version)
    fix h ver
    assume s: "header = Some h" "version = Some ver"
    show thesis
    proof (cases "length ver = 0 \<or> ou_busy s \<or> length h < ota_header_length il \<or> check_header il h \<noteq> ESP_OK")
      case True
      then have "\<exists>err ver. ota_update_begin api il header n version s = Some (err, ver, s) \<and> err \<noteq> ESP_OK"
        using s by (auto simp: ota_update_begin_def)
      then show thesis by (rule that(1))
    next
      case False
      then show thesis using that(2) s by simp
    qed
  qed (use that(1) in \<open>simp_all add: ota_update_begin_def\<close>)
  then show ?thesis
  proof cases
    case 1
    then show ?thesis using refused by blast
  next
    case (2 h ver)
    let ?t = "api_next_update_partition api None (ou_flash s)"
    let ?s = "s\<lparr>ou_target := ?t\<rparr>"
    show ?thesis
    proof (cases "\<exists>p. ?t = Some p \<and> ota_header_length il < unat n \<and> n \<le> pt_size p")
      case False
      have "\<exists>err ver'. ota_update_begin api il header n version s = Some (err, ver', ?s) \<and> err \<noteq> ESP_OK"
        using 2 False
        by (cases ?t) (auto simp: ota_update_begin_def Let_def not_le)
      then show ?thesis using no_target 2(4) by blast
    next
      case True
      then obtain p where p: "?t = Some p" "ota_header_length il < unat n" "n \<le> pt_size p" by blast
      obtain err s' where o: "open_target api p n ?s = Some (err, s')" using open_target_returns by blast
      have "\<not> pt_size p < n" using p(3) by simp
      with 2 p(1,2) o have "\<exists>v. ota_update_begin api il header n version s = Some (err, v, s')"
        by (simp add: ota_update_begin_def Let_def)
      then show ?thesis using opened 2(1,4,5,6) p o by (metis)
    qed
  qed
qed


lemma open_target_busy:
  assumes "open_target api p n s = Some (err, s')" and "\<not> ou_busy s"
  shows "ou_busy s' \<longleftrightarrow> err = ESP_OK"
  using assms
  by (auto simp: open_target_def Let_def split: option.splits prod.splits if_splits dest!: erase_inactive_busy)

lemma begin_busy:
  assumes "ota_update_begin api il header n version s = Some (err, ver, s')"
  shows "err = ESP_OK \<Longrightarrow> ou_busy s'" "err \<noteq> ESP_OK \<Longrightarrow> ou_busy s' = ou_busy s"
    "err = ESP_OK \<Longrightarrow> \<not> ou_busy s"
  by (cases rule: ota_update_begin_cases [of api il header n version s];
      use assms open_target_busy in force)+

lemma ota_begin_total: "\<exists>err ver s'. ota_update_begin api il header n version s = Some (err, ver, s')"
  by (cases rule: ota_update_begin_cases [of api il header n version s]) auto

lemma write_busy [simp]: "ou_busy (snd (ota_update_write api data s)) = ou_busy s"
  by (simp add: ota_update_write_def Let_def split: option.split prod.split)

lemma write_idle: "\<not> ou_busy s \<Longrightarrow> snd (ota_update_write api data s) = s"
  by (simp add: ota_update_write_def split: option.split)

lemma abort_busy [simp]: "\<not> ou_busy (ota_update_abort api s)"
  by (simp add: ota_update_abort_def)

lemma abort_idle: "\<not> ou_busy s \<Longrightarrow> ou_flash (ota_update_abort api s) = ou_flash s"
  by (simp add: ota_update_abort_def)

lemma finish_busy [simp]: "\<not> ou_busy (snd (ota_update_finish api s))"
  by (simp add: ota_update_finish_def Let_def split: option.split prod.split)

lemma finish_idle: "\<not> ou_busy s \<Longrightarrow> snd (ota_update_finish api s) = s"
  by (simp add: ota_update_finish_def)

lemma select_busy [simp]: "ou_busy (snd (ota_update_select_previous api s)) = ou_busy s"
  by (simp add: ota_update_select_previous_def split: option.split prod.split)

lemma mark_busy [simp]:
  "ou_busy (snd (ota_update_confirm_running api s)) = ou_busy s"
  "ou_busy (snd (ota_update_rollback_running api s)) = ou_busy s"
  by (simp_all add: ota_update_confirm_running_def ota_update_rollback_running_def split: prod.split)

section \<open>Writing and finishing\<close>

lemma programmed_after_erase:
  assumes "length d \<le> k"
  shows "programmed_at (length img) d (img @ replicate k 0xff) = (img @ d) @ replicate (k - length d) 0xff"
proof -
  have "map2 (AND) (replicate (length d) 0xff) d = d"
  proof (induction d)
    case (Cons b d)
    have "(0xff :: u8) = - 1" by simp
    then have "(0xff :: u8) AND b = b" by (simp only: and.left_neutral)
    then show ?case using Cons by simp
  qed simp
  then show ?thesis using assms by (simp add: programmed_at_def min_def)
qed

lemma image_ok_length:
  assumes "image_ok v p img n s"
  shows "unat (of_nat (length img) :: u32) = length img"
proof (rule unat_of_nat_u32)
  have "length img \<le> unat n" using assms by (simp add: image_ok_def)
  then show "length img < 4294967296" using unat_u32_less [of n] by (rule le_less_trans)
qed

lemma write_appends:
  assumes contract: "flash_contract api v" and ok: "image_ok v p img n s"
    and w: "ota_update_write api (Some d) s = (ESP_OK, s')"
  shows "image_ok v p (img @ d) n s'"
proof -
  have room: "length d \<le> unat n - length img"
  proof -
    have "unat (n - of_nat (length img)) = unat n - length img"
    proof -
      have "of_nat (length img) \<le> n"
        using ok by (simp only: word_le_nat_alt image_ok_length [OF ok]) (simp add: image_ok_def)
      then show ?thesis by (simp only: unat_sub image_ok_length [OF ok])
    qed
    then show ?thesis using ok w by (auto simp: image_ok_def ota_update_write_def not_less split: if_splits)
  qed
  obtain f where f: "api_write api (ou_handle s) d (ou_flash s) = (ESP_OK, f)"
    "s' = s\<lparr>ou_flash := f, ou_written := ou_written s + of_nat (length d)\<rparr>"
    using ok w by (auto simp: image_ok_def ota_update_write_def Let_def split: if_splits prod.splits)
  have session: "fv_session v (ou_handle s) (ou_flash s) = Some (p, length img)"
    using ok by (simp add: image_ok_def)
  have "length d \<le> unat (pt_size p) - length img" "length img + length d \<le> unat n"
    using ok room by (auto simp: image_ok_def)
  then show ?thesis
    using write_lawD(4,5) [OF contract f(1) session] ok f(2)
    by (simp add: image_ok_def programmed_after_erase)
qed

lemma writes_append:
  assumes "flash_contract api v" and "image_ok v p img n s"
    and "return_on_errors (map (\<lambda>d. ota_update_write api (Some d)) chunks) s = (ESP_OK, s')"
  shows "image_ok v p (img @ concat chunks) n s'"
  using assms(2,3)
proof (induction chunks arbitrary: img s)
  case (Cons d chunks)
  obtain s1 where "ota_update_write api (Some d) s = (ESP_OK, s1)"
    "return_on_errors (map (\<lambda>d. ota_update_write api (Some d)) chunks) s1 = (ESP_OK, s')"
    using Cons.prems(2) by (auto split: prod.splits if_splits)
  then show ?case using Cons.IH write_appends [OF assms(1) Cons.prems(1)] by fastforce
qed simp

lemma finish_boots_image:
  assumes contract: "flash_contract api v" and ok: "image_ok v p img n s"
    and fin: "ota_update_finish api s = (ESP_OK, s')"
  shows "fv_boot v (ou_flash s') = Some p \<and> length img = unat n \<and> fv_valid v (fv_bytes v p (ou_flash s')) \<and>
    fv_bytes v p (ou_flash s') = img @ replicate (unat (pt_size p) - unat n) 0xff \<and> \<not> ou_busy s'"
proof -
  have n: "of_nat (length img) = n" using ok fin by (auto simp: image_ok_def ota_update_finish_def split: if_splits)
  have len: "length img = unat n" using image_ok_length [OF ok] by (simp only: n)
  obtain f1 f2 where f: "api_end api (ou_handle s) (ou_flash s) = (ESP_OK, f1)"
    "api_set_boot_partition api p f1 = (ESP_OK, f2)" "ou_flash s' = f2" "\<not> ou_busy s'"
    using ok n fin by (auto simp: image_ok_def ota_update_finish_def Let_def split: prod.splits if_splits)
  have session: "fv_session v (ou_handle s) (ou_flash s) = Some (p, length img)"
    using ok by (simp add: image_ok_def)
  have "touches api v {} (ou_flash s) f1" "fv_valid v (fv_bytes v p (ou_flash s))"
    using end_lawD [OF contract f(1) session] by simp_all
  moreover have "touches api v {} f1 f2" "fv_boot v f2 = Some p"
    using boot_lawD [OF contract f(2)] by simp_all
  ultimately show ?thesis using ok len f(3,4) by (simp add: touches_def image_ok_def)
qed


section \<open>The running slot\<close>

text \<open>While an image is being written, the open handle writes to the target and that is not the
  slot that runs.\<close>

definition session_ok :: "'f ota_api \<Rightarrow> 'f flash_view \<Rightarrow> 'f ota \<Rightarrow> bool" where
  "session_ok api v s \<longleftrightarrow> (ou_busy s \<longrightarrow>
     (\<exists>p pos. ou_target s = Some p \<and> fv_session v (ou_handle s) (ou_flash s) = Some (p, pos) \<and>
        api_running_partition api (ou_flash s) \<noteq> Some p))"

definition spares :: "'f ota_api \<Rightarrow> 'f flash_view \<Rightarrow> 'f \<Rightarrow> 'f \<Rightarrow> bool" where
  "spares api v f f' \<longleftrightarrow> api_running_partition api f' = api_running_partition api f \<and>
     (\<forall>q. api_running_partition api f = Some q \<longrightarrow> fv_bytes v q f' = fv_bytes v q f)"

lemma spares_refl [simp]: "spares api v f f"
  by (simp add: spares_def)

lemma spares_trans: "spares api v a b \<Longrightarrow> spares api v b c \<Longrightarrow> spares api v a c"
  by (simp add: spares_def)

lemma touches_spares:
  "touches api v P f f' \<Longrightarrow> (\<forall>q \<in> P. api_running_partition api f \<noteq> Some q) \<Longrightarrow> spares api v f f'"
  by (auto simp: touches_def spares_def)

lemma begin_spares:
  assumes contract: "flash_contract api v" and ok: "session_ok api v s"
    and b: "ota_update_begin api il header n version s = Some (err, ver, s')"
  shows "session_ok api v s' \<and> spares api v (ou_flash s) (ou_flash s')"
proof (cases rule: ota_update_begin_cases [of api il header n version s])
  case refused
  then show ?thesis using b ok by simp
next
  case no_target
  then show ?thesis using b by (auto simp: session_ok_def)
next
  case (opened p err' ver' s1 h)
  have s': "s' = s1" using opened(1) b by simp
  have e: "touches api v {p} (ou_flash s) (ou_flash s1)"
    "if err' = ESP_OK then image_ok v p [] n s1 else \<not> ou_busy s1"
    using open_target_effect [OF contract opened(9)] opened(7,8) by simp_all
  have other: "api_running_partition api (ou_flash s) \<noteq> Some p"
    by (rule flash_contractD(7) [OF contract opened(5)])
  then show ?thesis
    using e touches_spares [OF e(1)] unfolding s'
    by (auto simp: session_ok_def image_ok_def touches_def split: if_splits)
qed

lemma write_spares:
  assumes contract: "flash_contract api v" and ok: "session_ok api v s"
  shows "session_ok api v (snd (ota_update_write api data s)) \<and>
    spares api v (ou_flash s) (ou_flash (snd (ota_update_write api data s)))"
proof (cases "\<exists>d. data = Some d \<and> ou_busy s \<and> d \<noteq> [] \<and> length d \<le> unat (ou_expected_size s - ou_written s)")
  case False
  then have "snd (ota_update_write api data s) = s"
    by (cases data) (auto simp: ota_update_write_def)
  then show ?thesis using ok by simp
next
  case True
  then obtain d where d: "data = Some d" "ou_busy s" "d \<noteq> []"
    "\<not> unat (ou_expected_size s - ou_written s) < length d" by auto
  obtain p pos where p: "ou_target s = Some p" "fv_session v (ou_handle s) (ou_flash s) = Some (p, pos)"
    "api_running_partition api (ou_flash s) \<noteq> Some p"
    using ok d(2) by (auto simp: session_ok_def)
  obtain err f where f: "api_write api (ou_handle s) d (ou_flash s) = (err, f)"
    by (cases "api_write api (ou_handle s) d (ou_flash s)")
  note law = write_lawD(1,3) [OF contract f p(2)]
  have "spares api v (ou_flash s) f" using touches_spares [OF law(1)] p(3) by simp
  moreover have "api_running_partition api f = api_running_partition api (ou_flash s)"
    using law(1) by (simp add: touches_def)
  ultimately show ?thesis
    using d f p law(2) by (simp add: ota_update_write_def session_ok_def Let_def)
qed

lemma abort_spares:
  assumes "flash_contract api v"
  shows "session_ok api v (ota_update_abort api s) \<and> spares api v (ou_flash s) (ou_flash (ota_update_abort api s))"
  using touches_spares [OF flash_contractD(8) [OF assms, of "ou_flash s" "ou_handle s"]]
  by (simp add: ota_update_abort_def session_ok_def)

lemma finish_spares:
  assumes contract: "flash_contract api v" and ok: "session_ok api v s"
  shows "session_ok api v (snd (ota_update_finish api s)) \<and>
    spares api v (ou_flash s) (ou_flash (snd (ota_update_finish api s)))"
proof (cases "ou_busy s \<and> ou_written s = ou_expected_size s")
  case False
  then have "snd (ota_update_finish api s) \<in> {s, ota_update_abort api s}"
    by (simp add: ota_update_finish_def)
  then show ?thesis using abort_spares [OF contract, of s] ok by auto
next
  case True
  then obtain p pos where p: "ou_target s = Some p" "fv_session v (ou_handle s) (ou_flash s) = Some (p, pos)"
    using ok by (auto simp: session_ok_def)
  obtain err f where f: "api_end api (ou_handle s) (ou_flash s) = (err, f)"
    by (cases "api_end api (ou_handle s) (ou_flash s)")
  have s1: "spares api v (ou_flash s) f" using touches_spares [OF end_lawD(1) [OF contract f p(2)]] by simp
  obtain err2 f2 where f2: "api_set_boot_partition api p f = (err2, f2)"
    by (cases "api_set_boot_partition api p f")
  have fin: "snd (ota_update_finish api s) = (if err \<noteq> ESP_OK
      then s\<lparr>ou_flash := f, ou_handle := 0, ou_busy := False, ou_expected_size := 0, ou_written := 0, ou_target := None\<rparr>
      else s\<lparr>ou_flash := f2, ou_handle := 0, ou_busy := False, ou_expected_size := 0, ou_written := 0, ou_target := None\<rparr>)"
    using True p(1) f f2 by (simp add: ota_update_finish_def Let_def)
  have "spares api v f f2" using touches_spares [OF boot_lawD(1) [OF contract f2]] by simp
  with s1 have "spares api v (ou_flash s) f2" by (rule spares_trans)
  then show ?thesis
    using s1 unfolding fin by (simp add: session_ok_def)
qed

lemma select_spares:
  assumes contract: "flash_contract api v" and ok: "session_ok api v s"
  shows "session_ok api v (snd (ota_update_select_previous api s)) \<and>
    spares api v (ou_flash s) (ou_flash (snd (ota_update_select_previous api s)))"
proof -
  have "spares api v f f2" if "api_set_boot_partition api p f = (e, f2)" for p f e f2
    using touches_spares [OF boot_lawD(1) [OF contract that]] by simp
  then show ?thesis
    using ok by (auto simp: ota_update_select_previous_def session_ok_def split: option.split prod.split)
qed

text \<open>The calls of the interface, in any order and with any outcome.\<close>

datatype ota_call = Begin "u8 list option" u32 | Write "u8 list option" | Finish | Abort
  | Select_Previous

fun ota_run :: "'f ota_api \<Rightarrow> image_layout \<Rightarrow> ota_call \<Rightarrow> 'f ota \<Rightarrow> 'f ota" where
  "ota_run api il (Begin header n) s =
     (case ota_update_begin api il header n (Some (replicate SIZEOF_VERSION 0)) s of
        None \<Rightarrow> s | Some (_, _, s') \<Rightarrow> s')"
| "ota_run api il (Write data) s = snd (ota_update_write api data s)"
| "ota_run api il Finish s = snd (ota_update_finish api s)"
| "ota_run api il Abort s = ota_update_abort api s"
| "ota_run api il Select_Previous s = snd (ota_update_select_previous api s)"

lemma ota_run_spares:
  assumes "flash_contract api v" and "session_ok api v s"
  shows "session_ok api v (ota_run api il c s) \<and> spares api v (ou_flash s) (ou_flash (ota_run api il c s))"
proof (cases c)
  case (Begin h n)
  then show ?thesis
    using begin_spares [OF assms] assms(2) by (auto split: option.split)
qed (simp_all add: assms write_spares finish_spares abort_spares select_spares)

lemma ota_runs_spare:
  assumes "flash_contract api v" and "session_ok api v s"
  shows "spares api v (ou_flash s) (ou_flash (fold (ota_run api il) calls s))"
  using assms(2)
proof (induction calls arbitrary: s)
  case (Cons c calls)
  then show ?case using ota_run_spares [OF assms(1) Cons.prems, of il c] spares_trans by fastforce
qed simp


section \<open>Pauses of the erase\<close>

lemma erase_sectors_delays:
  assumes "pt_erase_size p \<noteq> 0" and "pt_size p mod pt_erase_size p = 0"
    and "offset mod pt_erase_size p = 0" and "offset \<le> pt_size p"
    and "erase_sectors api p offset s = Some (ESP_OK, s')"
  shows "ou_delays s' = ou_delays s + (unat (pt_size p) - unat offset) div unat (pt_erase_size p)"
  using assms(3-)
proof (induction "unat (pt_size p) - unat offset" arbitrary: offset s rule: less_induct)
  case less
  show ?case
  proof (cases "offset < pt_size p")
    case False
    then have "offset = pt_size p" using less.prems(2) by simp
    moreover have "s' = s" using less.prems(3) False by (subst (asm) erase_sectors.simps) simp
    ultimately show ?thesis by simp
  next
    case True
    let ?e = "pt_erase_size p"
    note step = sector_step [OF assms(1,2) less.prems(1) True]
    have e: "0 < unat ?e" using assms(1) by (simp add: unat_gt_0)
    have dec: "unat (pt_size p) - unat (offset + ?e) < unat (pt_size p) - unat offset"
      using True step(2) e by (simp only: word_less_nat_alt)
    have le: "unat offset + unat ?e \<le> unat (pt_size p)"
      using step(1,2) by (simp add: word_le_nat_alt)
    obtain f where f: "api_erase_range api p offset ?e (ou_flash s) = (ESP_OK, f)"
      "erase_sectors api p (offset + ?e) (s\<lparr>ou_flash := f, ou_delays := ou_delays s + 1\<rparr>) = Some (ESP_OK, s')"
      using less.prems(3) True by (subst (asm) erase_sectors.simps) (auto split: prod.splits if_splits)
    have "ou_delays s' = ou_delays s + 1 + (unat (pt_size p) - unat (offset + ?e)) div unat ?e"
      using less.hyps [OF dec step(3,1) f(2)] by simp
    also have "\<dots> = ou_delays s + (unat (pt_size p) - (unat offset + unat ?e) + unat ?e) div unat ?e"
      using e by (simp add: step(2) div_add_self2)
    also have "unat (pt_size p) - (unat offset + unat ?e) + unat ?e = unat (pt_size p) - unat offset"
      using le by simp
    finally show ?thesis .
  qed
qed

lemma open_target_delays:
  assumes "open_target api p n s = Some (ESP_OK, s')"
  shows "ou_delays s' = ou_delays s + unat (pt_size p) div unat (pt_erase_size p)"
proof -
  obtain s1 where s1: "erase_inactive_partition api (Some p) s = Some (ESP_OK, s1)"
    "ou_delays s' = ou_delays s1"
    using assms by (auto simp: open_target_def Let_def split: option.splits prod.splits if_splits)
  then have "pt_erase_size p \<noteq> 0" "pt_size p mod pt_erase_size p = 0" "erase_sectors api p 0 s = Some (ESP_OK, s1)"
    by (auto simp: erase_inactive_partition_def split: if_splits)
  then show ?thesis using erase_sectors_delays [of p 0 api s s1] s1(2) by simp
qed

section \<open>An instance of the flash\<close>

text \<open>Two slots of eight bytes with sectors of four; slot 0 runs.\<close>

record sample_flash =
  sf_mem :: "partition \<Rightarrow> nat \<Rightarrow> u8"
  sf_session :: "(partition \<times> nat) option"
  sf_boot :: "partition option"

definition sample_slot :: "u32 \<Rightarrow> partition" where
  "sample_slot i = \<lparr>pt_subtype = 0x10 + i, pt_label = bytes_of ''ota'' @ [0], pt_address = 0x10000,
     pt_size = 8, pt_erase_size = 4\<rparr>"

definition sample_desc :: app_desc where
  "sample_desc = \<lparr>ad_magic_word = 0xABCD5432, ad_version = bytes_of ''1.2.0'' @ [0],
     ad_project_name = bytes_of ''HPA300-FIRMWARE'' @ [0]\<rparr>"

definition sample_layout :: image_layout where
  "sample_layout = \<lparr>il_image_size = 1, il_segment_size = 1, il_app_size = 1,
     il_image = (\<lambda>h. \<lparr>ih_magic = hd h, ih_chip_id = 2\<rparr>), il_app = (\<lambda>_. sample_desc),
     il_image_magic = 0xE9, il_chip_id = 2, il_app_magic = 0xABCD5432\<rparr>"

definition sample_write :: "ota_handle \<Rightarrow> u8 list \<Rightarrow> sample_flash \<Rightarrow> esp_err \<times> sample_flash" where
  "sample_write h d f =
     (case sf_session f of
        None \<Rightarrow> (ESP_FAIL, f)
      | Some (p, pos) \<Rightarrow>
          if unat (pt_size p) < pos + length d then (ESP_ERR_INVALID_SIZE, f)
          else (ESP_OK, f\<lparr>sf_mem := (sf_mem f)(p := \<lambda>i.
                  if pos \<le> i \<and> i < pos + length d then sf_mem f p i AND d ! (i - pos) else sf_mem f p i),
                sf_session := Some (p, pos + length d)\<rparr>))"

definition sample_api :: "sample_flash ota_api" where
  "sample_api = \<lparr>api_next_update_partition = (\<lambda>_ _. Some (sample_slot 1)),
     api_running_partition = (\<lambda>_. Some (sample_slot 0)),
     api_erase_range = (\<lambda>p off n f.
       if unat (pt_size p) < unat off + unat n then (ESP_ERR_INVALID_SIZE, f)
       else (ESP_OK, f\<lparr>sf_mem := (sf_mem f)(p := \<lambda>i.
         if unat off \<le> i \<and> i < unat off + unat n then 0xff else sf_mem f p i)\<rparr>)),
     api_begin = (\<lambda>p n f. (ESP_OK, 1, f\<lparr>sf_session := Some (p, 0)\<rparr>)),
     api_write = sample_write,
     api_end = (\<lambda>h f. (ESP_OK, f)),
     api_abort = (\<lambda>h f. f),
     api_set_boot_partition = (\<lambda>p f. (ESP_OK, f\<lparr>sf_boot := Some p\<rparr>)),
     api_partition_description = (\<lambda>p f. (ESP_OK, sample_desc)),
     api_rollback_is_possible = (\<lambda>_. True),
     api_state_partition = (\<lambda>p f. (ESP_OK, 2)),
     api_mark_app_valid = (\<lambda>f. (ESP_OK, f)),
     api_mark_app_invalid = (\<lambda>f. (ESP_OK, f))\<rparr>"

definition sample_view :: "sample_flash flash_view" where
  "sample_view = \<lparr>fv_bytes = (\<lambda>p f. map (sf_mem f p) [0..<unat (pt_size p)]),
     fv_session = (\<lambda>_ f. sf_session f), fv_boot = sf_boot, fv_valid = (\<lambda>_. True)\<rparr>"

lemma nth_map_range [simp]: "i < n \<Longrightarrow> map g [0..<n] ! i = g i"
  by simp

lemma sample_erased:
  assumes "off + n \<le> k"
  shows "map (\<lambda>i. if off \<le> i \<and> i < off + n then 0xff else g i) [0..<k] = erased_at off n (map g [0..<k])"
  using assms by (intro nth_equalityI) (auto simp: erased_at_def nth_append min_def)

lemma sample_programmed:
  assumes "pos + length d \<le> k"
  shows "map (\<lambda>i. if pos \<le> i \<and> i < pos + length d then g i AND d ! (i - pos) else g i) [0..<k] =
    programmed_at pos d (map g [0..<k])"
  using assms by (intro nth_equalityI) (auto simp: programmed_at_def nth_append min_def)

lemma sample_contract: "flash_contract sample_api sample_view"
proof -
  have "erase_law sample_api sample_view"
    by (auto simp: erase_law_def sample_api_def sample_view_def touches_def sample_erased [symmetric]
        split: if_splits)
  moreover have "begin_law sample_api sample_view"
    by (auto simp: begin_law_def sample_api_def sample_view_def touches_def erased_at_def intro: exI [of _ 0])
  moreover have "write_law sample_api sample_view"
    by (auto simp: write_law_def sample_api_def sample_write_def sample_view_def touches_def
        sample_programmed [symmetric] split: if_splits)
  moreover have "end_law sample_api sample_view" "boot_law sample_api sample_view"
    by (auto simp: end_law_def boot_law_def sample_api_def sample_view_def touches_def)
  ultimately show ?thesis
    by (simp add: flash_contract_def)
      (simp add: sample_api_def sample_view_def sample_slot_def touches_def)
qed


definition sample_ota :: "sample_flash ota" where
  "sample_ota = \<lparr>ou_handle = 0, ou_target = None, ou_expected_size = 0, ou_written = 0, ou_busy = False,
     ou_flash = \<lparr>sf_mem = (\<lambda>_ _. 0x5a), sf_session = None, sf_boot = None\<rparr>, ou_delays = 0\<rparr>"

section \<open>Properties\<close>

text \<open>C34. Beginning an update always returns: the sector loop of the erase ends for every
  partition the checks let through, its offset never wraps, and when it succeeds the task has
  paused one tick for each sector of the target.\<close>

theorem ota_begin_returns:
  "\<exists>err ver s'. ota_update_begin api il header n version s = Some (err, ver, s') \<and>
     (if err = ESP_OK then \<exists>p. api_next_update_partition api None (ou_flash s) = Some p \<and>
          ou_delays s' = ou_delays s + unat (pt_size p) div unat (pt_erase_size p)
      else ou_busy s' = ou_busy s)"
proof (cases rule: ota_update_begin_cases [of api il header n version s])
  case (opened p err ver s' h)
  have "\<not> ou_busy s'" if "err \<noteq> ESP_OK"
    using open_target_busy [OF opened(9)] opened(8) that by simp
  then show ?thesis using opened open_target_delays [of api p n _ s'] by (cases "err = ESP_OK") auto
qed auto

text \<open>C18. A firmware that is made to boot is the firmware that was sent: when beginning, all
  writes and finishing succeed, the slot chosen to boot holds exactly the declared number of
  bytes, those that were written, in order, and every byte behind them is erased, so nothing
  of an older image (a stale signature) is left; and this content passed the signature check.\<close>

theorem ota_installs_exact_image:
  assumes "flash_contract api v"
    and "ota_update_begin api il header n version s = Some (ESP_OK, ver, s1)"
    and "return_on_errors (map (\<lambda>d. ota_update_write api (Some d)) chunks) s1 = (ESP_OK, s2)"
    and "ota_update_finish api s2 = (ESP_OK, s3)"
  shows "\<exists>p. api_next_update_partition api None (ou_flash s) = Some p \<and> fv_boot v (ou_flash s3) = Some p \<and>
    length (concat chunks) = unat n \<and>
    fv_bytes v p (ou_flash s3) = concat chunks @ replicate (unat (pt_size p) - unat n) 0xff \<and>
    fv_valid v (fv_bytes v p (ou_flash s3))"
proof (cases rule: ota_update_begin_cases [of api il header n version s])
  case (opened p err ver' s' h)
  have "image_ok v p [] n s1"
    using open_target_effect [OF assms(1) opened(9)] opened(1,7,8) assms(2) by simp
  then have "image_ok v p (concat chunks) n s2" using writes_append [OF assms(1) _ assms(3)] by fastforce
  then show ?thesis using finish_boots_image [OF assms(1) _ assms(4)] opened(5) by blast
qed (use assms(2) in auto)

definition sample_begun :: "sample_flash ota" where
  "sample_begun = (case ota_update_begin sample_api sample_layout (Some [0xE9, 0, 0, 1]) 6
     (Some (replicate 32 0)) sample_ota of Some (_, _, s) \<Rightarrow> s | None \<Rightarrow> sample_ota)"

definition sample_written :: "sample_flash ota" where
  "sample_written = snd (return_on_errors
     (map (\<lambda>d. ota_update_write sample_api (Some d)) [[0xE9, 0, 0, 1], [7, 8]]) sample_begun)"

theorem ota_installs_exact_image_witness:
  "fv_bytes sample_view (sample_slot 1) (ou_flash (snd (ota_update_finish sample_api sample_written))) =
     [0xE9, 0, 0, 1, 7, 8, 0xff, 0xff]"
proof -
  let ?b = "ota_update_begin sample_api sample_layout (Some [0xE9, 0, 0, 1]) 6 (Some (replicate 32 0)) sample_ota"
  have "map_option fst ?b = Some ESP_OK" by code_simp
  then obtain ver where "?b = Some (ESP_OK, ver, sample_begun)" by (auto simp: sample_begun_def)
  moreover have "fst (return_on_errors
     (map (\<lambda>d. ota_update_write sample_api (Some d)) [[0xE9, 0, 0, 1], [7, 8]]) sample_begun) = ESP_OK"
    by code_simp
  moreover have "fst (ota_update_finish sample_api sample_written) = ESP_OK" by code_simp
  ultimately obtain p where
    "api_next_update_partition sample_api None (ou_flash sample_ota) = Some p"
    "fv_bytes sample_view p (ou_flash (snd (ota_update_finish sample_api sample_written))) =
       concat [[0xE9, 0, 0, 1], [7, 8]] @ replicate (unat (pt_size p) - unat (6 :: u32)) 0xff"
    using ota_installs_exact_image [OF sample_contract, of sample_layout "Some [0xE9, 0, 0, 1]" 6
        "Some (replicate 32 0)" sample_ota ver sample_begun "[[0xE9, 0, 0, 1], [7, 8]]" sample_written
        "snd (ota_update_finish sample_api sample_written)"]
    unfolding sample_written_def prod_eq_iff fst_conv snd_conv by blast
  moreover have "api_next_update_partition sample_api None (ou_flash sample_ota) = Some (sample_slot 1)"
    by (simp add: sample_api_def)
  moreover have "replicate (unat (pt_size (sample_slot 1)) - unat (6 :: u32)) (0xff :: u8) = [0xff, 0xff]"
    by code_simp
  ultimately show ?thesis by simp
qed

text \<open>C19. The running firmware is never damaged: whatever sequence of update calls is made, with
  whatever data and whatever fails in them, the bytes of the running slot stay as they were.\<close>

theorem running_slot_untouched:
  assumes "flash_contract api v" and "\<not> ou_busy s"
    and "api_running_partition api (ou_flash s) = Some q"
  shows "fv_bytes v q (ou_flash (fold (ota_run api il) calls s)) = fv_bytes v q (ou_flash s)"
  using ota_runs_spare [OF assms(1), of s il calls] assms(2,3) by (simp add: session_ok_def spares_def)

theorem running_slot_untouched_witness:
  "fv_bytes sample_view (sample_slot 0) (ou_flash (fold (ota_run sample_api sample_layout)
     [Begin (Some [0xE9, 0, 0, 1]) 6, Write (Some [1, 2, 3]), Finish] sample_ota)) =
   fv_bytes sample_view (sample_slot 0) (ou_flash sample_ota)"
  by (rule running_slot_untouched [OF sample_contract]) (simp_all add: sample_ota_def sample_api_def)

lemma erase_sectors_succeeds:
  assumes "pt_erase_size p \<noteq> 0" and "pt_size p mod pt_erase_size p = 0"
    and "offset mod pt_erase_size p = 0"
    and "\<And>off f. off < pt_size p \<Longrightarrow> off mod pt_erase_size p = 0 \<Longrightarrow>
      fst (api_erase_range api p off (pt_erase_size p) f) = ESP_OK"
  shows "\<exists>s'. erase_sectors api p offset s = Some (ESP_OK, s')"
  using assms(3)
proof (induction "unat (pt_size p) - unat offset" arbitrary: offset s rule: less_induct)
  case less
  show ?case
  proof (cases "offset < pt_size p")
    case False
    then show ?thesis by (subst erase_sectors.simps) simp
  next
    case True
    note step = sector_step [OF assms(1,2) less.prems True]
    have dec: "unat (pt_size p) - unat (offset + pt_erase_size p) < unat (pt_size p) - unat offset"
      using True step(2) assms(1) by (simp only: word_less_nat_alt unat_gt_0 [symmetric])
    obtain f where f: "api_erase_range api p offset (pt_erase_size p) (ou_flash s) = (ESP_OK, f)"
      using assms(4) [OF True less.prems, of "ou_flash s"] by (metis prod.collapse)
    show ?thesis
      using True f less.hyps [OF dec step(3)] by (subst erase_sectors.simps) simp
  qed
qed

text \<open>C35. The platform's refusal comes too late: \<open>esp_ota_begin\<close> refuses an update while the running
  image is not confirmed, which protects the previous firmware, but the slot is erased before
  it is asked. With a valid header, an aligned slot and erases that work, the refused call
  returns the refusal and the slot that holds the previous firmware is blank.\<close>

theorem refused_update_erases_slot:
  assumes contract: "flash_contract api v" and "\<not> ou_busy s"
    and "ota_header_length il \<le> length header" and "check_header il header = ESP_OK" and "version \<noteq> []"
    and "api_next_update_partition api None (ou_flash s) = Some p"
    and "ota_header_length il < unat n" and "n \<le> pt_size p"
    and "pt_erase_size p \<noteq> 0" and "pt_size p mod pt_erase_size p = 0"
    and "\<And>off f. off < pt_size p \<Longrightarrow> off mod pt_erase_size p = 0 \<Longrightarrow>
      fst (api_erase_range api p off (pt_erase_size p) f) = ESP_OK"
    and "\<And>f. api_begin api p (pt_erase_size p) f = (ESP_ERR_OTA_ROLLBACK_INVALID_STATE, h, f)"
  shows "\<exists>ver s'. ota_update_begin api il (Some header) n (Some version) s =
      Some (ESP_ERR_OTA_ROLLBACK_INVALID_STATE, ver, s') \<and>
    fv_bytes v p (ou_flash s') = replicate (unat (pt_size p)) 0xff"
proof -
  let ?s = "s\<lparr>ou_target := Some p\<rparr>"
  have "\<exists>s1. erase_sectors api p 0 ?s = Some (ESP_OK, s1)"
    by (rule erase_sectors_succeeds [OF assms(9,10)]) (simp, rule assms(11))
  then obtain s1 where e: "erase_sectors api p 0 ?s = Some (ESP_OK, s1)" by blast
  have blank: "fv_bytes v p (ou_flash s1) = replicate (unat (pt_size p)) 0xff"
    using erase_sectors_effect [OF contract assms(9,10) _ _ e] by (simp add: erased_up_to_def)
  have "open_target api p n ?s = Some (ESP_ERR_OTA_ROLLBACK_INVALID_STATE, s1\<lparr>ou_handle := h, ou_target := None\<rparr>)"
    using e assms(9,10,12) by (simp add: open_target_def erase_inactive_partition_def Let_def)
  moreover have "\<not> unat n \<le> ota_header_length il" "\<not> pt_size p < n" using assms(7,8) by simp_all
  ultimately have "\<exists>ver. ota_update_begin api il (Some header) n (Some version) s =
      Some (ESP_ERR_OTA_ROLLBACK_INVALID_STATE, ver, s1\<lparr>ou_handle := h, ou_target := None\<rparr>)"
    using assms(2-6) by (simp add: ota_update_begin_def Let_def not_less)
  then show ?thesis using blank by fastforce
qed

text \<open>The same flash while the running image awaits its confirmation.\<close>

definition pending_api :: "sample_flash ota_api" where
  "pending_api = sample_api\<lparr>api_begin := (\<lambda>p n f. (ESP_ERR_OTA_ROLLBACK_INVALID_STATE, 0, f))\<rparr>"

lemma pending_contract: "flash_contract pending_api sample_view"
  using sample_contract
  by (simp add: flash_contract_def erase_law_def begin_law_def write_law_def end_law_def boot_law_def
      touches_def pending_api_def)

theorem refused_update_erases_slot_witness:
  "\<exists>ver s'. ota_update_begin pending_api sample_layout (Some [0xE9, 0, 0, 1]) 6 (Some (replicate 32 0)) sample_ota =
      Some (ESP_ERR_OTA_ROLLBACK_INVALID_STATE, ver, s') \<and>
    fv_bytes sample_view (sample_slot 1) (ou_flash s') = replicate 8 0xff"
proof -
  have sectors: "fst (api_erase_range pending_api (sample_slot 1) off 4 f) = ESP_OK"
    if "off < 8" "off mod 4 = 0" for off f
  proof -
    have "unat off < 8" "unat off mod 4 = 0"
      using that unat_mod [of off 4] by (simp_all add: word_less_nat_alt)
    then have "unat off + 4 \<le> 8" by presburger
    then show ?thesis by (simp add: pending_api_def sample_api_def sample_slot_def)
  qed
  have "check_header sample_layout [0xE9, 0, 0, 1] = ESP_OK" by code_simp
  then show ?thesis
    using refused_update_erases_slot [OF pending_contract, of sample_ota sample_layout "[0xE9, 0, 0, 1]"
        "replicate 32 0" "sample_slot 1" 6 0] sectors
    by (simp add: sample_ota_def pending_api_def sample_api_def sample_layout_def ota_header_length_def
        sample_slot_def)
qed

end
