(* ===== verification/OtaWorker.thy ===== *)
theory OtaWorker
  imports OtaUpdate FanActor "HOL-Library.Multiset"
begin

text \<open>
  \<open>main/ota_worker.c\<close>: the task that owns the update. Callers hand it commands through a queue,
  one at a time under a mutex, and image bytes through two shared buffers. The fan is reached
  through the two calls of \<open>fan_api\<close>; what the worker needs of them is the locale
  \<open>fan_service\<close>, which the fan actor's model provides. An operation that blocks forever or reads
  outside an array is \<open>None\<close>. Runs are \<open>orderly\<close> when nobody ends the maintenance of the fan while the worker is
  busy; the code allows the others too.
\<close>

section \<open>State\<close>

abbreviation (input) OTA_BUFFER_SIZE :: u32 where "OTA_BUFFER_SIZE \<equiv> 4096"
abbreviation (input) OTA_BUFFER_COUNT :: nat where "OTA_BUFFER_COUNT \<equiv> 2"
abbreviation (input) OTA_COMMAND_QUEUE_LENGTH :: nat where "OTA_COMMAND_QUEUE_LENGTH \<equiv> 4"

datatype previous_validation = OTA_PREVIOUS_PENDING | OTA_PREVIOUS_VALID | OTA_PREVIOUS_INVALID
  | OTA_PREVIOUS_ERROR

datatype command_type = COMMAND_BEGIN_AND_WRITE | COMMAND_WRITE | COMMAND_FINISH | COMMAND_ABORT
  | COMMAND_SELECT_PREVIOUS | COMMAND_CONFIRM_RUNNING | COMMAND_ROLLBACK_RUNNING

record worker_command =
  wc_type :: command_type
  wc_buffer_index :: u8
  wc_length :: u32
  wc_image_size :: u32

text \<open>The calls into \<open>fan_control.c\<close>.\<close>

record 'fan fan_api =
  fan_quiesce :: "'fan \<Rightarrow> (esp_err \<times> 'fan) option"
  fan_end_maintenance :: "'fan \<Rightarrow> 'fan"

text \<open>
  The statics of the file, with the update and the fan they reach. \<open>ow_task\<close> is
  \<open>s_task != NULL\<close>, \<open>ow_free\<close> the queue of free buffers once created, \<open>ow_done\<close> the event bit.
  \<open>ow_flash_log\<close> is a ghost: for each call into \<open>ota_update.c\<close> the flash before, the fan at that moment
  and the flash after.
\<close>

record ('f, 'fan) worker =
  ow_task :: bool
  ow_commands :: "worker_command list"
  ow_free :: "u8 list option"
  ow_done :: bool
  ow_buffers :: "u8 list list"
  ow_info :: ota_info
  ow_validation :: previous_validation
  ow_busy :: bool
  ow_result :: esp_err
  ow_new_version :: "u8 list"
  ow_ota :: "'f ota"
  ow_fan :: 'fan
  ow_health :: health
  ow_flash_log :: "('f \<times> 'fan \<times> 'f) list"

text \<open>A buffer pointer is the number of the buffer it points to, if it points to one.\<close>

type_synonym buffer_ptr = "nat option"

section \<open>Helpers\<close>

definition buffer_index :: "buffer_ptr \<Rightarrow> int" where
  "buffer_index buffer =
     (case find (\<lambda>i. buffer = Some i) [0..<OTA_BUFFER_COUNT] of Some i \<Rightarrow> int i | None \<Rightarrow> -1)"

definition set_health :: "service_state \<Rightarrow> esp_err \<Rightarrow> ('f, 'fan) worker \<Rightarrow> ('f, 'fan) worker" where
  "set_health state err w = w\<lparr>ow_health := service_health_set SERVICE_OTA_WORKER state err (ow_health w)\<rparr>"

definition refresh_validation_cache :: "'f ota_api \<Rightarrow> ('f, 'fan) worker \<Rightarrow> ('f, 'fan) worker" where
  "refresh_validation_cache api w =
     (case ota_update_get_info api (Some empty_info) (ow_ota w) of
        (err, Some info) \<Rightarrow>
          if err = ESP_OK
          then w\<lparr>ow_info := info,
                 ow_validation := if oi_previous_available info then OTA_PREVIOUS_VALID
                                  else OTA_PREVIOUS_INVALID\<rparr>
          else w\<lparr>ow_info := empty_info, ow_validation := OTA_PREVIOUS_ERROR\<rparr>
      | (_, None) \<Rightarrow> w\<lparr>ow_info := empty_info, ow_validation := OTA_PREVIOUS_ERROR\<rparr>)"

definition release_command_buffer ::
    "worker_command \<Rightarrow> ('f, 'fan) worker \<Rightarrow> ('f, 'fan) worker option" where
  "release_command_buffer command w =
     (if wc_type command = COMMAND_BEGIN_AND_WRITE \<or> wc_type command = COMMAND_WRITE then
        (case ow_free w of
           None \<Rightarrow> None
         | Some free \<Rightarrow>
             if OTA_BUFFER_COUNT \<le> length free then None
             else Some (w\<lparr>ow_free := Some (free @ [wc_buffer_index command])\<rparr>))
      else Some w)"

text \<open>A call into \<open>ota_update.c\<close> that leaves \<open>ota\<close>.\<close>

definition update_called :: "'f ota \<Rightarrow> ('f, 'fan) worker \<Rightarrow> ('f, 'fan) worker" where
  "update_called ota w =
     w\<lparr>ow_ota := ota, ow_flash_log := ow_flash_log w @ [(ou_flash (ow_ota w), ow_fan w, ou_flash ota)]\<rparr>"

definition fail_maintenance ::
    "'f ota_api \<Rightarrow> 'fan fan_api \<Rightarrow> esp_err \<Rightarrow> ('f, 'fan) worker \<Rightarrow> ('f, 'fan) worker" where
  "fail_maintenance api fan err w =
     (let w = update_called (ota_update_abort api (ow_ota w)) w;
          w = w\<lparr>ow_fan := fan_end_maintenance fan (ow_fan w)\<rparr>;
          w = w\<lparr>ow_busy := False\<rparr>
      in set_health SERVICE_STATE_DEGRADED err w)"

section \<open>Commands\<close>

definition command_bytes :: "worker_command \<Rightarrow> ('f, 'fan) worker \<Rightarrow> u8 list option" where
  "command_bytes command w =
     (let i = unat (wc_buffer_index command); n = unat (wc_length command)
      in if i < length (ow_buffers w) \<and> n \<le> length (ow_buffers w ! i)
         then Some (take n (ow_buffers w ! i)) else None)"

definition write_command ::
    "'f ota_api \<Rightarrow> u8 list \<Rightarrow> ('f, 'fan) worker \<Rightarrow> esp_err \<times> ('f, 'fan) worker" where
  "write_command api bytes w =
     (case ota_update_write api (Some bytes) (ow_ota w) of (err, ota) \<Rightarrow> (err, update_called ota w))"

text \<open>\<open>ESP_OK\<close>, or the failure that ends the maintenance.\<close>

definition or_fail ::
    "'f ota_api \<Rightarrow> 'fan fan_api \<Rightarrow> esp_err \<times> ('f, 'fan) worker \<Rightarrow> esp_err \<times> ('f, 'fan) worker" where
  "or_fail api fan r = (case r of (err, w) \<Rightarrow> (err, if err \<noteq> ESP_OK then fail_maintenance api fan err w else w))"

definition begin_command ::
    "'f ota_api \<Rightarrow> image_layout \<Rightarrow> worker_command \<Rightarrow> ('f, 'fan) worker
     \<Rightarrow> (esp_err \<times> ('f, 'fan) worker) option" where
  "begin_command api il command w =
     (case command_bytes command w of
        None \<Rightarrow> None
      | Some bytes \<Rightarrow>
          (case ota_update_begin api il (Some bytes) (wc_image_size command)
                  (Some (ow_new_version w)) (ow_ota w) of
             None \<Rightarrow> None
           | Some (err, version, ota) \<Rightarrow>
               let w = (update_called ota w)
                         \<lparr>ow_new_version := case version of Some v \<Rightarrow> v | None \<Rightarrow> ow_new_version w\<rparr>
               in Some (if err = ESP_OK then write_command api bytes w else (err, w))))"

definition quiesced_then ::
    "'fan fan_api \<Rightarrow> (esp_err \<Rightarrow> esp_err) \<Rightarrow> (('f, 'fan) worker \<Rightarrow> (esp_err \<times> ('f, 'fan) worker) option)
     \<Rightarrow> ('f, 'fan) worker \<Rightarrow> (esp_err \<times> ('f, 'fan) worker) option" where
  "quiesced_then fan refusal body w =
     (case fan_quiesce fan (ow_fan w) of
        None \<Rightarrow> None
      | Some (err, f) \<Rightarrow>
          let w = w\<lparr>ow_fan := f\<rparr>
          in if err \<noteq> ESP_OK then Some (refusal err, w) else body w)"

definition execute_command ::
    "'f ota_api \<Rightarrow> image_layout \<Rightarrow> 'fan fan_api \<Rightarrow> worker_command \<Rightarrow> ('f, 'fan) worker
     \<Rightarrow> (esp_err \<times> ('f, 'fan) worker) option" where
  "execute_command api il fan command w =
     (case wc_type command of
        COMMAND_BEGIN_AND_WRITE \<Rightarrow>
          quiesced_then fan (\<lambda>err. err)
            (\<lambda>w. map_option (or_fail api fan) (begin_command api il command (w\<lparr>ow_busy := True\<rparr>))) w
      | COMMAND_WRITE \<Rightarrow>
          (case command_bytes command w of
             None \<Rightarrow> None
           | Some bytes \<Rightarrow> Some (or_fail api fan (write_command api bytes w)))
      | COMMAND_FINISH \<Rightarrow>
          Some (or_fail api fan (case ota_update_finish api (ow_ota w) of
                                   (err, ota) \<Rightarrow> (err, update_called ota w)))
      | COMMAND_ABORT \<Rightarrow> Some (ESP_OK, fail_maintenance api fan ESP_FAIL w)
      | COMMAND_SELECT_PREVIOUS \<Rightarrow>
          quiesced_then fan (\<lambda>err. err)
            (\<lambda>w. let w = w\<lparr>ow_busy := True\<rparr>
                 in Some (or_fail api fan (case ota_update_select_previous api (ow_ota w) of
                                             (err, ota) \<Rightarrow> (err, update_called ota w)))) w
      | COMMAND_CONFIRM_RUNNING \<Rightarrow>
          quiesced_then fan (\<lambda>err. err)
            (\<lambda>w. case ota_update_confirm_running api (ow_ota w) of
                   (err, ota) \<Rightarrow>
                     let w = update_called ota w
                     in Some (err, w\<lparr>ow_fan := fan_end_maintenance fan (ow_fan w)\<rparr>)) w
      | COMMAND_ROLLBACK_RUNNING \<Rightarrow>
          quiesced_then fan (\<lambda>err. ESP_ERR_TIMEOUT)
            (\<lambda>w. case ota_update_rollback_running api (ow_ota w) of
                   (err, ota) \<Rightarrow> Some (err, update_called ota w)) w)"

section \<open>The task\<close>

definition report_stack :: "u32 \<Rightarrow> ('f, 'fan) worker \<Rightarrow> ('f, 'fan) worker" where
  "report_stack high_water w =
     (let free_stack = high_water * SIZEOF_STACKTYPE;
          w = w\<lparr>ow_health := service_health_set_stack SERVICE_OTA_WORKER free_stack (ow_health w)\<rparr>
      in if free_stack < 2048 then set_health SERVICE_STATE_DEGRADED ESP_ERR_NO_MEM w
         else if ow_result w = ESP_OK then set_health SERVICE_STATE_READY ESP_OK w else w)"

definition ota_worker_task_start :: "'f ota_api \<Rightarrow> ('f, 'fan) worker \<Rightarrow> ('f, 'fan) worker" where
  "ota_worker_task_start api w = set_health SERVICE_STATE_READY ESP_OK (refresh_validation_cache api w)"

text \<open>One turn of the loop; on an empty queue the task stays blocked.\<close>

definition worker_turn ::
    "'f ota_api \<Rightarrow> image_layout \<Rightarrow> 'fan fan_api \<Rightarrow> u32 \<Rightarrow> ('f, 'fan) worker \<Rightarrow> ('f, 'fan) worker option" where
  "worker_turn api il fan high_water w =
     (case ow_commands w of
        [] \<Rightarrow> Some w
      | command # rest \<Rightarrow>
          (case execute_command api il fan command (w\<lparr>ow_commands := rest\<rparr>) of
             None \<Rightarrow> None
           | Some (err, w) \<Rightarrow>
               (case release_command_buffer command (w\<lparr>ow_result := err\<rparr>) of
                  None \<Rightarrow> None
                | Some w \<Rightarrow> Some ((report_stack high_water w)\<lparr>ow_done := True\<rparr>))))"

section \<open>The interface\<close>

text \<open>Which objects FreeRTOS could create.\<close>

record worker_env =
  we_command_queue :: bool
  we_free_queue :: bool
  we_events :: bool
  we_mutex :: bool
  we_task :: bool

definition ota_worker_init :: "worker_env \<Rightarrow> ('f, 'fan) worker \<Rightarrow> esp_err \<times> ('f, 'fan) worker" where
  "ota_worker_init env w =
     (if ow_task w then (ESP_ERR_INVALID_STATE, w)
      else
        let w = w\<lparr>ow_commands := [], ow_free := if we_free_queue env then Some [] else None,
                  ow_done := False\<rparr>
        in if \<not> we_command_queue env \<or> \<not> we_free_queue env \<or> \<not> we_events env \<or> \<not> we_mutex env
        then (ESP_ERR_NO_MEM, set_health SERVICE_STATE_FAILED ESP_ERR_NO_MEM w)
        else
          let w = w\<lparr>ow_free := Some (map of_nat [0..<OTA_BUFFER_COUNT]), ow_task := we_task env\<rparr>
          in if \<not> ow_task w then (ESP_ERR_NO_MEM, set_health SERVICE_STATE_FAILED ESP_ERR_NO_MEM w)
          else (ESP_OK, w))"

text \<open>
  The mutex and the unlimited wait make a call one step: the command goes into the queue, the
  task works it off and sets the bit, the caller takes the result.
\<close>

definition submit ::
    "'f ota_api \<Rightarrow> image_layout \<Rightarrow> 'fan fan_api \<Rightarrow> u32 \<Rightarrow> worker_command \<Rightarrow> ('f, 'fan) worker
     \<Rightarrow> (esp_err \<times> ('f, 'fan) worker) option" where
  "submit api il fan high_water command w =
     (if \<not> ow_task w then Some (ESP_ERR_INVALID_STATE, w)
      else
        let w = w\<lparr>ow_done := False\<rparr>
        in if OTA_COMMAND_QUEUE_LENGTH \<le> length (ow_commands w) then Some (ESP_ERR_TIMEOUT, w)
        else case worker_turn api il fan high_water (w\<lparr>ow_commands := ow_commands w @ [command]\<rparr>) of
          None \<Rightarrow> None
        | Some w \<Rightarrow> Some (if ow_done w then ow_result w else ESP_ERR_TIMEOUT, w\<lparr>ow_done := False\<rparr>))"

definition ota_worker_is_busy :: "('f, 'fan) worker \<Rightarrow> bool" where
  "ota_worker_is_busy w = ow_busy w"

text \<open>The timeout is the wait of the caller; on an empty queue it ends without a buffer.\<close>

definition ota_worker_acquire_buffer :: "('f, 'fan) worker \<Rightarrow> buffer_ptr \<times> u32 option \<times> ('f, 'fan) worker" where
  "ota_worker_acquire_buffer w =
     (case ow_free w of
        Some (index # rest) \<Rightarrow> (Some (unat index), Some OTA_BUFFER_SIZE, w\<lparr>ow_free := Some rest\<rparr>)
      | _ \<Rightarrow> (None, None, w))"

definition ota_worker_release_buffer :: "buffer_ptr \<Rightarrow> ('f, 'fan) worker \<Rightarrow> ('f, 'fan) worker" where
  "ota_worker_release_buffer buffer w =
     (let index = buffer_index buffer
      in case ow_free w of
           Some free \<Rightarrow>
             if 0 \<le> index \<and> length free < OTA_BUFFER_COUNT
             then w\<lparr>ow_free := Some (free @ [of_int index])\<rparr> else w
         | None \<Rightarrow> w)"

definition ota_worker_begin_and_write ::
    "'f ota_api \<Rightarrow> image_layout \<Rightarrow> 'fan fan_api \<Rightarrow> u32 \<Rightarrow> buffer_ptr \<Rightarrow> u32 \<Rightarrow> u32 \<Rightarrow> ('f, 'fan) worker
     \<Rightarrow> (esp_err \<times> ('f, 'fan) worker) option" where
  "ota_worker_begin_and_write api il fan high_water buffer header_length image_size w =
     (let index = buffer_index buffer
      in if index < 0 \<or> header_length = 0 \<or> OTA_BUFFER_SIZE < header_length
         then Some (ESP_ERR_INVALID_ARG, w)
         else submit api il fan high_water
                \<lparr>wc_type = COMMAND_BEGIN_AND_WRITE, wc_buffer_index = of_int index,
                 wc_length = header_length, wc_image_size = image_size\<rparr> w)"

definition ota_worker_write ::
    "'f ota_api \<Rightarrow> image_layout \<Rightarrow> 'fan fan_api \<Rightarrow> u32 \<Rightarrow> buffer_ptr \<Rightarrow> u32 \<Rightarrow> ('f, 'fan) worker
     \<Rightarrow> (esp_err \<times> ('f, 'fan) worker) option" where
  "ota_worker_write api il fan high_water buffer n w =
     (let index = buffer_index buffer
      in if index < 0 \<or> n = 0 \<or> OTA_BUFFER_SIZE < n then Some (ESP_ERR_INVALID_ARG, w)
         else submit api il fan high_water
                \<lparr>wc_type = COMMAND_WRITE, wc_buffer_index = of_int index, wc_length = n,
                 wc_image_size = 0\<rparr> w)"

text \<open>A command without arguments.\<close>

definition plain_command :: "command_type \<Rightarrow> worker_command" where
  "plain_command t = \<lparr>wc_type = t, wc_buffer_index = 0, wc_length = 0, wc_image_size = 0\<rparr>"

definition ota_worker_finish ::
    "'f ota_api \<Rightarrow> image_layout \<Rightarrow> 'fan fan_api \<Rightarrow> u32 \<Rightarrow> ('f, 'fan) worker
     \<Rightarrow> (esp_err \<times> ('f, 'fan) worker) option" where
  "ota_worker_finish api il fan high_water w = submit api il fan high_water (plain_command COMMAND_FINISH) w"

definition ota_worker_abort ::
    "'f ota_api \<Rightarrow> image_layout \<Rightarrow> 'fan fan_api \<Rightarrow> u32 \<Rightarrow> ('f, 'fan) worker \<Rightarrow> ('f, 'fan) worker option" where
  "ota_worker_abort api il fan high_water w =
     map_option snd (submit api il fan high_water (plain_command COMMAND_ABORT) w)"

definition ota_worker_get_info ::
    "bool \<Rightarrow> bool \<Rightarrow> ('f, 'fan) worker \<Rightarrow> esp_err \<times> (ota_info \<times> previous_validation) option" where
  "ota_worker_get_info info validation w =
     (if \<not> info \<or> \<not> validation then (ESP_ERR_INVALID_ARG, None)
      else (ESP_OK, Some (ow_info w, ow_validation w)))"

fun ota_worker_validation_name :: "previous_validation \<Rightarrow> string" where
  "ota_worker_validation_name OTA_PREVIOUS_PENDING = ''pending''"
| "ota_worker_validation_name OTA_PREVIOUS_VALID = ''valid''"
| "ota_worker_validation_name OTA_PREVIOUS_INVALID = ''invalid''"
| "ota_worker_validation_name OTA_PREVIOUS_ERROR = ''error''"

definition ota_worker_select_previous ::
    "'f ota_api \<Rightarrow> image_layout \<Rightarrow> 'fan fan_api \<Rightarrow> u32 \<Rightarrow> ('f, 'fan) worker
     \<Rightarrow> (esp_err \<times> ('f, 'fan) worker) option" where
  "ota_worker_select_previous api il fan high_water w =
     (if ow_validation w = OTA_PREVIOUS_PENDING then Some (ESP_ERR_NOT_FINISHED, w)
      else if ow_validation w \<noteq> OTA_PREVIOUS_VALID then Some (ESP_ERR_NOT_FOUND, w)
      else submit api il fan high_water (plain_command COMMAND_SELECT_PREVIOUS) w)"

definition ota_worker_confirm_running ::
    "'f ota_api \<Rightarrow> image_layout \<Rightarrow> 'fan fan_api \<Rightarrow> u32 \<Rightarrow> ('f, 'fan) worker
     \<Rightarrow> (esp_err \<times> ('f, 'fan) worker) option" where
  "ota_worker_confirm_running api il fan high_water w =
     submit api il fan high_water (plain_command COMMAND_CONFIRM_RUNNING) w"

definition ota_worker_rollback_running ::
    "'f ota_api \<Rightarrow> image_layout \<Rightarrow> 'fan fan_api \<Rightarrow> u32 \<Rightarrow> ('f, 'fan) worker
     \<Rightarrow> (esp_err \<times> ('f, 'fan) worker) option" where
  "ota_worker_rollback_running api il fan high_water w =
     submit api il fan high_water (plain_command COMMAND_ROLLBACK_RUNNING) w"

definition ota_worker_new_version :: "('f, 'fan) worker \<Rightarrow> u8 list" where
  "ota_worker_new_version w = ow_new_version w"


section \<open>The worker among its callers\<close>

text \<open>
  \<open>held\<close> are the buffers that callers have acquired and not handed on. A caller fills only a
  buffer it holds and passes it on once. In an \<open>orderly\<close> run the running image is not confirmed while an
  update or a rollback is under way; the code does not see to that itself, so the other runs
  are there as well.
\<close>

inductive worker_step ::
    "bool \<Rightarrow> 'f ota_api \<Rightarrow> image_layout \<Rightarrow> 'fan fan_api \<Rightarrow> ('fan \<Rightarrow> 'fan \<Rightarrow> bool)
     \<Rightarrow> nat list \<times> ('f, 'fan) worker \<Rightarrow> nat list \<times> ('f, 'fan) worker \<Rightarrow> bool"
  for orderly api il fan env where
  fan_moves: "env (ow_fan w) f \<Longrightarrow> worker_step orderly api il fan env (held, w) (held, w\<lparr>ow_fan := f\<rparr>)"
| acquire: "ota_worker_acquire_buffer w = (Some i, capacity, w') \<Longrightarrow>
    worker_step orderly api il fan env (held, w) (i # held, w')"
| fill: "i \<in> set held \<Longrightarrow> length bytes = unat OTA_BUFFER_SIZE \<Longrightarrow>
    worker_step orderly api il fan env (held, w) (held, w\<lparr>ow_buffers := (ow_buffers w)[i := bytes]\<rparr>)"
| release: "i \<in> set held \<Longrightarrow>
    worker_step orderly api il fan env (held, w) (remove1 i held, ota_worker_release_buffer (Some i) w)"
| begin_and_write: "i \<in> set held \<Longrightarrow> n \<noteq> 0 \<Longrightarrow> n \<le> OTA_BUFFER_SIZE \<Longrightarrow>
    ota_worker_begin_and_write api il fan high_water (Some i) n image_size w = Some (err, w') \<Longrightarrow>
    worker_step orderly api il fan env (held, w) (remove1 i held, w')"
| write_chunk: "i \<in> set held \<Longrightarrow> n \<noteq> 0 \<Longrightarrow> n \<le> OTA_BUFFER_SIZE \<Longrightarrow>
    ota_worker_write api il fan high_water (Some i) n w = Some (err, w') \<Longrightarrow>
    worker_step orderly api il fan env (held, w) (remove1 i held, w')"
| finish_update: "ota_worker_finish api il fan high_water w = Some (err, w') \<Longrightarrow>
    worker_step orderly api il fan env (held, w) (held, w')"
| abort_update: "ota_worker_abort api il fan high_water w = Some w' \<Longrightarrow>
    worker_step orderly api il fan env (held, w) (held, w')"
| select_previous: "ota_worker_select_previous api il fan high_water w = Some (err, w') \<Longrightarrow>
    worker_step orderly api il fan env (held, w) (held, w')"
| confirm_running: "(orderly \<longrightarrow> \<not> ow_busy w) \<Longrightarrow> ota_worker_confirm_running api il fan high_water w = Some (err, w') \<Longrightarrow>
    worker_step orderly api il fan env (held, w) (held, w')"
| rollback_running: "ota_worker_rollback_running api il fan high_water w = Some (err, w') \<Longrightarrow>
    worker_step orderly api il fan env (held, w) (held, w')"

text \<open>Where the worker starts: after \<open>ota_worker_init\<close> and the start of its task.\<close>

definition buffers_ok :: "u8 list list \<Rightarrow> bool" where
  "buffers_ok bs \<longleftrightarrow> length bs = OTA_BUFFER_COUNT \<and> list_all (\<lambda>b. length b = unat OTA_BUFFER_SIZE) bs"

definition worker_boot :: "('f, 'fan) worker \<Rightarrow> bool" where
  "worker_boot w \<longleftrightarrow> \<not> ow_task w \<and> buffers_ok (ow_buffers w) \<and>
     \<not> ow_busy w \<and> \<not> ou_busy (ow_ota w)"

inductive worker_reachable ::
    "bool \<Rightarrow> 'f ota_api \<Rightarrow> image_layout \<Rightarrow> 'fan fan_api \<Rightarrow> ('fan \<Rightarrow> 'fan \<Rightarrow> bool) \<Rightarrow> 'fan
     \<Rightarrow> nat list \<times> ('f, 'fan) worker \<Rightarrow> bool"
  for orderly api il fan env fan0 where
  started: "worker_boot w0 \<Longrightarrow> ow_fan w0 = fan0 \<Longrightarrow> ota_worker_init we w0 = (ESP_OK, w) \<Longrightarrow>
    worker_reachable orderly api il fan env fan0 ([], ota_worker_task_start api w)"
| step: "worker_reachable orderly api il fan env fan0 a \<Longrightarrow> worker_step orderly api il fan env a b \<Longrightarrow>
    worker_reachable orderly api il fan env fan0 b"

inductive_cases worker_stepE: "worker_step orderly api il fan env (held, w) (held', w')"

section \<open>What the commands leave alone\<close>

text \<open>The parts of the worker that belong to the queues and the buffers.\<close>

definition same_queues :: "('f, 'fan) worker \<Rightarrow> ('f, 'fan) worker \<Rightarrow> bool" where
  "same_queues w w' \<longleftrightarrow> ow_task w' = ow_task w \<and> ow_commands w' = ow_commands w \<and>
     ow_free w' = ow_free w \<and> ow_buffers w' = ow_buffers w"

lemma same_queues_refl [simp]: "same_queues w w"
  by (simp add: same_queues_def)

lemma same_queues_trans: "same_queues a b \<Longrightarrow> same_queues b c \<Longrightarrow> same_queues a c"
  by (simp add: same_queues_def)

lemma set_health_frame [simp]:
  "ow_task (set_health st e w) = ow_task w" "ow_commands (set_health st e w) = ow_commands w"
  "ow_free (set_health st e w) = ow_free w" "ow_buffers (set_health st e w) = ow_buffers w"
  "ow_busy (set_health st e w) = ow_busy w" "ow_ota (set_health st e w) = ow_ota w"
  "ow_fan (set_health st e w) = ow_fan w" "ow_result (set_health st e w) = ow_result w"
  "ow_validation (set_health st e w) = ow_validation w" "ow_info (set_health st e w) = ow_info w"
  "ow_new_version (set_health st e w) = ow_new_version w"
  "ow_flash_log (set_health st e w) = ow_flash_log w"
  by (simp_all add: set_health_def)

lemma update_called_frame [simp]:
  "ow_task (update_called ota w) = ow_task w" "ow_commands (update_called ota w) = ow_commands w"
  "ow_free (update_called ota w) = ow_free w" "ow_buffers (update_called ota w) = ow_buffers w"
  "ow_busy (update_called ota w) = ow_busy w" "ow_ota (update_called ota w) = ota"
  "ow_fan (update_called ota w) = ow_fan w" "ow_new_version (update_called ota w) = ow_new_version w"
  "ow_flash_log (update_called ota w) = ow_flash_log w @ [(ou_flash (ow_ota w), ow_fan w, ou_flash ota)]"
  "same_queues w' (update_called ota w) = same_queues w' w"
  by (simp_all add: update_called_def same_queues_def)

lemma fail_maintenance_frame [simp]:
  "same_queues w (fail_maintenance api fan e w)" "\<not> ow_busy (fail_maintenance api fan e w)"
  "ow_ota (fail_maintenance api fan e w) = ota_update_abort api (ow_ota w)"
  "ow_fan (fail_maintenance api fan e w) = fan_end_maintenance fan (ow_fan w)"
  "ow_flash_log (fail_maintenance api fan e w) = ow_flash_log (update_called (ota_update_abort api (ow_ota w)) w)"
  by (simp_all add: fail_maintenance_def same_queues_def Let_def)

lemma write_command_frame:
  assumes "write_command api bytes w = (err, w')"
  shows "w' = update_called (snd (ota_update_write api (Some bytes) (ow_ota w))) w"
    "err = fst (ota_update_write api (Some bytes) (ow_ota w))"
  using assms by (auto simp: write_command_def split: prod.splits)

lemma begin_command_cases:
  assumes "begin_command api il command w = Some (err, w')"
  obtains bytes err1 version ota v where "command_bytes command w = Some bytes"
    "ota_update_begin api il (Some bytes) (wc_image_size command) (Some (ow_new_version w)) (ow_ota w) =
       Some (err1, version, ota)"
    "err1 = ESP_OK \<Longrightarrow> err = fst (ota_update_write api (Some bytes) ota) \<and>
       w' = update_called (snd (ota_update_write api (Some bytes) ota)) ((update_called ota w)\<lparr>ow_new_version := v\<rparr>)"
    "err1 \<noteq> ESP_OK \<Longrightarrow> err = err1 \<and> w' = (update_called ota w)\<lparr>ow_new_version := v\<rparr>"
proof -
  obtain bytes err1 version ota where b: "command_bytes command w = Some bytes"
    "ota_update_begin api il (Some bytes) (wc_image_size command) (Some (ow_new_version w)) (ow_ota w) =
       Some (err1, version, ota)"
    using assms by (auto simp: begin_command_def split: option.splits)
  let ?v = "case version of Some v \<Rightarrow> v | None \<Rightarrow> ow_new_version w"
  show ?thesis
    by (rule that [OF b, of ?v])
      (use assms b in \<open>auto simp: begin_command_def Let_def write_command_def split: prod.splits\<close>)
qed

lemma begin_command_total:
  assumes "command_bytes command w = Some bytes"
  shows "\<exists>err w'. begin_command api il command w = Some (err, w')"
proof -
  obtain err version ota where "ota_update_begin api il (Some bytes) (wc_image_size command)
      (Some (ow_new_version w)) (ow_ota w) = Some (err, version, ota)"
    using ota_begin_total by blast
  then show ?thesis
    using assms by (cases "err = ESP_OK") (simp_all add: begin_command_def Let_def write_command_def split_beta)
qed

lemma report_stack_frame [simp]:
  "same_queues w (report_stack n w)" "ow_busy (report_stack n w) = ow_busy w"
  "ow_ota (report_stack n w) = ow_ota w" "ow_fan (report_stack n w) = ow_fan w"
  "ow_result (report_stack n w) = ow_result w" "ow_flash_log (report_stack n w) = ow_flash_log w"
  by (simp_all add: report_stack_def Let_def same_queues_def)

text \<open>Both buffers are free or held by a caller, each once.\<close>

definition each_once :: "u8 list \<Rightarrow> nat list \<Rightarrow> bool" where
  "each_once free held \<longleftrightarrow> mset (map unat free @ held) = {#0, 1#}"

lemma each_once_member: "each_once free held \<Longrightarrow> i \<in> set held \<Longrightarrow> i < 2"
proof -
  assume "each_once free held" and "i \<in> set held"
  then have "i \<in> set_mset {#0, 1#}" unfolding each_once_def by (metis in_set_conv_decomp set_append set_mset_mset Un_iff)
  then show ?thesis by auto
qed

lemma each_once_room: "each_once free held \<Longrightarrow> i \<in> set held \<Longrightarrow> length free < 2"
proof -
  assume once: "each_once free held" and "i \<in> set held"
  then have "size (mset (map unat free @ held)) = 2" by (simp only: each_once_def) simp
  then have "length free + length held = 2" by simp
  moreover have "0 < length held" using \<open>i \<in> set held\<close> by (cases held) auto
  ultimately show ?thesis by linarith
qed

lemma each_once_release:
  assumes "each_once free held" and "i \<in> set held"
  shows "each_once (free @ [of_nat i]) (remove1 i held)"
proof -
  have "unat (of_nat i :: u8) = i" using each_once_member [OF assms] by (simp add: unat_of_nat)
  then show ?thesis using assms by (simp add: each_once_def)
qed

lemma each_once_acquire: "each_once (x # free) held \<Longrightarrow> each_once free (unat x # held)"
  by (simp add: each_once_def)

lemma each_once_init: "each_once (map of_nat [0..<OTA_BUFFER_COUNT]) []"
  by (simp add: each_once_def numeral_eq_Suc upt_rec)

lemma buffers_ok_nth: "buffers_ok bs \<Longrightarrow> i < 2 \<Longrightarrow> length (bs ! i) = 4096" "buffers_ok bs \<Longrightarrow> length bs = 2"
  by (simp_all add: buffers_ok_def list_all_length)

lemma buffers_ok_update:
  assumes "buffers_ok bs" and "length b = unat OTA_BUFFER_SIZE"
  shows "buffers_ok (bs[i := b])"
proof -
  have "set (bs[i := b]) \<subseteq> insert b (set bs)" by (rule set_update_subset_insert)
  then show ?thesis using assms by (auto simp: buffers_ok_def list_all_iff)
qed

lemma buffer_index_small: "i < 2 \<Longrightarrow> buffer_index (Some i) = int i"
proof -
  assume "i < 2"
  then have "i \<in> {0, 1}" by auto
  then show ?thesis by (auto simp: buffer_index_def numeral_eq_Suc upt_rec)
qed

text \<open>
  The worker at rest: its queue is empty, both buffers are free or held, each once, and
  its task runs.
\<close>

definition idle_queues :: "nat list \<Rightarrow> ('f, 'fan) worker \<Rightarrow> bool" where
  "idle_queues held w \<longleftrightarrow> ow_task w \<and> ow_commands w = [] \<and>
     buffers_ok (ow_buffers w) \<and>
     (\<exists>free. ow_free w = Some free \<and> each_once free held)"

section \<open>Calls that change the flash\<close>

text \<open>A list of calls leads from one content of the flash to another.\<close>

fun linked :: "'f \<Rightarrow> ('f \<times> 'fan \<times> 'f) list \<Rightarrow> 'f \<Rightarrow> bool" where
  "linked a [] b \<longleftrightarrow> a = b"
| "linked a ((x, f, y) # calls) b \<longleftrightarrow> x = a \<and> linked y calls b"

lemma linked_append [simp]: "linked a (xs @ [(x, f, y)]) b \<longleftrightarrow> linked a xs x \<and> y = b"
  by (induction a xs x rule: linked.induct) auto

text \<open>What a worker has done since another state of it: the flash was changed by the calls logged since, and
  each of them that changed it had a fan with \<open>ok\<close>.\<close>

definition flash_guarded :: "('fan \<Rightarrow> bool) \<Rightarrow> ('f, 'fan) worker \<Rightarrow> ('f, 'fan) worker \<Rightarrow> bool" where
  "flash_guarded ok w w' \<longleftrightarrow> (\<exists>calls. ow_flash_log w' = ow_flash_log w @ calls \<and>
     linked (ou_flash (ow_ota w)) calls (ou_flash (ow_ota w')) \<and>
     (\<forall>(before, f, after) \<in> set calls. before \<noteq> after \<longrightarrow> ok f))"

lemma guarded_same:
  "ow_flash_log w' = ow_flash_log w \<Longrightarrow> ou_flash (ow_ota w') = ou_flash (ow_ota w) \<Longrightarrow> flash_guarded ok w w'"
  by (auto simp: flash_guarded_def intro: exI [of _ "[]"])

lemma guarded_call:
  assumes "flash_guarded ok w v" and "ou_flash ota \<noteq> ou_flash (ow_ota v) \<Longrightarrow> ok (ow_fan v)"
  shows "flash_guarded ok w (update_called ota v)"
proof -
  obtain calls where "ow_flash_log v = ow_flash_log w @ calls"
    "linked (ou_flash (ow_ota w)) calls (ou_flash (ow_ota v))" "\<forall>(a, f, b) \<in> set calls. a \<noteq> b \<longrightarrow> ok f"
    using assms(1) by (auto simp: flash_guarded_def)
  then show ?thesis unfolding flash_guarded_def using assms(2)
    by (intro exI [of _ "calls @ [(ou_flash (ow_ota v), ow_fan v, ou_flash ota)]"]) auto
qed

lemma guarded_cong:
  assumes "flash_guarded ok w v" and "ow_flash_log w' = ow_flash_log w" and "ou_flash (ow_ota w') = ou_flash (ow_ota w)"
    and "ow_flash_log v' = ow_flash_log v" and "ou_flash (ow_ota v') = ou_flash (ow_ota v)"
  shows "flash_guarded ok w' v'"
  using assms by (simp add: flash_guarded_def)

section \<open>The contract with the fan\<close>

text \<open>
  What the worker relies on: \<open>good\<close> states of the fan persist, a successful \<open>fan_quiesce\<close> leaves
  the fan halted, and it stays halted when quiesced again and, in an orderly run, whatever the
  fan and the other tasks do (\<open>env\<close>), until the maintenance ends.
\<close>

locale fan_service =
  fixes orderly :: bool and fan :: "'fan fan_api" and env :: "'fan \<Rightarrow> 'fan \<Rightarrow> bool"
    and good :: "'fan \<Rightarrow> bool" and halted :: "'fan \<Rightarrow> bool"
  assumes quiesce_returns: "good f \<Longrightarrow> \<exists>err f'. fan_quiesce fan f = Some (err, f')"
    and quiesce_good: "good f \<Longrightarrow> fan_quiesce fan f = Some (err, f') \<Longrightarrow> good f'"
    and quiesce_halts: "good f \<Longrightarrow> fan_quiesce fan f = Some (ESP_OK, f') \<Longrightarrow> halted f'"
    and quiesce_again: "good f \<Longrightarrow> halted f \<Longrightarrow> fan_quiesce fan f = Some (err, f') \<Longrightarrow> halted f'"
    and end_good: "good f \<Longrightarrow> good (fan_end_maintenance fan f)"
    and env_good: "good f \<Longrightarrow> env f f' \<Longrightarrow> good f'"
    and env_halted: "orderly \<Longrightarrow> good f \<Longrightarrow> halted f \<Longrightarrow> env f f' \<Longrightarrow> halted f'"
begin

definition safe :: "('f, 'fan) worker \<Rightarrow> bool" where
  "safe w \<longleftrightarrow> good (ow_fan w) \<and> (orderly \<and> ow_busy w \<longrightarrow> halted (ow_fan w)) \<and> (ou_busy (ow_ota w) \<longrightarrow> ow_busy w)"

text \<open>In an orderly run the flash only changes while the fan is halted.\<close>

definition stopped :: "'fan \<Rightarrow> bool" where
  "stopped f \<longleftrightarrow> (orderly \<longrightarrow> good f \<and> halted f)"

abbreviation guarded :: "('f, 'fan) worker \<Rightarrow> ('f, 'fan) worker \<Rightarrow> bool" where
  "guarded \<equiv> flash_guarded stopped"

lemma safe_busy_stopped: "safe w \<Longrightarrow> ow_busy w \<Longrightarrow> stopped (ow_fan w)"
  by (simp add: safe_def stopped_def)

lemma safe_called: "safe w \<Longrightarrow> (ou_busy ota \<Longrightarrow> ow_busy w) \<Longrightarrow> safe (update_called ota w)"
  by (simp add: safe_def)

lemma safe_fail: "good (ow_fan w) \<Longrightarrow> safe (fail_maintenance api fan e w)"
  by (simp add: safe_def end_good)

lemma fail_guarded:
  assumes "guarded w v" and "ou_busy (ow_ota v) \<Longrightarrow> stopped (ow_fan v)"
  shows "guarded w (fail_maintenance api fan e v)"
proof -
  have "guarded w (update_called (ota_update_abort api (ow_ota v)) v)"
    by (rule guarded_call [OF assms(1)]) (use assms(2) abort_idle [of "ow_ota v" api] in auto)
  then show ?thesis by (rule guarded_cong) simp_all
qed

lemma or_fail_result:
  assumes "good (ow_fan v)" and "err = ESP_OK \<Longrightarrow> safe v" and "guarded w v"
    and "ou_busy (ow_ota v) \<Longrightarrow> stopped (ow_fan v)" and "same_queues w v"
  shows "safe (snd (or_fail api fan (err, v))) \<and> same_queues w (snd (or_fail api fan (err, v))) \<and>
    guarded w (snd (or_fail api fan (err, v)))"
  using assms safe_fail [OF assms(1), of api err] fail_guarded [OF assms(3,4), of api err]
    same_queues_trans [OF assms(5)] by (simp add: or_fail_def)

text \<open>What a body leaves that runs after the fan was quiesced.\<close>

definition body_ok ::
    "(('f, 'fan) worker \<Rightarrow> (esp_err \<times> ('f, 'fan) worker) option) \<Rightarrow> ('f, 'fan) worker \<Rightarrow> bool" where
  "body_ok body w \<longleftrightarrow> (\<forall>f. good f \<longrightarrow> halted f \<longrightarrow>
     (\<exists>r. body (w\<lparr>ow_fan := f\<rparr>) = Some r \<and> safe (snd r) \<and> same_queues w (snd r) \<and> guarded w (snd r)))"

lemma quiesced_command:
  assumes safe: "safe w" and "body_ok body w"
  shows "\<exists>err w'. quiesced_then fan refusal body w = Some (err, w') \<and> safe w' \<and> same_queues w w' \<and> guarded w w'"
proof -
  have good: "good (ow_fan w)" using safe by (simp add: safe_def)
  obtain err f where q: "fan_quiesce fan (ow_fan w) = Some (err, f)" using quiesce_returns [OF good] by blast
  have f: "good f" by (rule quiesce_good [OF good q])
  show ?thesis
  proof (cases "err = ESP_OK")
    case True
    then have "halted f" using quiesce_halts good q by simp
    then show ?thesis using q True assms(2) f by (fastforce simp: quiesced_then_def body_ok_def)
  next
    case False
    have "orderly \<and> ow_busy w \<longrightarrow> halted f" using good safe quiesce_again q by (auto simp: safe_def)
    then have "safe (w\<lparr>ow_fan := f\<rparr>)" using safe f by (simp add: safe_def)
    moreover have "guarded w (w\<lparr>ow_fan := f\<rparr>)" by (rule guarded_same) simp_all
    ultimately show ?thesis using q False by (simp add: quiesced_then_def same_queues_def)
  qed
qed

lemma begin_body:
  assumes "command_bytes command w \<noteq> None"
  shows "body_ok (\<lambda>w. map_option (or_fail api fan) (begin_command api il command (w\<lparr>ow_busy := True\<rparr>))) w"
  unfolding body_ok_def
proof (intro allI impI)
  fix f assume f: "good f" "halted f"
  let ?w = "w\<lparr>ow_fan := f, ow_busy := True\<rparr>"
  have st: "stopped f" using f by (simp add: stopped_def)
  obtain bytes where bytes: "command_bytes command ?w = Some bytes"
    using assms by (auto simp: command_bytes_def Let_def split: if_splits)
  obtain err w' where w': "begin_command api il command ?w = Some (err, w')"
    using begin_command_total [OF bytes] by blast
  have start: "guarded w ?w" by (rule guarded_same) simp_all
  obtain v ota ota2 where shape: "w' = (update_called ota ?w)\<lparr>ow_new_version := v\<rparr> \<or>
      w' = update_called ota2 ((update_called ota ?w)\<lparr>ow_new_version := v\<rparr>)"
    using w' by (rule begin_command_cases) blast
  have one: "guarded w (update_called ota ?w)" by (rule guarded_call [OF start]) (simp add: st)
  then have two: "guarded w ((update_called ota ?w)\<lparr>ow_new_version := v\<rparr>)" by (rule guarded_cong) simp_all
  have "guarded w (update_called ota2 ((update_called ota ?w)\<lparr>ow_new_version := v\<rparr>))"
    by (rule guarded_call [OF two]) (simp add: st)
  with two shape have "guarded w w'" by blast
  moreover have "good (ow_fan w')" "safe w'" "same_queues w w'" "ow_fan w' = f"
    using shape f by (auto simp: safe_def same_queues_def)
  ultimately show "\<exists>r. map_option (or_fail api fan) (begin_command api il command (w\<lparr>ow_fan := f\<rparr>\<lparr>ow_busy := True\<rparr>)) = Some r \<and>
      safe (snd r) \<and> same_queues w (snd r) \<and> guarded w (snd r)"
    using w' or_fail_result [of w' err w api] st by simp
qed

definition command_allowed :: "worker_command \<Rightarrow> ('f, 'fan) worker \<Rightarrow> bool" where
  "command_allowed command w \<longleftrightarrow>
     (wc_type command \<in> {COMMAND_BEGIN_AND_WRITE, COMMAND_WRITE} \<longrightarrow> command_bytes command w \<noteq> None) \<and>
     (orderly \<and> wc_type command = COMMAND_CONFIRM_RUNNING \<longrightarrow> \<not> ow_busy w)"

text \<open>The commands that use the session, without quiescing the fan.\<close>

lemma session_call:
  assumes safe: "safe w" and "ou_flash ota \<noteq> ou_flash (ow_ota w) \<Longrightarrow> ou_busy (ow_ota w)"
    and "ou_busy ota \<Longrightarrow> ou_busy (ow_ota w)"
  shows "safe (snd (or_fail api fan (err, update_called ota w))) \<and>
    same_queues w (snd (or_fail api fan (err, update_called ota w))) \<and>
    guarded w (snd (or_fail api fan (err, update_called ota w)))"
proof (rule or_fail_result)
  have busy: "ou_busy (ow_ota w) \<Longrightarrow> stopped (ow_fan w)" using safe safe_busy_stopped [of w] by (auto simp: safe_def)
  show "guarded w (update_called ota w)"
    by (rule guarded_call [OF guarded_same]) (use assms(2) busy in simp_all)
  show "ou_busy (ow_ota (update_called ota w)) \<Longrightarrow> stopped (ow_fan (update_called ota w))"
    using assms(3) busy by simp
qed (use safe assms(3) in \<open>simp_all add: safe_def\<close>)

lemma write_keeps_busy: "ou_busy (snd (ota_update_write api b s)) \<Longrightarrow> ou_busy s"
  using write_idle [of s api b] by (cases "ou_busy s") auto

lemma confirm_body:
  assumes safe: "safe w" and "orderly \<longrightarrow> \<not> ow_busy w"
  shows "body_ok (\<lambda>w. case ota_update_confirm_running api (ow_ota w) of (err, ota) \<Rightarrow>
      let w = update_called ota w in Some (err, w\<lparr>ow_fan := fan_end_maintenance fan (ow_fan w)\<rparr>)) w"
  unfolding body_ok_def
proof (intro allI impI)
  fix f assume f: "good f" "halted f"
  let ?ota = "snd (ota_update_confirm_running api (ow_ota w))"
  let ?c = "update_called ?ota (w\<lparr>ow_fan := f\<rparr>)"
  have "guarded w ?c" by (rule guarded_call [OF guarded_same]) (use f in \<open>simp_all add: stopped_def\<close>)
  then have "guarded w (?c\<lparr>ow_fan := fan_end_maintenance fan f\<rparr>)" by (rule guarded_cong) simp_all
  moreover have "safe (?c\<lparr>ow_fan := fan_end_maintenance fan f\<rparr>)"
    using safe assms(2) end_good f by (auto simp: safe_def)
  moreover have "same_queues w (?c\<lparr>ow_fan := fan_end_maintenance fan f\<rparr>)" by (simp add: same_queues_def)
  ultimately show "\<exists>r. (case ota_update_confirm_running api (ow_ota (w\<lparr>ow_fan := f\<rparr>)) of (err, ota) \<Rightarrow>
      let w = update_called ota (w\<lparr>ow_fan := f\<rparr>) in Some (err, w\<lparr>ow_fan := fan_end_maintenance fan (ow_fan w)\<rparr>)) = Some r \<and>
      safe (snd r) \<and> same_queues w (snd r) \<and> guarded w (snd r)"
    by (simp add: split_beta Let_def)
qed

text \<open>Every command returns, keeps the worker safe and changes the flash only with a halted fan.\<close>

lemma execute_command_safe:
  assumes safe: "safe w" and "command_allowed command w"
  shows "\<exists>err w'. execute_command api il fan command w = Some (err, w') \<and> safe w' \<and> same_queues w w' \<and> guarded w w'"
proof (cases "wc_type command")
  case COMMAND_BEGIN_AND_WRITE
  then have "command_bytes command w \<noteq> None" using assms(2) by (simp add: command_allowed_def)
  then show ?thesis
    unfolding execute_command_def COMMAND_BEGIN_AND_WRITE command_type.case
    by (intro quiesced_command [OF safe] begin_body)
next
  case COMMAND_WRITE
  then obtain bytes where b: "command_bytes command w = Some bytes"
    using assms(2) by (auto simp: command_allowed_def)
  obtain err w' where w': "write_command api bytes w = (err, w')" by (cases "write_command api bytes w")
  note eq = write_command_frame(1) [OF w']
  have "safe (snd (or_fail api fan (err, w'))) \<and> same_queues w (snd (or_fail api fan (err, w'))) \<and>
      guarded w (snd (or_fail api fan (err, w')))"
    unfolding eq
  proof (rule session_call [OF safe])
    show "ou_flash (snd (ota_update_write api (Some bytes) (ow_ota w))) \<noteq> ou_flash (ow_ota w) \<Longrightarrow> ou_busy (ow_ota w)"
      using write_idle [of "ow_ota w" api "Some bytes"] by (cases "ou_busy (ow_ota w)") simp_all
  qed (rule write_keeps_busy)
  then show ?thesis
    using COMMAND_WRITE b w' by (simp add: execute_command_def) (cases "or_fail api fan (err, w')"; auto)
next
  case COMMAND_FINISH
  obtain err ota where f: "ota_update_finish api (ow_ota w) = (err, ota)"
    by (cases "ota_update_finish api (ow_ota w)")
  let ?r = "(err, update_called ota w)"
  have idle: "\<not> ou_busy ota" using finish_busy [of api "ow_ota w"] f by simp
  have "safe (snd (or_fail api fan ?r)) \<and> same_queues w (snd (or_fail api fan ?r)) \<and> guarded w (snd (or_fail api fan ?r))"
  proof (rule session_call [OF safe])
    show "ou_flash ota \<noteq> ou_flash (ow_ota w) \<Longrightarrow> ou_busy (ow_ota w)"
      using finish_idle [of "ow_ota w" api] f by (cases "ou_busy (ow_ota w)") simp_all
  qed (use idle in simp)
  then show ?thesis
    using COMMAND_FINISH f by (cases "or_fail api fan ?r") (simp add: execute_command_def)
next
  case COMMAND_ABORT
  have "guarded w (fail_maintenance api fan ESP_FAIL w)"
    by (rule fail_guarded [OF guarded_same]) (use safe safe_busy_stopped in \<open>auto simp: safe_def\<close>)
  moreover have "safe (fail_maintenance api fan ESP_FAIL w)" using safe by (intro safe_fail) (simp add: safe_def)
  ultimately show ?thesis using COMMAND_ABORT by (simp add: execute_command_def)
next
  case COMMAND_SELECT_PREVIOUS
  have "safe (snd (or_fail api fan (e, v))) \<and> same_queues w (snd (or_fail api fan (e, v))) \<and> guarded w (snd (or_fail api fan (e, v)))"
    if "good f" "halted f" and v: "v = update_called ota (w\<lparr>ow_fan := f, ow_busy := True\<rparr>)" for f e ota v
  proof (rule or_fail_result)
    show "guarded w v" unfolding v
      by (rule guarded_call [OF guarded_same]) (use that(1,2) in \<open>simp_all add: stopped_def\<close>)
  qed (use that in \<open>simp_all add: v safe_def stopped_def same_queues_def\<close>)
  then show ?thesis
    unfolding execute_command_def COMMAND_SELECT_PREVIOUS command_type.case
    by (intro quiesced_command [OF safe]) (simp add: body_ok_def Let_def split_beta)
next
  case COMMAND_CONFIRM_RUNNING
  then have "orderly \<longrightarrow> \<not> ow_busy w" using assms(2) by (simp add: command_allowed_def)
  then show ?thesis
    unfolding execute_command_def COMMAND_CONFIRM_RUNNING command_type.case
    by (intro quiesced_command [OF safe] confirm_body [OF safe])
next
  case COMMAND_ROLLBACK_RUNNING
  have "safe (update_called ota (w\<lparr>ow_fan := f\<rparr>)) \<and> guarded w (update_called ota (w\<lparr>ow_fan := f\<rparr>))"
    if f: "good f" "halted f" and ota: "ou_busy ota \<longrightarrow> ou_busy (ow_ota w)" for f ota
  proof
    show "guarded w (update_called ota (w\<lparr>ow_fan := f\<rparr>))"
      by (rule guarded_call [OF guarded_same]) (use f in \<open>simp_all add: stopped_def\<close>)
  qed (use safe f ota in \<open>auto simp: safe_def\<close>)
  then show ?thesis
    unfolding execute_command_def COMMAND_ROLLBACK_RUNNING command_type.case
    by (intro quiesced_command [OF safe]) (simp add: body_ok_def split_beta same_queues_def)
qed

lemma idle_queues_cong: "same_queues w w' \<Longrightarrow> idle_queues held w' \<longleftrightarrow> idle_queues held w"
  by (simp add: idle_queues_def same_queues_def)

text \<open>A command that carries no buffer.\<close>

lemma submit_plain:
  assumes safe: "safe w" and idle: "idle_queues held w"
    and "wc_type command \<notin> {COMMAND_BEGIN_AND_WRITE, COMMAND_WRITE}"
    and "orderly \<and> wc_type command = COMMAND_CONFIRM_RUNNING \<longrightarrow> \<not> ow_busy w"
  shows "\<exists>err w'. submit api il fan n command w = Some (err, w') \<and> safe w' \<and> idle_queues held w' \<and>
    guarded w w'"
proof -
  let ?w = "w\<lparr>ow_done := False, ow_commands := []\<rparr>"
  have "safe ?w" "command_allowed command ?w" using assms by (simp_all add: safe_def command_allowed_def)
  then obtain err w1 where e: "execute_command api il fan command ?w = Some (err, w1)" "safe w1"
    "same_queues ?w w1" "guarded ?w w1"
    using execute_command_safe by blast
  let ?w2 = "(report_stack n (w1\<lparr>ow_result := err\<rparr>))\<lparr>ow_done := False\<rparr>"
  have empty: "ow_task w" "ow_commands w = []" using idle by (simp_all add: idle_queues_def)
  have "release_command_buffer command (w1\<lparr>ow_result := err\<rparr>) = Some (w1\<lparr>ow_result := err\<rparr>)"
    using assms(3) by (simp add: release_command_buffer_def)
  then have "submit api il fan n command w = Some (err, ?w2)"
    using e(1) by (simp add: submit_def worker_turn_def empty)
  moreover have "safe ?w2" using e(2) by (simp add: safe_def)
  moreover have "same_queues w ?w2" using e(3) empty by (simp add: same_queues_def report_stack_def Let_def)
  moreover have "guarded w ?w2" using e(4) by (rule guarded_cong) simp_all
  ultimately show ?thesis using idle_queues_cong idle by blast
qed

text \<open>A command that hands over the held buffer \<open>i\<close>: the worker frees it.\<close>

lemma submit_buffer:
  assumes safe: "safe w" and idle: "idle_queues held w" and i: "i \<in> set held"
    and type: "wc_type command \<in> {COMMAND_BEGIN_AND_WRITE, COMMAND_WRITE}"
    and index: "wc_buffer_index command = of_nat i" and len: "wc_length command \<le> OTA_BUFFER_SIZE"
  shows "\<exists>err w'. submit api il fan n command w = Some (err, w') \<and> safe w' \<and>
    idle_queues (remove1 i held) w' \<and> guarded w w'"
proof -
  let ?w = "w\<lparr>ow_done := False, ow_commands := []\<rparr>"
  obtain free where free: "ow_free w = Some free" "each_once free held"
    using idle by (auto simp: idle_queues_def)
  note small = each_once_member [OF free(2) i] and room = each_once_room [OF free(2) i]
  have ui: "unat (of_nat i :: u8) = i" using small by (simp add: unat_of_nat)
  have "length (ow_buffers w) = 2" "length (ow_buffers w ! i) = 4096"
    using idle small buffers_ok_nth by (auto simp: idle_queues_def)
  then have "command_bytes command ?w \<noteq> None"
    using small len ui index by (simp add: command_bytes_def word_le_nat_alt)
  then have "safe ?w" "command_allowed command ?w"
    using safe type by (auto simp: safe_def command_allowed_def)
  then obtain err w1 where e: "execute_command api il fan command ?w = Some (err, w1)" "safe w1"
    "same_queues ?w w1" "guarded ?w w1"
    using execute_command_safe by blast
  have empty: "ow_task w" "ow_commands w = []" using idle by (simp_all add: idle_queues_def)
  let ?w1 = "w1\<lparr>ow_result := err, ow_free := Some (free @ [of_nat i])\<rparr>"
  let ?w2 = "(report_stack n ?w1)\<lparr>ow_done := False\<rparr>"
  have "release_command_buffer command (w1\<lparr>ow_result := err\<rparr>) = Some ?w1"
    using type e(3) free(1) room index
    by (auto simp: release_command_buffer_def same_queues_def)
  then have "submit api il fan n command w = Some (err, ?w2)"
    using e(1) by (simp add: submit_def worker_turn_def empty)
  moreover have "safe ?w2" using e(2) by (simp add: safe_def)
  moreover have "guarded w ?w2" using e(4) by (rule guarded_cong) simp_all
  moreover have "idle_queues (remove1 i held) ?w2"
    using idle e(3) each_once_release [OF free(2) i]
    by (simp add: idle_queues_def same_queues_def report_stack_def Let_def)
  ultimately show ?thesis by blast
qed

fun worker_ok :: "nat list \<times> ('f, 'fan) worker \<Rightarrow> bool" where
  "worker_ok (held, w) \<longleftrightarrow> safe w \<and> idle_queues held w"

lemma held_buffer:
  assumes "i \<in> set held" and "idle_queues held w"
  shows "buffer_index (Some i) = int i" "of_int (int i) = (of_nat i :: u8)"
  using assms each_once_member buffer_index_small by (auto simp: idle_queues_def)

lemma worker_step_ok:
  assumes "worker_step orderly api il fan env a b" and "worker_ok a"
  shows "worker_ok b \<and> guarded (snd a) (snd b)"
  using assms
proof (induction rule: worker_step.induct)
  case (fan_moves w f held)
  have "guarded w (w\<lparr>ow_fan := f\<rparr>)" by (rule guarded_same) simp_all
  then show ?case using fan_moves by (auto simp: safe_def idle_queues_def intro: env_good env_halted)
next
  case (acquire w i capacity w' held)
  then show ?case
    by (auto simp: ota_worker_acquire_buffer_def safe_def idle_queues_def
        split: option.splits list.splits intro: each_once_acquire guarded_same)
next
  case (fill i held bytes w)
  then show ?case by (auto simp: safe_def idle_queues_def intro: buffers_ok_update guarded_same)
next
  case (release i held w)
  have ok: "safe w" "idle_queues held w" using release(2) by simp_all
  obtain free where free: "ow_free w = Some free" "each_once free held"
    using ok(2) by (auto simp: idle_queues_def)
  note i = each_once_room [OF free(2) release(1)] held_buffer [OF release(1) ok(2)]
  have "ota_worker_release_buffer (Some i) w = w\<lparr>ow_free := Some (free @ [of_nat i])\<rparr>"
    using free(1) i by (simp add: ota_worker_release_buffer_def Let_def)
  then show ?case
    using ok each_once_release [OF free(2) release(1)] by (simp add: safe_def idle_queues_def guarded_same)
next
  case (begin_and_write i held n high_water image_size w err w')
  have ok: "safe w" "idle_queues held w" using begin_and_write(5) by simp_all
  let ?c = "\<lparr>wc_type = COMMAND_BEGIN_AND_WRITE, wc_buffer_index = of_nat i, wc_length = n,
    wc_image_size = image_size\<rparr>"
  have "submit api il fan high_water ?c w = Some (err, w')"
    using begin_and_write(2,4) leD [OF begin_and_write(3)] held_buffer [OF begin_and_write(1) ok(2)] by (simp add: ota_worker_begin_and_write_def Let_def)
  then show ?case
    using submit_buffer [OF ok begin_and_write(1), of ?c api il high_water] begin_and_write(3) by simp
next
  case (write_chunk i held n high_water w err w')
  have ok: "safe w" "idle_queues held w" using write_chunk(5) by simp_all
  let ?c = "\<lparr>wc_type = COMMAND_WRITE, wc_buffer_index = of_nat i, wc_length = n, wc_image_size = 0\<rparr>"
  have "submit api il fan high_water ?c w = Some (err, w')"
    using write_chunk(2,4) leD [OF write_chunk(3)] held_buffer [OF write_chunk(1) ok(2)] by (simp add: ota_worker_write_def Let_def)
  then show ?case
    using submit_buffer [OF ok write_chunk(1), of ?c api il high_water] write_chunk(3) by simp
next
  case (finish_update high_water w err w' held)
  then show ?case
    using submit_plain [of w held "plain_command COMMAND_FINISH" api il high_water]
    by (simp add: ota_worker_finish_def plain_command_def)
next
  case (abort_update high_water w w' held)
  then show ?case
    using submit_plain [of w held "plain_command COMMAND_ABORT" api il high_water]
    by (auto simp: ota_worker_abort_def plain_command_def)
next
  case (select_previous high_water w err w' held)
  then show ?case
    using submit_plain [of w held "plain_command COMMAND_SELECT_PREVIOUS" api il high_water]
    by (auto simp: ota_worker_select_previous_def plain_command_def split: if_splits intro: guarded_same)
next
  case (confirm_running w high_water err w' held)
  then show ?case
    using submit_plain [of w held "plain_command COMMAND_CONFIRM_RUNNING" api il high_water]
    by (simp add: ota_worker_confirm_running_def plain_command_def)
next
  case (rollback_running high_water w err w' held)
  then show ?case
    using submit_plain [of w held "plain_command COMMAND_ROLLBACK_RUNNING" api il high_water]
    by (simp add: ota_worker_rollback_running_def plain_command_def)
qed

lemma init_ok:
  fixes w0 :: "('f, 'fan) worker"
  assumes "worker_boot w0" and "good (ow_fan w0)" and "ota_worker_init we w0 = (ESP_OK, w)"
  shows "worker_ok ([], ota_worker_task_start api w)"
proof -
  have "w = w0\<lparr>ow_commands := [], ow_free := Some (map of_nat [0..<OTA_BUFFER_COUNT]), ow_done := False,
      ow_task := True\<rparr>"
    using assms(1,3) by (auto simp: ota_worker_init_def worker_boot_def Let_def split: if_splits)
  moreover have "safe (ota_worker_task_start api v) \<longleftrightarrow> safe v"
    "idle_queues [] (ota_worker_task_start api v) \<longleftrightarrow> idle_queues [] v" for v :: "('f, 'fan) worker"
    by (auto simp: safe_def idle_queues_def ota_worker_task_start_def refresh_validation_cache_def
        split: prod.split option.split)
  ultimately show ?thesis
    using assms(1,2) each_once_init by (simp add: worker_boot_def safe_def idle_queues_def del: upt.simps)
qed

lemma worker_reachable_ok:
  assumes "worker_reachable orderly api il fan env fan0 a" and "good fan0"
  shows "worker_ok a"
  using assms(1)
proof (induction rule: worker_reachable.induct)
  case (started w0 we w)
  have "good (ow_fan w0)" using started(2) assms(2) by simp
  then show ?case by (rule init_ok [OF started(1) _ started(3)])
next
  case (step a b)
  then show ?case using worker_step_ok by blast
qed

end

section \<open>The fan actor provides the contract\<close>

text \<open>The two calls as \<open>fan_control.c\<close> implements them: the wait of a quiesce spans \<open>inputs\<close>
  cycles, \<open>begin_us\<close> and \<open>end_us\<close> are the times it reads.\<close>

definition fan_calls ::
    "gpio_driver \<Rightarrow> cycle_input list \<Rightarrow> us_time \<Rightarrow> us_time \<Rightarrow> fan_sys fan_api" where
  "fan_calls drv inputs begin_us end_us =
     \<lparr>fan_quiesce = (\<lambda>s. case fan_control_quiesce drv inputs begin_us end_us s of
                          Inl e \<Rightarrow> None | Inr r \<Rightarrow> Some r),
      fan_end_maintenance = fan_control_end_maintenance end_us\<rparr>"

text \<open>What goes on meanwhile: cycles of the actor, and every call of other tasks; in an orderly run none of
  them ends the maintenance.\<close>

inductive fan_env :: "bool \<Rightarrow> gpio_driver \<Rightarrow> fan_sys \<Rightarrow> fan_sys \<Rightarrow> bool" for orderly drv where
  env_cycle: "cycle drv inp s = Inr s' \<Longrightarrow> fan_env orderly drv s s'"
| env_client: "client_step s s' \<Longrightarrow> (orderly \<and> fs_maintenance_requested s \<longrightarrow> fs_maintenance_requested s') \<Longrightarrow>
    fan_env orderly drv s s'"

definition fan_halted :: "fan_sys \<Rightarrow> bool" where
  "fan_halted s \<longleftrightarrow> fs_maintenance_requested s \<and> fs_quiesced s"

definition fan_good :: "pads \<Rightarrow> fan_sys \<Rightarrow> bool" where
  "fan_good p0 s \<longleftrightarrow> actor_ok p0 (Sleeping, s)"

lemma cycle_keeps_quiesced:
  assumes "cycle drv inp s = Inr s'" and "fan_halted s"
  shows "fs_quiesced s'"
proof -
  obtain m b where b: "cycle_begin s = (m, b)" by (cases "cycle_begin s")
  obtain t where t: "cycle_timer m inp (cycle_receive m inp b) = Inr t"
    "s' = cycle_finish m inp (cycle_account inp (cycle_transition drv inp t))"
    using cycle_runs [OF assms(1) b] .
  obtain err ph hw where run: "fan_transition drv (fc_desired_speed (fs_local t)) (Some 0) (fs_hw t) = (err, ph, hw)"
    by (cases "fan_transition drv (fc_desired_speed (fs_local t)) (Some 0) (fs_hw t)")
  have "fs_quiesced b"
    using b assms(2) by (auto simp: cycle_begin_def fan_halted_def Let_def split: if_splits)
  then have "fs_quiesced (cycle_receive m inp b)"
    by (simp add: cycle_receive_def split_beta split: option.splits)
  then have "fs_quiesced t"
    using t(1) by (auto simp: cycle_timer_def Let_def split: if_splits sum.splits)
  then have "fs_quiesced (cycle_transition drv inp t)"
    by (simp add: cycle_transition_def attempt_transition_cases [OF run] Let_def)
  then show ?thesis by (simp add: t(2))
qed

lemma quiesce_runs:
  assumes "fan_good p0 s"
  obtains s1 where "wait_quiesced drv inputs (quiesce_request b s) = Inr s1"
    "fan_good p0 s1" "fs_maintenance_requested s1"
    "fan_control_quiesce drv inputs b e s = Inr (if fs_task s then quiesce_result e s1 else (ESP_ERR_INVALID_STATE, s))"
proof -
  have q: "actor_ok p0 (Sleeping, quiesce_request b s)"
    using client_step_ok [OF quiesce_step, of p0 s Sleeping b] assms by (simp add: fan_good_def)
  obtain s1 where s1: "wait_quiesced drv inputs (quiesce_request b s) = Inr s1"
    using wait_quiesced_total [OF q] by blast
  show ?thesis
    by (rule that [OF s1 wait_quiesced_ok [OF s1 q, folded fan_good_def]])
      (use wait_quiesced_request [OF s1] s1 in \<open>simp_all add: fan_control_quiesce_def\<close>)
qed

lemma end_maintenance_ok:
  "fan_good p0 s \<Longrightarrow> fan_good p0 (fan_control_end_maintenance t s)"
  using client_step_ok [OF release_step, of p0 s Sleeping t] by (simp add: fan_good_def)

interpretation ofan: fan_service orderly "fan_calls drv inputs begin_us end_us" "fan_env orderly drv"
  "fan_good p0" fan_halted for orderly drv inputs begin_us end_us p0
proof (unfold_locales, goal_cases)
  case (1 f)
  then obtain r where "fan_control_quiesce drv inputs begin_us end_us f = Inr r" by (rule quiesce_runs)
  then show ?case by (cases r) (simp add: fan_calls_def)
next
  case (2 f err f')
  obtain s1 where s1: "fan_good p0 s1"
    "fan_control_quiesce drv inputs begin_us end_us f =
       Inr (if fs_task f then quiesce_result end_us s1 else (ESP_ERR_INVALID_STATE, f))"
    by (rule quiesce_runs [OF 2(1), of drv inputs begin_us end_us])
  then have "f' \<in> {f, s1, fan_control_end_maintenance end_us s1}"
    using 2(2) by (auto simp: fan_calls_def quiesce_result_def split: if_splits)
  then show ?case using 2(1) s1(1) end_maintenance_ok by blast
next
  case (3 f f')
  obtain s1 where "fs_maintenance_requested s1"
    "fan_control_quiesce drv inputs begin_us end_us f =
       Inr (if fs_task f then quiesce_result end_us s1 else (ESP_ERR_INVALID_STATE, f))"
    by (rule quiesce_runs [OF 3(1), of drv inputs begin_us end_us])
  then show ?case
    using 3(2) by (auto simp: fan_calls_def quiesce_result_def fan_halted_def split: if_splits)
next
  case (4 f err f')
  have "wait_quiesced drv inputs (quiesce_request begin_us f) = Inr (quiesce_request begin_us f)"
    using 4(2) by (cases inputs) (simp_all add: fan_halted_def)
  then show ?case
    using 4(2,3) by (auto simp: fan_calls_def fan_control_quiesce_def quiesce_result_def fan_halted_def split: if_splits)
next
  case (5 f)
  then show ?case by (simp add: fan_calls_def end_maintenance_ok)
next
  case (6 f f')
  from 6(2) show ?case
  proof cases
    case (env_cycle inp)
    then show ?thesis using cycle_ok [of p0 f drv inp f'] 6(1) unfolding fan_good_def by blast
  next
    case env_client
    then show ?thesis using client_step_ok [OF env_client(1), of p0 Sleeping] 6(1) by (simp add: fan_good_def)
  qed
next
  case (7 f f')
  from 7(4) show ?case
  proof cases
    case (env_cycle inp)
    then show ?thesis
      using cycle_request_frame [OF env_cycle] cycle_keeps_quiesced [OF env_cycle 7(3)] 7(3)
      by (simp add: fan_halted_def)
  next
    case env_client
    then show ?thesis using client_step_frame(3) [OF env_client(1)] 7(1,3) by (simp add: fan_halted_def)
  qed
qed


section \<open>An instance\<close>

definition sample_worker :: "(sample_flash, fan_sys) worker" where
  "sample_worker =
     \<lparr>ow_task = False, ow_commands = [], ow_free = None, ow_done = False,
      ow_buffers = replicate OTA_BUFFER_COUNT (replicate 4096 0), ow_info = empty_info,
      ow_validation = OTA_PREVIOUS_PENDING, ow_busy = False, ow_result = ESP_OK,
      ow_new_version = replicate SIZEOF_VERSION 0, ow_ota = sample_ota,
      ow_fan = sample_running all_calls_succeed, ow_health = service_health_init, ow_flash_log = []\<rparr>"

definition all_created :: worker_env where
  "all_created = \<lparr>we_command_queue = True, we_free_queue = True, we_events = True, we_mutex = True,
     we_task = True\<rparr>"

abbreviation (input) sample_calls :: "fan_sys fan_api" where
  "sample_calls \<equiv> fan_calls all_calls_succeed [sample_input] 1000 9000"

definition sample_started :: "(sample_flash, fan_sys) worker" where
  "sample_started = ota_worker_task_start sample_api (snd (ota_worker_init all_created sample_worker))"

lemma sample_worker_boot: "worker_boot sample_worker"
  by (simp add: worker_boot_def sample_worker_def buffers_ok_def sample_ota_def list_all_iff)

lemma sample_worker_reachable:
  "worker_reachable orderly sample_api sample_layout sample_calls (fan_env orderly all_calls_succeed)
     (sample_running all_calls_succeed) ([], sample_started)"
  unfolding sample_started_def
proof (rule worker_reachable.started [OF sample_worker_boot])
  show "ow_fan sample_worker = sample_running all_calls_succeed" by (simp add: sample_worker_def)
  show "ota_worker_init all_created sample_worker = (ESP_OK, snd (ota_worker_init all_created sample_worker))"
    by (simp add: ota_worker_init_def all_created_def sample_worker_def Let_def)
qed

text \<open>A caller has filled buffer 0 with the start of an image and hands it over.\<close>

definition sample_filled :: "(sample_flash, fan_sys) worker" where
  "sample_filled = (snd (snd (ota_worker_acquire_buffer sample_started)))
     \<lparr>ow_buffers := (ow_buffers (snd (snd (ota_worker_acquire_buffer sample_started))))
        [0 := [0xE9, 0, 0, 1] @ replicate 4092 0]\<rparr>"

lemma two_buffers: "map of_nat [0..<OTA_BUFFER_COUNT] = [0, 1 :: u8]"
  by (simp add: upt_rec numeral_2_eq_2)

lemma sample_started_fields [simp]:
  "ow_task sample_started" "ow_commands sample_started = []" "ow_free sample_started = Some [0, 1]"
  "ow_buffers sample_started = replicate OTA_BUFFER_COUNT (replicate 4096 0)"
  "ow_ota sample_started = sample_ota" "ow_fan sample_started = sample_running all_calls_succeed"
  "\<not> ow_busy sample_started" "ow_new_version sample_started = replicate SIZEOF_VERSION 0"
  by (simp_all only: sample_started_def ota_worker_task_start_def refresh_validation_cache_def
      ota_worker_init_def all_created_def Let_def two_buffers)
    (simp_all add: sample_worker_def split: prod.split option.split)

lemma sample_acquired:
  "ota_worker_acquire_buffer sample_started =
     (Some 0, Some OTA_BUFFER_SIZE, sample_started\<lparr>ow_free := Some [1]\<rparr>)"
  by (simp add: ota_worker_acquire_buffer_def)

lemma sample_filled_reachable:
  "worker_reachable orderly sample_api sample_layout sample_calls (fan_env orderly all_calls_succeed)
     (sample_running all_calls_succeed) ([0], sample_filled)"
  unfolding sample_filled_def sample_acquired snd_conv
  by (rule worker_reachable.step [OF worker_reachable.step [OF sample_worker_reachable acquire [OF sample_acquired]] fill])
    simp_all

lemma sample_quiesces: "map_option fst (fan_quiesce sample_calls (sample_running all_calls_succeed)) = Some ESP_OK"
  by code_simp

lemma sample_begins:
  "map_option (\<lambda>(e, v, s). (e, fst (ota_update_write sample_api (Some [0xE9, 0, 0, 1]) s),
      sf_mem (ou_flash (snd (ota_update_write sample_api (Some [0xE9, 0, 0, 1]) s))) (sample_slot 1) 0))
     (ota_update_begin sample_api sample_layout (Some [0xE9, 0, 0, 1]) 6 (Some (replicate SIZEOF_VERSION 0)) sample_ota) =
   Some (ESP_OK, ESP_OK, 0xE9)"
  by code_simp

lemma sample_filled_fields [simp]:
  "ow_task sample_filled" "ow_commands sample_filled = []" "ow_free sample_filled = Some [1]"
  "ow_buffers sample_filled = [[0xE9, 0, 0, 1] @ replicate 4092 0, replicate 4096 0]"
  "ow_ota sample_filled = sample_ota" "ow_fan sample_filled = sample_running all_calls_succeed"
  "\<not> ow_busy sample_filled" "ow_new_version sample_filled = replicate SIZEOF_VERSION 0"
  by (simp_all add: sample_filled_def sample_acquired numeral_2_eq_2)

lemma sample_bytes:
  "command_bytes \<lparr>wc_type = COMMAND_BEGIN_AND_WRITE, wc_buffer_index = 0, wc_length = 4, wc_image_size = 6\<rparr>
     (sample_filled\<lparr>ow_done := d, ow_commands := c, ow_fan := f, ow_busy := b\<rparr>) = Some [0xE9, 0, 0, 1]"
  by (simp add: command_bytes_def)

lemma sample_update_starts:
  "\<exists>w. ota_worker_begin_and_write sample_api sample_layout sample_calls 900 (Some 0) 4 6 sample_filled =
     Some (ESP_OK, w) \<and> ow_busy w \<and> sf_mem (ou_flash (ow_ota w)) (sample_slot 1) 0 = 0xE9 \<and>
     fan_quiesce sample_calls (sample_running all_calls_succeed) = Some (ESP_OK, ow_fan w)"
proof -
  let ?c = "\<lparr>wc_type = COMMAND_BEGIN_AND_WRITE, wc_buffer_index = 0, wc_length = 4, wc_image_size = 6\<rparr>"
  obtain f where f: "fan_quiesce sample_calls (sample_running all_calls_succeed) = Some (ESP_OK, f)"
    using sample_quiesces by auto
  obtain v s where v: "ota_update_begin sample_api sample_layout (Some [0xE9, 0, 0, 1]) 6
      (Some (replicate SIZEOF_VERSION 0)) sample_ota = Some (ESP_OK, v, s)"
    "fst (ota_update_write sample_api (Some [0xE9, 0, 0, 1]) s) = ESP_OK"
    "sf_mem (ou_flash (snd (ota_update_write sample_api (Some [0xE9, 0, 0, 1]) s))) (sample_slot 1) 0 = 0xE9"
    using sample_begins by auto
  obtain s2 where w: "ota_update_write sample_api (Some [0xE9, 0, 0, 1]) s = (ESP_OK, s2)"
    and mem: "sf_mem (ou_flash s2) (sample_slot 1) 0 = 0xE9"
    using v(2,3) by (cases "ota_update_write sample_api (Some [0xE9, 0, 0, 1]) s") simp
  have b: "\<exists>w. begin_command sample_api sample_layout ?c
      (sample_filled\<lparr>ow_done := False, ow_commands := [], ow_fan := f, ow_busy := True\<rparr>) = Some (ESP_OK, w) \<and>
      ow_busy w \<and> ow_ota w = s2 \<and> ow_free w = Some [1] \<and> ow_fan w = f"
    unfolding begin_command_def sample_bytes by (simp add: v(1) w write_command_def)
  then obtain w1 where w1: "begin_command sample_api sample_layout ?c
      (sample_filled\<lparr>ow_done := False, ow_commands := [], ow_fan := f, ow_busy := True\<rparr>) = Some (ESP_OK, w1)"
    "ow_busy w1" "ow_ota w1 = s2" "ow_free w1 = Some [1]" "ow_fan w1 = f" by blast
  have "execute_command sample_api sample_layout sample_calls ?c
      (sample_filled\<lparr>ow_done := False, ow_commands := []\<rparr>) = Some (ESP_OK, w1)"
    by (simp add: execute_command_def quiesced_then_def f w1(1) or_fail_def)
  then have "\<exists>w. submit sample_api sample_layout sample_calls 900 ?c sample_filled = Some (ESP_OK, w) \<and>
      ow_busy w \<and> ow_ota w = s2 \<and> ow_fan w = f"
    by (simp add: submit_def worker_turn_def release_command_buffer_def w1)
  then show ?thesis
    using mem f by (auto simp: ota_worker_begin_and_write_def buffer_index_small)
qed

lemma sample_update_reachable:
  assumes "ota_worker_begin_and_write sample_api sample_layout sample_calls 900 (Some 0) 4 6 sample_filled = Some (ESP_OK, w)"
  shows "worker_reachable orderly sample_api sample_layout sample_calls (fan_env orderly all_calls_succeed)
      (sample_running all_calls_succeed) ([], w)"
    and "worker_step orderly sample_api sample_layout sample_calls (fan_env orderly all_calls_succeed) ([0], sample_filled) ([], w)"
proof -
  show step: "worker_step orderly sample_api sample_layout sample_calls (fan_env orderly all_calls_succeed) ([0], sample_filled) ([], w)"
    using begin_and_write [of 0 "[0]" 4 sample_api sample_layout sample_calls 900 6 sample_filled ESP_OK w] assms by simp
  show "worker_reachable orderly sample_api sample_layout sample_calls (fan_env orderly all_calls_succeed)
      (sample_running all_calls_succeed) ([], w)"
    by (rule worker_reachable.step [OF sample_filled_reachable step])
qed

text \<open>What a confirmation does once the fan can be quiesced.\<close>

lemma confirm_runs:
  assumes "idle_queues held w" and "fan_quiesce fan (ow_fan w) = Some (ESP_OK, f)"
  shows "\<exists>w'. ota_worker_confirm_running api il fan n w = Some (fst (ota_update_confirm_running api (ow_ota w)), w') \<and>
    ow_busy w' = ow_busy w \<and> ow_fan w' = fan_end_maintenance fan f \<and>
    ow_ota w' = snd (ota_update_confirm_running api (ow_ota w))"
  using assms by (simp add: idle_queues_def ota_worker_confirm_running_def submit_def worker_turn_def
      execute_command_def plain_command_def quiesced_then_def release_command_buffer_def Let_def split_beta)

lemma confirm_needs_quiet:
  assumes "idle_queues held w" and "ota_worker_confirm_running api il fan n w = Some (ESP_OK, w')"
  obtains f where "fan_quiesce fan (ow_fan w) = Some (ESP_OK, f)"
  using assms by (auto simp: idle_queues_def ota_worker_confirm_running_def submit_def worker_turn_def
      execute_command_def plain_command_def quiesced_then_def release_command_buffer_def Let_def
      split: option.splits if_splits)

lemma linked_change: "linked a calls b \<Longrightarrow> a \<noteq> b \<Longrightarrow> \<exists>x f y. (x, f, y) \<in> set calls \<and> x \<noteq> y"
  by (induction a calls b rule: linked.induct) auto

section \<open>Properties\<close>

lemma reachable_worker_ok:
  assumes "reachable valid_output drv (Sleeping, fan0)"
    and "worker_reachable orderly api il (fan_calls drv inputs begin_us end_us) (fan_env orderly drv) fan0 (held, w)"
  shows "ofan.safe orderly p0 w" "idle_queues held w"
  using ofan.worker_reachable_ok [OF assms(2), of p0] reachable_ok [OF assms(1), of p0, folded fan_good_def]
  by (simp_all add: ofan.worker_ok.simps)

text \<open>Confirming the running image ends the maintenance of the fan even while an update is under way: in every
  reachable state with a busy worker, a confirmation that returns \<open>ESP_OK\<close> leaves the
  worker as busy as it was, but maintenance is no longer requested, so the actor takes commands and
  may start the fan while the flash is written.\<close>

lemma confirm_releases_busy_fan:
  assumes "reachable valid_output drv (Sleeping, fan0)"
    and "worker_reachable orderly api il (fan_calls drv inputs begin_us end_us) (fan_env orderly drv) fan0 (held, w)"
    and "ow_busy w"
    and "ota_worker_confirm_running api il (fan_calls drv inputs begin_us end_us) high_water w = Some (ESP_OK, w')"
  shows "ow_busy w' \<and> ou_busy (ow_ota w') = ou_busy (ow_ota w) \<and> \<not> fs_maintenance_requested (ow_fan w')"
proof -
  have idle: "idle_queues held w" by (rule reachable_worker_ok [OF assms(1,2)])
  obtain f where "fan_quiesce (fan_calls drv inputs begin_us end_us) (ow_fan w) = Some (ESP_OK, f)"
    by (rule confirm_needs_quiet [OF idle assms(4)])
  from confirm_runs [OF idle this, of api il high_water] show ?thesis
    using assms(3,4) by (auto simp: fan_calls_def)
qed

lemma sample_quiesces_again:
  "map_option (\<lambda>r. map_option fst (fan_quiesce sample_calls (snd r)))
     (fan_quiesce sample_calls (sample_running all_calls_succeed)) = Some (Some ESP_OK)"
  by code_simp

lemma confirm_releases_busy_fan_sample:
  "\<exists>w w'. ow_busy w \<and> fs_maintenance_requested (ow_fan w) \<and>
     ota_worker_confirm_running sample_api sample_layout sample_calls 900 w = Some (ESP_OK, w') \<and>
     ow_busy w' \<and> \<not> fs_maintenance_requested (ow_fan w')"
proof -
  obtain w where w: "ota_worker_begin_and_write sample_api sample_layout sample_calls 900 (Some 0) 4 6
      sample_filled = Some (ESP_OK, w)" "ow_busy w"
      "fan_quiesce sample_calls (sample_running all_calls_succeed) = Some (ESP_OK, ow_fan w)"
    using sample_update_starts by blast
  note r = sample_update_reachable(1) [OF w(1), of True]
  have idle: "idle_queues [] w" by (rule reachable_worker_ok [OF sample_reachable r])
  have "fan_halted (ow_fan w)"
    using reachable_worker_ok(1) [OF sample_reachable r, of undriven_pads] w(2) by (simp add: ofan.safe_def)
  then have halted: "fs_maintenance_requested (ow_fan w)" by (simp add: fan_halted_def)
  obtain f where "fan_quiesce sample_calls (ow_fan w) = Some (ESP_OK, f)"
    using sample_quiesces_again w(3) by auto
  from confirm_runs [OF idle this, of sample_api sample_layout 900] obtain w' where
    run: "ota_worker_confirm_running sample_api sample_layout sample_calls 900 w = Some (ESP_OK, w')"
    by (auto simp: ota_update_confirm_running_def sample_api_def)
  show ?thesis using confirm_releases_busy_fan [OF sample_reachable r w(2) run] w(2) halted run by blast
qed

text \<open>C20. The fan stays off as long as an update is under way in an orderly run, one in which nobody ends the
  maintenance of the fan, or confirms the running image, while the worker is busy: in every
  state that the worker, its callers and the fan actor reach then, while the worker is busy the
  actor is in maintenance and quiesced, its applied speed is Off and no decoder output is active.
  The code does not see to it that runs are orderly: from every state of every run, a confirmation that
  returns \<open>ESP_OK\<close> to a busy worker leaves it busy with the maintenance over. In every run the
  flash session is only open while the worker is busy.\<close>

theorem busy_means_fan_off:
  assumes "reachable valid_output drv (Sleeping, fan0)"
    and "worker_reachable orderly api il (fan_calls drv inputs begin_us end_us) (fan_env orderly drv) fan0 (held, w)"
  shows "(ou_busy (ow_ota w) \<longrightarrow> ow_busy w) \<and>
    (orderly \<and> ow_busy w \<longrightarrow> fs_maintenance_requested (ow_fan w) \<and> fs_quiesced (ow_fan w) \<and>
       fc_applied_speed (fs_local (ow_fan w)) = FAN_SPEED_OFF \<and> driver_output p0 (fs_hw (ow_fan w)) = None) \<and>
    (\<forall>high_water w'. ow_busy w \<and>
       ota_worker_confirm_running api il (fan_calls drv inputs begin_us end_us) high_water w = Some (ESP_OK, w') \<longrightarrow>
       ow_busy w' \<and> \<not> fs_maintenance_requested (ow_fan w'))"
proof -
  have safe: "ofan.safe orderly p0 w" by (rule reachable_worker_ok [OF assms])
  then have "fan_good p0 (ow_fan w)" "orderly \<and> ow_busy w \<longrightarrow> fan_halted (ow_fan w)" "ou_busy (ow_ota w) \<longrightarrow> ow_busy w"
    by (simp_all add: ofan.safe_def)
  then have "ou_busy (ow_ota w) \<longrightarrow> ow_busy w"
    "orderly \<and> ow_busy w \<longrightarrow> fs_maintenance_requested (ow_fan w) \<and> fs_quiesced (ow_fan w) \<and>
       fc_applied_speed (fs_local (ow_fan w)) = FAN_SPEED_OFF \<and> driver_output p0 (fs_hw (ow_fan w)) = None"
    by (simp_all add: fan_halted_def fan_good_def sys_defs speed_output_def)
  moreover have "\<forall>high_water w'. ow_busy w \<and>
      ota_worker_confirm_running api il (fan_calls drv inputs begin_us end_us) high_water w = Some (ESP_OK, w') \<longrightarrow>
      ow_busy w' \<and> \<not> fs_maintenance_requested (ow_fan w')"
    using confirm_releases_busy_fan [OF assms] by blast
  ultimately show ?thesis by (intro conjI)
qed

theorem busy_means_fan_off_witness:
  "\<exists>w. ow_busy w \<and> fs_quiesced (ow_fan w) \<and> driver_output undriven_pads (fs_hw (ow_fan w)) = None \<and>
     worker_reachable True sample_api sample_layout sample_calls (fan_env True all_calls_succeed)
       (sample_running all_calls_succeed) ([], w)"
proof -
  obtain w where w: "ota_worker_begin_and_write sample_api sample_layout sample_calls 900 (Some 0) 4 6
      sample_filled = Some (ESP_OK, w)" "ow_busy w"
    using sample_update_starts by blast
  note r = sample_update_reachable(1) [OF w(1), of True]
  show ?thesis using busy_means_fan_off [OF sample_reachable r, of undriven_pads] w(2) r by blast
qed

text \<open>C21. Flash is only written with the fan off, in an orderly run: whenever a step of the worker or of a
  caller changes the flash, it does so by the calls into \<open>ota_update.c\<close> logged in this step, one after the other, and at the
  moment of each call that changes it the fan is in maintenance and quiesced, with no decoder
  output active.\<close>

theorem flash_changes_with_fan_off:
  assumes "reachable valid_output drv (Sleeping, fan0)"
    and "worker_reachable True api il (fan_calls drv inputs begin_us end_us) (fan_env True drv) fan0 (held, w)"
    and "worker_step True api il (fan_calls drv inputs begin_us end_us) (fan_env True drv) (held, w) (held', w')"
  shows "\<exists>calls. ow_flash_log w' = ow_flash_log w @ calls \<and>
    linked (ou_flash (ow_ota w)) calls (ou_flash (ow_ota w')) \<and>
    (\<forall>(before, f, after) \<in> set calls. before \<noteq> after \<longrightarrow>
       fs_maintenance_requested f \<and> fs_quiesced f \<and> driver_output p0 (fs_hw f) = None)"
proof -
  have off: "ofan.stopped True p0 f \<Longrightarrow> fs_maintenance_requested f \<and> fs_quiesced f \<and> driver_output p0 (fs_hw f) = None" for f
    by (simp add: ofan.stopped_def fan_halted_def fan_good_def sys_defs speed_output_def)
  have "ofan.worker_ok True p0 (held, w)"
    using reachable_worker_ok [OF assms(1,2)] by (simp add: ofan.worker_ok.simps)
  then have "ofan.guarded True p0 w w'" using ofan.worker_step_ok [OF assms(3)] by simp
  then show ?thesis unfolding flash_guarded_def using off by fast
qed

theorem flash_changes_with_fan_off_witness:
  "\<exists>(w :: (_, _) worker) calls before f after. ow_flash_log w = ow_flash_log sample_filled @ calls \<and> (before, f, after) \<in> set calls \<and>
     before \<noteq> after \<and> fs_quiesced f \<and> driver_output undriven_pads (fs_hw f) = None"
proof -
  obtain w where w: "ota_worker_begin_and_write sample_api sample_layout sample_calls 900 (Some 0) 4 6
      sample_filled = Some (ESP_OK, w)" "sf_mem (ou_flash (ow_ota w)) (sample_slot 1) 0 = 0xE9"
    using sample_update_starts by blast
  have "sf_mem (ou_flash (ow_ota sample_filled)) (sample_slot 1) 0 = 0x5a" by (simp add: sample_ota_def)
  then have changed: "ou_flash (ow_ota sample_filled) \<noteq> ou_flash (ow_ota w)" using w(2) by fastforce
  from flash_changes_with_fan_off [OF sample_reachable sample_filled_reachable
      sample_update_reachable(2) [OF w(1)], of undriven_pads] obtain calls where
    calls: "ow_flash_log w = ow_flash_log sample_filled @ calls"
      "linked (ou_flash (ow_ota sample_filled)) calls (ou_flash (ow_ota w))"
      "\<forall>(before, f, after) \<in> set calls. before \<noteq> after \<longrightarrow> fs_maintenance_requested f \<and> fs_quiesced f \<and>
         driver_output undriven_pads (fs_hw f) = None" by blast
  obtain before f after where c: "(before, f, after) \<in> set calls" "before \<noteq> after"
    using linked_change [OF calls(2) changed] by (elim exE conjE)
  have "fs_quiesced f \<and> driver_output undriven_pads (fs_hw f) = None"
    using bspec [OF calls(3) c(1)] c(2) by simp
  then have "ow_flash_log w = ow_flash_log sample_filled @ calls \<and> (before, f, after) \<in> set calls \<and>
      before \<noteq> after \<and> fs_quiesced f \<and> driver_output undriven_pads (fs_hw f) = None"
    by (intro conjI calls(1) c) simp_all
  then show ?thesis by blast
qed

text \<open>C22. The worker always answers and never loses a buffer: in every reachable state, orderly or not, its queue
  is empty, its two buffers are free or held by a caller, each exactly once, and every command
  submitted then comes back with a result; no
  array is read out of range and no queue blocks.\<close>

theorem worker_answers:
  assumes "reachable valid_output drv (Sleeping, fan0)"
    and "worker_reachable orderly api il (fan_calls drv inputs begin_us end_us) (fan_env orderly drv) fan0 (held, w)"
    and "wc_type command \<in> {COMMAND_BEGIN_AND_WRITE, COMMAND_WRITE} \<longrightarrow>
      (\<exists>i \<in> set held. wc_buffer_index command = of_nat i) \<and> wc_length command \<le> OTA_BUFFER_SIZE"
  shows "ow_commands w = [] \<and> (\<exists>free. ow_free w = Some free \<and> mset (map unat free @ held) = {#0, 1#}) \<and>
    (\<exists>err w'. submit api il (fan_calls drv inputs begin_us end_us) high_water command w = Some (err, w'))"
proof -
  have idle: "idle_queues held w" by (rule reachable_worker_ok [OF assms(1,2)])
  have "ofan.safe orderly undriven_pads w" by (rule reachable_worker_ok [OF assms(1,2)])
  then have safe: "ofan.safe False undriven_pads w" by (simp add: ofan.safe_def)
  have "\<exists>err w'. submit api il (fan_calls drv inputs begin_us end_us) high_water command w = Some (err, w')"
  proof (cases "wc_type command \<in> {COMMAND_BEGIN_AND_WRITE, COMMAND_WRITE}")
    case True
    then obtain i where "i \<in> set held" "wc_buffer_index command = of_nat i" "wc_length command \<le> OTA_BUFFER_SIZE"
      using assms(3) by blast
    then show ?thesis using ofan.submit_buffer [OF safe idle] True by blast
  next
    case False
    then show ?thesis using ofan.submit_plain [OF safe idle] by blast
  qed
  then show ?thesis using idle by (simp add: idle_queues_def each_once_def)
qed

theorem worker_answers_witness:
  "\<exists>err w. submit sample_api sample_layout sample_calls 900
     \<lparr>wc_type = COMMAND_BEGIN_AND_WRITE, wc_buffer_index = 0, wc_length = 4, wc_image_size = 6\<rparr>
     sample_filled = Some (err, w)"
  using worker_answers [OF sample_reachable sample_filled_reachable, of
    "\<lparr>wc_type = COMMAND_BEGIN_AND_WRITE, wc_buffer_index = 0, wc_length = 4, wc_image_size = 6\<rparr>" 900]
  by simp

end
