(* ===== verification/Leds.thy ===== *)
theory Leds
  imports Board
begin

text \<open>
  \<open>components/leds\<close>: nine LEDs on one PWM channel. A pin that the matrix connects to the
  channel shows its duty, any other is off. The LEDC and GPIO calls go to a driver that
  answers by the calls made before; the record of the calls is the state of the hardware.
\<close>

section \<open>Driver calls\<close>

datatype led_signal = LEDC_LS_SIG_OUT0 | SIG_GPIO_OUT

datatype led_call = Timer_Config | Channel_Config gpio | Set_Duty u32 | Update_Duty
  | Set_Direction_Output gpio | Set_Pin_Level gpio u32 | Matrix_Out gpio led_signal

text \<open>Newest call first; \<open>gpio_matrix_out\<close> returns nothing.\<close>

type_synonym led_driver = "led_call list \<Rightarrow> led_call \<Rightarrow> esp_err"

text \<open>\<open>ld_signal\<close> is \<open>ledc_signal_id\<close>, unset before the initialisation.\<close>

record leds =
  ld_signal :: "led_signal option"
  ld_initialized :: bool
  ld_log :: "led_call list"

abbreviation (input) PWM_MAX_DUTY :: u32 where "PWM_MAX_DUTY \<equiv> 255"

definition led_do :: "led_driver \<Rightarrow> led_call \<Rightarrow> leds op" where
  "led_do drv c s = (drv (ld_log s) c, s\<lparr>ld_log := c # ld_log s\<rparr>)"

definition gpio_matrix_out :: "gpio \<Rightarrow> led_signal option \<Rightarrow> leds op" where
  "gpio_matrix_out pin signal s =
     (ESP_OK, case signal of None \<Rightarrow> s | Some x \<Rightarrow> s\<lparr>ld_log := Matrix_Out pin x # ld_log s\<rparr>)"

section \<open>Operations\<close>

definition leds_set_led_state :: "led_driver \<Rightarrow> u8 \<Rightarrow> bool \<Rightarrow> leds op" where
  "leds_set_led_state drv led_index enable_pwm s =
     (if \<not> ld_initialized s then (ESP_ERR_INVALID_STATE, s)
      else if of_nat NUM_LEDS \<le> led_index then (ESP_ERR_INVALID_ARG, s)
      else
        let pin = led_gpios ! unat led_index
        in if enable_pwm
           then return_on_errors
                  [led_do drv (Set_Direction_Output pin), gpio_matrix_out pin (ld_signal s)] s
           else return_on_errors
                  [led_do drv (Set_Direction_Output pin), led_do drv (Set_Pin_Level pin 0),
                   gpio_matrix_out pin (Some SIG_GPIO_OUT)] s)"

definition leds_set_pwm_value :: "led_driver \<Rightarrow> u32 \<Rightarrow> leds op" where
  "leds_set_pwm_value drv duty_value s =
     (if \<not> ld_initialized s then (ESP_ERR_INVALID_STATE, s)
      else if PWM_MAX_DUTY < duty_value then (ESP_ERR_INVALID_ARG, s)
      else return_on_errors [led_do drv (Set_Duty duty_value), led_do drv Update_Duty] s)"

text \<open>All LEDs off, in order, up to the first failure.\<close>

definition all_leds_off :: "led_driver \<Rightarrow> leds op" where
  "all_leds_off drv = return_on_errors (map (\<lambda>i. leds_set_led_state drv (of_nat i) False) [0..<NUM_LEDS])"

definition leds_init :: "led_driver \<Rightarrow> leds op" where
  "leds_init drv s =
     return_on_errors
       [led_do drv Timer_Config,
        led_do drv (Channel_Config (led_gpios ! 0)),
        (\<lambda>s. (ESP_OK, s\<lparr>ld_signal := Some LEDC_LS_SIG_OUT0, ld_initialized := True\<rparr>)),
        all_leds_off drv]
       (s\<lparr>ld_initialized := False\<rparr>)"

section \<open>What the hardware shows\<close>

text \<open>The channel configuration routes its pin too; the last routing of a pin counts.\<close>

fun routed :: "led_call list \<Rightarrow> gpio \<Rightarrow> bool" where
  "routed [] pin \<longleftrightarrow> False"
| "routed (Matrix_Out p x # cs) pin \<longleftrightarrow> (if p = pin then x = LEDC_LS_SIG_OUT0 else routed cs pin)"
| "routed (Channel_Config p # cs) pin \<longleftrightarrow> p = pin \<or> routed cs pin"
| "routed (_ # cs) pin \<longleftrightarrow> routed cs pin"

text \<open>A duty takes effect at the next update.\<close>

fun staged_duty :: "led_call list \<Rightarrow> u32" where
  "staged_duty [] = 0"
| "staged_duty (Set_Duty d # cs) = d"
| "staged_duty (_ # cs) = staged_duty cs"

fun shown_duty :: "led_call list \<Rightarrow> u32" where
  "shown_duty [] = 0"
| "shown_duty (Update_Duty # cs) = staged_duty cs"
| "shown_duty (_ # cs) = shown_duty cs"

definition lit :: "leds \<Rightarrow> nat \<Rightarrow> bool" where
  "lit s i \<longleftrightarrow> i < NUM_LEDS \<and> routed (ld_log s) (led_gpios ! i)"

definition leds_ready :: "leds \<Rightarrow> bool" where
  "leds_ready s \<longleftrightarrow> ld_initialized s \<and> ld_signal s = Some LEDC_LS_SIG_OUT0"

text \<open>A driver whose calls succeed.\<close>

definition leds_work :: "led_driver \<Rightarrow> bool" where
  "leds_work drv \<longleftrightarrow> (\<forall>h c. drv h c = ESP_OK)"

lemma led_pin_inject: "i < NUM_LEDS \<Longrightarrow> j < NUM_LEDS \<Longrightarrow> led_gpios ! i = led_gpios ! j \<longleftrightarrow> i = j"
  by (rule nth_eq_iff_index_eq) (simp_all add: led_gpios_def)

lemma set_led_state_works:
  assumes "leds_work drv" and "leds_ready s" and "i < NUM_LEDS"
  shows "\<exists>s'. leds_set_led_state drv (of_nat i) b s = (ESP_OK, s') \<and> leds_ready s' \<and>
    lit s' = (lit s)(i := b) \<and> shown_duty (ld_log s') = shown_duty (ld_log s)"
proof -
  have u: "unat (of_nat i :: u8) = i" "\<not> of_nat NUM_LEDS \<le> (of_nat i :: u8)"
    using assms(3) by (simp_all add: unat_of_nat word_le_nat_alt)
  have eq: "led_gpios ! i = led_gpios ! j \<longleftrightarrow> i = j" if "j < NUM_LEDS" for j
    using led_pin_inject assms(3) that by blast
  show ?thesis
    using assms u
    by (cases b) (auto simp: leds_set_led_state_def leds_work_def leds_ready_def led_do_def
        gpio_matrix_out_def lit_def eq fun_eq_iff Let_def)
qed

lemma set_pwm_works:
  assumes "leds_work drv" and "leds_ready s" and "d \<le> PWM_MAX_DUTY"
  shows "\<exists>s'. leds_set_pwm_value drv d s = (ESP_OK, s') \<and> leds_ready s' \<and> lit s' = lit s \<and>
    shown_duty (ld_log s') = d"
  using assms leD [OF assms(3)]
  by (auto simp: leds_set_pwm_value_def leds_work_def leds_ready_def led_do_def lit_def fun_eq_iff)

lemma leds_off_works:
  assumes "leds_work drv" and "leds_ready s" and "n \<le> NUM_LEDS"
  shows "\<exists>s'. return_on_errors (map (\<lambda>i. leds_set_led_state drv (of_nat i) False) [0..<n]) s = (ESP_OK, s') \<and>
    leds_ready s' \<and> (\<forall>i. lit s' i \<longleftrightarrow> n \<le> i \<and> lit s i) \<and> shown_duty (ld_log s') = shown_duty (ld_log s)"
  using assms(3)
proof (induction n)
  case (Suc n)
  then obtain s1 where s1: "return_on_errors (map (\<lambda>i. leds_set_led_state drv (of_nat i) False) [0..<n]) s = (ESP_OK, s1)"
    "leds_ready s1" "\<forall>i. lit s1 i \<longleftrightarrow> n \<le> i \<and> lit s i" "shown_duty (ld_log s1) = shown_duty (ld_log s)" by auto
  have "n < NUM_LEDS" using Suc.prems by simp
  from set_led_state_works [OF assms(1) s1(2) this, of False] s1
  show ?case by (fastforce simp: return_on_errors_append)
qed (use assms(2) in simp)

lemma all_leds_off_works:
  assumes "leds_work drv" and "leds_ready s"
  shows "\<exists>s'. all_leds_off drv s = (ESP_OK, s') \<and> leds_ready s' \<and> (\<forall>i. \<not> lit s' i) \<and>
    shown_duty (ld_log s') = shown_duty (ld_log s)"
  using leds_off_works [OF assms, of NUM_LEDS] by (fastforce simp: all_leds_off_def lit_def)

lemma leds_init_works:
  assumes "leds_work drv"
  shows "\<exists>s'. leds_init drv s = (ESP_OK, s') \<and> leds_ready s' \<and> (\<forall>i. \<not> lit s' i)"
proof -
  let ?s = "s\<lparr>ld_log := Channel_Config (led_gpios ! 0) # Timer_Config # ld_log s,
    ld_signal := Some LEDC_LS_SIG_OUT0, ld_initialized := True\<rparr>"
  have "leds_ready ?s" by (simp add: leds_ready_def)
  then show ?thesis
    using all_leds_off_works [OF assms, of ?s] assms by (auto simp: leds_init_def led_do_def leds_work_def)
qed

end
