(* ===== verification/Controller.thy ===== *)
theory Controller
  imports Leds FanActor
begin

text \<open>
  \<open>main/controller.c\<close>: the panel. Keys become fan commands or change the LED brightness, and the
  LEDs show the fan's snapshot, the timer and the network status. \<open>free\<close> says whether the UI
  mutex could be taken in time, \<open>view\<close> what reading the fan's snapshot gave. What the panel has to show is
  stated over the history of its calls (\<open>ui_run\<close>).
\<close>

section \<open>State\<close>

type_synonym led_brightness = u32
type_synonym network_status = u32

abbreviation (input) LED_BRIGHTNESS_HIGH :: led_brightness where "LED_BRIGHTNESS_HIGH \<equiv> 0"
abbreviation (input) NUM_LED_BRIGHTNESS_LEVELS :: led_brightness where "NUM_LED_BRIGHTNESS_LEVELS \<equiv> 4"
abbreviation (input) TOUCH_DEBOUNCE_MS :: u32 where "TOUCH_DEBOUNCE_MS \<equiv> 150"
abbreviation (input) LED_WAKE_DURATION_MS :: u32 where "LED_WAKE_DURATION_MS \<equiv> 3000"
abbreviation (input) NETWORK_LED :: nat where "NETWORK_LED \<equiv> 1"

abbreviation (input) CONTROLLER_NETWORK_OFFLINE :: network_status where "CONTROLLER_NETWORK_OFFLINE \<equiv> 0"
abbreviation (input) CONTROLLER_NETWORK_CONNECTING :: network_status where "CONTROLLER_NETWORK_CONNECTING \<equiv> 1"
abbreviation (input) CONTROLLER_NETWORK_PROVISIONING :: network_status where "CONTROLLER_NETWORK_PROVISIONING \<equiv> 2"
abbreviation (input) CONTROLLER_NETWORK_CONNECTED :: network_status where "CONTROLLER_NETWORK_CONNECTED \<equiv> 3"
abbreviation (input) CONTROLLER_NETWORK_UPDATING :: network_status where "CONTROLLER_NETWORK_UPDATING \<equiv> 4"

definition s_led_brightness_duty :: "u8 list" where
  "s_led_brightness_duty = [255, 128, 13, 0]"

definition s_fan_shutoff_led_map :: "led_index list" where
  "s_fan_shutoff_led_map = [LED_9, LED_6, LED_3, LED_OFF]"

record ui_state =
  ui_led_brightness :: led_brightness
  ui_last_key_tick :: "tick list"
  ui_has_key_tick :: "bool list"
  ui_last_non_dimmer_touch_tick :: tick
  ui_brightness_wake_active :: bool
  ui_network_status :: network_status
  ui_network_led_last_toggle_tick :: tick
  ui_network_led_visible :: bool
  ui_rendered_speed :: fan_speed
  ui_rendered_timer :: fan_shutoff_mode
  ui_rendered_fault :: bool

text \<open>\<open>ct_lock\<close> is \<open>s_lock != NULL\<close>; the LED driver and the fan actor are the parts it drives.\<close>

record controller =
  ct_lock :: bool
  ct_led_available :: bool
  ct_ui :: ui_state
  ct_leds :: leds
  ct_fan :: fan_sys

record controller_snapshot =
  cs_fan_speed :: fan_speed
  cs_desired_speed :: fan_speed
  cs_led_brightness_percent :: u8
  cs_shutoff_mode :: u8
  cs_shutoff_active :: bool
  cs_pending :: bool
  cs_fault_latched :: bool
  cs_maintenance_active :: bool
  cs_accepted_sequence :: u32
  cs_applied_sequence :: u32
  cs_last_change_source :: fan_control_source
  cs_control_state :: fan_control_state

section \<open>LEDs\<close>

definition take_lock :: "bool \<Rightarrow> controller \<Rightarrow> bool" where
  "take_lock free c \<longleftrightarrow> ct_lock c \<and> free"

definition on_leds :: "leds op \<Rightarrow> controller op" where
  "on_leds f c = (case f (ct_leds c) of (err, l) \<Rightarrow> (err, c\<lparr>ct_leds := l\<rparr>))"

definition apply_network_led_locked :: "led_driver \<Rightarrow> controller op" where
  "apply_network_led_locked drv c =
     (if \<not> ct_led_available c then (ESP_OK, c)
      else on_leds (leds_set_led_state drv (of_nat NETWORK_LED) (ui_network_led_visible (ct_ui c))) c)"

definition mark_rendered :: "fan_control_snapshot \<Rightarrow> controller op" where
  "mark_rendered fan c =
     (ESP_OK, c\<lparr>ct_ui := (ct_ui c)\<lparr>ui_rendered_speed := fc_applied_speed fan,
        ui_rendered_timer := fc_shutoff_mode fan, ui_rendered_fault := fc_fault_latched fan\<rparr>\<rparr>)"

text \<open>The LEDs of a running fan; a shut-off mode outside the table would be read out of bounds.\<close>

definition status_leds :: "led_driver \<Rightarrow> fan_control_snapshot \<Rightarrow> memory_fault + controller op list" where
  "status_leds drv fan =
     (if fc_applied_speed fan \<noteq> FAN_SPEED_OFF \<and> \<not> fc_fault_latched fan then
        if length s_fan_shutoff_led_map \<le> unat (fc_shutoff_mode fan) then Inl OutOfBounds
        else
          let fan_led = fan_led_map ! unat (fc_applied_speed fan);
              timer_led = s_fan_shutoff_led_map ! unat (fc_shutoff_mode fan)
          in Inr (on_leds (leds_set_led_state drv (of_int fan_led) True) #
                  (if timer_led \<noteq> LED_OFF
                   then [on_leds (leds_set_led_state drv (of_int timer_led) True)] else []))
      else Inr [])"

definition render_status_leds_locked ::
    "led_driver \<Rightarrow> fan_control_snapshot \<Rightarrow> controller \<Rightarrow> memory_fault + esp_err \<times> controller" where
  "render_status_leds_locked drv fan c =
     (if NUM_FAN_SPEEDS \<le> fc_applied_speed fan then Inr (ESP_ERR_INVALID_STATE, c)
      else if \<not> ct_led_available c then Inr (mark_rendered fan c)
      else case status_leds drv fan of
        Inl e \<Rightarrow> Inl e
      | Inr steps \<Rightarrow>
          Inr (return_on_errors
                 (on_leds (all_leds_off drv) # steps @ [mark_rendered fan, apply_network_led_locked drv]) c))"

definition apply_led_brightness_locked :: "led_driver \<Rightarrow> led_brightness \<Rightarrow> controller op" where
  "apply_led_brightness_locked drv brightness c =
     (if \<not> ct_led_available c then (ESP_OK, c)
      else on_leds (leds_set_pwm_value drv (ucast (s_led_brightness_duty ! unat brightness))) c)"

definition set_led_brightness_locked :: "led_driver \<Rightarrow> led_brightness \<Rightarrow> controller op" where
  "set_led_brightness_locked drv brightness c =
     (if NUM_LED_BRIGHTNESS_LEVELS \<le> brightness then (ESP_ERR_INVALID_ARG, c)
      else apply_led_brightness_locked drv brightness
             (c\<lparr>ct_ui := (ct_ui c)\<lparr>ui_led_brightness := brightness, ui_brightness_wake_active := False\<rparr>\<rparr>))"

definition wake_led_brightness_locked :: "led_driver \<Rightarrow> tick \<Rightarrow> controller op" where
  "wake_led_brightness_locked drv now c =
     (if ui_led_brightness (ct_ui c) = LED_BRIGHTNESS_HIGH then (ESP_OK, c)
      else apply_led_brightness_locked drv LED_BRIGHTNESS_HIGH
             (c\<lparr>ct_ui := (ct_ui c)\<lparr>ui_last_non_dimmer_touch_tick := now, ui_brightness_wake_active := True\<rparr>\<rparr>))"

definition service_led_wake_locked :: "led_driver \<Rightarrow> tick \<Rightarrow> controller op" where
  "service_led_wake_locked drv now c =
     (if \<not> ui_brightness_wake_active (ct_ui c) \<or>
         now - ui_last_non_dimmer_touch_tick (ct_ui c) < pdMS_TO_TICKS LED_WAKE_DURATION_MS
      then (ESP_OK, c)
      else apply_led_brightness_locked drv (ui_led_brightness (ct_ui c))
             (c\<lparr>ct_ui := (ct_ui c)\<lparr>ui_brightness_wake_active := False\<rparr>\<rparr>))"

definition network_toggle_ms :: "network_status \<Rightarrow> u32 option" where
  "network_toggle_ms status =
     (if status = CONTROLLER_NETWORK_CONNECTING then Some 500
      else if status = CONTROLLER_NETWORK_PROVISIONING then Some 250
      else if status = CONTROLLER_NETWORK_UPDATING then Some 100
      else None)"

definition service_network_led_locked :: "led_driver \<Rightarrow> tick \<Rightarrow> controller op" where
  "service_network_led_locked drv now c =
     (case network_toggle_ms (ui_network_status (ct_ui c)) of
        None \<Rightarrow> (ESP_OK, c)
      | Some toggle_ms \<Rightarrow>
          if now - ui_network_led_last_toggle_tick (ct_ui c) < pdMS_TO_TICKS toggle_ms then (ESP_OK, c)
          else apply_network_led_locked drv
                 (c\<lparr>ct_ui := (ct_ui c)\<lparr>ui_network_led_last_toggle_tick := now,
                    ui_network_led_visible := \<not> ui_network_led_visible (ct_ui c)\<rparr>\<rparr>))"

section \<open>Operations\<close>

definition initial_ui :: ui_state where
  "initial_ui =
     \<lparr>ui_led_brightness = LED_BRIGHTNESS_HIGH, ui_last_key_tick = replicate 6 0,
      ui_has_key_tick = replicate 6 False, ui_last_non_dimmer_touch_tick = 0,
      ui_brightness_wake_active = False, ui_network_status = CONTROLLER_NETWORK_OFFLINE,
      ui_network_led_last_toggle_tick = 0, ui_network_led_visible = False,
      ui_rendered_speed = NUM_FAN_SPEEDS, ui_rendered_timer = NUM_FAN_SHUTOFF_MODES,
      ui_rendered_fault = False\<rparr>"

type_synonym fan_view = "esp_err \<times> fan_control_snapshot option"

definition controller_init ::
    "led_driver \<Rightarrow> bool \<Rightarrow> fan_view \<Rightarrow> controller \<Rightarrow> memory_fault + esp_err \<times> controller" where
  "controller_init drv created view c =
     (if ct_lock c then Inr (ESP_ERR_INVALID_STATE, c)
      else if \<not> created then Inr (ESP_ERR_NO_MEM, c)
      else
        let c = c\<lparr>ct_lock := True, ct_ui := initial_ui\<rparr>;
            c = snd (set_led_brightness_locked drv LED_BRIGHTNESS_HIGH c)
        in case view of
             (err, Some fan) \<Rightarrow>
               if err \<noteq> ESP_OK then Inr (err, c)
               else (case render_status_leds_locked drv fan c of
                       Inl e \<Rightarrow> Inl e | Inr (_, c) \<Rightarrow> Inr (ESP_OK, c))
           | (err, None) \<Rightarrow> Inr (err, c))"

definition controller_set_led_available ::
    "led_driver \<Rightarrow> bool \<Rightarrow> fan_view \<Rightarrow> bool \<Rightarrow> controller \<Rightarrow> memory_fault + controller" where
  "controller_set_led_available drv free view available c =
     (let c = c\<lparr>ct_led_available := available\<rparr>
      in if available \<and> take_lock free c then
           let c = snd (apply_led_brightness_locked drv (ui_led_brightness (ct_ui c)) c)
           in (case view of
                 (err, Some fan) \<Rightarrow>
                   if err = ESP_OK then map_sum id snd (render_status_leds_locked drv fan c) else Inr c
               | (_, None) \<Rightarrow> Inr c)
         else Inr c)"

text \<open>The command of a key: \<open>pass\<close> is whether the fan's mailbox takes it.\<close>

definition key_command :: "led_driver \<Rightarrow> bool \<Rightarrow> fan_view \<Rightarrow> u8 \<Rightarrow> controller op" where
  "key_command drv pass view key c =
     (let submit = (\<lambda>action. case fan_control_submit_action pass view action (ct_fan c) of
                               (err, _, fan) \<Rightarrow> (err, c\<lparr>ct_fan := fan\<rparr>))
      in if key = 1 then submit FAN_CONTROL_ACTION_CYCLE_NORMAL
      else if key = 2 then submit FAN_CONTROL_ACTION_TOGGLE_TURBO
      else if key = 3 then
        set_led_brightness_locked drv ((ui_led_brightness (ct_ui c) + 1) mod NUM_LED_BRIGHTNESS_LEVELS) c
      else if key = 6 then submit FAN_CONTROL_ACTION_CYCLE_TIMER
      else (ESP_OK, c))"

definition controller_handle_key ::
    "led_driver \<Rightarrow> bool \<Rightarrow> bool \<Rightarrow> fan_view \<Rightarrow> u8 \<Rightarrow> tick \<Rightarrow> controller op" where
  "controller_handle_key drv free pass view key now c =
     (if key < 1 \<or> 6 < key then (ESP_OK, c)
      else if \<not> take_lock free c then (ESP_ERR_TIMEOUT, c)
      else
        let index = unat (key - 1); ui = ct_ui c
        in if ui_has_key_tick ui ! index \<and>
              now - ui_last_key_tick ui ! index < pdMS_TO_TICKS TOUCH_DEBOUNCE_MS
        then (ESP_OK, c)
        else
          let c = c\<lparr>ct_ui := ui\<lparr>ui_last_key_tick := (ui_last_key_tick ui)[index := now],
                               ui_has_key_tick := (ui_has_key_tick ui)[index := True]\<rparr>\<rparr>
          in (case key_command drv pass view key c of (err, c) \<Rightarrow>
                if err = ESP_OK \<and> key \<noteq> 3 then wake_led_brightness_locked drv now c else (err, c)))"

definition controller_service ::
    "led_driver \<Rightarrow> bool \<Rightarrow> fan_view \<Rightarrow> tick \<Rightarrow> controller \<Rightarrow> memory_fault + esp_err \<times> controller" where
  "controller_service drv free view now c =
     (if \<not> take_lock free c then Inr (ESP_ERR_TIMEOUT, c)
      else case return_on_errors [service_led_wake_locked drv now, service_network_led_locked drv now] c of
        (err, c) \<Rightarrow>
          (case view of
             (read_err, Some fan) \<Rightarrow>
               if err = ESP_OK \<and> read_err = ESP_OK \<and>
                  (fc_applied_speed fan \<noteq> ui_rendered_speed (ct_ui c) \<or>
                   fc_shutoff_mode fan \<noteq> ui_rendered_timer (ct_ui c) \<or>
                   fc_fault_latched fan \<noteq> ui_rendered_fault (ct_ui c))
               then render_status_leds_locked drv fan c else Inr (err, c)
           | (_, None) \<Rightarrow> Inr (err, c)))"

definition controller_set_remote_fan_speed ::
    "bool \<Rightarrow> fan_view \<Rightarrow> fan_speed \<Rightarrow> controller \<Rightarrow> esp_err \<times> u32 option \<times> controller" where
  "controller_set_remote_fan_speed pass view speed c =
     (case fan_control_submit_speed pass view speed FAN_CONTROL_SOURCE_REST True (ct_fan c) of
        (err, sequence, fan) \<Rightarrow> (err, sequence, c\<lparr>ct_fan := fan\<rparr>))"

definition controller_set_network_status ::
    "led_driver \<Rightarrow> bool \<Rightarrow> tick \<Rightarrow> network_status \<Rightarrow> controller op" where
  "controller_set_network_status drv free now status c =
     (if CONTROLLER_NETWORK_UPDATING < status then (ESP_ERR_INVALID_ARG, c)
      else if \<not> take_lock free c then (ESP_ERR_TIMEOUT, c)
      else if ui_network_status (ct_ui c) = status then (ESP_OK, c)
      else apply_network_led_locked drv
             (c\<lparr>ct_ui := (ct_ui c)\<lparr>ui_network_status := status, ui_network_led_last_toggle_tick := now,
                ui_network_led_visible := status \<noteq> CONTROLLER_NETWORK_OFFLINE\<rparr>\<rparr>))"

definition controller_get_snapshot ::
    "bool \<Rightarrow> fan_view \<Rightarrow> bool \<Rightarrow> controller \<Rightarrow> esp_err \<times> controller_snapshot option" where
  "controller_get_snapshot free view snapshot c =
     (if \<not> snapshot then (ESP_ERR_INVALID_ARG, None)
      else case view of
        (err, Some fan) \<Rightarrow>
          if err \<noteq> ESP_OK then (err, None)
          else if \<not> take_lock free c then (ESP_ERR_TIMEOUT, None)
          else (ESP_OK, Some
            \<lparr>cs_fan_speed = fc_applied_speed fan, cs_desired_speed = fc_desired_speed fan,
             cs_led_brightness_percent =
               ucast ((ucast (s_led_brightness_duty ! unat (ui_led_brightness (ct_ui c))) * 100 :: u32) div 255),
             cs_shutoff_mode = ucast (fc_shutoff_mode fan), cs_shutoff_active = fc_shutoff_active fan,
             cs_pending = fc_pending fan, cs_fault_latched = fc_fault_latched fan,
             cs_maintenance_active = fc_maintenance_active fan,
             cs_accepted_sequence = fc_accepted_sequence fan,
             cs_applied_sequence = fc_applied_sequence fan,
             cs_last_change_source = fc_last_change_source fan, cs_control_state = fc_state fan\<rparr>)
      | (err, None) \<Rightarrow> (err, None))"

definition controller_source_name :: "fan_control_source \<Rightarrow> string" where
  "controller_source_name source = fan_control_source_name source"

definition controller_shutoff_mode_name :: "u8 \<Rightarrow> string" where
  "controller_shutoff_mode_name mode = fan_control_shutoff_mode_name (ucast mode)"

section \<open>The panel\<close>

text \<open>Which LEDs are to be lit: the fan LED of a running fan, the LED of its timer, and the
  network LED while visible.\<close>

definition panel :: "fan_speed \<Rightarrow> fan_shutoff_mode \<Rightarrow> bool \<Rightarrow> bool \<Rightarrow> nat \<Rightarrow> bool" where
  "panel speed timer fault visible i \<longleftrightarrow> i < NUM_LEDS \<and>
     (speed \<noteq> FAN_SPEED_OFF \<and> \<not> fault \<and>
        (int i = fan_led_map ! unat speed \<or> int i = s_fan_shutoff_led_map ! unat timer) \<or>
      i = NETWORK_LED \<and> visible)"

definition rendered :: "ui_state \<Rightarrow> nat \<Rightarrow> bool" where
  "rendered ui = panel (ui_rendered_speed ui) (ui_rendered_timer ui) (ui_rendered_fault ui)
     (ui_network_led_visible ui)"

text \<open>What every published snapshot satisfies.\<close>

definition view_ok :: "fan_view \<Rightarrow> bool" where
  "view_ok view \<longleftrightarrow> (\<forall>fan. snd view = Some fan \<longrightarrow>
     fc_applied_speed fan < NUM_FAN_SPEEDS \<and> fc_shutoff_mode fan < NUM_FAN_SHUTOFF_MODES)"

lemma u32_below_4: "(b :: u32) < 4 \<Longrightarrow> b \<in> {0, 1, 2, 3}"
proof -
  assume "b < 4"
  then have "unat b \<in> {0, 1, 2, 3}" by (auto simp: word_less_nat_alt)
  then show ?thesis by (simp add: word_unat_eq_iff)
qed

lemma u32_below_5: "(b :: u32) < 5 \<Longrightarrow> b \<in> {0, 1, 2, 3, 4}"
proof -
  assume "b < 5"
  then have "unat b \<in> {0, 1, 2, 3, 4}" by (auto simp: word_less_nat_alt)
  then show ?thesis by (simp add: word_unat_eq_iff)
qed

lemma duty_bound: "b < NUM_LED_BRIGHTNESS_LEVELS \<Longrightarrow> ucast (s_led_brightness_duty ! unat b) \<le> PWM_MAX_DUTY"
  using u32_below_4 [of b] by (auto simp: s_led_brightness_duty_def)

lemma apply_brightness_works:
  assumes "leds_work drv" and "ct_led_available c" and "leds_ready (ct_leds c)"
    and "b < NUM_LED_BRIGHTNESS_LEVELS"
  shows "\<exists>l. apply_led_brightness_locked drv b c = (ESP_OK, c\<lparr>ct_leds := l\<rparr>) \<and> leds_ready l \<and>
    lit l = lit (ct_leds c) \<and> shown_duty (ld_log l) = ucast (s_led_brightness_duty ! unat b)"
  using set_pwm_works [OF assms(1,3) duty_bound [OF assms(4)]] assms(2)
  by (auto simp: apply_led_brightness_locked_def on_leds_def)

lemma apply_network_works:
  assumes "leds_work drv" and "ct_led_available c" and "leds_ready (ct_leds c)"
  shows "\<exists>l. apply_network_led_locked drv c = (ESP_OK, c\<lparr>ct_leds := l\<rparr>) \<and> leds_ready l \<and>
    lit l = (lit (ct_leds c))(NETWORK_LED := ui_network_led_visible (ct_ui c)) \<and>
    shown_duty (ld_log l) = shown_duty (ld_log (ct_leds c))"
  using set_led_state_works [OF assms(1,3), of NETWORK_LED "ui_network_led_visible (ct_ui c)"] assms(2)
  by (auto simp: apply_network_led_locked_def on_leds_def)

lemma fan_led_values:
  assumes "speed < NUM_FAN_SPEEDS" and "speed \<noteq> FAN_SPEED_OFF"
  obtains i where "fan_led_map ! unat speed = int i" "i < NUM_LEDS" "i \<noteq> NETWORK_LED"
  using u32_below_5 [OF assms(1)] assms(2) by (auto simp: fan_led_map_def)

lemma timer_led_values:
  assumes "timer < NUM_FAN_SHUTOFF_MODES"
  obtains "s_fan_shutoff_led_map ! unat timer = LED_OFF"
  | i where "s_fan_shutoff_led_map ! unat timer = int i" "i < NUM_LEDS" "i \<noteq> NETWORK_LED"
  using u32_below_4 [OF assms] by (auto simp: s_fan_shutoff_led_map_def)

lemma fan_led_not_network: "speed < NUM_FAN_SPEEDS \<Longrightarrow> fan_led_map ! unat speed \<noteq> int NETWORK_LED"
  using u32_below_5 [of speed] by (auto simp: fan_led_map_def)

lemma timer_led_not_network:
  "timer < NUM_FAN_SHUTOFF_MODES \<Longrightarrow> s_fan_shutoff_led_map ! unat timer \<noteq> int NETWORK_LED"
  using u32_below_4 [of timer] by (auto simp: s_fan_shutoff_led_map_def)

lemma set_led_on_works:
  assumes "leds_work drv" and "leds_ready (ct_leds c)" and "led = int i" and "i < NUM_LEDS"
  shows "\<exists>l. on_leds (leds_set_led_state drv (of_int led) True) c = (ESP_OK, c\<lparr>ct_leds := l\<rparr>) \<and>
    leds_ready l \<and> lit l = (lit (ct_leds c))(i := True) \<and>
    shown_duty (ld_log l) = shown_duty (ld_log (ct_leds c))"
  using set_led_state_works [OF assms(1,2,4), of True] assms(3) by (auto simp: on_leds_def)

lemma leds_off_step:
  assumes "leds_work drv" and "leds_ready (ct_leds c)"
  shows "\<exists>l. on_leds (all_leds_off drv) c = (ESP_OK, c\<lparr>ct_leds := l\<rparr>) \<and> leds_ready l \<and> (\<forall>i. \<not> lit l i) \<and>
    shown_duty (ld_log l) = shown_duty (ld_log (ct_leds c))"
  using all_leds_off_works [OF assms] by (auto simp: on_leds_def)

lemma status_leds_work:
  assumes "leds_work drv" and "leds_ready (ct_leds c)"
    and "fc_applied_speed fan < NUM_FAN_SPEEDS" and "fc_shutoff_mode fan < NUM_FAN_SHUTOFF_MODES"
    and "\<forall>i. \<not> lit (ct_leds c) i"
  shows "\<exists>steps l. status_leds drv fan = Inr steps \<and> return_on_errors steps c = (ESP_OK, c\<lparr>ct_leds := l\<rparr>) \<and>
    leds_ready l \<and> lit l = panel (fc_applied_speed fan) (fc_shutoff_mode fan) (fc_fault_latched fan) False \<and>
    shown_duty (ld_log l) = shown_duty (ld_log (ct_leds c))"
proof (cases "fc_applied_speed fan \<noteq> FAN_SPEED_OFF \<and> \<not> fc_fault_latched fan")
  case False
  then show ?thesis
    using assms(2,5) by (intro exI [of _ "[]"] exI [of _ "ct_leds c"])
      (auto simp: status_leds_def panel_def fun_eq_iff)
next
  case True
  obtain i where i: "fan_led_map ! unat (fc_applied_speed fan) = int i" "i < NUM_LEDS"
    using fan_led_values [OF assms(3)] True by metis
  obtain l where l: "on_leds (leds_set_led_state drv (of_int (int i)) True) c = (ESP_OK, c\<lparr>ct_leds := l\<rparr>)"
    "leds_ready l" "lit l = (lit (ct_leds c))(i := True)" "shown_duty (ld_log l) = shown_duty (ld_log (ct_leds c))"
    using set_led_on_works [OF assms(1,2) refl i(2)] by blast
  have range: "\<not> length s_fan_shutoff_led_map \<le> unat (fc_shutoff_mode fan)"
    using assms(4) by (simp add: s_fan_shutoff_led_map_def word_less_nat_alt)
  show ?thesis
  proof (cases rule: timer_led_values [OF assms(4)])
    case 1
    then show ?thesis
      using True i l range assms(5)
      by (intro exI [of _ "[on_leds (leds_set_led_state drv (of_int (int i)) True)]"] exI [of _ l])
        (auto simp: status_leds_def Let_def panel_def fun_eq_iff)
  next
    case (2 j)
    have ready: "leds_ready (ct_leds (c\<lparr>ct_leds := l\<rparr>))" using l(2) by simp
    obtain l2 where l2: "on_leds (leds_set_led_state drv (of_int (int j)) True) (c\<lparr>ct_leds := l\<rparr>) = (ESP_OK, c\<lparr>ct_leds := l2\<rparr>)"
      "leds_ready l2" "lit l2 = (lit l)(j := True)" "shown_duty (ld_log l2) = shown_duty (ld_log l)"
      using set_led_on_works [OF assms(1) ready refl 2(2)] by auto
    show ?thesis
      using True i l l2 2 range assms(5)
      by (intro exI [of _ "[on_leds (leds_set_led_state drv (of_int (int i)) True),
            on_leds (leds_set_led_state drv (of_int (int j)) True)]"] exI [of _ l2])
        (auto simp: status_leds_def Let_def panel_def fun_eq_iff)
  qed
qed

lemma render_works:
  assumes "leds_work drv" and "ct_led_available c" and "leds_ready (ct_leds c)"
    and "fc_applied_speed fan < NUM_FAN_SPEEDS" and "fc_shutoff_mode fan < NUM_FAN_SHUTOFF_MODES"
  shows "\<exists>l. render_status_leds_locked drv fan c = Inr (ESP_OK, (snd (mark_rendered fan c))\<lparr>ct_leds := l\<rparr>) \<and>
    leds_ready l \<and> lit l = rendered (ct_ui (snd (mark_rendered fan c))) \<and>
    shown_duty (ld_log l) = shown_duty (ld_log (ct_leds c))"
proof -
  obtain l1 where l1: "on_leds (all_leds_off drv) c = (ESP_OK, c\<lparr>ct_leds := l1\<rparr>)" "leds_ready l1"
    "\<forall>i. \<not> lit l1 i" "shown_duty (ld_log l1) = shown_duty (ld_log (ct_leds c))"
    using leds_off_step [OF assms(1,3)] by blast
  let ?c1 = "c\<lparr>ct_leds := l1\<rparr>"
  have "leds_ready (ct_leds ?c1)" "\<forall>i. \<not> lit (ct_leds ?c1) i" using l1 by simp_all
  from status_leds_work [OF assms(1) this(1) assms(4,5) this(2)]
  obtain steps l2 where l2: "status_leds drv fan = Inr steps" "return_on_errors steps ?c1 = (ESP_OK, c\<lparr>ct_leds := l2\<rparr>)"
    "leds_ready l2" "lit l2 = panel (fc_applied_speed fan) (fc_shutoff_mode fan) (fc_fault_latched fan) False"
    "shown_duty (ld_log l2) = shown_duty (ld_log l1)" by auto
  let ?c2 = "snd (mark_rendered fan (c\<lparr>ct_leds := l2\<rparr>))"
  have "ct_led_available ?c2" "leds_ready (ct_leds ?c2)" using assms(2) l2(3) by (simp_all add: mark_rendered_def)
  from apply_network_works [OF assms(1) this]
  obtain l3 where l3: "apply_network_led_locked drv ?c2 = (ESP_OK, ?c2\<lparr>ct_leds := l3\<rparr>)" "leds_ready l3"
    "lit l3 = (lit l2)(NETWORK_LED := ui_network_led_visible (ct_ui c))"
    "shown_duty (ld_log l3) = shown_duty (ld_log l2)" by (auto simp: mark_rendered_def)
  have run: "render_status_leds_locked drv fan c = Inr (ESP_OK, ?c2\<lparr>ct_leds := l3\<rparr>)"
    using assms(2) leD [OF less_imp_le [OF assms(4)]] assms(4) l1(1) l2(1,2) l3(1)
    by (simp add: render_status_leds_locked_def return_on_errors_append mark_rendered_def)
  have dark: "\<not> panel (fc_applied_speed fan) (fc_shutoff_mode fan) (fc_fault_latched fan) False NETWORK_LED"
    using fan_led_not_network [OF assms(4)] timer_led_not_network [OF assms(5)] by (auto simp: panel_def)
  have "lit l3 = rendered (ct_ui ?c2)"
    using dark unfolding l3(3) l2(4) by (auto simp: rendered_def mark_rendered_def panel_def fun_eq_iff)
  then show ?thesis using run l1(4) l2(5) l3(2,4) by (intro exI [of _ l3]) (simp add: mark_rendered_def)
qed

section \<open>What the panel is to show\<close>

text \<open>
  The calls to the panel as seen from outside, newest first: a key with its tick, whether the mutex
  was free and the result, a service round, a new network status, and the LED driver coming up
  (with the mutex free and the fan's snapshot readable, or not) or going away.
\<close>

datatype ui_event =
    Key u8 tick bool esp_err | Round tick bool | Status network_status tick bool | Leds_Up bool | Leds_Down

text \<open>When a key was last taken: a press that finds the mutex free, 150 ms or more after the last one taken.\<close>

fun last_taken :: "ui_event list \<Rightarrow> u8 \<Rightarrow> tick option" where
  "last_taken [] key = None"
| "last_taken (Key k now free err # h) key =
     (if k = key \<and> free \<and>
         (case last_taken h key of None \<Rightarrow> True | Some t \<Rightarrow> pdMS_TO_TICKS TOUCH_DEBOUNCE_MS \<le> now - t)
      then Some now else last_taken h key)"
| "last_taken (_ # h) key = last_taken h key"

definition taken :: "ui_event list \<Rightarrow> u8 \<Rightarrow> tick \<Rightarrow> bool \<Rightarrow> bool" where
  "taken h key now free \<longleftrightarrow> 1 \<le> key \<and> key \<le> 6 \<and> free \<and>
     (case last_taken h key of None \<Rightarrow> True | Some t \<Rightarrow> pdMS_TO_TICKS TOUCH_DEBOUNCE_MS \<le> now - t)"

text \<open>The brightness chosen: key 3 steps through the four levels.\<close>

fun chosen_level :: "ui_event list \<Rightarrow> led_brightness" where
  "chosen_level [] = LED_BRIGHTNESS_HIGH"
| "chosen_level (Key key now free err # h) =
     (if key = 3 \<and> taken h key now free then (chosen_level h + 1) mod NUM_LED_BRIGHTNESS_LEVELS else chosen_level h)"
| "chosen_level (_ # h) = chosen_level h"

text \<open>Since when a dimmed panel shows full brightness: any other key that succeeds wakes it; the first round
  three seconds or more later, the brightness key or new LEDs end the wake.\<close>

fun woken :: "ui_event list \<Rightarrow> tick option" where
  "woken [] = None"
| "woken (Key key now free err # h) =
     (if \<not> taken h key now free then woken h
      else if key = 3 then None
      else if err = ESP_OK \<and> chosen_level h \<noteq> LED_BRIGHTNESS_HIGH then Some now else woken h)"
| "woken (Round now free # h) =
     (case woken h of None \<Rightarrow> None
      | Some t \<Rightarrow> if free \<and> pdMS_TO_TICKS LED_WAKE_DURATION_MS \<le> now - t then None else Some t)"
| "woken (Leds_Up ok # h) = None"
| "woken (_ # h) = woken h"

definition shown_level_duty :: "ui_event list \<Rightarrow> u32" where
  "shown_level_duty h =
     (if woken h = None then ucast (s_led_brightness_duty ! unat (chosen_level h)) else PWM_MAX_DUTY)"

text \<open>The network status, whether its LED is lit, and since when: dark when offline, lit from the change to any
  other status on, and toggled by the first round a period later while the status is one that blinks.\<close>

fun network_panel :: "ui_event list \<Rightarrow> network_status \<times> bool \<times> tick" where
  "network_panel [] = (CONTROLLER_NETWORK_OFFLINE, False, 0)"
| "network_panel (Status new now free # h) =
     (case network_panel h of (status, on, since) \<Rightarrow>
        if free \<and> new \<le> CONTROLLER_NETWORK_UPDATING \<and> new \<noteq> status
        then (new, new \<noteq> CONTROLLER_NETWORK_OFFLINE, now) else (status, on, since))"
| "network_panel (Round now free # h) =
     (case network_panel h of (status, on, since) \<Rightarrow>
        case network_toggle_ms status of None \<Rightarrow> (status, on, since)
        | Some ms \<Rightarrow> if free \<and> pdMS_TO_TICKS ms \<le> now - since then (status, \<not> on, now) else (status, on, since))"
| "network_panel (_ # h) = network_panel h"

definition network_lit :: "ui_event list \<Rightarrow> bool" where
  "network_lit h = fst (snd (network_panel h))"

lemma network_steady:
  "fst (network_panel h) = CONTROLLER_NETWORK_OFFLINE \<longrightarrow> \<not> network_lit h"
  "fst (network_panel h) = CONTROLLER_NETWORK_CONNECTED \<longrightarrow> network_lit h"
  by (induction h rule: network_panel.induct)
    (auto simp: network_lit_def network_toggle_ms_def split: prod.splits if_splits)

section \<open>What the operations do to LEDs that respond\<close>

text \<open>The LEDs \<open>l\<close> after an operation on \<open>c\<close>, when the LED driver is available.\<close>

definition lamps_after :: "controller \<Rightarrow> (nat \<Rightarrow> bool) \<Rightarrow> u32 \<Rightarrow> leds \<Rightarrow> bool" where
  "lamps_after c on duty l \<longleftrightarrow> (ct_led_available c \<longrightarrow> leds_ready l \<and> lit l = on \<and> shown_duty (ld_log l) = duty)"

abbreviation lit_now :: "controller \<Rightarrow> nat \<Rightarrow> bool" where
  "lit_now c \<equiv> lit (ct_leds c)"

abbreviation duty_now :: "controller \<Rightarrow> u32" where
  "duty_now c \<equiv> shown_duty (ld_log (ct_leds c))"

abbreviation level_duty :: "led_brightness \<Rightarrow> u32" where
  "level_duty b \<equiv> ucast (s_led_brightness_duty ! unat b)"

definition leds_usable :: "controller \<Rightarrow> bool" where
  "leds_usable c \<longleftrightarrow> (ct_led_available c \<longrightarrow> leds_ready (ct_leds c))"

lemma lamps_same: "leds_usable c \<Longrightarrow> lamps_after c (lit_now c) (duty_now c) (ct_leds c)"
  by (simp add: lamps_after_def leds_usable_def)

lemma brightness_result:
  assumes "leds_work drv" and "leds_usable c" and "b < NUM_LED_BRIGHTNESS_LEVELS"
  shows "\<exists>l. apply_led_brightness_locked drv b c = (ESP_OK, c\<lparr>ct_leds := l\<rparr>) \<and>
    lamps_after c (lit_now c) (level_duty b) l"
proof (cases "ct_led_available c")
  case True
  then show ?thesis using apply_brightness_works [OF assms(1) True _ assms(3)] assms(2)
    by (auto simp: lamps_after_def leds_usable_def)
next
  case False
  then show ?thesis
    by (intro exI [of _ "ct_leds c"]) (simp add: apply_led_brightness_locked_def lamps_after_def)
qed

lemma network_result:
  assumes "leds_work drv" and "leds_usable c"
  shows "\<exists>l. apply_network_led_locked drv c = (ESP_OK, c\<lparr>ct_leds := l\<rparr>) \<and>
    lamps_after c ((lit_now c)(NETWORK_LED := ui_network_led_visible (ct_ui c))) (duty_now c) l"
proof (cases "ct_led_available c")
  case True
  then show ?thesis using apply_network_works [OF assms(1) True] assms(2)
    by (auto simp: lamps_after_def leds_usable_def)
next
  case False
  then show ?thesis
    by (intro exI [of _ "ct_leds c"]) (simp add: apply_network_led_locked_def lamps_after_def)
qed

lemma render_result:
  assumes "leds_work drv" and "leds_usable c" and "view_ok (ESP_OK, Some fan)"
  shows "\<exists>l. render_status_leds_locked drv fan c = Inr (ESP_OK, (snd (mark_rendered fan c))\<lparr>ct_leds := l\<rparr>) \<and>
    lamps_after c (rendered (ct_ui (snd (mark_rendered fan c)))) (duty_now c) l"
proof (cases "ct_led_available c")
  case True
  have "fc_applied_speed fan < NUM_FAN_SPEEDS" "fc_shutoff_mode fan < NUM_FAN_SHUTOFF_MODES"
    using assms(3) by (simp_all add: view_ok_def)
  then obtain l where "render_status_leds_locked drv fan c = Inr (ESP_OK, (snd (mark_rendered fan c))\<lparr>ct_leds := l\<rparr>)"
    "leds_ready l" "lit l = rendered (ct_ui (snd (mark_rendered fan c)))" "shown_duty (ld_log l) = duty_now c"
    using render_works [OF assms(1) True] assms(2) True unfolding leds_usable_def by blast
  then show ?thesis by (intro exI [of _ l]) (simp add: lamps_after_def)
next
  case False
  then show ?thesis
    using assms(3) leD [of "fc_applied_speed fan" NUM_FAN_SPEEDS]
    by (intro exI [of _ "ct_leds c"])
      (auto simp: render_status_leds_locked_def mark_rendered_def lamps_after_def view_ok_def)
qed

lemma panel_network:
  "speed < NUM_FAN_SPEEDS \<Longrightarrow> timer < NUM_FAN_SHUTOFF_MODES \<Longrightarrow>
   (panel speed timer fault v)(NETWORK_LED := v') = panel speed timer fault v'"
  using fan_led_not_network [of speed] timer_led_not_network [of timer] by (auto simp: panel_def fun_eq_iff)

section \<open>The UI over time\<close>

inductive ui_run :: "led_driver \<Rightarrow> ui_event list \<Rightarrow> controller \<Rightarrow> bool" for drv where
  init: "\<not> ct_lock c0 \<Longrightarrow> leds_usable c0 \<Longrightarrow> view_ok view \<Longrightarrow>
    controller_init drv True view c0 = Inr (err, c) \<Longrightarrow> ui_run drv [] c"
| key: "ui_run drv h c \<Longrightarrow> controller_handle_key drv free pass view k now c = (err, c') \<Longrightarrow>
    ui_run drv (Key k now free err # h) c'"
| round: "ui_run drv h c \<Longrightarrow> view_ok view \<Longrightarrow> controller_service drv free view now c = Inr (err, c') \<Longrightarrow>
    ui_run drv (Round now free # h) c'"
| status: "ui_run drv h c \<Longrightarrow>
    ui_run drv (Status st now free # h) (snd (controller_set_network_status drv free now st c))"
| remote: "ui_run drv h c \<Longrightarrow> ui_run drv h (snd (snd (controller_set_remote_fan_speed pass view speed c)))"
| fan_moves: "ui_run drv h c \<Longrightarrow> ui_run drv h (c\<lparr>ct_fan := fan\<rparr>)"
| leds_up: "ui_run drv h c \<Longrightarrow> leds_init drv (ct_leds c) = (ESP_OK, l) \<Longrightarrow> view_ok view \<Longrightarrow>
    controller_set_led_available drv free view True (c\<lparr>ct_leds := l\<rparr>) = Inr c' \<Longrightarrow>
    ui_run drv (Leds_Up (free \<and> fst view = ESP_OK \<and> snd view \<noteq> None) # h) c'"
| leds_down: "ui_run drv h c \<Longrightarrow> controller_set_led_available drv free view False (c\<lparr>ct_leds := l\<rparr>) = Inr c' \<Longrightarrow>
    ui_run drv (Leds_Down # h) c'"

text \<open>The UI's fields agree with the history.\<close>

definition keys_track :: "ui_event list \<Rightarrow> ui_state \<Rightarrow> bool" where
  "keys_track h ui \<longleftrightarrow> length (ui_has_key_tick ui) = 6 \<and> length (ui_last_key_tick ui) = 6 \<and>
     (\<forall>key. 1 \<le> key \<and> key \<le> 6 \<longrightarrow>
        ui_has_key_tick ui ! unat (key - 1) = (last_taken h key \<noteq> None) \<and>
        (\<forall>t. last_taken h key = Some t \<longrightarrow> ui_last_key_tick ui ! unat (key - 1) = t))"

definition wake_tracks :: "ui_event list \<Rightarrow> ui_state \<Rightarrow> bool" where
  "wake_tracks h ui \<longleftrightarrow>
     (\<forall>t. woken h = Some t \<longrightarrow> ui_brightness_wake_active ui \<and> ui_last_non_dimmer_touch_tick ui = t)"

definition network_tracks :: "ui_event list \<Rightarrow> ui_state \<Rightarrow> bool" where
  "network_tracks h ui \<longleftrightarrow>
     network_panel h = (ui_network_status ui, ui_network_led_visible ui, ui_network_led_last_toggle_tick ui)"

definition ui_tracks :: "ui_event list \<Rightarrow> ui_state \<Rightarrow> bool" where
  "ui_tracks h ui \<longleftrightarrow> keys_track h ui \<and> wake_tracks h ui \<and> network_tracks h ui \<and>
     ui_led_brightness ui = chosen_level h"

lemma next_brightness: "(b + 1 :: u32) mod 4 < 4"
  by (simp add: word_less_nat_alt unat_mod)

lemma chosen_level_valid [simp]: "chosen_level h < NUM_LED_BRIGHTNESS_LEVELS"
  by (induction h rule: chosen_level.induct) (simp_all add: next_brightness)

definition drawn :: "ui_state \<Rightarrow> (nat \<Rightarrow> bool) \<Rightarrow> bool" where
  "drawn ui on \<longleftrightarrow> ui_rendered_speed ui = NUM_FAN_SPEEDS \<or>
     ui_rendered_speed ui < NUM_FAN_SPEEDS \<and> ui_rendered_timer ui < NUM_FAN_SHUTOFF_MODES \<and> on = rendered ui"

text \<open>Nothing is promised after LEDs came up with the mutex busy or the snapshot unreadable.\<close>

definition panel_inv :: "ui_event list \<Rightarrow> controller \<Rightarrow> bool" where
  "panel_inv h c \<longleftrightarrow> ct_lock c \<and> ui_tracks h (ct_ui c) \<and> leds_usable c \<and>
     (ct_led_available c \<and> Leds_Up False \<notin> set h \<longrightarrow>
        drawn (ct_ui c) (lit_now c) \<and> duty_now c = shown_level_duty h)"

lemma panel_invI:
  assumes "ct_lock c'" and "ui_tracks h (ct_ui c')" and "lamps_after c' on duty (ct_leds c')"
    and "ct_led_available c' \<Longrightarrow> Leds_Up False \<notin> set h \<Longrightarrow> drawn (ct_ui c') on \<and> duty = shown_level_duty h"
  shows "panel_inv h c'"
  using assms by (auto simp: panel_inv_def lamps_after_def leds_usable_def)

lemma lamps_after_upd [simp]:
  "lamps_after (c\<lparr>ct_leds := x\<rparr>) on duty l = lamps_after c on duty l"
  "lamps_after (c\<lparr>ct_ui := u\<rparr>) on duty l = lamps_after c on duty l"
  by (simp_all add: lamps_after_def)

lemma leds_usable_upd [simp]: "leds_usable (c\<lparr>ct_ui := u\<rparr>) = leds_usable c"
  by (simp add: leds_usable_def)

lemma lamps_usable: "lamps_after c on duty l \<Longrightarrow> leds_usable (c\<lparr>ct_leds := l\<rparr>)"
  by (simp add: lamps_after_def leds_usable_def)

lemma inv_parts:
  assumes "panel_inv h c"
  shows "ct_lock c" "ui_tracks h (ct_ui c)" "leds_usable c"
    "ct_led_available c \<Longrightarrow> Leds_Up False \<notin> set h \<Longrightarrow> drawn (ct_ui c) (lit_now c) \<and> duty_now c = shown_level_duty h"
  using assms by (simp_all add: panel_inv_def)

section \<open>A service round\<close>

text \<open>The two LED services of a round, as one step of the history.\<close>

lemma wake_service_result:
  assumes "leds_work drv" and inv: "panel_inv h c"
  shows "\<exists>w l duty. service_led_wake_locked drv now c =
      (ESP_OK, c\<lparr>ct_ui := (ct_ui c)\<lparr>ui_brightness_wake_active := w\<rparr>, ct_leds := l\<rparr>) \<and>
    lamps_after c (lit_now c) duty l \<and>
    wake_tracks (Round now True # h) ((ct_ui c)\<lparr>ui_brightness_wake_active := w\<rparr>) \<and>
    (ct_led_available c \<and> Leds_Up False \<notin> set h \<longrightarrow> duty = shown_level_duty (Round now True # h))"
proof -
  let ?ui = "ct_ui c"
  note level = inv_parts(2) [OF inv, unfolded ui_tracks_def]
  have wake: "wake_tracks h ?ui" using level by blast
  have shown: "duty_now c = shown_level_duty h" if "ct_led_available c" "Leds_Up False \<notin> set h"
    using inv_parts(4) [OF inv that] by blast
  show ?thesis
  proof (cases "\<not> ui_brightness_wake_active ?ui \<or>
      now - ui_last_non_dimmer_touch_tick ?ui < pdMS_TO_TICKS LED_WAKE_DURATION_MS")
    case True
    have woken: "woken (Round now True # h) = woken h"
      using wake True by (auto simp: wake_tracks_def not_le split: option.split)
    have "service_led_wake_locked drv now c = (ESP_OK, c)" using True by (simp add: service_led_wake_locked_def)
    moreover have "c\<lparr>ct_ui := ?ui\<lparr>ui_brightness_wake_active := ui_brightness_wake_active ?ui\<rparr>, ct_leds := ct_leds c\<rparr> = c" by simp
    moreover have "shown_level_duty (Round now True # h) = shown_level_duty h"
      unfolding shown_level_duty_def woken by simp
    moreover have "wake_tracks (Round now True # h) (?ui\<lparr>ui_brightness_wake_active := ui_brightness_wake_active ?ui\<rparr>)"
      using wake unfolding wake_tracks_def woken by simp
    ultimately show ?thesis using lamps_same [OF inv_parts(3) [OF inv]] shown
      by (intro exI [of _ "ui_brightness_wake_active ?ui"] exI [of _ "ct_leds c"] exI [of _ "duty_now c"]) simp
  next
    case False
    have woken: "woken (Round now True # h) = None"
      using wake False by (auto simp: wake_tracks_def not_less split: option.split)
    let ?c = "c\<lparr>ct_ui := ?ui\<lparr>ui_brightness_wake_active := False\<rparr>\<rparr>"
    have "leds_usable ?c" using inv_parts(3) [OF inv] by simp
    moreover have "ui_led_brightness ?ui < NUM_LED_BRIGHTNESS_LEVELS" using level chosen_level_valid [of h] by simp
    ultimately have ready: "leds_usable ?c" "ui_led_brightness ?ui < NUM_LED_BRIGHTNESS_LEVELS" .
    from brightness_result [OF assms(1) ready] obtain l where
      "apply_led_brightness_locked drv (ui_led_brightness ?ui) ?c = (ESP_OK, ?c\<lparr>ct_leds := l\<rparr>)"
      "lamps_after ?c (lit_now ?c) (level_duty (ui_led_brightness ?ui)) l" by blast
    moreover have "level_duty (ui_led_brightness ?ui) = shown_level_duty (Round now True # h)"
      using level unfolding shown_level_duty_def woken by simp
    moreover have "wake_tracks (Round now True # h) (?ui\<lparr>ui_brightness_wake_active := False\<rparr>)"
      unfolding wake_tracks_def woken by simp
    ultimately show ?thesis using False
      by (intro exI [of _ False] exI [of _ l] exI [of _ "level_duty (ui_led_brightness ?ui)"])
        (simp add: service_led_wake_locked_def)
  qed
qed

lemma drawn_network:
  "drawn ui on \<Longrightarrow> drawn (ui\<lparr>ui_network_led_visible := v\<rparr>) (on(NETWORK_LED := v))"
  using panel_network by (auto simp: drawn_def rendered_def)

lemma drawn_cong [simp]:
  "drawn (ui\<lparr>ui_brightness_wake_active := w\<rparr>) on = drawn ui on"
  "drawn (ui\<lparr>ui_last_non_dimmer_touch_tick := t\<rparr>) on = drawn ui on"
  "drawn (ui\<lparr>ui_led_brightness := b\<rparr>) on = drawn ui on"
  "drawn (ui\<lparr>ui_last_key_tick := xs\<rparr>) on = drawn ui on"
  "drawn (ui\<lparr>ui_has_key_tick := ys\<rparr>) on = drawn ui on"
  "drawn (ui\<lparr>ui_network_status := st\<rparr>) on = drawn ui on"
  "drawn (ui\<lparr>ui_network_led_last_toggle_tick := t\<rparr>) on = drawn ui on"
  by (simp_all add: drawn_def rendered_def)

lemma network_service_result:
  assumes "leds_work drv" and "leds_usable c" and "network_tracks h (ct_ui c)"
  shows "\<exists>v t l on. service_network_led_locked drv now c =
      (ESP_OK, c\<lparr>ct_ui := (ct_ui c)\<lparr>ui_network_led_last_toggle_tick := t, ui_network_led_visible := v\<rparr>, ct_leds := l\<rparr>) \<and>
    lamps_after c on (duty_now c) l \<and>
    network_tracks (Round now True # h) ((ct_ui c)\<lparr>ui_network_led_last_toggle_tick := t, ui_network_led_visible := v\<rparr>) \<and>
    (drawn (ct_ui c) (lit_now c) \<longrightarrow>
       drawn ((ct_ui c)\<lparr>ui_network_led_last_toggle_tick := t, ui_network_led_visible := v\<rparr>) on)"
proof -
  let ?ui = "ct_ui c"
  let ?toggles = "\<lambda>ms. pdMS_TO_TICKS ms \<le> now - ui_network_led_last_toggle_tick ?ui"
  show ?thesis
  proof (cases "\<exists>ms. network_toggle_ms (ui_network_status ?ui) = Some ms \<and> ?toggles ms")
    case False
    then have "service_network_led_locked drv now c = (ESP_OK, c)"
      by (auto simp: service_network_led_locked_def not_le split: option.split)
    moreover have "network_tracks (Round now True # h) ?ui"
      using assms(3) False by (auto simp: network_tracks_def split: option.split)
    ultimately show ?thesis using lamps_same [OF assms(2)]
      by (intro exI [of _ "ui_network_led_visible ?ui"] exI [of _ "ui_network_led_last_toggle_tick ?ui"]
          exI [of _ "ct_leds c"] exI [of _ "lit_now c"]) simp
  next
    case True
    then obtain ms where ms: "network_toggle_ms (ui_network_status ?ui) = Some ms" "?toggles ms" by blast
    let ?u = "?ui\<lparr>ui_network_led_last_toggle_tick := now, ui_network_led_visible := \<not> ui_network_led_visible ?ui\<rparr>"
    let ?c = "c\<lparr>ct_ui := ?u\<rparr>"
    have "leds_usable ?c" using assms(2) by simp
    from network_result [OF assms(1) this] obtain l where
      l: "apply_network_led_locked drv ?c = (ESP_OK, ?c\<lparr>ct_leds := l\<rparr>)"
      "lamps_after ?c ((lit_now ?c)(NETWORK_LED := ui_network_led_visible (ct_ui ?c))) (duty_now ?c) l" by blast
    have "service_network_led_locked drv now c = (ESP_OK, ?c\<lparr>ct_leds := l\<rparr>)"
      using ms l(1) by (simp add: service_network_led_locked_def not_less [symmetric] del: not_less)
    moreover have "network_tracks (Round now True # h) ?u" using assms(3) ms by (simp add: network_tracks_def)
    moreover have "drawn ?ui (lit_now c) \<longrightarrow> drawn ?u ((lit_now c)(NETWORK_LED := \<not> ui_network_led_visible ?ui))"
      using drawn_network [of "?ui\<lparr>ui_network_led_last_toggle_tick := now\<rparr>" "lit_now c" "\<not> ui_network_led_visible ?ui"] by simp
    ultimately show ?thesis using l(2)
      by (intro exI [of _ "\<not> ui_network_led_visible ?ui"] exI [of _ now] exI [of _ l]
          exI [of _ "(lit_now c)(NETWORK_LED := \<not> ui_network_led_visible ?ui)"]) simp
  qed
qed

lemma tracks_frame [simp]:
  "keys_track h (ui\<lparr>ui_brightness_wake_active := w\<rparr>) = keys_track h ui"
  "keys_track h (ui\<lparr>ui_network_led_last_toggle_tick := t\<rparr>) = keys_track h ui"
  "keys_track h (ui\<lparr>ui_network_led_visible := v\<rparr>) = keys_track h ui"
  "keys_track h (ui\<lparr>ui_network_status := st\<rparr>) = keys_track h ui"
  "keys_track h (ui\<lparr>ui_led_brightness := b\<rparr>) = keys_track h ui"
  "keys_track h (ui\<lparr>ui_last_non_dimmer_touch_tick := t\<rparr>) = keys_track h ui"
  "wake_tracks h (ui\<lparr>ui_network_led_last_toggle_tick := t\<rparr>) = wake_tracks h ui"
  "wake_tracks h (ui\<lparr>ui_network_led_visible := v\<rparr>) = wake_tracks h ui"
  "wake_tracks h (ui\<lparr>ui_network_status := st\<rparr>) = wake_tracks h ui"
  "wake_tracks h (ui\<lparr>ui_led_brightness := b\<rparr>) = wake_tracks h ui"
  "wake_tracks h (ui\<lparr>ui_last_key_tick := xs\<rparr>) = wake_tracks h ui"
  "wake_tracks h (ui\<lparr>ui_has_key_tick := ys\<rparr>) = wake_tracks h ui"
  "network_tracks h (ui\<lparr>ui_brightness_wake_active := w\<rparr>) = network_tracks h ui"
  "network_tracks h (ui\<lparr>ui_last_non_dimmer_touch_tick := t\<rparr>) = network_tracks h ui"
  "network_tracks h (ui\<lparr>ui_led_brightness := b\<rparr>) = network_tracks h ui"
  "network_tracks h (ui\<lparr>ui_last_key_tick := xs\<rparr>) = network_tracks h ui"
  "network_tracks h (ui\<lparr>ui_has_key_tick := ys\<rparr>) = network_tracks h ui"
  by (simp_all add: keys_track_def wake_tracks_def network_tracks_def)

lemma keys_after [simp]:
  "keys_track (Round now free # h) ui = keys_track h ui"
  "keys_track (Status st now free # h) ui = keys_track h ui"
  "keys_track (Leds_Up ok # h) ui = keys_track h ui"
  "keys_track (Leds_Down # h) ui = keys_track h ui"
  by (simp_all add: keys_track_def)

lemma busy_round:
  "keys_track (Round now False # h) ui = keys_track h ui" "wake_tracks (Round now False # h) ui = wake_tracks h ui"
  "network_tracks (Round now False # h) ui = network_tracks h ui"
  "shown_level_duty (Round now False # h) = shown_level_duty h"
proof -
  have "network_panel (Round now False # h) = network_panel h" by (auto split: prod.split option.split)
  moreover have "woken (Round now False # h) = woken h" by (simp split: option.split)
  ultimately show "keys_track (Round now False # h) ui = keys_track h ui"
    "wake_tracks (Round now False # h) ui = wake_tracks h ui"
    "network_tracks (Round now False # h) ui = network_tracks h ui"
    "shown_level_duty (Round now False # h) = shown_level_duty h"
    by (simp_all add: wake_tracks_def network_tracks_def shown_level_duty_def)
qed

lemma inv_busy_round: "panel_inv h c \<Longrightarrow> panel_inv (Round now False # h) c"
  by (simp add: panel_inv_def ui_tracks_def busy_round)

text \<open>Both services of a round: the history has it, and the LEDs are as before but for the network LED and the duty.\<close>

lemma services_result:
  assumes "leds_work drv" and inv: "panel_inv h c"
  shows "\<exists>c'. return_on_errors [service_led_wake_locked drv now, service_network_led_locked drv now] c = (ESP_OK, c') \<and>
    panel_inv (Round now True # h) c' \<and> ct_led_available c' = ct_led_available c"
proof -
  note parts = inv_parts [OF inv]
  obtain w l duty where w: "service_led_wake_locked drv now c =
      (ESP_OK, c\<lparr>ct_ui := (ct_ui c)\<lparr>ui_brightness_wake_active := w\<rparr>, ct_leds := l\<rparr>)"
    "lamps_after c (lit_now c) duty l"
    "wake_tracks (Round now True # h) ((ct_ui c)\<lparr>ui_brightness_wake_active := w\<rparr>)"
    "ct_led_available c \<and> Leds_Up False \<notin> set h \<longrightarrow> duty = shown_level_duty (Round now True # h)"
    using wake_service_result [OF assms] by blast
  define c1 where "c1 = c\<lparr>ct_ui := (ct_ui c)\<lparr>ui_brightness_wake_active := w\<rparr>, ct_leds := l\<rparr>"
  have usable: "leds_usable c1" unfolding c1_def using lamps_usable [OF w(2)] by (simp add: leds_usable_def)
  have "network_tracks h (ct_ui c1)" using parts(2) by (simp add: ui_tracks_def c1_def)
  from network_service_result [OF assms(1) usable this, of now] obtain v t l2 on where
    v: "service_network_led_locked drv now c1 =
      (ESP_OK, c1\<lparr>ct_ui := (ct_ui c1)\<lparr>ui_network_led_last_toggle_tick := t, ui_network_led_visible := v\<rparr>, ct_leds := l2\<rparr>)"
    "lamps_after c1 on (duty_now c1) l2"
    "network_tracks (Round now True # h) ((ct_ui c1)\<lparr>ui_network_led_last_toggle_tick := t, ui_network_led_visible := v\<rparr>)"
    "drawn (ct_ui c1) (lit_now c1) \<longrightarrow>
       drawn ((ct_ui c1)\<lparr>ui_network_led_last_toggle_tick := t, ui_network_led_visible := v\<rparr>) on" by blast
  define c2 where "c2 = c1\<lparr>ct_ui := (ct_ui c1)\<lparr>ui_network_led_last_toggle_tick := t, ui_network_led_visible := v\<rparr>, ct_leds := l2\<rparr>"
  have "return_on_errors [service_led_wake_locked drv now, service_network_led_locked drv now] c = (ESP_OK, c2)"
    using w(1) v(1) by (simp add: c1_def c2_def)
  moreover have "panel_inv (Round now True # h) c2"
  proof (rule panel_invI)
    show "ct_lock c2" using parts(1) by (simp add: c2_def c1_def)
    show "ui_tracks (Round now True # h) (ct_ui c2)"
      using parts(2) w(3) v(3) by (simp add: ui_tracks_def c2_def c1_def)
    show "lamps_after c2 on (duty_now c1) (ct_leds c2)" using v(2) by (simp add: c2_def)
    assume on: "ct_led_available c2" "Leds_Up False \<notin> set (Round now True # h)"
    then have c: "ct_led_available c" "Leds_Up False \<notin> set h" by (simp_all add: c2_def c1_def)
    have "lit_now c1 = lit_now c" "duty_now c1 = duty" using w(2) c(1) by (simp_all add: lamps_after_def c1_def)
    then show "drawn (ct_ui c2) on \<and> duty_now c1 = shown_level_duty (Round now True # h)"
      using v(4) w(4) parts(4) [OF c] c by (simp add: c2_def c1_def)
  qed
  ultimately show ?thesis by (intro exI [of _ c2]) (simp add: c2_def c1_def)
qed

text \<open>Rendering a snapshot.\<close>

lemma render_inv:
  assumes "leds_work drv" and inv: "panel_inv h c" and "view_ok (ESP_OK, Some fan)"
  shows "\<exists>c'. render_status_leds_locked drv fan c = Inr (ESP_OK, c') \<and> panel_inv h c' \<and>
    ui_rendered_speed (ct_ui c') = fc_applied_speed fan \<and> ui_rendered_timer (ct_ui c') = fc_shutoff_mode fan \<and>
    ui_rendered_fault (ct_ui c') = fc_fault_latched fan \<and> ct_led_available c' = ct_led_available c"
proof -
  note parts = inv_parts [OF inv]
  obtain l where l: "render_status_leds_locked drv fan c = Inr (ESP_OK, (snd (mark_rendered fan c))\<lparr>ct_leds := l\<rparr>)"
    "lamps_after c (rendered (ct_ui (snd (mark_rendered fan c)))) (duty_now c) l"
    using render_result [OF assms(1) parts(3) assms(3)] by blast
  have "panel_inv h ((snd (mark_rendered fan c))\<lparr>ct_leds := l\<rparr>)"
  proof (rule panel_invI)
    show "ct_lock ((snd (mark_rendered fan c))\<lparr>ct_leds := l\<rparr>)" using parts(1) by (simp add: mark_rendered_def)
    show "ui_tracks h (ct_ui ((snd (mark_rendered fan c))\<lparr>ct_leds := l\<rparr>))"
      using parts(2) by (simp add: ui_tracks_def keys_track_def wake_tracks_def network_tracks_def mark_rendered_def)
    show "lamps_after ((snd (mark_rendered fan c))\<lparr>ct_leds := l\<rparr>)
        (rendered (ct_ui (snd (mark_rendered fan c)))) (duty_now c) (ct_leds ((snd (mark_rendered fan c))\<lparr>ct_leds := l\<rparr>))"
      using l(2) by (simp add: mark_rendered_def)
    assume "ct_led_available ((snd (mark_rendered fan c))\<lparr>ct_leds := l\<rparr>)" "Leds_Up False \<notin> set h"
    then show "drawn (ct_ui ((snd (mark_rendered fan c))\<lparr>ct_leds := l\<rparr>)) (rendered (ct_ui (snd (mark_rendered fan c)))) \<and>
        duty_now c = shown_level_duty h"
      using parts(4) assms(3) by (simp add: mark_rendered_def drawn_def view_ok_def)
  qed
  then show ?thesis using l(1) by (simp add: mark_rendered_def)
qed

lemma service_inv:
  assumes "leds_work drv" and inv: "panel_inv h c" and view: "view_ok view"
  shows "\<exists>err c'. controller_service drv free view now c = Inr (err, c') \<and> panel_inv (Round now free # h) c' \<and>
    (free \<longrightarrow> err = ESP_OK \<or> fst view \<noteq> ESP_OK \<or> snd view = None) \<and>
    (free \<longrightarrow> (\<forall>fan. view = (ESP_OK, Some fan) \<longrightarrow> err = ESP_OK \<and> ui_rendered_speed (ct_ui c') = fc_applied_speed fan \<and>
       ui_rendered_timer (ct_ui c') = fc_shutoff_mode fan \<and> ui_rendered_fault (ct_ui c') = fc_fault_latched fan \<and>
       ct_led_available c' = ct_led_available c))"
proof (cases free)
  case False
  then show ?thesis using inv_busy_round [OF inv] by (simp add: controller_service_def take_lock_def)
next
  case free: True
  then have lock: "take_lock free c" using inv_parts(1) [OF inv] by (simp add: take_lock_def)
  obtain c2 where c2: "return_on_errors [service_led_wake_locked drv now, service_network_led_locked drv now] c = (ESP_OK, c2)"
    "panel_inv (Round now True # h) c2" "ct_led_available c2 = ct_led_available c"
    using services_result [OF assms(1,2)] by blast
  show ?thesis
  proof (cases "\<exists>fan. view = (ESP_OK, Some fan)")
    case False
    then have "controller_service drv free view now c = Inr (ESP_OK, c2)"
      unfolding controller_service_def c2(1) using lock by (cases view; cases "snd view") auto
    then show ?thesis using c2(2) free False by auto
  next
    case True
    then obtain fan where fan: "view = (ESP_OK, Some fan)" by blast
    obtain c3 where c3: "render_status_leds_locked drv fan c2 = Inr (ESP_OK, c3)" "panel_inv (Round now True # h) c3"
      "ui_rendered_speed (ct_ui c3) = fc_applied_speed fan" "ui_rendered_timer (ct_ui c3) = fc_shutoff_mode fan"
      "ui_rendered_fault (ct_ui c3) = fc_fault_latched fan" "ct_led_available c3 = ct_led_available c2"
      using render_inv [OF assms(1) c2(2)] view fan by blast
    show ?thesis
      unfolding controller_service_def c2(1) using lock fan free c2(2,3) c3 by auto
  qed
qed

section \<open>The other calls\<close>

lemma key_index: "1 \<le> (key :: u8) \<Longrightarrow> key \<le> 6 \<Longrightarrow> unat (key - 1) < 6"
  by (simp add: word_le_nat_alt unat_sub)

lemma key_slot_inject:
  "1 \<le> (k :: u8) \<Longrightarrow> 1 \<le> key \<Longrightarrow> unat (k - 1) = unat (key - 1) \<longleftrightarrow> k = key"
  by (simp add: word_le_nat_alt unat_sub word_unat_eq_iff) arith

lemma last_taken_key:
  assumes "1 \<le> key" and "key \<le> 6"
  shows "last_taken (Key k now free err # h) key = (if k = key \<and> taken h k now free then Some now else last_taken h key)"
  using assms by (auto simp: taken_def)

declare last_taken.simps(2) [simp del]

lemma ignored_key:
  assumes "\<not> taken h k now free"
  shows "panel_inv (Key k now free err # h) c = panel_inv h c"
proof -
  have "keys_track (Key k now free err # h) ui = keys_track h ui" for ui
    unfolding keys_track_def using last_taken_key assms by auto
  then show ?thesis using assms
    by (simp add: panel_inv_def ui_tracks_def wake_tracks_def network_tracks_def shown_level_duty_def)
qed

definition key_noted :: "u8 \<Rightarrow> tick \<Rightarrow> controller \<Rightarrow> controller" where
  "key_noted k now c = c\<lparr>ct_ui := (ct_ui c)
     \<lparr>ui_last_key_tick := (ui_last_key_tick (ct_ui c))[unat (k - 1) := now],
      ui_has_key_tick := (ui_has_key_tick (ct_ui c))[unat (k - 1) := True]\<rparr>\<rparr>"

lemma key_noted_frame [simp]:
  "ct_lock (key_noted k now c) = ct_lock c" "ct_led_available (key_noted k now c) = ct_led_available c"
  "ct_leds (key_noted k now c) = ct_leds c" "ct_fan (key_noted k now c) = ct_fan c"
  "ui_led_brightness (ct_ui (key_noted k now c)) = ui_led_brightness (ct_ui c)"
  "ui_brightness_wake_active (ct_ui (key_noted k now c)) = ui_brightness_wake_active (ct_ui c)"
  "ui_last_non_dimmer_touch_tick (ct_ui (key_noted k now c)) = ui_last_non_dimmer_touch_tick (ct_ui c)"
  by (simp_all add: key_noted_def)

lemma key_noted_tracks:
  assumes "keys_track h (ct_ui c)" and "taken h k now free"
  shows "keys_track (Key k now free err # h) (ct_ui (key_noted k now c))"
proof -
  have k: "1 \<le> k" "k \<le> 6" "free" using assms(2) by (simp_all add: taken_def)
  show ?thesis
    unfolding keys_track_def
  proof (intro conjI allI impI, goal_cases)
    case (3 key)
    then show ?case using assms key_index [OF k(1,2)] key_slot_inject [of k key] k
      by (auto simp: keys_track_def key_noted_def last_taken_key nth_list_update)
  next
    case (4 key t)
    then show ?case using assms key_index [OF k(1,2)] key_slot_inject [of k key] k
      by (auto simp: keys_track_def key_noted_def last_taken_key nth_list_update split: if_splits)
  qed (use assms(1) in \<open>simp_all add: keys_track_def key_noted_def\<close>)
qed

text \<open>The invariant after a key that is taken, from what it does to the wake, the level and the LEDs.\<close>

lemma taken_inv:
  assumes inv: "panel_inv h c" and "taken h k now free" and "h' = Key k now free err # h"
    and "c' = (key_noted k now c)\<lparr>ct_ui := (ct_ui (key_noted k now c))\<lparr>ui_led_brightness := b,
      ui_brightness_wake_active := w, ui_last_non_dimmer_touch_tick := t\<rparr>, ct_leds := l, ct_fan := fan\<rparr>"
    and "lamps_after c (lit_now c) duty l" and "b = chosen_level h'"
    and "\<And>u. woken h' = Some u \<Longrightarrow> w \<and> t = u"
    and "ct_led_available c \<Longrightarrow> Leds_Up False \<notin> set h \<Longrightarrow> duty = shown_level_duty h'"
  shows "panel_inv h' c'"
proof (rule panel_invI)
  note parts = inv_parts [OF inv]
  have keys: "keys_track h' (ct_ui (key_noted k now c))"
    unfolding assms(3) by (rule key_noted_tracks) (use parts(2) assms(2) in \<open>simp_all add: ui_tracks_def\<close>)
  show "ct_lock c'" using parts(1) by (simp add: assms(4) key_noted_def)
  show "ui_tracks h' (ct_ui c')"
    using keys parts(2) assms(6,7)
    by (simp add: ui_tracks_def assms(4) wake_tracks_def network_tracks_def assms(3) key_noted_def keys_track_def)
  show "lamps_after c' (lit_now c) duty (ct_leds c')"
    using assms(5) by (simp add: assms(4) lamps_after_def key_noted_def)
  assume "ct_led_available c'" "Leds_Up False \<notin> set h'"
  then show "drawn (ct_ui c') (lit_now c) \<and> duty = shown_level_duty h'"
    using parts(4) assms(8) by (simp add: assms(3,4) key_noted_def)
qed

lemma handle_key_taken:
  assumes "panel_inv h c"
  shows "controller_handle_key drv free pass view k now c =
    (if \<not> taken h k now free then (if 1 \<le> k \<and> k \<le> 6 \<and> \<not> free then ESP_ERR_TIMEOUT else ESP_OK, c)
     else case key_command drv pass view k (key_noted k now c) of (err, c) \<Rightarrow>
       if err = ESP_OK \<and> k \<noteq> 3 then wake_led_brightness_locked drv now c else (err, c))"
proof -
  note parts = inv_parts [OF assms]
  have debounce: "ui_has_key_tick (ct_ui c) ! unat (k - 1) \<and>
      now - ui_last_key_tick (ct_ui c) ! unat (k - 1) < pdMS_TO_TICKS TOUCH_DEBOUNCE_MS \<longleftrightarrow> \<not> taken h k now True"
    if "1 \<le> k" "k \<le> 6"
  proof -
    have "ui_has_key_tick (ct_ui c) ! unat (k - 1) = (last_taken h k \<noteq> None)"
      "\<forall>t. last_taken h k = Some t \<longrightarrow> ui_last_key_tick (ct_ui c) ! unat (k - 1) = t"
      using parts(2) that by (simp_all add: ui_tracks_def keys_track_def)
    then show ?thesis using that by (cases "last_taken h k") (auto simp: taken_def not_le)
  qed
  show ?thesis
  proof (cases "1 \<le> k \<and> k \<le> 6")
    case False
    then show ?thesis by (auto simp: controller_handle_key_def taken_def not_le)
  next
    case True
    then have range: "\<not> (k < 1 \<or> 6 < k)" by (metis leD)
    show ?thesis
      using debounce True parts(1) taken_def [of h k now free] taken_def [of h k now True]
      unfolding controller_handle_key_def if_not_P [OF range] key_noted_def Let_def take_lock_def
      by (cases free) auto
  qed
qed

lemma key_three:
  assumes "leds_work drv" and inv: "panel_inv h c" and "taken h 3 now free"
    and "controller_handle_key drv free pass view 3 now c = (err, c')"
  shows "panel_inv (Key 3 now free err # h) c'"
proof -
  let ?b = "(chosen_level h + 1) mod NUM_LED_BRIGHTNESS_LEVELS" and ?k = "key_noted 3 now c"
  note parts = inv_parts [OF inv]
  have level: "ui_led_brightness (ct_ui c) = chosen_level h" using parts(2) by (simp add: ui_tracks_def)
  have b: "?b < NUM_LED_BRIGHTNESS_LEVELS" by (rule next_brightness)
  let ?d = "?k\<lparr>ct_ui := (ct_ui ?k)\<lparr>ui_led_brightness := ?b, ui_brightness_wake_active := False\<rparr>\<rparr>"
  have "leds_usable ?d" using parts(3) by (simp add: key_noted_def)
  from brightness_result [OF assms(1) this b] obtain l where
    l: "apply_led_brightness_locked drv ?b ?d = (ESP_OK, ?d\<lparr>ct_leds := l\<rparr>)" "lamps_after ?d (lit_now ?d) (level_duty ?b) l" by blast
  have "set_led_brightness_locked drv ?b ?k = (ESP_OK, ?d\<lparr>ct_leds := l\<rparr>)"
    unfolding set_led_brightness_locked_def if_not_P [OF b [folded not_le]] by (rule l(1))
  then have "key_command drv pass view 3 ?k = (ESP_OK, ?d\<lparr>ct_leds := l\<rparr>)"
    using level by (simp add: key_command_def Let_def)
  then have run: "err = ESP_OK" "c' = ?d\<lparr>ct_leds := l\<rparr>"
    using assms(3,4) unfolding handle_key_taken [OF inv] by simp_all
  show ?thesis
    by (rule taken_inv [OF inv assms(3) refl, where c' = c' and b = ?b and w = False and
          t = "ui_last_non_dimmer_touch_tick (ct_ui c)" and l = l and fan = "ct_fan c" and duty = "level_duty ?b"])
      (use run l(2) assms(3) in \<open>simp_all add: key_noted_def shown_level_duty_def\<close>)
qed

lemma key_fan_command:
  assumes "k \<noteq> 3"
  shows "\<exists>err fan. key_command drv pass view k c = (err, c\<lparr>ct_fan := fan\<rparr>)"
proof -
  have "\<exists>fan. c = c\<lparr>ct_fan := fan\<rparr>" by (rule exI [of _ "ct_fan c"]) simp
  then show ?thesis using assms by (cases "k \<in> {1, 2, 6}") (auto simp: key_command_def Let_def split: prod.split)
qed

lemma other_key:
  assumes "leds_work drv" and inv: "panel_inv h c" and taken: "taken h k now free" and "k \<noteq> 3"
    and run: "controller_handle_key drv free pass view k now c = (err, c')"
  shows "panel_inv (Key k now free err # h) c'"
proof -
  let ?k = "key_noted k now c" and ?ui = "ct_ui c"
  note parts = inv_parts [OF inv]
  have level: "ui_led_brightness ?ui = chosen_level h" using parts(2) by (simp add: ui_tracks_def)
  have wake: "woken h = Some u \<Longrightarrow> ui_brightness_wake_active ?ui \<and> ui_last_non_dimmer_touch_tick ?ui = u" for u
    using parts(2) by (simp add: ui_tracks_def wake_tracks_def)
  obtain e fan where e: "key_command drv pass view k ?k = (e, ?k\<lparr>ct_fan := fan\<rparr>)" using key_fan_command [OF assms(4)] by blast
  show ?thesis
  proof (cases "e = ESP_OK \<and> chosen_level h \<noteq> LED_BRIGHTNESS_HIGH")
    case False
    then have out: "c' = ?k\<lparr>ct_fan := fan\<rparr>" "err = e"
      using run taken e assms(4) level unfolding handle_key_taken [OF inv]
      by (auto simp: wake_led_brightness_locked_def split: if_splits)
    have "woken (Key k now free err # h) = woken h" using False taken assms(4) out(2) by auto
    then show ?thesis
      by (intro taken_inv [OF inv taken refl, where c' = c' and b = "ui_led_brightness ?ui" and w = "ui_brightness_wake_active ?ui" and
            t = "ui_last_non_dimmer_touch_tick ?ui" and l = "ct_leds c" and fan = fan and duty = "duty_now c"] lamps_same [OF parts(3)])
        (use out wake parts(4) level assms(4) in \<open>simp_all add: key_noted_def shown_level_duty_def\<close>)
  next
    case True
    let ?d = "?k\<lparr>ct_fan := fan, ct_ui := (ct_ui ?k)\<lparr>ui_last_non_dimmer_touch_tick := now, ui_brightness_wake_active := True\<rparr>\<rparr>"
    have "leds_usable ?d" using parts(3) by (simp add: key_noted_def leds_usable_def)
    from brightness_result [OF assms(1) this, of LED_BRIGHTNESS_HIGH] obtain l where
      l: "apply_led_brightness_locked drv LED_BRIGHTNESS_HIGH ?d = (ESP_OK, ?d\<lparr>ct_leds := l\<rparr>)"
      "lamps_after ?d (lit_now ?d) PWM_MAX_DUTY l" by (auto simp: s_led_brightness_duty_def)
    have out: "c' = ?d\<lparr>ct_leds := l\<rparr>" "err = ESP_OK"
      using run taken e assms(4) level True l(1) unfolding handle_key_taken [OF inv]
      by (auto simp: wake_led_brightness_locked_def)
    have "woken (Key k now free err # h) = Some now" using True taken assms(4) out(2) by simp
    then show ?thesis
      by (intro taken_inv [OF inv taken refl, where c' = c' and b = "ui_led_brightness ?ui" and w = True and t = now and
            l = l and fan = fan and duty = PWM_MAX_DUTY])
        (use out l(2) level assms(4) in \<open>simp_all add: key_noted_def shown_level_duty_def lamps_after_def\<close>)
  qed
qed

lemma key_inv:
  assumes "leds_work drv" and "panel_inv h c" and "controller_handle_key drv free pass view k now c = (err, c')"
  shows "panel_inv (Key k now free err # h) c'"
proof (cases "taken h k now free")
  case True
  then show ?thesis using key_three other_key assms by (cases "k = 3") blast+
next
  case False
  then show ?thesis using assms(3) ignored_key [OF False] assms(2) by (simp add: handle_key_taken [OF assms(2)])
qed

lemma status_inv:
  assumes "leds_work drv" and inv: "panel_inv h c"
  shows "panel_inv (Status st now free # h) (snd (controller_set_network_status drv free now st c))"
proof -
  note parts = inv_parts [OF inv]
  have net: "network_panel h = (ui_network_status (ct_ui c), ui_network_led_visible (ct_ui c),
      ui_network_led_last_toggle_tick (ct_ui c))"
    using parts(2) by (simp add: ui_tracks_def network_tracks_def)
  show ?thesis
  proof (cases "st \<le> CONTROLLER_NETWORK_UPDATING \<and> free \<and> st \<noteq> ui_network_status (ct_ui c)")
    case False
    then have "snd (controller_set_network_status drv free now st c) = c"
      using parts(1) by (auto simp: controller_set_network_status_def take_lock_def not_less)
    moreover have "network_panel (Status st now free # h) = network_panel h" using False net by auto
    ultimately show ?thesis using inv
      by (simp add: panel_inv_def ui_tracks_def wake_tracks_def network_tracks_def shown_level_duty_def)
  next
    case True
    let ?u = "(ct_ui c)\<lparr>ui_network_status := st, ui_network_led_last_toggle_tick := now,
      ui_network_led_visible := st \<noteq> CONTROLLER_NETWORK_OFFLINE\<rparr>"
    let ?c = "c\<lparr>ct_ui := ?u\<rparr>" and ?on = "(lit_now c)(NETWORK_LED := st \<noteq> CONTROLLER_NETWORK_OFFLINE)"
    have "leds_usable ?c" using parts(3) by simp
    from network_result [OF assms(1) this] obtain l where
      l: "apply_network_led_locked drv ?c = (ESP_OK, ?c\<lparr>ct_leds := l\<rparr>)" "lamps_after ?c ?on (duty_now c) l" by auto
    have range: "\<not> CONTROLLER_NETWORK_UPDATING < st" using True by (simp add: not_less)
    have new: "ui_network_status (ct_ui c) \<noteq> st" "take_lock free c" using True parts(1) by (auto simp: take_lock_def)
    have run: "snd (controller_set_network_status drv free now st c) = ?c\<lparr>ct_leds := l\<rparr>"
      unfolding controller_set_network_status_def if_not_P [OF range] using new l(1) by simp
    show ?thesis
      unfolding run
    proof (rule panel_invI)
      show "lamps_after (?c\<lparr>ct_leds := l\<rparr>) ?on (duty_now c) (ct_leds (?c\<lparr>ct_leds := l\<rparr>))" using l(2) by simp
      show "ui_tracks (Status st now free # h) (ct_ui (?c\<lparr>ct_leds := l\<rparr>))"
        using parts(2) True net by (simp add: ui_tracks_def wake_tracks_def network_tracks_def)
      assume "ct_led_available (?c\<lparr>ct_leds := l\<rparr>)" "Leds_Up False \<notin> set (Status st now free # h)"
      then have "drawn (ct_ui c) (lit_now c)" "duty_now c = shown_level_duty h" using parts(4) by simp_all
      moreover from drawn_network [of "(ct_ui c)\<lparr>ui_network_status := st, ui_network_led_last_toggle_tick := now\<rparr>" "lit_now c"
          "st \<noteq> CONTROLLER_NETWORK_OFFLINE"] calculation(1)
      have "drawn ?u ?on" by simp
      ultimately show "drawn (ct_ui (?c\<lparr>ct_leds := l\<rparr>)) ?on \<and> duty_now c = shown_level_duty (Status st now free # h)"
        by (simp add: shown_level_duty_def)
    qed (use parts(1) in simp)
  qed
qed

lemma fan_moves_inv: "panel_inv h c \<Longrightarrow> panel_inv h (c\<lparr>ct_fan := fan\<rparr>)"
  by (simp add: panel_inv_def leds_usable_def)

lemma remote_inv: "panel_inv h c \<Longrightarrow> panel_inv h (snd (snd (controller_set_remote_fan_speed pass view speed c)))"
  by (simp add: controller_set_remote_fan_speed_def fan_moves_inv split: prod.split)

lemma woken_up_tracks: "ui_tracks h ui \<Longrightarrow> ui_tracks (Leds_Up ok # h) ui"
  by (simp add: ui_tracks_def wake_tracks_def network_tracks_def)

lemma leds_up_inv:
  assumes "leds_work drv" and inv: "panel_inv h c" and "leds_init drv (ct_leds c) = (ESP_OK, l)" and view: "view_ok view"
    and run: "controller_set_led_available drv free view True (c\<lparr>ct_leds := l\<rparr>) = Inr c'"
  shows "panel_inv (Leds_Up (free \<and> fst view = ESP_OK \<and> snd view \<noteq> None) # h) c'"
proof -
  note parts = inv_parts [OF inv]
  let ?c = "c\<lparr>ct_leds := l, ct_led_available := True\<rparr>" and ?h = "\<lambda>ok. Leds_Up ok # h"
  have ready: "leds_ready l" using leds_init_works [OF assms(1), of "ct_leds c"] assms(3) by auto
  have level: "ui_led_brightness (ct_ui c) = chosen_level h" using parts(2) by (simp add: ui_tracks_def)
  have "leds_usable ?c" "ui_led_brightness (ct_ui c) < NUM_LED_BRIGHTNESS_LEVELS"
    using ready by (simp_all add: leds_usable_def level)
  from brightness_result [OF assms(1) this] obtain l1 where
    l1: "apply_led_brightness_locked drv (ui_led_brightness (ct_ui c)) ?c = (ESP_OK, ?c\<lparr>ct_leds := l1\<rparr>)"
    "lamps_after ?c (lit_now ?c) (level_duty (ui_led_brightness (ct_ui c))) l1" by blast
  have missed: "panel_inv (?h False) x" if "ct_lock x" "ct_ui x = ct_ui c" "ct_led_available x" "leds_ready (ct_leds x)" for x
    using that woken_up_tracks [OF parts(2), of False] by (simp add: panel_inv_def leds_usable_def)
  have l1_ready: "leds_ready l1" using l1(2) by (simp add: lamps_after_def)
  consider (busy) "\<not> free" | (unread) "free" "\<not> (fst view = ESP_OK \<and> snd view \<noteq> None)"
    | (ok) fan where "free" "view = (ESP_OK, Some fan)" by (cases view; cases "snd view"; cases free) auto
  then show ?thesis
  proof cases
    case busy
    then have "c' = ?c" using run by (simp add: controller_set_led_available_def take_lock_def)
    then show ?thesis using busy missed [of c'] parts(1) ready by simp
  next
    case unread
    then have "c' = ?c\<lparr>ct_leds := l1\<rparr>"
      using run parts(1) l1(1) by (cases view; cases "snd view")
        (auto simp: controller_set_led_available_def take_lock_def Let_def)
    then show ?thesis using unread missed [of "?c\<lparr>ct_leds := l1\<rparr>"] parts(1) l1_ready by auto
  next
    case ok
    let ?d = "?c\<lparr>ct_leds := l1\<rparr>"
    have "leds_usable ?d" using l1_ready by (simp add: leds_usable_def)
    from render_result [OF assms(1) this view [unfolded ok(2)]] obtain l2 where
      l2: "render_status_leds_locked drv fan ?d = Inr (ESP_OK, (snd (mark_rendered fan ?d))\<lparr>ct_leds := l2\<rparr>)"
      "lamps_after ?d (rendered (ct_ui (snd (mark_rendered fan ?d)))) (duty_now ?d) l2" by blast
    have c': "c' = (snd (mark_rendered fan ?d))\<lparr>ct_leds := l2\<rparr>"
      using run parts(1) l1(1) l2(1) ok by (simp add: controller_set_led_available_def take_lock_def Let_def)
    have duty: "duty_now ?d = level_duty (chosen_level h)" using l1(2) by (simp add: lamps_after_def level)
    have "panel_inv (?h True) c'"
    proof (rule panel_invI)
      show "ct_lock c'" using parts(1) by (simp add: c' mark_rendered_def)
      show "ui_tracks (?h True) (ct_ui c')"
        using woken_up_tracks [OF parts(2)]
        by (simp add: c' mark_rendered_def ui_tracks_def keys_track_def wake_tracks_def network_tracks_def)
      show "lamps_after c' (rendered (ct_ui c')) (level_duty (chosen_level h)) (ct_leds c')"
        using l2(2) duty by (simp add: c' lamps_after_def mark_rendered_def)
      show "drawn (ct_ui c') (rendered (ct_ui c')) \<and> level_duty (chosen_level h) = shown_level_duty (?h True)"
        using view ok(2) by (simp add: c' mark_rendered_def drawn_def view_ok_def shown_level_duty_def)
    qed
    then show ?thesis using ok by simp
  qed
qed

lemma leds_down_inv:
  assumes "panel_inv h c" and "controller_set_led_available drv free view False (c\<lparr>ct_leds := l\<rparr>) = Inr c'"
  shows "panel_inv (Leds_Down # h) c'"
  using assms by (auto simp: controller_set_led_available_def panel_inv_def leds_usable_def ui_tracks_def
      wake_tracks_def network_tracks_def)

lemma initial_tracks: "ui_tracks [] initial_ui"
proof -
  have "keys_track [] initial_ui"
    using key_index by (auto simp: keys_track_def initial_ui_def)
  then show ?thesis by (simp add: ui_tracks_def wake_tracks_def network_tracks_def initial_ui_def)
qed

lemma panel_init_inv:
  assumes "leds_work drv" and "\<not> ct_lock c0" and "leds_usable c0" and view: "view_ok view"
    and run: "controller_init drv True view c0 = Inr (err, c)"
  shows "panel_inv [] c"
proof -
  let ?c = "c0\<lparr>ct_lock := True, ct_ui := initial_ui\<rparr>"
  have "leds_usable ?c" using assms(3) by (simp add: leds_usable_def)
  from brightness_result [OF assms(1) this, of LED_BRIGHTNESS_HIGH] obtain l where
    l: "apply_led_brightness_locked drv LED_BRIGHTNESS_HIGH ?c = (ESP_OK, ?c\<lparr>ct_leds := l\<rparr>)"
    "lamps_after ?c (lit_now ?c) PWM_MAX_DUTY l" by (auto simp: s_led_brightness_duty_def)
  have same: "?c\<lparr>ct_ui := (ct_ui ?c)\<lparr>ui_led_brightness := LED_BRIGHTNESS_HIGH, ui_brightness_wake_active := False\<rparr>\<rparr> = ?c"
    by (simp add: initial_ui_def)
  have set': "snd (set_led_brightness_locked drv LED_BRIGHTNESS_HIGH ?c) = ?c\<lparr>ct_leds := l\<rparr>"
    unfolding set_led_brightness_locked_def same using l(1) by simp
  have inv: "panel_inv [] (?c\<lparr>ct_leds := l\<rparr>)"
  proof (rule panel_invI)
    show "lamps_after (?c\<lparr>ct_leds := l\<rparr>) (lit_now ?c) PWM_MAX_DUTY (ct_leds (?c\<lparr>ct_leds := l\<rparr>))" using l(2) by simp
    show "drawn (ct_ui (?c\<lparr>ct_leds := l\<rparr>)) (lit_now ?c) \<and> PWM_MAX_DUTY = shown_level_duty []"
      by (simp add: drawn_def initial_ui_def shown_level_duty_def s_led_brightness_duty_def)
  qed (simp_all add: initial_tracks)
  obtain e fan where v: "view = (e, fan)" by (cases view)
  show ?thesis
  proof (cases "\<exists>f. view = (ESP_OK, Some f)")
    case True
    then obtain f where f: "view = (ESP_OK, Some f)" by blast
    from render_inv [OF assms(1) inv view [unfolded f]] show ?thesis
      using run assms(2) f set' by (auto simp: controller_init_def Let_def)
  next
    case False
    then show ?thesis
      using run assms(2) v set' inv by (cases fan) (auto simp: controller_init_def Let_def split: if_splits)
  qed
qed

lemma ui_run_inv:
  assumes "ui_run drv h c" and "leds_work drv"
  shows "panel_inv h c"
  using assms
proof (induction rule: ui_run.induct)
  case (init c0 view err c)
  then show ?case by (simp add: panel_init_inv)
next
  case (key h c free pass view k now err c')
  then show ?case using key_inv by blast
next
  case (round h c view free now err c')
  then show ?case using service_inv [of drv h c view free now] by auto
next
  case (status h c st now free)
  then show ?case using status_inv by blast
next
  case (remote h c pass view speed)
  then show ?case using remote_inv by blast
next
  case (fan_moves h c fan)
  then show ?case using fan_moves_inv by blast
next
  case (leds_up h c l view free c')
  then show ?case using leds_up_inv by blast
next
  case (leds_down h c free view l c')
  then show ?case using leds_down_inv by blast
qed

section \<open>Properties\<close>


definition sample_driver :: led_driver where
  "sample_driver log call = ESP_OK"

definition sample_fan :: fan_control_snapshot where
  "sample_fan = (fs_snapshot sample_boot)\<lparr>fc_applied_speed := 2, fc_shutoff_mode := 2\<rparr>"

definition sample_panel :: controller where
  "sample_panel = \<lparr>ct_lock = False, ct_led_available = False, ct_ui = initial_ui,
     ct_leds = \<lparr>ld_signal = None, ld_initialized = False, ld_log = []\<rparr>, ct_fan = sample_boot\<rparr>"

definition sample_panel_started :: controller where
  "sample_panel_started = (case controller_init sample_driver True (ESP_OK, Some sample_fan) sample_panel of
     Inr (_, c) \<Rightarrow> c | Inl _ \<Rightarrow> sample_panel)"

definition sample_panel_lit :: controller where
  "sample_panel_lit =
     (let c = sample_panel_started
      in case controller_set_led_available sample_driver True (ESP_OK, Some sample_fan) True
           (c\<lparr>ct_leds := snd (leds_init sample_driver (ct_leds c))\<rparr>) of
        Inr c \<Rightarrow> c | Inl _ \<Rightarrow> sample_panel)"

lemma sample_panel_runs:
  "controller_init sample_driver True (ESP_OK, Some sample_fan) sample_panel = Inr (ESP_OK, sample_panel_started)"
  "leds_init sample_driver (ct_leds sample_panel_started) =
     (ESP_OK, snd (leds_init sample_driver (ct_leds sample_panel_started)))"
  "controller_set_led_available sample_driver True (ESP_OK, Some sample_fan) True
     (sample_panel_started\<lparr>ct_leds := snd (leds_init sample_driver (ct_leds sample_panel_started))\<rparr>) =
     Inr sample_panel_lit"
  "ct_led_available sample_panel_lit"
  by code_simp+

lemma sample_panel_run: "ui_run sample_driver [Leds_Up True] sample_panel_lit"
proof -
  have view: "view_ok (ESP_OK, Some sample_fan)" by (simp add: view_ok_def sample_fan_def)
  have "ui_run sample_driver [] sample_panel_started"
    by (rule ui_run.init [OF _ _ view sample_panel_runs(1)]) (simp_all add: sample_panel_def leds_usable_def)
  from ui_run.leds_up [OF this sample_panel_runs(2) view sample_panel_runs(3)] show ?thesis by simp
qed


end
