(* ===== verification/Network.thy ===== *)
theory Network
  imports Controller OtaWorker DnsServer CString
begin

text \<open>
  \<open>main/network.c\<close>, the connection manager: settings in NVS, the setup access point, the
  station's reconnects and the maintenance window. Calls into ESP-IDF go through an
  environment that answers by the calls made before (\<open>nw_log\<close>, newest first); the panel,
  the OTA worker, the DNS server and through them the fan are the models of their own
  theories.
\<close>

section \<open>Calls\<close>

text \<open>A cJSON object as the handlers build it.\<close>

datatype json = JBool bool | JNumber int | JString "u8 list" | JObject "(string \<times> json) list"

datatype wifi_mode = WIFI_MODE_STA | WIFI_MODE_APSTA
datatype wifi_auth = WIFI_AUTH_OPEN | WIFI_AUTH_WPA2_PSK
datatype http_method = HTTP_GET | HTTP_PUT | HTTP_POST

record ap_config =
  ap_ssid :: "u8 list"
  ap_ssid_len :: u8
  ap_channel :: u8
  ap_max_connection :: u8
  ap_authmode :: wifi_auth
  ap_pmf_required :: bool

record sta_config =
  sta_ssid :: "u8 list"
  sta_password :: "u8 list"
  sta_authmode :: wifi_auth

text \<open>
  What the file calls outside the firmware, with the arguments it relies on; for a call that
  returns a pointer, \<open>ESP_OK\<close> stands for a non-null one.
\<close>

datatype net_call =
    Nvs_Flash_Init | Nvs_Flash_Erase | Nvs_Open bool | Nvs_Get_Str | Nvs_Set_Str "u8 list" | Nvs_Commit
  | Netif_Init | Event_Loop_Create | Create_Netif_Sta | Create_Netif_Ap | Create_Manager_Queue
  | Register_Wifi_Events | Register_Ip_Events
  | Wifi_Init | Wifi_Set_Storage_Flash | Wifi_Get_Sta_Config | Wifi_Set_Mode wifi_mode
  | Wifi_Set_Ap_Config ap_config | Wifi_Set_Sta_Config sta_config | Wifi_Start | Wifi_Connect
  | Get_Ap_Ip_Info | Dhcps_Stop | Dhcps_Captive_Portal "u8 list" | Dhcps_Start
  | Dns_Server_Start | Dns_Server_Stop | Ota_Worker_Call
  | Httpd_Start | Httpd_Register string http_method | Httpd_Register_404 | Httpd_Stop
  | Json_Create | Json_Print json
  | Req_Get_Hdr
  | Resp_Status string | Resp_Type string | Resp_Hdr string string
  | Resp_Json json | Resp_Text string | Resp_Page string | Resp_Empty | Resp_Err u32 string
  | Close_Session
  | Create_Restart_Task restart_reason

text \<open>
  The environment: result codes, and the data that calls deliver. \<open>ne_dns_task\<close> is what the DNS
  server's start and stop meet (the objects created, what its task does meanwhile).
\<close>

record 'f net_env =
  ne_err :: "net_call list \<Rightarrow> net_call \<Rightarrow> esp_err"
  ne_tick :: "net_call list \<Rightarrow> tick"
  ne_ui_free :: "net_call list \<Rightarrow> bool"
  ne_leds :: led_driver
  ne_mac :: "u8 list"
  ne_ap_ip :: "net_call list \<Rightarrow> u32"
  ne_stored_token :: "net_call list \<Rightarrow> u8 list"
  ne_stored_ssid :: "net_call list \<Rightarrow> u8 list"
  ne_dns_created :: "net_call list \<Rightarrow> bool \<times> bool"
  ne_dns_task :: "net_call list \<Rightarrow> (dns_server \<Rightarrow> dns_server) \<times> (dns_server \<Rightarrow> dns_server)"
  ne_ota :: "'f ota_api"
  ne_layout :: image_layout
  ne_fan :: "net_call list \<Rightarrow> fan_sys fan_api"
  ne_stack :: "net_call list \<Rightarrow> u32"
  ne_alloc :: "net_call list \<Rightarrow> string list \<Rightarrow> bool"
  ne_view :: "net_call list \<Rightarrow> nat \<Rightarrow> fan_view"
  ne_mailbox_free :: "net_call list \<Rightarrow> bool"
  ne_uptime_us :: "net_call list \<Rightarrow> us_time"
  ne_err_name :: "esp_err \<Rightarrow> string"

section \<open>State\<close>

abbreviation (input) API_TOKEN_MIN_LENGTH :: nat where "API_TOKEN_MIN_LENGTH \<equiv> 16"
abbreviation (input) API_TOKEN_MAX_LENGTH :: nat where "API_TOKEN_MAX_LENGTH \<equiv> 64"
abbreviation (input) WIFI_RETRY_LIMIT :: u32 where "WIFI_RETRY_LIMIT \<equiv> 5"
abbreviation (input) OTA_MAINTENANCE_WINDOW_MS :: u32 where "OTA_MAINTENANCE_WINDOW_MS \<equiv> 600000"
abbreviation (input) NETWORK_EVENT_QUEUE_LENGTH :: nat where "NETWORK_EVENT_QUEUE_LENGTH \<equiv> 8"
abbreviation (input) ESP_ERR_NVS_NOT_FOUND :: esp_err where "ESP_ERR_NVS_NOT_FOUND \<equiv> 0x1102"
abbreviation (input) ESP_ERR_NVS_NO_FREE_PAGES :: esp_err where "ESP_ERR_NVS_NO_FREE_PAGES \<equiv> 0x110d"
abbreviation (input) ESP_ERR_NVS_NEW_VERSION_FOUND :: esp_err where
  "ESP_ERR_NVS_NEW_VERSION_FOUND \<equiv> 0x1110"
abbreviation (input) ESP_ERR_WIFI_NOT_INIT :: esp_err where "ESP_ERR_WIFI_NOT_INIT \<equiv> 0x3001"
abbreviation (input) ESP_ERR_WIFI_NOT_CONNECT :: esp_err where "ESP_ERR_WIFI_NOT_CONNECT \<equiv> 0x300f"

datatype manager_event = MANAGER_EVENT_STA_START | MANAGER_EVENT_STA_DISCONNECTED
  | MANAGER_EVENT_GOT_IP u32

text \<open>
  The statics of the file (handles and interfaces as whether they are non-null), with the parts
  it drives: the panel, the OTA worker and the DNS server. The fan is the one of the worker.
\<close>

record 'f network =
  nw_http_server :: bool
  nw_dns_server :: bool
  nw_sta_netif :: bool
  nw_ap_netif :: bool
  nw_wifi_started :: bool
  nw_http_ready :: bool
  nw_netif_initialized :: bool
  nw_event_loop_initialized :: bool
  nw_wifi_initialized :: bool
  nw_wifi_handler_registered :: bool
  nw_ip_handler_registered :: bool
  nw_http_start_attempted :: bool
  nw_dns_start_attempted :: bool
  nw_has_wifi_credentials :: bool
  nw_connected :: bool
  nw_provisioning :: bool
  nw_provisioning_forced :: bool
  nw_reconnect_pending :: bool
  nw_maintenance_active :: bool
  nw_maintenance_keep_ap :: bool
  nw_ota_request_active :: bool
  nw_maintenance_started :: tick
  nw_reconnect_at :: tick
  nw_retry_count :: u32
  nw_api_token :: "u8 list"
  nw_captive_portal_uri :: "u8 list"
  nw_last_ota_result :: "u8 list"
  nw_manager_queue :: "manager_event list option"
  nw_ui :: controller
  nw_worker :: "('f, fan_sys) worker"
  nw_dns :: dns_server
  nw_log :: "net_call list"

type_synonym 'f nop = "'f network \<Rightarrow> esp_err \<times> 'f network"

definition net_do :: "'f net_env \<Rightarrow> net_call \<Rightarrow> 'f nop" where
  "net_do env call n = (ne_err env (nw_log n) call, n\<lparr>nw_log := call # nw_log n\<rparr>)"

text \<open>A call whose result is ignored.\<close>

definition net_just :: "'f net_env \<Rightarrow> net_call \<Rightarrow> 'f network \<Rightarrow> 'f network" where
  "net_just env call n = snd (net_do env call n)"

text \<open>The fan and the health table are shared with the worker and the panel.\<close>

definition net_fan :: "'f network \<Rightarrow> fan_sys" where
  "net_fan n = ow_fan (nw_worker n)"

definition set_fan :: "fan_sys \<Rightarrow> 'f network \<Rightarrow> 'f network" where
  "set_fan f n = n\<lparr>nw_worker := (nw_worker n)\<lparr>ow_fan := f\<rparr>\<rparr>"

definition on_health :: "(health \<Rightarrow> health) \<Rightarrow> 'f network \<Rightarrow> 'f network" where
  "on_health f n = n\<lparr>nw_worker := (nw_worker n)\<lparr>ow_health := f (ow_health (nw_worker n))\<rparr>\<rparr>"

definition panel_of :: "'f network \<Rightarrow> controller" where
  "panel_of n = (nw_ui n)\<lparr>ct_fan := net_fan n\<rparr>"

section \<open>Network LED and settings\<close>

definition set_network_status :: "'f net_env \<Rightarrow> network_status \<Rightarrow> 'f network \<Rightarrow> 'f network" where
  "set_network_status env status n =
     n\<lparr>nw_ui := snd (controller_set_network_status (ne_leds env) (ne_ui_free env (nw_log n))
                      (ne_tick env (nw_log n)) status (panel_of n))\<rparr>"

definition update_network_led :: "'f net_env \<Rightarrow> 'f network \<Rightarrow> 'f network" where
  "update_network_led env n =
     set_network_status env
       (if nw_provisioning n then CONTROLLER_NETWORK_PROVISIONING
        else if nw_connected n \<and> nw_http_ready n then CONTROLLER_NETWORK_CONNECTED
        else CONTROLLER_NETWORK_CONNECTING) n"

definition init_nvs :: "'f net_env \<Rightarrow> 'f nop" where
  "init_nvs env n =
     (case net_do env Nvs_Flash_Init n of (err, n) \<Rightarrow>
        if err = ESP_ERR_NVS_NO_FREE_PAGES \<or> err = ESP_ERR_NVS_NEW_VERSION_FOUND
        then return_on_errors [net_do env Nvs_Flash_Erase, net_do env Nvs_Flash_Init] n
        else (err, n))"

text \<open>\<open>nvs_get_str\<close> writes the string only when it and its NUL fit.\<close>

definition load_api_token :: "'f net_env \<Rightarrow> 'f nop" where
  "load_api_token env n =
     (let clear = (\<lambda>n. n\<lparr>nw_api_token := (nw_api_token n)[0 := 0]\<rparr>)
      in case net_do env (Nvs_Open False) n of (err, n) \<Rightarrow>
        if err = ESP_ERR_NVS_NOT_FOUND then (ESP_OK, clear n)
        else if err \<noteq> ESP_OK then (err, n)
        else
          let stored = ne_stored_token env (nw_log n)
          in case net_do env Nvs_Get_Str n of (err, n) \<Rightarrow>
            if err = ESP_ERR_NVS_NOT_FOUND then (ESP_OK, clear n)
            else if err = ESP_OK then (ESP_OK, n\<lparr>nw_api_token := store_str (c_str stored) (nw_api_token n)\<rparr>)
            else (err, n))"

definition save_api_token :: "'f net_env \<Rightarrow> u8 list \<Rightarrow> 'f nop" where
  "save_api_token env token n =
     (case return_on_errors [net_do env (Nvs_Open True), net_do env (Nvs_Set_Str token), net_do env Nvs_Commit] n of
        (err, n) \<Rightarrow>
          (err, if err = ESP_OK then n\<lparr>nw_api_token := strlcpy token (nw_api_token n)\<rparr> else n))"

section \<open>Setup access point\<close>

text \<open>\<open>%02X\<close>.\<close>

definition hex_digit :: "bool \<Rightarrow> nat \<Rightarrow> char" where
  "hex_digit upper d = char_of (if d < 10 then 48 + d else (if upper then 55 else 87) + d)"

definition hex2 :: "bool \<Rightarrow> u8 \<Rightarrow> string" where
  "hex2 upper b = [hex_digit upper (unat b div 16), hex_digit upper (unat b mod 16)]"

definition make_setup_ssid :: "'f net_env \<Rightarrow> u8 list \<Rightarrow> u8 list" where
  "make_setup_ssid env buf =
     (let mac = ne_mac env
      in store_str (bytes_of (''HPA300-'' @ hex2 True (mac ! 3) @ hex2 True (mac ! 4) @ hex2 True (mac ! 5))) buf)"

definition configure_ap :: "'f net_env \<Rightarrow> 'f nop" where
  "configure_ap env =
     (let ssid = make_setup_ssid env (replicate 32 0);
          config = \<lparr>ap_ssid = strlcpy ssid (replicate 32 0), ap_ssid_len = of_nat (length (c_str ssid)),
                    ap_channel = 1, ap_max_connection = 4, ap_authmode = WIFI_AUTH_OPEN, ap_pmf_required = False\<rparr>
      in net_do env (Wifi_Set_Ap_Config config))"

text \<open>\<open>IPSTR\<close> of an address in network byte order.\<close>

definition ip_string :: "u32 \<Rightarrow> string" where
  "ip_string a =
     (let octet = (\<lambda>i. decimal (unat (ucast (drop_bit (8 * i) a) :: u8)))
      in octet 0 @ ''.'' @ octet 1 @ ''.'' @ octet 2 @ ''.'' @ octet 3)"

definition configure_captive_portal_dhcp :: "'f net_env \<Rightarrow> 'f network \<Rightarrow> 'f network" where
  "configure_captive_portal_dhcp env n =
     (if \<not> nw_ap_netif n then n
      else
        let ip = ne_ap_ip env (nw_log n)
        in case net_do env Get_Ap_Ip_Info n of (err, n) \<Rightarrow>
          if err \<noteq> ESP_OK then n
          else
            let n = n\<lparr>nw_captive_portal_uri :=
                      store_str (bytes_of (''http://'' @ ip_string ip)) (nw_captive_portal_uri n)\<rparr>;
                n = net_just env Dhcps_Stop n;
                n = net_just env (Dhcps_Captive_Portal (c_str (nw_captive_portal_uri n))) n
            in net_just env Dhcps_Start n)"

text \<open>The start of the DNS server on the access point, as both callers make it.\<close>

definition launch_dns :: "'f net_env \<Rightarrow> 'f network \<Rightarrow> 'f network" where
  "launch_dns env n =
     (let (events, task) = ne_dns_created env (nw_log n);
          (during, during2) = ne_dns_task env (nw_log n);
          (handle, dns) = dns_server_start (Some ''WIFI_AP_DEF'') events task during during2 (nw_dns n)
      in n\<lparr>nw_dns_server := handle, nw_dns := dns, nw_log := Dns_Server_Start # nw_log n\<rparr>)"

definition start_captive_dns :: "'f net_env \<Rightarrow> 'f network \<Rightarrow> 'f network" where
  "start_captive_dns env n =
     (let n = configure_captive_portal_dhcp env n;
          n = (if nw_dns_start_attempted n then on_health (service_health_note_restart SERVICE_DNS) n else n)
      in launch_dns env (n\<lparr>nw_dns_start_attempted := True\<rparr>))"

definition open_setup_ap :: "'f net_env \<Rightarrow> bool \<Rightarrow> 'f nop" where
  "open_setup_ap env forced n =
     (let n = n\<lparr>nw_provisioning := True, nw_provisioning_forced := forced\<rparr>
      in if nw_wifi_started n then
           let n = start_captive_dns env n
           in (if nw_dns_server n then ESP_OK else ESP_ERR_NO_MEM, n)
         else (ESP_OK, n))"

definition provisioning_enable :: "'f net_env \<Rightarrow> bool \<Rightarrow> 'f nop" where
  "provisioning_enable env forced n =
     (if nw_provisioning n then
        (ESP_OK, update_network_led env (n\<lparr>nw_provisioning_forced := nw_provisioning_forced n \<or> forced\<rparr>))
      else return_on_errors
        [net_do env (Wifi_Set_Mode WIFI_MODE_APSTA), configure_ap env, open_setup_ap env forced,
         (\<lambda>n. (ESP_OK, update_network_led env n))] n)"

definition provisioning_disable :: "'f net_env \<Rightarrow> 'f network \<Rightarrow> 'f network" where
  "provisioning_disable env n =
     (if \<not> nw_provisioning n \<or> nw_api_token n ! 0 = 0 \<or> nw_provisioning_forced n then n
      else
        let n = n\<lparr>nw_provisioning := False\<rparr>;
            n = (if nw_dns_server n
                 then n\<lparr>nw_dns := dns_server_stop True (fst (ne_dns_task env (nw_log n))) (nw_dns n),
                        nw_dns_server := False, nw_log := Dns_Server_Stop # nw_log n\<rparr>
                 else n);
            n = net_just env (Wifi_Set_Mode WIFI_MODE_STA) n
        in update_network_led env n)"

definition maintenance_close :: "'f net_env \<Rightarrow> bool \<Rightarrow> 'f network \<Rightarrow> 'f network" where
  "maintenance_close env preserve_ap n =
     (if \<not> nw_maintenance_active n then n
      else
        let n = n\<lparr>nw_maintenance_active := False, nw_provisioning_forced := False\<rparr>;
            n = (if \<not> preserve_ap \<and> \<not> nw_maintenance_keep_ap n then provisioning_disable env n else n)
        in n\<lparr>nw_maintenance_keep_ap := False\<rparr>)"

section \<open>Events and service\<close>

definition network_ota_is_busy :: "'f network \<Rightarrow> bool" where
  "network_ota_is_busy n \<longleftrightarrow> nw_ota_request_active n \<or> ota_worker_is_busy (nw_worker n)"

definition network_is_connected :: "'f network \<Rightarrow> bool" where
  "network_is_connected n = nw_connected n"

text \<open>A disconnect; \<open>loop_now\<close> is the tick read when the thirty-second pause is set up.\<close>

definition station_lost :: "'f net_env \<Rightarrow> tick \<Rightarrow> 'f network \<Rightarrow> 'f network" where
  "station_lost env loop_now n =
     (let n = n\<lparr>nw_connected := False\<rparr>;
          n = on_health (service_health_set SERVICE_NETWORK SERVICE_STATE_DEGRADED ESP_ERR_WIFI_NOT_CONNECT) n;
          n = update_network_led env n
      in if nw_has_wifi_credentials n \<and> nw_retry_count n < WIFI_RETRY_LIMIT then
           net_just env Wifi_Connect (n\<lparr>nw_retry_count := nw_retry_count n + 1\<rparr>)
         else if nw_has_wifi_credentials n \<and> \<not> nw_reconnect_pending n then
           (on_health (service_health_note_restart SERVICE_NETWORK)
              (n\<lparr>nw_retry_count := 0, nw_reconnect_pending := True\<rparr>))
             \<lparr>nw_reconnect_at := loop_now + pdMS_TO_TICKS 30000\<rparr>
         else n)"

definition station_got_ip :: "'f net_env \<Rightarrow> 'f network \<Rightarrow> 'f network" where
  "station_got_ip env n =
     (let n = n\<lparr>nw_connected := True, nw_retry_count := 0\<rparr>;
          n = on_health (service_health_set SERVICE_NETWORK SERVICE_STATE_READY ESP_OK) n;
          n = provisioning_disable env n
      in update_network_led env n)"

fun handle_event :: "'f net_env \<Rightarrow> tick \<Rightarrow> manager_event \<Rightarrow> 'f network \<Rightarrow> 'f network" where
  "handle_event env loop_now MANAGER_EVENT_STA_START n =
     (let n = update_network_led env n
      in if nw_has_wifi_credentials n then net_just env Wifi_Connect n else n)"
| "handle_event env loop_now MANAGER_EVENT_STA_DISCONNECTED n = station_lost env loop_now n"
| "handle_event env loop_now (MANAGER_EVENT_GOT_IP address) n = station_got_ip env n"

text \<open>The loop empties the queue; events that arrive meanwhile count as queued before.\<close>

fun drain_events :: "'f net_env \<Rightarrow> tick \<Rightarrow> manager_event list \<Rightarrow> 'f network \<Rightarrow> 'f network" where
  "drain_events env loop_now [] n = n"
| "drain_events env loop_now (e # es) n =
     drain_events env loop_now es (handle_event env loop_now e (n\<lparr>nw_manager_queue := Some es\<rparr>))"

definition service_reconnect :: "'f net_env \<Rightarrow> tick \<Rightarrow> 'f network \<Rightarrow> 'f network" where
  "service_reconnect env now n =
     (if nw_reconnect_pending n \<and> 0 \<le> sint (now - nw_reconnect_at n) then
        let n = n\<lparr>nw_reconnect_pending := False\<rparr>
        in if \<not> nw_connected n \<and> nw_has_wifi_credentials n then net_just env Wifi_Connect n else n
      else n)"

definition network_service :: "'f net_env \<Rightarrow> tick \<Rightarrow> tick \<Rightarrow> 'f network \<Rightarrow> 'f network" where
  "network_service env loop_now now n =
     (let n = (case nw_manager_queue n of Some es \<Rightarrow> drain_events env loop_now es n | None \<Rightarrow> n);
          n = service_reconnect env now n
      in if \<not> nw_maintenance_active n \<or> network_ota_is_busy n then n
         else if pdMS_TO_TICKS OTA_MAINTENANCE_WINDOW_MS \<le> now - nw_maintenance_started n
         then maintenance_close env False n else n)"

datatype event_base = WIFI_EVENT | IP_EVENT | OTHER_EVENT
abbreviation (input) WIFI_EVENT_STA_START :: u32 where "WIFI_EVENT_STA_START \<equiv> 2"
abbreviation (input) WIFI_EVENT_STA_DISCONNECTED :: u32 where "WIFI_EVENT_STA_DISCONNECTED \<equiv> 5"
abbreviation (input) IP_EVENT_STA_GOT_IP :: u32 where "IP_EVENT_STA_GOT_IP \<equiv> 0"

text \<open>The callback of the event loop; \<open>ip\<close> is the address in the event's data.\<close>

definition wifi_event_handler :: "event_base \<Rightarrow> u32 \<Rightarrow> u32 \<Rightarrow> 'f network \<Rightarrow> 'f network" where
  "wifi_event_handler base event_id ip n =
     (let event =
        (if base = WIFI_EVENT \<and> event_id = WIFI_EVENT_STA_START then Some MANAGER_EVENT_STA_START
         else if base = WIFI_EVENT \<and> event_id = WIFI_EVENT_STA_DISCONNECTED
         then Some MANAGER_EVENT_STA_DISCONNECTED
         else if base = IP_EVENT \<and> event_id = IP_EVENT_STA_GOT_IP then Some (MANAGER_EVENT_GOT_IP ip)
         else None)
      in case (event, nw_manager_queue n) of
           (Some e, Some q) \<Rightarrow>
             if length q < NETWORK_EVENT_QUEUE_LENGTH then n\<lparr>nw_manager_queue := Some (q @ [e])\<rparr>
             else on_health (service_health_set SERVICE_NETWORK SERVICE_STATE_DEGRADED ESP_ERR_TIMEOUT) n
         | _ \<Rightarrow> n)"

definition network_start_provisioning :: "'f net_env \<Rightarrow> tick \<Rightarrow> 'f nop" where
  "network_start_provisioning env now n =
     (if \<not> nw_wifi_started n then (ESP_ERR_INVALID_STATE, n)
      else
        let n = (if \<not> nw_maintenance_active n
                 then n\<lparr>nw_maintenance_keep_ap := \<not> nw_has_wifi_credentials n \<or> nw_api_token n ! 0 = 0 \<or>
                        nw_provisioning n \<and> \<not> nw_provisioning_forced n\<rparr>
                 else n)
        in return_on_errors
             [provisioning_enable env True,
              (\<lambda>n. (ESP_OK, n\<lparr>nw_maintenance_active := True, nw_maintenance_started := now\<rparr>))] n)"

section \<open>HTTP server\<close>

definition http_handlers :: "(string \<times> http_method) list" where
  "http_handlers =
     [(''/'', HTTP_GET), (''/api/v1/device'', HTTP_GET), (''/api/v1/state'', HTTP_GET),
      (''/api/v1/fan'', HTTP_PUT), (''/api/v1/provision'', HTTP_POST), (''/update'', HTTP_GET),
      (''/api/v1/ota'', HTTP_GET), (''/api/v1/ota'', HTTP_POST), (''/api/v1/ota/rollback'', HTTP_POST),
      (''/connecttest.txt'', HTTP_GET), (''/ncsi.txt'', HTTP_GET), (''/generate_204'', HTTP_GET),
      (''/hotspot-detect.html'', HTTP_GET)]"

text \<open>\<open>httpd_start\<close> writes the handle when it succeeds.\<close>

definition start_http_server :: "'f net_env \<Rightarrow> 'f nop" where
  "start_http_server env n =
     (let degraded = (\<lambda>err. on_health (service_health_set SERVICE_HTTP SERVICE_STATE_DEGRADED err));
          n = (if nw_http_start_attempted n then on_health (service_health_note_restart SERVICE_HTTP) n else n);
          n = n\<lparr>nw_http_start_attempted := True\<rparr>
      in case net_do env Httpd_Start n of (err, n) \<Rightarrow>
        if err \<noteq> ESP_OK then (err, degraded err n)
        else
          (case return_on_errors (map (\<lambda>(uri, method). net_do env (Httpd_Register uri method)) http_handlers @
                                  [net_do env Httpd_Register_404]) (n\<lparr>nw_http_server := True\<rparr>) of
             (err, n) \<Rightarrow>
               if err \<noteq> ESP_OK
               then (err, degraded err ((net_just env Httpd_Stop n)\<lparr>nw_http_server := False\<rparr>))
               else (ESP_OK, update_network_led env
                               (on_health (service_health_set SERVICE_HTTP SERVICE_STATE_READY ESP_OK)
                                  (n\<lparr>nw_http_ready := True\<rparr>)))))"

section \<open>Initialisation\<close>

text \<open>A step that is not repeated once it has succeeded.\<close>

definition once :: "('f network \<Rightarrow> bool) \<Rightarrow> 'f nop list \<Rightarrow> ('f network \<Rightarrow> 'f network) \<Rightarrow> 'f nop" where
  "once finished ops mark n =
     (if finished n then (ESP_OK, n) else return_on_errors (ops @ [\<lambda>n. (ESP_OK, mark n)]) n)"

definition or_no_mem :: "'f nop \<Rightarrow> 'f nop" where
  "or_no_mem f n = (case f n of (err, n) \<Rightarrow> (if err = ESP_OK then ESP_OK else ESP_ERR_NO_MEM, n))"

definition create_event_loop :: "'f net_env \<Rightarrow> 'f nop" where
  "create_event_loop env n =
     (case net_do env Event_Loop_Create n of (err, n) \<Rightarrow>
        (if err = ESP_ERR_INVALID_STATE then ESP_OK else err, n))"

definition create_netifs :: "'f net_env \<Rightarrow> 'f nop" where
  "create_netifs env n =
     (let n = (if nw_sta_netif n then n
               else case net_do env Create_Netif_Sta n of (err, n) \<Rightarrow> n\<lparr>nw_sta_netif := err = ESP_OK\<rparr>);
          n = (if nw_ap_netif n then n
               else case net_do env Create_Netif_Ap n of (err, n) \<Rightarrow> n\<lparr>nw_ap_netif := err = ESP_OK\<rparr>)
      in (if nw_sta_netif n \<and> nw_ap_netif n then ESP_OK else ESP_ERR_NO_MEM, n))"

text \<open>The stored configuration is all zero unless it could be read.\<close>

definition read_credentials :: "'f net_env \<Rightarrow> 'f nop" where
  "read_credentials env n =
     (let ssid = ne_stored_ssid env (nw_log n)
      in case net_do env Wifi_Get_Sta_Config n of (err, n) \<Rightarrow>
        if err \<noteq> ESP_OK \<and> err \<noteq> ESP_ERR_WIFI_NOT_INIT then (err, n)
        else (ESP_OK, n\<lparr>nw_has_wifi_credentials := err = ESP_OK \<and> c_str ssid \<noteq> []\<rparr>))"

definition choose_mode :: "'f net_env \<Rightarrow> 'f nop" where
  "choose_mode env n =
     (let needs_provisioning = \<not> nw_has_wifi_credentials n \<or> nw_api_token n ! 0 = 0
      in return_on_errors
           [net_do env (Wifi_Set_Mode (if needs_provisioning then WIFI_MODE_APSTA else WIFI_MODE_STA)),
            when_op needs_provisioning
              (return_on_errors
                 [configure_ap env,
                  (\<lambda>n. (ESP_OK, n\<lparr>nw_provisioning := True, nw_provisioning_forced := False\<rparr>))])] n)"

definition init_captive_dns :: "'f net_env \<Rightarrow> 'f nop" where
  "init_captive_dns env n =
     (if nw_provisioning n \<and> \<not> nw_dns_server n then
        let n = start_captive_dns env n
        in if \<not> nw_dns_server n
           then (ESP_ERR_NO_MEM,
                 on_health (service_health_set SERVICE_DNS SERVICE_STATE_DEGRADED ESP_ERR_NO_MEM) n)
           else (ESP_OK, update_network_led env
                           (on_health (service_health_set SERVICE_DNS SERVICE_STATE_READY ESP_OK) n))
      else if \<not> nw_provisioning n
      then (ESP_OK, on_health (service_health_set SERVICE_DNS SERVICE_STATE_READY ESP_OK) n)
      else (ESP_OK, n))"

definition init_http :: "'f net_env \<Rightarrow> 'f nop" where
  "init_http env n =
     (case (if nw_http_ready n then (ESP_OK, n) else start_http_server env n) of (err, n) \<Rightarrow>
        (err, on_health (service_health_set SERVICE_NETWORK
                (if err = ESP_OK then SERVICE_STATE_READY else SERVICE_STATE_DEGRADED) err) n))"

definition init_steps :: "'f net_env \<Rightarrow> 'f nop list" where
  "init_steps env =
       [once (\<lambda>n. nw_manager_queue n \<noteq> None) [or_no_mem (net_do env Create_Manager_Queue)]
          (\<lambda>n. n\<lparr>nw_manager_queue := Some []\<rparr>),
        init_nvs env,
        load_api_token env,
        once nw_netif_initialized [net_do env Netif_Init] (\<lambda>n. n\<lparr>nw_netif_initialized := True\<rparr>),
        once nw_event_loop_initialized [create_event_loop env] (\<lambda>n. n\<lparr>nw_event_loop_initialized := True\<rparr>),
        create_netifs env,
        once nw_wifi_initialized [net_do env Wifi_Init, net_do env Wifi_Set_Storage_Flash]
          (\<lambda>n. n\<lparr>nw_wifi_initialized := True\<rparr>),
        read_credentials env,
        once nw_wifi_handler_registered [net_do env Register_Wifi_Events]
          (\<lambda>n. n\<lparr>nw_wifi_handler_registered := True\<rparr>),
        once nw_ip_handler_registered [net_do env Register_Ip_Events]
          (\<lambda>n. n\<lparr>nw_ip_handler_registered := True\<rparr>),
        choose_mode env,
        once nw_wifi_started [net_do env Wifi_Start] (\<lambda>n. n\<lparr>nw_wifi_started := True\<rparr>),
        init_captive_dns env,
        init_http env]"

definition network_init :: "'f net_env \<Rightarrow> 'f nop" where
  "network_init env n = return_on_errors (init_steps env) (update_network_led env n)"

end
