(* ===== verification/NetworkJson.thy ===== *)
theory NetworkJson
  imports Network
begin

text \<open>
  \<open>main/network.c\<close>, the JSON documents. An object is the list of its members; \<open>alloc\<close> says for
  which members, by their path from the inside out, cJSON finds memory: a member it finds none
  for is missing, and so is everything the code puts into it.
\<close>

type_synonym members = "(string \<times> json) list"
type_synonym alloc = "string list \<Rightarrow> bool"

definition add_item :: "alloc \<Rightarrow> string list \<Rightarrow> string \<Rightarrow> json \<Rightarrow> members \<Rightarrow> members" where
  "add_item alloc path name v ms = (if alloc (name # path) then ms @ [(name, v)] else ms)"

fun add_items :: "alloc \<Rightarrow> string list \<Rightarrow> members \<Rightarrow> members \<Rightarrow> members" where
  "add_items alloc path [] ms = ms"
| "add_items alloc path ((name, v) # rest) ms = add_items alloc path rest (add_item alloc path name v ms)"

definition add_object :: "alloc \<Rightarrow> string list \<Rightarrow> string \<Rightarrow> members \<Rightarrow> members \<Rightarrow> members" where
  "add_object alloc path name items ms =
     add_item alloc path name (JObject (add_items alloc (name # path) items [])) ms"

abbreviation jnum :: "u32 \<Rightarrow> json" where "jnum w \<equiv> JNumber (uint w)"
abbreviation jint :: "u32 \<Rightarrow> json" where "jint w \<equiv> JNumber (sint w)"
abbreviation jstr :: "string \<Rightarrow> json" where "jstr s \<equiv> JString (bytes_of s)"

section \<open>State of the fan\<close>

definition state_items :: "bool \<Rightarrow> controller_snapshot \<Rightarrow> members" where
  "state_items connected st =
     [(''power'', JBool (cs_fan_speed st \<noteq> FAN_SPEED_OFF)),
      (''speed'', jnum (cs_fan_speed st)),
      (''desired_speed'', jnum (cs_desired_speed st)),
      (''percentage'', jnum (cs_fan_speed st * 25)),
      (''source'', jstr (controller_source_name (cs_last_change_source st))),
      (''timer'', jstr (controller_shutoff_mode_name (cs_shutoff_mode st))),
      (''led_brightness'', JNumber (uint (cs_led_brightness_percent st))),
      (''wifi_connected'', JBool connected),
      (''pending'', JBool (cs_pending st)),
      (''accepted_sequence'', jnum (cs_accepted_sequence st)),
      (''applied_sequence'', jnum (cs_applied_sequence st)),
      (''control_state'', jstr (fan_control_state_name (cs_control_state st))),
      (''fault_latched'', JBool (cs_fault_latched st)),
      (''maintenance_active'', JBool (cs_maintenance_active st))]"

definition make_state_json :: "'f net_env \<Rightarrow> 'f network \<Rightarrow> members option \<times> 'f network" where
  "make_state_json env n =
     (case controller_get_snapshot (ne_ui_free env (nw_log n)) (ne_view env (nw_log n) 0) True (panel_of n) of
        (err, Some st) \<Rightarrow>
          if err \<noteq> ESP_OK then (None, n)
          else (case net_do env Json_Create n of (created, n) \<Rightarrow>
                  if created \<noteq> ESP_OK then (None, n)
                  else (Some (add_items (ne_alloc env (nw_log n)) [] (state_items (nw_connected n) st) []), n))
      | (_, None) \<Rightarrow> (None, n))"

section \<open>Diagnostics\<close>

definition boot_items :: "boot_info \<Rightarrow> members" where
  "boot_items boot =
     [(''reason'', jstr (bi_reset_reason_name boot)), (''code'', jnum (bi_reset_reason boot)),
      (''power_related'', JBool (bi_power_related boot)), (''planned'', JBool (bi_planned boot))] @
     (if bi_planned boot then [(''planned_reason'', jstr (bi_planned_reason boot))] else [])"

definition runtime_items :: "us_time \<Rightarrow> diagnostics_runtime \<Rightarrow> members" where
  "runtime_items uptime_us rt =
     [(''uptime_seconds'', JNumber (c_div uptime_us 1000000)),
      (''free_heap_bytes'', jnum (rt_free_heap_bytes rt)),
      (''minimum_free_heap_bytes'', jnum (rt_minimum_free_heap_bytes rt)),
      (''coredump_present'', JBool (rt_coredump_present rt)),
      (''coredump_readable'', JBool (rt_coredump_readable rt)),
      (''coredump_size_bytes'', jnum (rt_coredump_size_bytes rt)),
      (''coredump_capacity_bytes'', jnum (rt_coredump_capacity_bytes rt))]"

definition control_items :: "fan_control_snapshot \<Rightarrow> members" where
  "control_items st =
     [(''state'', jstr (fan_control_state_name (fc_state st))),
      (''desired_speed'', jnum (fc_desired_speed st)),
      (''applied_speed'', jnum (fc_applied_speed st)),
      (''pending'', JBool (fc_pending st)),
      (''fault_latched'', JBool (fc_fault_latched st)),
      (''maintenance_active'', JBool (fc_maintenance_active st)),
      (''accepted_sequence'', jnum (fc_accepted_sequence st)),
      (''applied_sequence'', jnum (fc_applied_sequence st)),
      (''control_cycles'', jnum (fc_control_cycles st)),
      (''max_cycle_us'', jnum (fc_max_cycle_us st)),
      (''budget_overruns'', jnum (fc_budget_overruns st)),
      (''deadline_misses'', jnum (fc_deadline_misses st)),
      (''transitions_attempted'', jnum (fc_transitions_attempted st)),
      (''transitions_completed'', jnum (fc_transitions_completed st)),
      (''duplicate_commands'', jnum (fc_duplicate_commands st)),
      (''coalesced_commands'', jnum (fc_coalesced_commands st)),
      (''rejected_commands'', jnum (fc_rejected_commands st)),
      (''last_transition_us'', jnum (fc_last_transition_us st)),
      (''minimum_transition_interval_ms'', jnum (fc_minimum_transition_interval_ms st)),
      (''maximum_transitions_per_minute'', jnum (fc_maximum_transitions_per_minute st)),
      (''stack_min_free_bytes'', jnum (fc_stack_min_free_bytes st))]"

definition fault_items :: "fan_control_snapshot \<Rightarrow> members" where
  "fault_items st =
     [(''latched'', JBool (fc_fault_latched st)), (''error'', jint (fc_fault_error st)),
      (''phase'', jstr (fan_control_phase_name (fc_fault_phase st)))]"

definition add_control :: "alloc \<Rightarrow> fan_view \<Rightarrow> members \<Rightarrow> members" where
  "add_control alloc view ms =
     (case view of
        (err, Some st) \<Rightarrow>
          if err = ESP_OK
          then add_object alloc [] ''last_fault'' (fault_items st)
                 (add_object alloc [] ''control_health'' (control_items st) ms)
          else ms
      | (_, None) \<Rightarrow> ms)"

definition counter_items :: "flash_counter \<Rightarrow> members" where
  "counter_items c =
     [(''operations'', jnum (fc_count c)), (''bytes'', jnum (fc_bytes c)), (''time_us'', jnum (fc_time_us c))]"

definition add_flash_activity :: "alloc \<Rightarrow> flash_counters \<Rightarrow> members \<Rightarrow> members" where
  "add_flash_activity alloc flash ms =
     (let path = [''flash_activity''];
          activity = add_item alloc path ''boot_scoped'' (JBool True) [];
          activity = fold (\<lambda>(name, c). add_object alloc path name (counter_items c))
                       [(''read'', fl_read flash), (''write'', fl_write flash), (''erase'', fl_erase flash)] activity
      in add_item alloc [] ''flash_activity'' (JObject activity) ms)"

definition event_items :: "breadcrumb \<Rightarrow> members" where
  "event_items b =
     [(''sequence'', jnum (bc_sequence b)), (''type'', jstr (diagnostics_event_name (bc_event b))),
      (''uptime_ms'', jnum (bc_uptime_ms b)), (''value'', jnum (bc_value b)), (''detail'', jint (bc_detail b))]"

definition service_items :: "service_health_snapshot \<Rightarrow> members" where
  "service_items s =
     [(''state'', jstr (service_health_state_name (sh_state s))), (''last_error'', jint (sh_last_error s)),
      (''restart_count'', jnum (sh_restart_count s)),
      (''minimum_free_stack_bytes'', jnum (sh_minimum_free_stack_bytes s))]"

definition add_services :: "alloc \<Rightarrow> health \<Rightarrow> members \<Rightarrow> members" where
  "add_services alloc h ms =
     (let path = [''service_health''];
          services = fold (\<lambda>i ms. case service_health_get (of_nat i) h of
                              None \<Rightarrow> ms
                            | Some s \<Rightarrow> add_object alloc path (service_health_name (of_nat i)) (service_items s) ms)
                       [0..<unat SERVICE_COUNT] []
      in add_item alloc [] ''service_health'' (JObject services) ms)"

text \<open>What the document is made of, once the two objects it cannot do without exist.\<close>

definition diagnostic_members ::
    "alloc \<Rightarrow> us_time \<Rightarrow> fan_view \<Rightarrow> diagnostics \<Rightarrow> health \<Rightarrow> members \<Rightarrow> members" where
  "diagnostic_members alloc uptime_us view d h ms =
     (if \<not> alloc [''last_boot''] then ms
      else
        let ms = add_object alloc [] ''last_boot'' (boot_items (diagnostics_get_boot_info d)) ms
        in if \<not> alloc [''runtime''] then ms
        else
          let ms = add_object alloc [] ''runtime'' (runtime_items uptime_us (diagnostics_get_runtime d)) ms;
              ms = add_control alloc view ms;
              ms = add_flash_activity alloc (diagnostics_get_flash_counters d) ms;
              ms = (case diagnostics_get_latest_event d of
                      None \<Rightarrow> ms | Some latest \<Rightarrow> add_object alloc [] ''last_event'' (event_items latest) ms)
          in add_services alloc h ms)"

text \<open>Adding to a null object does nothing; the stack is sampled first.\<close>

definition add_boot_diagnostics ::
    "'f net_env \<Rightarrow> members option \<Rightarrow> 'f network \<Rightarrow> members option \<times> 'f network" where
  "add_boot_diagnostics env json n =
     (let n = on_health (service_health_set_stack SERVICE_HTTP (ne_stack env (nw_log n) * SIZEOF_STACKTYPE)) n
      in (map_option
            (diagnostic_members (ne_alloc env (nw_log n)) (ne_uptime_us env (nw_log n)) (ne_view env (nw_log n) 0)
               (fs_diag (net_fan n)) (ow_health (nw_worker n))) json, n))"

end
