(* ===== verification/NetworkHttp.thy ===== *)
theory NetworkHttp
  imports NetworkJson
begin

text \<open>
  \<open>main/network.c\<close>, the HTTP side: requests and responses, the bearer token, the fan endpoint,
  provisioning and the small pages. A handler's calls on its response are in the call log of
  the network's state, in order.
\<close>

section \<open>Requests\<close>

text \<open>
  What the HTTP server knows of a request. \<open>rq_chunks\<close> are the answers of the receive calls to
  come, \<open>None\<close> for a failing one; the last five fields are what the socket and interface
  queries of one request deliver, an address in network byte order or nothing.
\<close>

record ip_info =
  ip_addr :: u32
  ip_netmask :: u32

record http_request =
  rq_method :: http_method
  rq_uri :: string
  rq_content_len :: u32
  rq_authorization :: "u8 list option"
  rq_chunks :: "u8 list option list"
  rq_socket :: int
  rq_local_address :: "u32 option"
  rq_peer_address :: "u32 option"
  rq_ap_clients :: "u32 list option"
  rq_ap_ip :: "ip_info option \<times> ip_info option"
  rq_sta_ip :: "ip_info option"

text \<open>\<open>httpd_req_recv\<close>: at most \<open>len\<close> bytes of what has arrived, or a failure.\<close>

fun httpd_req_recv :: "nat \<Rightarrow> u8 list option list \<Rightarrow> u8 list option \<times> u8 list option list" where
  "httpd_req_recv len [] = (None, [])"
| "httpd_req_recv len (None # chunks) = (None, chunks)"
| "httpd_req_recv len (Some bytes # chunks) =
     (if bytes = [] \<or> len = 0 then (None, chunks)
      else (Some (take len bytes), if length bytes \<le> len then chunks else Some (drop len bytes) # chunks))"

lemma recv_nonempty: "httpd_req_recv len chunks = (Some bytes, rest) \<Longrightarrow> 0 < length bytes \<and> length bytes \<le> len"
  by (cases "(len, chunks)" rule: httpd_req_recv.cases) (auto split: if_splits)

text \<open>Receiving until \<open>wanted\<close> bytes are there; \<open>got\<close> are those received so far.\<close>

function receive_all :: "nat \<Rightarrow> u8 list \<Rightarrow> u8 list option list \<Rightarrow> u8 list option \<times> u8 list option list" where
  "receive_all wanted got chunks =
     (if wanted \<le> length got then (Some got, chunks)
      else case httpd_req_recv (wanted - length got) chunks of
        (None, chunks) \<Rightarrow> (None, chunks)
      | (Some bytes, chunks) \<Rightarrow> receive_all wanted (got @ bytes) chunks)"
  by auto
termination
proof (relation "measure (\<lambda>(wanted, got, chunks). wanted - length got)", goal_cases)
  case (2 wanted got chunks r chunks' bytes)
  then have "0 < length bytes" using recv_nonempty [of _ chunks bytes chunks'] by simp
  then show ?case using 2(1) by (simp add: diff_less_mono2)
qed simp

declare receive_all.simps [simp del]

definition receive_body :: "http_request \<Rightarrow> nat \<Rightarrow> esp_err \<times> u8 list option" where
  "receive_body rq capacity =
     (if rq_content_len rq = 0 \<or> capacity \<le> unat (rq_content_len rq) then (ESP_ERR_INVALID_SIZE, None)
      else case receive_all (unat (rq_content_len rq)) [] (rq_chunks rq) of
        (None, _) \<Rightarrow> (ESP_FAIL, None)
      | (Some bytes, _) \<Rightarrow> (ESP_OK, Some (bytes @ [0])))"

section \<open>Responses\<close>

definition send_json :: "'f net_env \<Rightarrow> members option \<Rightarrow> 'f nop" where
  "send_json env json n =
     (let failed = net_do env (Resp_Err 500 ''JSON allocation failed'')
      in case json of
           None \<Rightarrow> failed n
         | Some ms \<Rightarrow>
             (case net_do env (Json_Print (JObject ms)) n of (printed, n) \<Rightarrow>
                if printed \<noteq> ESP_OK then failed n
                else net_do env (Resp_Json (JObject ms)) (net_just env (Resp_Type ''application/json'') n)))"

definition send_json_error :: "'f net_env \<Rightarrow> string \<Rightarrow> string \<Rightarrow> 'f nop" where
  "send_json_error env status message n =
     (case net_do env Json_Create n of (created, n) \<Rightarrow>
        if created \<noteq> ESP_OK then (ESP_ERR_NO_MEM, n)
        else
          let ms = add_item (ne_alloc env (nw_log n)) [] ''error'' (jstr message) []
          in send_json env (Some ms) (net_just env (Resp_Status status) n))"

definition close_upload_session :: "'f net_env \<Rightarrow> http_request \<Rightarrow> 'f network \<Rightarrow> 'f network" where
  "close_upload_session env rq n = (if 0 \<le> rq_socket rq then net_just env Close_Session n else n)"

definition send_json_error_and_close :: "'f net_env \<Rightarrow> http_request \<Rightarrow> string \<Rightarrow> string \<Rightarrow> 'f nop" where
  "send_json_error_and_close env rq status message n =
     (case send_json_error env status message (net_just env (Resp_Hdr ''Connection'' ''close'') n) of
        (err, n) \<Rightarrow> (err, close_upload_session env rq n))"

text \<open>An object to answer with, if cJSON has memory for it.\<close>

definition create_json :: "'f net_env \<Rightarrow> members \<Rightarrow> 'f network \<Rightarrow> members option \<times> 'f network" where
  "create_json env items n =
     (case net_do env Json_Create n of (created, n) \<Rightarrow>
        (if created = ESP_OK then Some (add_items (ne_alloc env (nw_log n)) [] items []) else None, n))"

section \<open>Who may do what\<close>

text \<open>The value is copied into a buffer of \<open>API_TOKEN_MAX_LENGTH + 8\<close> bytes, \<open>value + 7\<close> is the rest
  behind the scheme.\<close>

definition request_is_authorized :: "'f net_env \<Rightarrow> http_request \<Rightarrow> 'f network \<Rightarrow> bool \<times> 'f network" where
  "request_is_authorized env rq n =
     (if nw_api_token n ! 0 = 0 then (False, n)
      else case rq_authorization rq of
        None \<Rightarrow> (False, n)
      | Some header \<Rightarrow>
          if header = [] \<or> API_TOKEN_MAX_LENGTH + 8 \<le> length header then (False, n)
          else
            let value = store_str header (replicate (API_TOKEN_MAX_LENGTH + 8) 0)
            in case net_do env Req_Get_Hdr n of (err, n) \<Rightarrow>
              (err = ESP_OK \<and> strncmp_eq value (bytes_of ''Bearer '') 7 \<and>
               strcmp_eq (drop 7 value) (nw_api_token n), n))"

definition require_authorization :: "'f net_env \<Rightarrow> http_request \<Rightarrow> 'f nop" where
  "require_authorization env rq n =
     (case request_is_authorized env rq n of (authorized, n) \<Rightarrow>
        if authorized then (ESP_OK, n)
        else send_json_error env ''401 Unauthorized'' ''missing or invalid bearer token''
               (net_just env (Resp_Hdr ''WWW-Authenticate'' ''Bearer'') n))"

definition same_subnet :: "u32 \<Rightarrow> ip_info \<Rightarrow> bool" where
  "same_subnet a info \<longleftrightarrow> a AND ip_netmask info = ip_addr info AND ip_netmask info"

definition request_is_from_ap :: "http_request \<Rightarrow> 'f network \<Rightarrow> bool" where
  "request_is_from_ap rq n \<longleftrightarrow>
     nw_ap_netif n \<and> 0 \<le> rq_socket rq \<and>
     ((case (rq_local_address rq, fst (rq_ap_ip rq)) of
         (Some local, Some ap) \<Rightarrow> local = ip_addr ap | _ \<Rightarrow> False) \<or>
      (case (rq_peer_address rq, rq_ap_clients rq) of
         (Some peer, Some clients) \<Rightarrow>
           peer \<in> set clients \<or>
           (case snd (rq_ap_ip rq) of
              None \<Rightarrow> False
            | Some ap \<Rightarrow> same_subnet peer ap \<and>
                (nw_sta_netif n \<longrightarrow>
                   (case rq_sta_ip rq of
                      None \<Rightarrow> True
                    | Some sta \<Rightarrow> ip_addr sta = 0 \<or> \<not> same_subnet peer sta)))
       | _ \<Rightarrow> False))"

definition require_ota_access :: "'f net_env \<Rightarrow> http_request \<Rightarrow> tick \<Rightarrow> tick \<Rightarrow> bool \<Rightarrow> 'f nop" where
  "require_ota_access env rq loop_now now require_window n =
     (let n = network_service env loop_now now n
      in if require_window \<and> \<not> nw_maintenance_active n
         then send_json_error env ''403 Forbidden''
                ''use the physical 4,5,4,5 gesture to open maintenance'' n
         else if request_is_from_ap rq n then (ESP_OK, n)
         else require_authorization env rq n)"

text \<open>The endpoints that check the token twice: the second check writes the refusal.\<close>

definition authorized_then :: "'f net_env \<Rightarrow> http_request \<Rightarrow> 'f nop \<Rightarrow> 'f nop" where
  "authorized_then env rq body n =
     (case request_is_authorized env rq n of (authorized, n) \<Rightarrow>
        if \<not> authorized then require_authorization env rq n else body n)"

section \<open>Pages and state\<close>

definition root_get_handler :: "'f net_env \<Rightarrow> 'f nop" where
  "root_get_handler env n =
     (if nw_provisioning n
      then net_do env (Resp_Page ''provision_html'') (net_just env (Resp_Type ''text/html'') n)
      else net_do env (Resp_Text (''HPA300 local API'' @ [CHR 0x0A] @ ''GET /api/v1/device'' @ [CHR 0x0A] @
             ''GET /api/v1/state'' @ [CHR 0x0A] @ ''PUT /api/v1/fan'' @ [CHR 0x0A] @ ''GET /update'' @ [CHR 0x0A]))
             (net_just env (Resp_Type ''text/plain'') n))"

definition device_id :: "u8 list \<Rightarrow> u8 list" where
  "device_id mac = c_str (store_str (bytes_of (concat (map (\<lambda>i. hex2 False (mac ! i)) [0..<6]))) (replicate 18 0))"

text \<open>\<open>version\<close> is the version of the running application's description.\<close>

definition device_items :: "'f net_env \<Rightarrow> u8 list \<Rightarrow> members" where
  "device_items env version =
     [(''id'', JString (device_id (ne_mac env))), (''name'', jstr ''HPA300''),
      (''model'', jstr ''Honeywell HPA300 custom controller''), (''api_version'', jstr ''1''),
      (''firmware_version'', JString version), (''speed_count'', JNumber 4)]"

definition device_get_handler :: "'f net_env \<Rightarrow> http_request \<Rightarrow> u8 list \<Rightarrow> 'f nop" where
  "device_get_handler env rq version =
     authorized_then env rq (\<lambda>n.
       case create_json env (device_items env version) n of (json, n) \<Rightarrow>
         (case add_boot_diagnostics env json n of (json, n) \<Rightarrow> send_json env json n))"

definition state_get_handler :: "'f net_env \<Rightarrow> http_request \<Rightarrow> 'f nop" where
  "state_get_handler env rq =
     authorized_then env rq (\<lambda>n.
       case make_state_json env n of
         (None, n) \<Rightarrow> send_json_error env ''500 Internal Server Error'' ''failed to read controller state'' n
       | (Some ms, n) \<Rightarrow> send_json env (Some ms) n)"

definition update_page_get_handler :: "'f net_env \<Rightarrow> 'f nop" where
  "update_page_get_handler env n =
     net_do env (Resp_Page ''update_html'') (net_just env (Resp_Type ''text/html'') n)"

definition connectivity_check_get_handler :: "'f net_env \<Rightarrow> http_request \<Rightarrow> 'f nop" where
  "connectivity_check_get_handler env rq n =
     (let n = net_just env (Resp_Hdr ''Cache-Control'' ''no-store'') n
      in if rq_uri rq = ''/generate_204'' then net_do env Resp_Empty (net_just env (Resp_Status ''204 No Content'') n)
         else
           let n = net_just env (Resp_Type ''text/plain'') n
           in net_do env (Resp_Text
                (if rq_uri rq = ''/ncsi.txt'' then ''Microsoft NCSI''
                 else if rq_uri rq = ''/hotspot-detect.html'' then ''Success''
                 else ''Microsoft Connect Test'')) n)"

definition not_found_handler :: "'f net_env \<Rightarrow> http_request \<Rightarrow> 'f nop" where
  "not_found_handler env rq n =
     (if nw_provisioning n \<and> rq_method rq = HTTP_GET then
        net_do env (Resp_Text ''Redirecting to HPA300 setup'')
          (net_just env (Resp_Hdr ''Location'' ''/'') (net_just env (Resp_Status ''302 Temporary Redirect'') n))
      else net_do env (Resp_Err 404 ''Not found'') n)"

section \<open>The fan endpoint\<close>

text \<open>
  What cJSON's parser makes of a text: the members of an object (none for any other value), or
  nothing for an error. Of a number the handlers see its integer value and whether it is that
  integer exactly.
\<close>

datatype json_item = INumber bool int | IString "u8 list" | IOther

type_synonym json_parser = "u8 list \<Rightarrow> (u8 list \<times> json_item) list option"

definition json_get :: "(u8 list \<times> json_item) list option \<Rightarrow> string \<Rightarrow> json_item option" where
  "json_get json name = (case json of None \<Rightarrow> None | Some ms \<Rightarrow> map_of ms (bytes_of name))"

definition requested_speed :: "json_item option \<Rightarrow> fan_speed option" where
  "requested_speed item =
     (case item of
        Some (INumber whole value) \<Rightarrow>
          if \<not> whole \<or> value < uint FAN_SPEED_OFF \<or> uint NUM_FAN_SPEEDS \<le> value then None
          else Some (word_of_int value)
      | _ \<Rightarrow> None)"

text \<open>Why a command was not queued, from two more reads of the fan's snapshot.\<close>

definition refuse_fan_command :: "'f net_env \<Rightarrow> esp_err \<Rightarrow> 'f nop" where
  "refuse_fan_command env submitted n =
     (let quiesced = send_json_error env ''503 Service Unavailable'' ''fan control is quiesced for flash maintenance'';
          shows = (\<lambda>k f. case ne_view env (nw_log n) k of
                            (err, Some st) \<Rightarrow> err = ESP_OK \<and> f st | (_, None) \<Rightarrow> False)
      in if submitted = ESP_ERR_NOT_ALLOWED then quiesced n
         else if shows 1 fc_maintenance_active then quiesced n
         else if shows 2 fc_fault_latched
         then send_json_error env ''409 Conflict'' ''fan driver fault is latched until physical power cycle'' n
         else send_json_error env ''500 Internal Server Error'' ''fan command was not queued'' n)"

definition accept_fan_command :: "'f net_env \<Rightarrow> u32 \<Rightarrow> fan_speed \<Rightarrow> 'f nop" where
  "accept_fan_command env sequence speed n =
     (case create_json env [(''accepted'', JBool True), (''sequence'', jnum sequence),
                            (''requested_speed'', jnum speed)] n of
        (None, n) \<Rightarrow> (ESP_ERR_NO_MEM, n)
      | (Some ms, n) \<Rightarrow> send_json env (Some ms) (net_just env (Resp_Status ''202 Accepted'') n))"

definition set_remote_speed :: "'f net_env \<Rightarrow> fan_speed \<Rightarrow> 'f network \<Rightarrow> esp_err \<times> u32 \<times> 'f network" where
  "set_remote_speed env speed n =
     (case controller_set_remote_fan_speed (ne_mailbox_free env (nw_log n)) (ne_view env (nw_log n) 0) speed
             (panel_of n) of
        (err, sequence, c) \<Rightarrow>
          (err, case sequence of None \<Rightarrow> 0 | Some s \<Rightarrow> s, set_fan (ct_fan c) (n\<lparr>nw_ui := c\<rparr>)))"

definition fan_put_handler :: "'f net_env \<Rightarrow> json_parser \<Rightarrow> http_request \<Rightarrow> 'f nop" where
  "fan_put_handler env parse rq =
     authorized_then env rq (\<lambda>n.
       case receive_body rq 128 of
         (_, None) \<Rightarrow> send_json_error env ''400 Bad Request'' ''invalid request body'' n
       | (_, Some body) \<Rightarrow>
           (case requested_speed (json_get (parse (c_str body)) ''speed'') of
              None \<Rightarrow> send_json_error env ''422 Unprocessable Entity'' ''speed must be an integer from 0 through 4'' n
            | Some speed \<Rightarrow>
                (case set_remote_speed env speed n of (submitted, sequence, n) \<Rightarrow>
                   if submitted \<noteq> ESP_OK then refuse_fan_command env submitted n
                   else accept_fan_command env sequence speed n)))"

section \<open>Provisioning\<close>

text \<open>\<open>memcpy\<close> into a zeroed array.\<close>

definition copy_bytes :: "u8 list \<Rightarrow> u8 list \<Rightarrow> u8 list" where
  "copy_bytes src buf = take (length buf) src @ drop (length src) buf"

definition station_config :: "u8 list \<Rightarrow> u8 list \<Rightarrow> sta_config" where
  "station_config ssid password =
     \<lparr>sta_ssid = copy_bytes ssid (replicate 32 0), sta_password = strlcpy password (replicate 64 0),
      sta_authmode = if password = [] then WIFI_AUTH_OPEN else WIFI_AUTH_WPA2_PSK\<rparr>"

text \<open>The three strings of the form, if all are there.\<close>

definition provision_form :: "(u8 list \<times> json_item) list option \<Rightarrow> (u8 list \<times> u8 list \<times> u8 list) option" where
  "provision_form json =
     (case (json_get json ''ssid'', json_get json ''password'', json_get json ''api_token'') of
        (Some (IString ssid), Some (IString password), Some (IString token)) \<Rightarrow>
          Some (c_str ssid, c_str password, c_str token)
      | _ \<Rightarrow> None)"

definition form_lengths_ok :: "nat \<Rightarrow> nat \<Rightarrow> nat \<Rightarrow> bool" where
  "form_lengths_ok ssid_length password_length token_length \<longleftrightarrow>
     \<not> (ssid_length = 0 \<or> 32 < ssid_length \<or> 63 < password_length \<or>
        0 < password_length \<and> password_length < 8 \<or>
        token_length < API_TOKEN_MIN_LENGTH \<or> API_TOKEN_MAX_LENGTH < token_length)"

definition end_fan_maintenance :: "'f net_env \<Rightarrow> 'f network \<Rightarrow> 'f network" where
  "end_fan_maintenance env n = set_fan (fan_end_maintenance (ne_fan env (nw_log n)) (net_fan n)) n"

definition store_settings :: "'f net_env \<Rightarrow> u8 list \<Rightarrow> sta_config \<Rightarrow> 'f nop" where
  "store_settings env token config =
     return_on_errors [save_api_token env token, net_do env Wifi_Set_Storage_Flash,
                       net_do env (Wifi_Set_Sta_Config config)]"

definition answer_provisioned :: "'f net_env \<Rightarrow> 'f nop" where
  "answer_provisioned env n =
     (case create_json env [(''saved'', JBool True), (''restarting'', JBool True)] n of (response, n) \<Rightarrow>
        (case send_json env response n of (err, n) \<Rightarrow>
           if err = ESP_OK then
             (case net_do env (Create_Restart_Task DIAGNOSTICS_RESTART_PROVISIONING) n of (created, n) \<Rightarrow>
                (err, if created \<noteq> ESP_OK then end_fan_maintenance env n else n))
           else (err, end_fan_maintenance env n)))"

text \<open>A fan that never answers its quiesce leaves the handler blocked.\<close>

definition provision_post_handler :: "'f net_env \<Rightarrow> json_parser \<Rightarrow> http_request \<Rightarrow> 'f network \<Rightarrow> (esp_err \<times> 'f network) option" where
  "provision_post_handler env parse rq n =
     (if \<not> nw_provisioning n
      then Some (send_json_error env ''403 Forbidden'' ''provisioning is not active'' n)
      else case receive_body rq 512 of
        (_, None) \<Rightarrow> Some (send_json_error env ''400 Bad Request'' ''invalid request body'' n)
      | (_, Some body) \<Rightarrow>
          (case provision_form (parse (c_str body)) of
             None \<Rightarrow> Some (send_json_error env ''422 Unprocessable Entity''
                             ''ssid, password, and api_token are required strings'' n)
           | Some (ssid, password, token) \<Rightarrow>
               if \<not> form_lengths_ok (length ssid) (length password) (length token)
               then Some (send_json_error env ''422 Unprocessable Entity''
                            ''invalid SSID, Wi-Fi password, or API token length'' n)
               else case fan_quiesce (ne_fan env (nw_log n)) (net_fan n) of
                 None \<Rightarrow> None
               | Some (err, f) \<Rightarrow>
                   let n = set_fan f n
                   in if err \<noteq> ESP_OK
                      then Some (send_json_error env ''503 Service Unavailable''
                                   ''fan could not be quiesced for provisioning'' n)
                      else case store_settings env token (station_config ssid password) n of (err, n) \<Rightarrow>
                        if err \<noteq> ESP_OK
                        then Some (send_json_error env ''500 Internal Server Error'' ''failed to save configuration''
                                     (end_fan_maintenance env n))
                        else Some (answer_provisioned env (n\<lparr>nw_has_wifi_credentials := True\<rparr>))))"

end
