(* ===== verification/NetworkOta.thy ===== *)
theory NetworkOta
  imports NetworkHttp
begin

text \<open>
  \<open>main/network.c\<close>, the firmware endpoints: status, upload and rollback. They run in the HTTP
  task and drive the OTA worker call by call; \<open>None\<close> is a handler that never returns because
  the worker blocks or an array is read out of range.
\<close>

section \<open>Calls of the worker\<close>

definition on_worker ::
    "'f net_env \<Rightarrow>
     ('f ota_api \<Rightarrow> image_layout \<Rightarrow> fan_sys fan_api \<Rightarrow> u32 \<Rightarrow> ('f, fan_sys) worker
      \<Rightarrow> (esp_err \<times> ('f, fan_sys) worker) option) \<Rightarrow> 'f network \<Rightarrow> (esp_err \<times> 'f network) option" where
  "on_worker env f n =
     (case f (ne_ota env) (ne_layout env) (ne_fan env (nw_log n)) (ne_stack env (nw_log n)) (nw_worker n) of
        None \<Rightarrow> None
      | Some (err, w) \<Rightarrow> Some (err, n\<lparr>nw_worker := w, nw_log := Ota_Worker_Call # nw_log n\<rparr>))"

definition acquire_buffer :: "'f network \<Rightarrow> buffer_ptr \<times> u32 option \<times> 'f network" where
  "acquire_buffer n =
     (case ota_worker_acquire_buffer (nw_worker n) of
        (buffer, capacity, w) \<Rightarrow> (buffer, capacity, n\<lparr>nw_worker := w\<rparr>))"

definition release_buffer :: "buffer_ptr \<Rightarrow> 'f network \<Rightarrow> 'f network" where
  "release_buffer buffer n = n\<lparr>nw_worker := ota_worker_release_buffer buffer (nw_worker n)\<rparr>"

text \<open>Received bytes go into the buffer the handler holds.\<close>

definition store_at :: "nat \<Rightarrow> u8 list \<Rightarrow> u8 list \<Rightarrow> u8 list" where
  "store_at offset bytes buf = take offset buf @ bytes @ drop (offset + length bytes) buf"

definition fill_buffer :: "nat \<Rightarrow> nat \<Rightarrow> u8 list \<Rightarrow> 'f network \<Rightarrow> 'f network" where
  "fill_buffer i offset bytes n =
     n\<lparr>nw_worker := (nw_worker n)\<lparr>ow_buffers :=
        (ow_buffers (nw_worker n))[i := store_at offset bytes (ow_buffers (nw_worker n) ! i)]\<rparr>\<rparr>"

section \<open>Results\<close>

definition set_result :: "string \<Rightarrow> u8 list \<Rightarrow> 'f network \<Rightarrow> 'f network" where
  "set_result prefix rest n =
     n\<lparr>nw_last_ota_result := store_str (bytes_of prefix @ rest) (nw_last_ota_result n)\<rparr>"

definition failure_status :: "esp_err \<Rightarrow> string" where
  "failure_status cause =
     (if cause = ESP_ERR_INVALID_STATE \<or> cause = ESP_ERR_OTA_ROLLBACK_INVALID_STATE then ''409 Conflict''
      else if cause = ESP_ERR_INVALID_SIZE then ''413 Payload Too Large''
      else if cause = ESP_ERR_OTA_VALIDATE_FAILED \<or> cause = ESP_ERR_INVALID_ARG
      then ''422 Unprocessable Entity''
      else ''500 Internal Server Error'')"

definition ota_failure :: "'f net_env \<Rightarrow> esp_err \<Rightarrow> string \<Rightarrow> 'f network \<Rightarrow> (esp_err \<times> 'f network) option" where
  "ota_failure env cause message n =
     (case on_worker env (\<lambda>api il fan stack w. map_option (\<lambda>w. (ESP_OK, w)) (ota_worker_abort api il fan stack w)) n of
        None \<Rightarrow> None
      | Some (_, n) \<Rightarrow>
          let n = end_fan_maintenance env n;
              n = update_network_led env (n\<lparr>nw_ota_request_active := False\<rparr>);
              n = set_result ''failed: '' (bytes_of (ne_err_name env cause)) n
          in Some (send_json_error env (failure_status cause) message n))"

text \<open>A failure that also ends the session.\<close>

definition ota_failure_and_close ::
    "'f net_env \<Rightarrow> http_request \<Rightarrow> esp_err \<Rightarrow> string \<Rightarrow> 'f network \<Rightarrow> (esp_err \<times> 'f network) option" where
  "ota_failure_and_close env rq cause message n =
     map_option (\<lambda>(response, n). (response, close_upload_session env rq n)) (ota_failure env cause message n)"

text \<open>The task that restarts the device a while after the answer.\<close>

definition restart_task :: "restart_reason \<Rightarrow> 'f network \<Rightarrow> 'f network" where
  "restart_task reason n =
     set_fan ((net_fan n)\<lparr>fs_diag := diagnostics_mark_planned_restart reason (fs_diag (net_fan n))\<rparr>) n"

text \<open>
  The end of a successful update or rollback: answer, close the maintenance window, restart.
  \<open>no_restart\<close> is what a missing restart task changes besides the request flag.
\<close>

definition accept_and_restart ::
    "'f net_env \<Rightarrow> members \<Rightarrow> restart_reason \<Rightarrow> ('f network \<Rightarrow> 'f network) \<Rightarrow> 'f nop" where
  "accept_and_restart env items reason no_restart n =
     (case create_json env items n of
        (None, n) \<Rightarrow> (ESP_ERR_NO_MEM, n)
      | (Some ms, n) \<Rightarrow>
          (case send_json env (Some ms) n of (response_err, n) \<Rightarrow>
             (case net_do env (Create_Restart_Task reason) (maintenance_close env True n) of (created, n) \<Rightarrow>
                (response_err,
                 if created \<noteq> ESP_OK
                 then on_health (service_health_set SERVICE_OTA_WORKER SERVICE_STATE_DEGRADED ESP_ERR_NO_MEM)
                        (no_restart (n\<lparr>nw_ota_request_active := False\<rparr>))
                 else n))))"

section \<open>Status\<close>

definition status_items ::
    "u8 list \<Rightarrow> ota_info \<Rightarrow> previous_validation \<Rightarrow> partition option \<Rightarrow> 'f network \<Rightarrow> members" where
  "status_items result info validation inactive n =
     [(''version'', JString (c_str (oi_running_version info))), (''slot'', JString (c_str (oi_running_slot info)))] @
     (case inactive of None \<Rightarrow> [] | Some p \<Rightarrow> [(''max_image_bytes'', jnum (pt_size p))]) @
     [(''maintenance_active'', JBool (nw_maintenance_active n)), (''busy'', JBool (network_ota_is_busy n)),
      (''previous_available'', JBool (oi_previous_available info)),
      (''previous_validation'', jstr (ota_worker_validation_name validation))] @
     (if oi_previous_available info
      then [(''previous_version'', JString (c_str (oi_previous_version info))),
            (''previous_slot'', JString (c_str (oi_previous_slot info)))] else []) @
     (if c_str result \<noteq> [] then [(''last_result'', JString (c_str result))] else [])"

text \<open>The partition the next update goes to.\<close>

definition inactive_slot :: "'f net_env \<Rightarrow> 'f network \<Rightarrow> partition option" where
  "inactive_slot env n = api_next_update_partition (ne_ota env) None (ou_flash (ow_ota (nw_worker n)))"

definition ota_status_get_handler :: "'f net_env \<Rightarrow> http_request \<Rightarrow> tick \<Rightarrow> tick \<Rightarrow> 'f nop" where
  "ota_status_get_handler env rq loop_now now n =
     (case require_ota_access env rq loop_now now False n of (access, n) \<Rightarrow>
        if access \<noteq> ESP_OK then (access, n)
        else case ota_worker_get_info True True (nw_worker n) of
          (err, Some (info, validation)) \<Rightarrow>
            if err \<noteq> ESP_OK
            then send_json_error env ''500 Internal Server Error'' ''failed to read OTA partitions'' n
            else
              (case create_json env (status_items (nw_last_ota_result n) info validation (inactive_slot env n) n) n of
                 (None, n) \<Rightarrow> (ESP_ERR_NO_MEM, n)
               | (Some ms, n) \<Rightarrow>
                   (case add_boot_diagnostics env (Some ms) n of (json, n) \<Rightarrow> send_json env json n))
        | (_, None) \<Rightarrow> send_json_error env ''500 Internal Server Error'' ''failed to read OTA partitions'' n)"

section \<open>Upload\<close>

text \<open>Filling the first buffer up to \<open>wanted\<close> bytes: whether all came, and what is still to come.\<close>

function receive_into ::
    "nat \<Rightarrow> nat \<Rightarrow> nat \<Rightarrow> u8 list option list \<Rightarrow> 'f network \<Rightarrow> bool \<times> u8 list option list \<times> 'f network" where
  "receive_into i wanted got chunks n =
     (if wanted \<le> got then (True, chunks, n)
      else case httpd_req_recv (wanted - got) chunks of
        (None, chunks) \<Rightarrow> (False, chunks, n)
      | (Some bytes, chunks) \<Rightarrow> receive_into i wanted (got + length bytes) chunks (fill_buffer i got bytes n))"
  by auto
termination
proof (relation "measure (\<lambda>(i, wanted, got, chunks, n). wanted - got)", goal_cases)
  case (2 i wanted got chunks n r chunks' bytes)
  then have "0 < length bytes" using recv_nonempty [of _ chunks bytes chunks'] by simp
  then show ?case using 2(1) by (simp add: diff_less_mono2)
qed simp

declare receive_into.simps [simp del]

text \<open>The rest of the image, buffer by buffer: the error, how much was handed to the worker.\<close>

function upload_rest ::
    "'f net_env \<Rightarrow> nat \<Rightarrow> nat \<Rightarrow> u8 list option list \<Rightarrow> 'f network \<Rightarrow> (esp_err \<times> nat \<times> 'f network) option" where
  "upload_rest env expected sent chunks n =
     (if expected \<le> sent then Some (ESP_OK, sent, n)
      else case acquire_buffer n of
        (Some i, Some capacity, n) \<Rightarrow>
          (case httpd_req_recv (min (expected - sent) (unat capacity)) chunks of
             (None, chunks) \<Rightarrow> Some (ESP_FAIL, sent, release_buffer (Some i) n)
           | (Some bytes, chunks) \<Rightarrow>
               (case on_worker env (\<lambda>api il fan stack. ota_worker_write api il fan stack (Some i)
                        (of_nat (length bytes))) (fill_buffer i 0 bytes n) of
                  None \<Rightarrow> None
                | Some (err, n) \<Rightarrow>
                    if err \<noteq> ESP_OK then Some (err, sent + length bytes, n)
                    else upload_rest env expected (sent + length bytes) chunks n))
      | (_, _, n) \<Rightarrow> Some (ESP_ERR_TIMEOUT, sent, n))"
  by pat_completeness auto
termination
proof (relation "measure (\<lambda>(env, expected, sent, chunks, n). expected - sent)", goal_cases)
  case (2 env expected sent chunks n b r1 i r2 capacity n1 r chunks' bytes r3 err n2)
  then have "0 < length bytes" using recv_nonempty [of _ chunks bytes chunks'] by simp
  then show ?case using 2(1) by (simp add: diff_less_mono2)
qed simp

declare upload_rest.simps [simp del]

definition finish_upload :: "'f net_env \<Rightarrow> u8 list \<Rightarrow> 'f network \<Rightarrow> (esp_err \<times> 'f network) option" where
  "finish_upload env running_version n =
     (case on_worker env ota_worker_finish n of
        None \<Rightarrow> None
      | Some (err, n) \<Rightarrow>
          if err \<noteq> ESP_OK then ota_failure env err ''firmware image or signature is invalid'' n
          else
            let new_version = c_str (ota_worker_new_version (nw_worker n));
                n = set_result ''installed '' new_version n
            in Some (accept_and_restart env
                 [(''accepted'', JBool True), (''from_version'', JString running_version),
                  (''to_version'', JString new_version), (''restarting'', JBool True)]
                 DIAGNOSTICS_RESTART_OTA (set_result ''installed; manual restart required'' []) n))"

text \<open>The upload once the request is let in and its size is known to fit.\<close>

definition upload_image ::
    "'f net_env \<Rightarrow> http_request \<Rightarrow> u8 list \<Rightarrow> 'f network \<Rightarrow> (esp_err \<times> 'f network) option" where
  "upload_image env rq running_version n =
     (let expected = unat (rq_content_len rq);
          preflight_length = min expected 512
      in case acquire_buffer (n\<lparr>nw_ota_request_active := True\<rparr>) of (buffer, capacity, n) \<Rightarrow>
        (case (buffer, capacity) of
           (Some i, Some capacity) \<Rightarrow>
             if unat capacity < preflight_length
             then Some (send_json_error env ''503 Service Unavailable''
                          ''OTA worker buffers are busy; retry shortly'' (n\<lparr>nw_ota_request_active := False\<rparr>))
             else
               (case receive_into i preflight_length 0 (rq_chunks rq) n of (complete, chunks, n) \<Rightarrow>
                  if \<not> complete
                  then ota_failure_and_close env rq ESP_FAIL ''firmware upload was interrupted''
                         (release_buffer (Some i) n)
                  else
                    (case on_worker env (\<lambda>api il fan stack. ota_worker_begin_and_write api il fan stack (Some i)
                             (of_nat preflight_length) (rq_content_len rq))
                             (set_network_status env CONTROLLER_NETWORK_UPDATING n) of
                       None \<Rightarrow> None
                     | Some (err, n) \<Rightarrow>
                         if err \<noteq> ESP_OK
                         then ota_failure_and_close env rq err ''firmware header is invalid'' n
                         else
                           (case upload_rest env expected preflight_length chunks n of
                              None \<Rightarrow> None
                            | Some (err, sent, n) \<Rightarrow>
                                if err \<noteq> ESP_OK then
                                  (if sent < expected
                                   then ota_failure_and_close env rq err ''firmware upload was interrupted'' n
                                   else ota_failure env err ''firmware write failed'' n)
                                else finish_upload env running_version n)))
         | _ \<Rightarrow> Some (send_json_error env ''503 Service Unavailable''
                        ''OTA worker buffers are busy; retry shortly'' (n\<lparr>nw_ota_request_active := False\<rparr>))))"

definition ota_post_handler ::
    "'f net_env \<Rightarrow> http_request \<Rightarrow> tick \<Rightarrow> tick \<Rightarrow> u8 list \<Rightarrow> 'f network \<Rightarrow> (esp_err \<times> 'f network) option" where
  "ota_post_handler env rq loop_now now running_version n =
     (case require_ota_access env rq loop_now now True n of (access, n) \<Rightarrow>
        if access \<noteq> ESP_OK then Some (access, n)
        else if network_ota_is_busy n
        then Some (send_json_error env ''409 Conflict'' ''a firmware update is already active'' n)
        else if rq_content_len rq = 0
        then Some (send_json_error env ''422 Unprocessable Entity'' ''firmware body is required'' n)
        else case inactive_slot env n of
          None \<Rightarrow> Some (send_json_error env ''500 Internal Server Error'' ''inactive OTA partition was not found'' n)
        | Some inactive \<Rightarrow>
            if pt_size inactive < rq_content_len rq
            then Some (send_json_error_and_close env rq ''413 Payload Too Large''
                         ''firmware exceeds the inactive OTA partition''
                         (set_result ''failed: image too large'' [] n))
            else upload_image env rq running_version n)"

section \<open>Rollback\<close>

definition ota_rollback_post_handler ::
    "'f net_env \<Rightarrow> http_request \<Rightarrow> tick \<Rightarrow> tick \<Rightarrow> 'f network \<Rightarrow> (esp_err \<times> 'f network) option" where
  "ota_rollback_post_handler env rq loop_now now n =
     (case require_ota_access env rq loop_now now True n of (access, n) \<Rightarrow>
        if access \<noteq> ESP_OK then Some (access, n)
        else if network_ota_is_busy n
        then Some (send_json_error env ''409 Conflict'' ''a firmware update is active'' n)
        else
          (case on_worker env ota_worker_select_previous
                  (set_network_status env CONTROLLER_NETWORK_UPDATING (n\<lparr>nw_ota_request_active := True\<rparr>)) of
             None \<Rightarrow> None
           | Some (err, n) \<Rightarrow>
               if err = ESP_ERR_NOT_FINISHED
               then Some (send_json_error env ''503 Service Unavailable''
                            ''previous firmware validation is pending; retry shortly''
                            (n\<lparr>nw_ota_request_active := False\<rparr>))
               else if err = ESP_ERR_NOT_FOUND
               then Some (send_json_error env ''409 Conflict'' ''no previous firmware is available''
                            (update_network_led env
                               (end_fan_maintenance env (n\<lparr>nw_ota_request_active := False\<rparr>))))
               else if err \<noteq> ESP_OK then ota_failure env err ''previous firmware failed validation'' n
               else Some (accept_and_restart env [(''accepted'', JBool True), (''restarting'', JBool True)]
                            DIAGNOSTICS_RESTART_ROLLBACK (\<lambda>n. n) n)))"

end
