(* ===== verification/NetworkProps.thy ===== *)
theory NetworkProps
  imports NetworkOta
begin

text \<open>
  What holds of \<open>main/network.c\<close>: the network with the OTA worker, the panel and the fan in
  every order of events, service rounds, gestures and requests.
\<close>

section \<open>Frames\<close>

text \<open>The fixed arrays keep their size and their terminating NUL, the counters their bounds.\<close>

definition wf_net :: "'f network \<Rightarrow> bool" where
  "wf_net n \<longleftrightarrow> length (nw_api_token n) = API_TOKEN_MAX_LENGTH + 1 \<and> 0 \<in> set (nw_api_token n) \<and>
     length (nw_captive_portal_uri n) = 32 \<and> length (nw_last_ota_result n) = 96 \<and>
     nw_retry_count n \<le> WIFI_RETRY_LIMIT \<and>
     (\<forall>q. nw_manager_queue n = Some q \<longrightarrow> length q \<le> NETWORK_EVENT_QUEUE_LENGTH)"

text \<open>A step that leaves the worker, and with it the fan, alone except for the health table.\<close>

definition calm :: "'f network \<Rightarrow> 'f network \<Rightarrow> bool" where
  "calm n n' \<longleftrightarrow> (wf_net n \<longrightarrow> wf_net n') \<and> (\<exists>h. nw_worker n' = (nw_worker n)\<lparr>ow_health := h\<rparr>)"

lemma calm_refl [simp]: "calm n n"
  by (auto simp: calm_def intro: exI [of _ "ow_health (nw_worker n)"])

lemma calm_trans: "calm a b \<Longrightarrow> calm b c \<Longrightarrow> calm a c"
  by (auto simp: calm_def)

lemma calm_worker: "nw_worker n' = nw_worker n \<Longrightarrow> (wf_net n \<Longrightarrow> wf_net n') \<Longrightarrow> calm n n'"
  by (auto simp: calm_def intro: exI [of _ "ow_health (nw_worker n)"])

lemma calm_log [simp]: "calm n (n\<lparr>nw_log := log\<rparr>)"
  by (rule calm_worker) (simp_all add: wf_net_def)

lemma calm_ui [simp]: "calm n (n\<lparr>nw_ui := u\<rparr>)"
  by (rule calm_worker) (simp_all add: wf_net_def)

lemma calm_health [simp]: "calm n (on_health f n)"
  by (auto simp: calm_def on_health_def wf_net_def)

lemma calm_do [simp]: "calm n (snd (net_do env c n))" "calm n (net_just env c n)"
  by (simp_all add: net_do_def net_just_def)

lemma calm_led [simp]: "calm n (set_network_status env st n)" "calm n (update_network_led env n)"
  by (simp_all add: set_network_status_def update_network_led_def)

lemma calm_run: "(\<And>f s. f \<in> set fs \<Longrightarrow> calm s (snd (f s))) \<Longrightarrow> calm n (snd (return_on_errors fs n))"
  by (rule return_on_errors_rel) (auto intro: calm_trans)

text \<open>Assignments to statics that have no bound to keep.\<close>

lemma calm_assign [simp]:
  "calm n (n\<lparr>nw_provisioning := b\<rparr>)" "calm n (n\<lparr>nw_provisioning_forced := b\<rparr>)"
  "calm n (n\<lparr>nw_provisioning := b, nw_provisioning_forced := b'\<rparr>)"
  "calm n (n\<lparr>nw_maintenance_active := b\<rparr>)" "calm n (n\<lparr>nw_maintenance_keep_ap := b\<rparr>)"
  "calm n (n\<lparr>nw_maintenance_active := b, nw_provisioning_forced := b'\<rparr>)"
  "calm n (n\<lparr>nw_maintenance_active := b, nw_maintenance_started := t\<rparr>)"
  "calm n (n\<lparr>nw_dns_start_attempted := b\<rparr>)" "calm n (n\<lparr>nw_http_start_attempted := b\<rparr>)"
  "calm n (n\<lparr>nw_dns_server := b, nw_dns := d, nw_log := log\<rparr>)"
  "calm n (n\<lparr>nw_dns := d, nw_dns_server := b, nw_log := log\<rparr>)"
  "calm n (n\<lparr>nw_connected := b\<rparr>)" "calm n (n\<lparr>nw_connected := b, nw_retry_count := 0\<rparr>)"
  "calm n (n\<lparr>nw_reconnect_at := t\<rparr>)" "calm n (n\<lparr>nw_reconnect_pending := b\<rparr>)"
  "calm n (n\<lparr>nw_retry_count := 0, nw_reconnect_pending := b\<rparr>)"
  "calm n (n\<lparr>nw_http_server := b\<rparr>)" "calm n (n\<lparr>nw_http_ready := b\<rparr>)"
  "calm n (n\<lparr>nw_sta_netif := b\<rparr>)" "calm n (n\<lparr>nw_ap_netif := b\<rparr>)"
  "calm n (n\<lparr>nw_has_wifi_credentials := b\<rparr>)" "calm n (n\<lparr>nw_ota_request_active := b\<rparr>)"
  "calm n (n\<lparr>nw_netif_initialized := b\<rparr>)" "calm n (n\<lparr>nw_event_loop_initialized := b\<rparr>)"
  "calm n (n\<lparr>nw_wifi_initialized := b\<rparr>)" "calm n (n\<lparr>nw_wifi_handler_registered := b\<rparr>)"
  "calm n (n\<lparr>nw_ip_handler_registered := b\<rparr>)" "calm n (n\<lparr>nw_wifi_started := b\<rparr>)"
  "calm n (n\<lparr>nw_manager_queue := Some []\<rparr>)"
  by (rule calm_worker; simp add: wf_net_def)+

lemma nul_in_store_str: "buf \<noteq> [] \<Longrightarrow> 0 \<in> set (store_str s buf)"
  by (simp add: store_str_def Let_def)

lemma calm_buffers [simp]:
  "calm n (n\<lparr>nw_api_token := store_str s (nw_api_token n)\<rparr>)"
  "calm n (n\<lparr>nw_api_token := strlcpy s (nw_api_token n)\<rparr>)"
  "calm n (n\<lparr>nw_api_token := (nw_api_token n)[0 := 0]\<rparr>)"
  "calm n (n\<lparr>nw_captive_portal_uri := store_str s (nw_captive_portal_uri n)\<rparr>)"
  "calm n (n\<lparr>nw_last_ota_result := store_str s (nw_last_ota_result n)\<rparr>)"
  by (rule calm_worker; auto simp: wf_net_def strlcpy_def set_update_memI intro: nul_in_store_str)+

section \<open>The manager is calm\<close>

lemma calm_after: "calm n (f n) \<Longrightarrow> calm m n \<Longrightarrow> calm m (f n)"
  by (rule calm_trans)

lemma calm_init_nvs [simp]: "calm n (snd (init_nvs env n))"
proof -
  obtain err m where m: "net_do env Nvs_Flash_Init n = (err, m)" by (cases "net_do env Nvs_Flash_Init n")
  have "calm n m" using calm_do(1) [of n env Nvs_Flash_Init] by (simp add: m)
  moreover have "calm m (snd (return_on_errors [net_do env Nvs_Flash_Erase, net_do env Nvs_Flash_Init] m))"
    by (rule calm_run) auto
  ultimately show ?thesis by (auto simp: init_nvs_def m intro: calm_trans)
qed

lemma calm_load_token [simp]: "calm n (snd (load_api_token env n))"
  by (rule calm_worker; auto simp: load_api_token_def net_do_def Let_def wf_net_def set_update_memI
      intro: nul_in_store_str)

lemma calm_save_token [simp]: "calm n (snd (save_api_token env t n))"
  by (rule calm_worker; auto simp: save_api_token_def net_do_def Let_def wf_net_def strlcpy_def
      intro: nul_in_store_str)

lemma calm_configure_ap [simp]: "calm n (snd (configure_ap env n))"
  by (simp add: configure_ap_def Let_def)

lemma calm_dhcp [simp]: "calm n (configure_captive_portal_dhcp env n)"
  by (rule calm_worker; auto simp: configure_captive_portal_dhcp_def net_do_def net_just_def Let_def wf_net_def)

text \<open>Chains of calm steps.\<close>

lemma calm_step: "calm n m \<Longrightarrow> calm m (f m) \<Longrightarrow> calm n (f m)"
  by (rule calm_trans)

lemma calm_launch_dns [simp]: "calm n (launch_dns env n)"
  by (simp add: launch_dns_def split_beta)

lemma calm_captive_dns [simp]: "calm n (start_captive_dns env n)"
proof -
  let ?a = "configure_captive_portal_dhcp env n"
  let ?b = "if nw_dns_start_attempted ?a then on_health (service_health_note_restart SERVICE_DNS) ?a else ?a"
  let ?c = "?b\<lparr>nw_dns_start_attempted := True\<rparr>"
  have "calm n ?a" "calm ?a ?b" "calm ?b ?c" "calm ?c (launch_dns env ?c)" by simp_all
  then have "calm n (launch_dns env ?c)" by (blast intro: calm_trans)
  then show ?thesis unfolding start_captive_dns_def Let_def .
qed

lemma calm_open_setup_ap [simp]: "calm n (snd (open_setup_ap env forced n))"
proof -
  let ?a = "n\<lparr>nw_provisioning := True, nw_provisioning_forced := forced\<rparr>"
  have "calm n ?a" "calm ?a (start_captive_dns env ?a)" by simp_all
  then have "calm n (start_captive_dns env ?a)" by (rule calm_trans)
  then show ?thesis by (simp add: open_setup_ap_def Let_def)
qed

lemma calm_provisioning_enable [simp]: "calm n (snd (provisioning_enable env forced n))"
proof (cases "nw_provisioning n")
  case True
  then show ?thesis
    by (simp add: provisioning_enable_def) (rule calm_trans [OF calm_assign(2) calm_led(2)])
next
  case False
  then have "provisioning_enable env forced n = return_on_errors
      [net_do env (Wifi_Set_Mode WIFI_MODE_APSTA), configure_ap env, open_setup_ap env forced,
       (\<lambda>n. (ESP_OK, update_network_led env n))] n"
    by (simp only: provisioning_enable_def if_False)
  then show ?thesis by (simp only:) (rule calm_run, auto)
qed

lemma calm_provisioning_disable [simp]: "calm n (provisioning_disable env n)"
proof -
  have "calm m (update_network_led env (net_just env c m))" for c and m :: "'a network"
    by (rule calm_trans [OF calm_do(2) calm_led(2)])
  moreover have "calm n (n\<lparr>nw_provisioning := b, nw_dns := d, nw_dns_server := b', nw_log := log\<rparr>)" for b d b' log
    by (rule calm_worker) (simp_all add: wf_net_def)
  ultimately show ?thesis
    by (simp add: provisioning_disable_def Let_def) (metis calm_trans calm_assign(1))
qed

lemma calm_maintenance_close [simp]: "calm n (maintenance_close env b n)"
proof -
  let ?a = "n\<lparr>nw_maintenance_active := False, nw_provisioning_forced := False\<rparr>"
  let ?b = "if \<not> b \<and> \<not> nw_maintenance_keep_ap ?a then provisioning_disable env ?a else ?a"
  have "calm n ?a" "calm ?a ?b" "calm ?b (?b\<lparr>nw_maintenance_keep_ap := False\<rparr>)" by simp_all
  then have "calm n (?b\<lparr>nw_maintenance_keep_ap := False\<rparr>)" by (blast intro: calm_trans)
  then show ?thesis by (simp add: maintenance_close_def Let_def)
qed

lemma small_succ: "(c :: u32) < 5 \<Longrightarrow> c + 1 \<le> 5"
  by (rule inc_le)

lemma calm_station_lost [simp]: "calm n (station_lost env t n)"
proof -
  let ?a = "n\<lparr>nw_connected := False\<rparr>"
  let ?b = "on_health (service_health_set SERVICE_NETWORK SERVICE_STATE_DEGRADED ESP_ERR_WIFI_NOT_CONNECT) ?a"
  let ?c = "update_network_led env ?b"
  have "calm n ?a" "calm ?a ?b" "calm ?b ?c" by simp_all
  then have c: "calm n ?c" by (blast intro: calm_trans)
  have "calm m (net_just env Wifi_Connect (m\<lparr>nw_retry_count := nw_retry_count m + 1\<rparr>))"
    if "nw_retry_count m < WIFI_RETRY_LIMIT" for m :: "'a network"
    by (rule calm_worker) (simp_all add: net_just_def net_do_def wf_net_def small_succ that)
  moreover have "calm m ((on_health (service_health_note_restart SERVICE_NETWORK)
      (m\<lparr>nw_retry_count := 0, nw_reconnect_pending := True\<rparr>))\<lparr>nw_reconnect_at := a\<rparr>)"
    for m :: "'a network" and a
    by (auto simp: calm_def on_health_def wf_net_def)
  ultimately show ?thesis
    unfolding station_lost_def Let_def using c by (auto simp del: calm_led intro: calm_trans)
qed

lemma calm_got_ip [simp]: "calm n (station_got_ip env n)"
proof -
  let ?a = "n\<lparr>nw_connected := True, nw_retry_count := 0\<rparr>"
  let ?b = "on_health (service_health_set SERVICE_NETWORK SERVICE_STATE_READY ESP_OK) ?a"
  have "calm n ?a" "calm ?a ?b" "calm ?b (provisioning_disable env ?b)"
    "calm (provisioning_disable env ?b) (update_network_led env (provisioning_disable env ?b))" by simp_all
  then show ?thesis unfolding station_got_ip_def Let_def by (blast intro: calm_trans)
qed

lemma calm_event [simp]: "calm n (handle_event env t e n)"
proof (cases e)
  case MANAGER_EVENT_STA_START
  have "calm n (net_just env Wifi_Connect (update_network_led env n))"
    by (rule calm_trans [OF calm_led(2) calm_do(2)])
  then show ?thesis using MANAGER_EVENT_STA_START by (simp add: Let_def)
qed simp_all

lemma calm_queue: "length es \<le> NETWORK_EVENT_QUEUE_LENGTH \<Longrightarrow> calm n (n\<lparr>nw_manager_queue := Some es\<rparr>)"
  by (rule calm_worker) (simp_all add: wf_net_def)

lemma calm_drain: "length es \<le> NETWORK_EVENT_QUEUE_LENGTH \<Longrightarrow> calm n (drain_events env t es n)"
proof (induction es arbitrary: n)
  case (Cons e es)
  let ?a = "n\<lparr>nw_manager_queue := Some es\<rparr>"
  have "calm n ?a" using Cons.prems by (simp add: calm_queue)
  moreover have "calm (handle_event env t e ?a) (drain_events env t es (handle_event env t e ?a))"
    using Cons by simp
  ultimately show ?case by (simp, blast intro: calm_trans calm_event)
qed simp

lemma calm_reconnect [simp]: "calm n (service_reconnect env now n)"
proof -
  have "calm n (net_just env Wifi_Connect (n\<lparr>nw_reconnect_pending := False\<rparr>))"
    by (rule calm_trans [OF calm_assign(15) calm_do(2)])
  then show ?thesis by (simp add: service_reconnect_def Let_def)
qed

lemma calm_service: "wf_net n \<Longrightarrow> calm n (network_service env t now n)"
proof -
  assume wf: "wf_net n"
  let ?a = "case nw_manager_queue n of Some es \<Rightarrow> drain_events env t es n | None \<Rightarrow> n"
  let ?b = "service_reconnect env now ?a"
  have "calm n ?a" using wf by (auto simp: wf_net_def split: option.split intro: calm_drain)
  moreover have "calm ?a ?b" "calm ?b (maintenance_close env False ?b)" by simp_all
  ultimately have "calm n ?b" "calm n (maintenance_close env False ?b)" by (blast intro: calm_trans)+
  then show ?thesis by (simp add: network_service_def Let_def)
qed

lemma calm_wifi_event [simp]: "calm n (wifi_event_handler base i ip n)"
proof -
  have "calm n (n\<lparr>nw_manager_queue := Some (q @ [e])\<rparr>)" if "length q < NETWORK_EVENT_QUEUE_LENGTH" for q e
    by (rule calm_queue) (use that in simp)
  then show ?thesis by (simp add: wifi_event_handler_def Let_def split: option.split)
qed

lemma calm_gesture [simp]: "calm n (snd (network_start_provisioning env now n))"
proof -
  have "calm m (snd (return_on_errors [provisioning_enable env True,
      (\<lambda>n. (ESP_OK, n\<lparr>nw_maintenance_active := True, nw_maintenance_started := now\<rparr>))] m))"
    for m :: "'a network"
    by (rule calm_run) auto
  then have "calm n (snd (return_on_errors [provisioning_enable env True,
      (\<lambda>n. (ESP_OK, n\<lparr>nw_maintenance_active := True, nw_maintenance_started := now\<rparr>))] m))"
    if "calm n m" for m
    using that by (blast intro: calm_trans)
  then show ?thesis by (simp add: network_start_provisioning_def Let_def del: return_on_errors.simps)
qed

section \<open>Initialisation is calm\<close>

lemma calm_once: "(\<And>f s. f \<in> set ops \<Longrightarrow> calm s (snd (f s))) \<Longrightarrow> (\<And>s. calm s (mark s)) \<Longrightarrow>
    calm n (snd (once finished ops mark n))"
  unfolding once_def by (auto intro!: calm_run)

lemma calm_http_server [simp]: "calm n (snd (start_http_server env n))"
proof -
  let ?a = "if nw_http_start_attempted n then on_health (service_health_note_restart SERVICE_HTTP) n else n"
  let ?b = "?a\<lparr>nw_http_start_attempted := True\<rparr>"
  let ?ops = "map (\<lambda>(uri, method). net_do env (Httpd_Register uri method)) http_handlers @ [net_do env Httpd_Register_404]"
  let ?degraded = "\<lambda>err. on_health (service_health_set SERVICE_HTTP SERVICE_STATE_DEGRADED err)"
  have "calm n ?a" "calm ?a ?b" by simp_all
  then have b: "calm n ?b" by (rule calm_trans)
  obtain err c where c: "net_do env Httpd_Start ?b = (err, c)" by (cases "net_do env Httpd_Start ?b")
  have "calm ?b c" using calm_do(1) [of ?b env Httpd_Start] by (simp only: c snd_conv)
  with b have nc: "calm n c" by (rule calm_trans)
  obtain err2 d where d: "return_on_errors ?ops (c\<lparr>nw_http_server := True\<rparr>) = (err2, d)"
    by (cases "return_on_errors ?ops (c\<lparr>nw_http_server := True\<rparr>)")
  have "calm (c\<lparr>nw_http_server := True\<rparr>) (snd (return_on_errors ?ops (c\<lparr>nw_http_server := True\<rparr>)))"
    by (rule calm_run) auto
  then have "calm (c\<lparr>nw_http_server := True\<rparr>) d" by (simp only: d snd_conv)
  then have nd: "calm n d" using calm_trans [OF nc calm_assign(17)] calm_trans by blast
  have "calm d (?degraded err2 ((net_just env Httpd_Stop d)\<lparr>nw_http_server := False\<rparr>))"
    by (rule calm_trans [OF calm_trans [OF calm_do(2) calm_assign(17)] calm_health])
  moreover have "calm d (update_network_led env (on_health f (d\<lparr>nw_http_ready := True\<rparr>)))" for f
    by (rule calm_trans [OF calm_trans [OF calm_assign(18) calm_health] calm_led(2)])
  ultimately show ?thesis
    unfolding start_http_server_def Let_def c prod.case d
    using nc nd calm_trans calm_health by (simp, blast)
qed

lemma calm_event_loop [simp]: "calm n (snd (create_event_loop env n))"
  by (simp add: create_event_loop_def net_do_def)

lemma calm_netifs [simp]: "calm n (snd (create_netifs env n))"
  by (rule calm_worker; simp add: create_netifs_def net_do_def Let_def wf_net_def)

lemma calm_credentials [simp]: "calm n (snd (read_credentials env n))"
  by (rule calm_worker; simp add: read_credentials_def net_do_def Let_def wf_net_def)

lemma calm_when: "(\<And>m. calm m (snd (f m))) \<Longrightarrow> calm n (snd (when_op b f n))"
  by (simp add: when_op_def)

lemma calm_choose_mode [simp]: "calm n (snd (choose_mode env n))"
proof -
  have "calm m (snd (return_on_errors [configure_ap env,
      (\<lambda>n. (ESP_OK, n\<lparr>nw_provisioning := True, nw_provisioning_forced := False\<rparr>))] m))" for m :: "'a network"
    by (rule calm_run) auto
  then have "calm m (snd (when_op b (return_on_errors [configure_ap env,
      (\<lambda>n. (ESP_OK, n\<lparr>nw_provisioning := True, nw_provisioning_forced := False\<rparr>))]) m))"
    for b and m :: "'a network" by (rule calm_when)
  then show ?thesis
    unfolding choose_mode_def Let_def by (intro calm_run) (auto simp del: return_on_errors.simps)
qed

lemma calm_init_dns [simp]: "calm n (snd (init_captive_dns env n))"
proof -
  have a: "calm n (on_health f (start_captive_dns env n))" for f
    by (rule calm_trans [OF calm_captive_dns calm_health])
  have "calm n (update_network_led env (on_health f (start_captive_dns env n)))" for f
    by (rule calm_trans [OF a calm_led(2)])
  with a show ?thesis by (simp add: init_captive_dns_def Let_def)
qed

lemma calm_init_http [simp]: "calm n (snd (init_http env n))"
proof -
  have "calm n (on_health f (snd (start_http_server env n)))" for f
    by (rule calm_trans [OF calm_http_server calm_health])
  then show ?thesis by (simp add: init_http_def split_beta)
qed

lemma calm_no_mem: "(\<And>m. calm m (snd (f m))) \<Longrightarrow> calm n (snd (or_no_mem f n))"
  by (simp add: or_no_mem_def split_beta)

lemma calm_network_init [simp]: "calm n (snd (network_init env n))"
proof -
  have "calm m (snd (return_on_errors (init_steps env) m))" for m :: "'a network"
    by (rule calm_run) (auto simp: init_steps_def intro!: calm_once calm_no_mem)
  then show ?thesis unfolding network_init_def by (rule calm_trans [OF calm_led(2)])
qed

section \<open>Answering changes nothing but the call log\<close>

fun is_response :: "net_call \<Rightarrow> bool" where
  "is_response Json_Create \<longleftrightarrow> True" | "is_response (Json_Print j) \<longleftrightarrow> True"
| "is_response Req_Get_Hdr \<longleftrightarrow> True" | "is_response (Resp_Status s) \<longleftrightarrow> True"
| "is_response (Resp_Type s) \<longleftrightarrow> True" | "is_response (Resp_Hdr s t) \<longleftrightarrow> True"
| "is_response (Resp_Json j) \<longleftrightarrow> True" | "is_response (Resp_Text s) \<longleftrightarrow> True"
| "is_response (Resp_Page s) \<longleftrightarrow> True" | "is_response Resp_Empty \<longleftrightarrow> True"
| "is_response (Resp_Err c s) \<longleftrightarrow> True" | "is_response Close_Session \<longleftrightarrow> True"
| "is_response _ \<longleftrightarrow> False"

definition responds :: "'f network \<Rightarrow> 'f network \<Rightarrow> bool" where
  "responds n n' \<longleftrightarrow> (\<exists>new. n' = n\<lparr>nw_log := new @ nw_log n\<rparr> \<and> list_all is_response new)"

lemma responds_refl [simp]: "responds n n"
  unfolding responds_def by (rule exI [of _ "[]"]) simp

lemma responds_trans:
  assumes "responds a b" and "responds b c" shows "responds a c"
proof -
  obtain x y where "b = a\<lparr>nw_log := x @ nw_log a\<rparr>" "list_all is_response x"
    "c = b\<lparr>nw_log := y @ nw_log b\<rparr>" "list_all is_response y"
    using assms by (auto simp: responds_def)
  then have "c = a\<lparr>nw_log := (y @ x) @ nw_log a\<rparr>" "list_all is_response (y @ x)" by simp_all
  then show ?thesis unfolding responds_def by blast
qed

lemma responds_do [simp]: "is_response c \<Longrightarrow> responds n (snd (net_do env c n))"
    "is_response c \<Longrightarrow> responds n (net_just env c n)"
  unfolding responds_def net_do_def net_just_def by (rule exI [of _ "[c]"], simp)+

lemma responds_calm: "responds n n' \<Longrightarrow> calm n n'"
  by (auto simp: responds_def)

lemma responds_same:
  assumes "responds n n'"
  shows "nw_worker n' = nw_worker n" "nw_ui n' = nw_ui n" "nw_api_token n' = nw_api_token n"
    "net_fan n' = net_fan n" "nw_maintenance_active n' = nw_maintenance_active n"
    "nw_provisioning n' = nw_provisioning n" "nw_ota_request_active n' = nw_ota_request_active n"
    "panel_of n' = panel_of n" "network_ota_is_busy n' = network_ota_is_busy n"
  using assms by (auto simp: responds_def net_fan_def panel_of_def network_ota_is_busy_def)

lemma responds_send_json [simp]: "responds n (snd (send_json env json n))"
proof (cases json)
  case (Some ms)
  obtain err m where m: "net_do env (Json_Print (JObject ms)) n = (err, m)"
    by (cases "net_do env (Json_Print (JObject ms)) n")
  have nm: "responds n m" using responds_do(1) [of "Json_Print (JObject ms)" n env] by (simp add: m)
  have "responds m (snd (net_do env (Resp_Json j) (net_just env (Resp_Type t) m)))" for j t
    by (rule responds_trans [OF responds_do(2) responds_do(1)]) simp_all
  with nm show ?thesis
    by (auto simp: send_json_def Some m intro: responds_trans responds_do)
qed (simp add: send_json_def)

lemma responds_error [simp]: "responds n (snd (send_json_error env status message n))"
proof -
  obtain err m where m: "net_do env Json_Create n = (err, m)" by (cases "net_do env Json_Create n")
  have nm: "responds n m" using responds_do(1) [of Json_Create n env] by (simp add: m)
  have "responds m (snd (send_json env json (net_just env (Resp_Status status) m)))" for json
    by (rule responds_trans [OF responds_do(2) responds_send_json]) simp
  with nm show ?thesis by (auto simp: send_json_error_def m Let_def intro: responds_trans)
qed

lemma responds_close [simp]: "responds n (close_upload_session env rq n)"
  by (simp add: close_upload_session_def)

lemma responds_error_close [simp]: "responds n (snd (send_json_error_and_close env rq status message n))"
proof -
  let ?m = "net_just env (Resp_Hdr ''Connection'' ''close'') n"
  have "responds n ?m" by simp
  then have "responds n (snd (send_json_error env status message ?m))" by (rule responds_trans) simp
  then show ?thesis
    by (simp add: send_json_error_and_close_def split_beta) (blast intro: responds_trans responds_close)
qed

lemma responds_create [simp]: "responds n (snd (create_json env items n))"
  using responds_do(1) [of Json_Create n env] by (auto simp: create_json_def split_beta)

lemma responds_authorized [simp]: "responds n (snd (request_is_authorized env rq n))"
  using responds_do(1) [of Req_Get_Hdr n env]
  by (auto simp: request_is_authorized_def Let_def split_beta split: option.split)

lemma responds_require [simp]: "responds n (snd (require_authorization env rq n))"
proof -
  obtain a m where m: "request_is_authorized env rq n = (a, m)" by (cases "request_is_authorized env rq n")
  have nm: "responds n m" using responds_authorized [of n env rq] by (simp add: m)
  have "responds m (snd (send_json_error env st ms (net_just env (Resp_Hdr h v) m)))" for st ms h v
    by (rule responds_trans [OF responds_do(2) responds_error]) simp
  with nm show ?thesis by (auto simp: require_authorization_def m intro: responds_trans)
qed

lemma responds_authorized_then:
  assumes "\<And>m. responds n m \<Longrightarrow> R (snd (body m))" and "\<And>m. responds n m \<Longrightarrow> R m"
  shows "R (snd (authorized_then env rq body n))"
proof -
  obtain a m where m: "request_is_authorized env rq n = (a, m)" by (cases "request_is_authorized env rq n")
  have nm: "responds n m" using responds_authorized [of n env rq] by (simp add: m)
  moreover have "responds n (snd (require_authorization env rq n))" by simp
  ultimately show ?thesis
    unfolding authorized_then_def m using assms responds_trans [OF nm responds_require] by auto
qed

section \<open>The token\<close>

lemma c_str_split:
  "0 \<notin> set b \<Longrightarrow> c_str (take (length b) v) = b \<and> c_str (drop (length b) v) = t \<longleftrightarrow> c_str v = b @ t"
proof (induction b arbitrary: v)
  case (Cons x b)
  then show ?case by (cases v) (auto simp: c_str_def)
qed (simp add: c_str_def)

lemma c_str_before_nul: "c_str (h @ 0 # t) = c_str h"
  by (induction h) (simp_all add: c_str_def)

lemma c_str_empty_iff: "buf \<noteq> [] \<Longrightarrow> c_str buf = [] \<longleftrightarrow> buf ! 0 = 0"
  by (cases buf) (simp_all add: c_str_def)

definition bearer :: "u8 list" where
  "bearer = bytes_of ''Bearer ''"

lemma bearer_props: "length bearer = 7" "0 \<notin> set bearer" "c_str (take 7 bearer) = bearer"
  by (simp_all add: bearer_def bytes_of_def of_char_def c_str_def)

lemma authorized_iff:
  assumes "wf_net n"
  shows "fst (request_is_authorized env rq n) \<longleftrightarrow>
    ne_err env (nw_log n) Req_Get_Hdr = ESP_OK \<and> c_str (nw_api_token n) \<noteq> [] \<and>
    (\<exists>h. rq_authorization rq = Some h \<and> length h < API_TOKEN_MAX_LENGTH + 8 \<and>
       c_str h = bearer @ c_str (nw_api_token n))"
proof -
  have token: "nw_api_token n ! 0 = 0 \<longleftrightarrow> c_str (nw_api_token n) = []"
    by (rule c_str_empty_iff [symmetric]) (use assms in \<open>auto simp: wf_net_def\<close>)
  have check: "strncmp_eq v (bytes_of ''Bearer '') 7 \<and> strcmp_eq (drop 7 v) (nw_api_token n) \<longleftrightarrow>
      c_str h = bearer @ c_str (nw_api_token n)"
    if "v = store_str h (replicate (API_TOKEN_MAX_LENGTH + 8) 0)" "length h < API_TOKEN_MAX_LENGTH + 8" for v h
  proof -
    have "v = h @ 0 # drop (length h + 1) (replicate 72 0)"
      using that by (simp add: store_str_def Let_def min_def)
    then have "c_str v = c_str h" by (metis c_str_before_nul)
    then show ?thesis
      using c_str_split [OF bearer_props(2), of v "c_str (nw_api_token n)"] bearer_props
      by (simp add: strncmp_eq_def strcmp_eq_def bearer_def [symmetric])
  qed
  show ?thesis
  proof (cases "rq_authorization rq")
    case (Some h)
    have "c_str h = bearer @ t \<Longrightarrow> h \<noteq> []" for t using bearer_props(1) by (auto simp: c_str_def)
    then show ?thesis
      using check [of _ h] Some token
      by (auto simp: request_is_authorized_def Let_def net_do_def)
  qed (simp add: request_is_authorized_def)
qed

end
