(* ===== verification/NetworkSystem.thy ===== *)
theory NetworkSystem
  imports NetworkProps
begin

text \<open>
  The network with the parts it drives: what every handler keeps, that every handler returns,
  and what an accepted upload has done to the flash. The fan behind the environment is the
  actor's model (\<open>real_fan\<close>); \<open>ofan\<close> is the contract between the worker and the fan.
\<close>

section \<open>The worker behind the network\<close>

definition real_fan :: "'f net_env \<Rightarrow> gpio_driver \<Rightarrow> bool" where
  "real_fan env drv \<longleftrightarrow> (\<forall>log. \<exists>inputs begin_us end_us. ne_fan env log = fan_calls drv inputs begin_us end_us)"

definition net_holds :: "bool \<Rightarrow> pads \<Rightarrow> nat list \<Rightarrow> 'f network \<Rightarrow> bool" where
  "net_holds orderly p0 held n \<longleftrightarrow> wf_net n \<and> ofan.safe orderly p0 (nw_worker n) \<and> idle_queues held (nw_worker n)"

lemma calm_holds: "calm n n' \<Longrightarrow> net_holds orderly p0 held n \<Longrightarrow> net_holds orderly p0 held n'"
  by (auto simp: calm_def net_holds_def ofan.safe_def idle_queues_def)

lemma responds_holds: "responds n n' \<Longrightarrow> net_holds orderly p0 held n \<Longrightarrow> net_holds orderly p0 held n'"
  by (rule calm_holds [OF responds_calm])

lemma real_fanE:
  assumes "real_fan env drv"
  obtains inputs b e where "ne_fan env log = fan_calls drv inputs b e"
  using assms that unfolding real_fan_def by blast

text \<open>A call that replaces the worker.\<close>

abbreviation with_worker :: "'f network \<Rightarrow> ('f, fan_sys) worker \<Rightarrow> 'f network" where
  "with_worker n w \<equiv> n\<lparr>nw_worker := w, nw_log := Ota_Worker_Call # nw_log n\<rparr>"

lemma with_worker_holds:
  "net_holds orderly p0 held n \<Longrightarrow> ofan.safe orderly p0 w \<Longrightarrow> idle_queues held' w \<Longrightarrow> net_holds orderly p0 held' (with_worker n w)"
  by (simp add: net_holds_def wf_net_def)

lemma worker_plain:
  assumes "net_holds orderly p0 held n" and "real_fan env drv"
    and "\<And>api il fan stack w. f api il fan stack w = submit api il fan stack (plain_command c) w"
    and "c \<in> {COMMAND_FINISH, COMMAND_ABORT, COMMAND_SELECT_PREVIOUS}"
  shows "\<exists>err w. on_worker env f n = Some (err, with_worker n w) \<and> net_holds orderly p0 held (with_worker n w) \<and>
    submit (ne_ota env) (ne_layout env) (ne_fan env (nw_log n)) (ne_stack env (nw_log n)) (plain_command c)
      (nw_worker n) = Some (err, w)"
proof -
  obtain inputs b e where fan: "ne_fan env (nw_log n) = fan_calls drv inputs b e" by (rule real_fanE [OF assms(2)])
  have ok: "ofan.safe orderly p0 (nw_worker n)" "idle_queues held (nw_worker n)" using assms(1) by (simp_all add: net_holds_def)
  have "wc_type (plain_command c) \<notin> {COMMAND_BEGIN_AND_WRITE, COMMAND_WRITE}"
    "orderly \<and> wc_type (plain_command c) = COMMAND_CONFIRM_RUNNING \<longrightarrow> \<not> ow_busy (nw_worker n)"
    using assms(4) by (auto simp: plain_command_def)
  then obtain err w where w: "submit (ne_ota env) (ne_layout env) (fan_calls drv inputs b e) (ne_stack env (nw_log n))
      (plain_command c) (nw_worker n) = Some (err, w)" "ofan.safe orderly p0 w" "idle_queues held w"
    using ofan.submit_plain [OF ok] by blast
  have "on_worker env f n = Some (err, with_worker n w)" by (simp add: on_worker_def assms(3) fan w(1))
  moreover have "net_holds orderly p0 held (with_worker n w)" by (rule with_worker_holds [OF assms(1) w(2,3)])
  ultimately show ?thesis using w(1) fan by auto
qed

lemma worker_buffer:
  assumes "net_holds orderly p0 held n" and "real_fan env drv"
    and "\<And>api il fan stack w. f api il fan stack w = submit api il fan stack c w" and "i \<in> set held"
    and "wc_type c \<in> {COMMAND_BEGIN_AND_WRITE, COMMAND_WRITE}"
    and "wc_buffer_index c = of_nat i" and "wc_length c \<le> OTA_BUFFER_SIZE"
  shows "\<exists>err w. on_worker env f n = Some (err, with_worker n w) \<and>
    net_holds orderly p0 (remove1 i held) (with_worker n w) \<and>
    submit (ne_ota env) (ne_layout env) (ne_fan env (nw_log n)) (ne_stack env (nw_log n)) c (nw_worker n) =
      Some (err, w)"
proof -
  obtain inputs b e where fan: "ne_fan env (nw_log n) = fan_calls drv inputs b e" by (rule real_fanE [OF assms(2)])
  have ok: "ofan.safe orderly p0 (nw_worker n)" "idle_queues held (nw_worker n)" using assms(1) by (simp_all add: net_holds_def)
  obtain err w where w: "submit (ne_ota env) (ne_layout env) (fan_calls drv inputs b e) (ne_stack env (nw_log n))
      c (nw_worker n) = Some (err, w)" "ofan.safe orderly p0 w" "idle_queues (remove1 i held) w"
    using ofan.submit_buffer [OF ok assms(4-7)] by blast
  have "on_worker env f n = Some (err, with_worker n w)" by (simp add: on_worker_def assms(3) fan w(1))
  moreover have "net_holds orderly p0 (remove1 i held) (with_worker n w)" by (rule with_worker_holds [OF assms(1) w(2,3)])
  ultimately show ?thesis using w(1) fan by auto
qed

section \<open>What a command has done when it comes back\<close>

lemma submit_result:
  assumes "submit api il fan k c w = Some (err, w')" and "ow_task w" and "ow_commands w = []"
  obtains w1 where "execute_command api il fan c (w\<lparr>ow_done := False, ow_commands := []\<rparr>) = Some (err, w1)"
    "ow_ota w' = ow_ota w1" "ow_busy w' = ow_busy w1" "ow_fan w' = ow_fan w1" "ow_new_version w' = ow_new_version w1"
proof -
  obtain err1 w1 where e: "execute_command api il fan c (w\<lparr>ow_done := False, ow_commands := []\<rparr>) = Some (err1, w1)"
    using assms by (auto simp: submit_def worker_turn_def split: option.splits)
  obtain w2 where r: "release_command_buffer c (w1\<lparr>ow_result := err1\<rparr>) = Some w2"
    using assms e by (auto simp: submit_def worker_turn_def split: option.splits)
  have w2: "ow_ota w2 = ow_ota w1" "ow_busy w2 = ow_busy w1" "ow_fan w2 = ow_fan w1" "ow_result w2 = err1"
    "ow_new_version w2 = ow_new_version w1"
    using r by (auto simp: release_command_buffer_def split: option.splits if_splits)
  have "err = err1" "w' = (report_stack k w2)\<lparr>ow_done := False\<rparr>"
    using assms e r w2(4) by (auto simp: submit_def worker_turn_def)
  then show thesis using that [of w1] e w2 by (simp add: report_stack_def Let_def)
qed

lemma or_fail_ok: "or_fail api fan r = (ESP_OK, w) \<longleftrightarrow> r = (ESP_OK, w)"
  by (cases r) (auto simp: or_fail_def)

lemma begin_done:
  assumes "submit api il fan k c w = Some (ESP_OK, w')" and "ow_task w" and "ow_commands w = []"
    and c: "wc_type c = COMMAND_BEGIN_AND_WRITE" and bytes: "command_bytes c w = Some bytes"
  shows "\<exists>ver ota. ota_update_begin api il (Some bytes) (wc_image_size c) (Some (ow_new_version w)) (ow_ota w) =
      Some (ESP_OK, ver, ota) \<and> ota_update_write api (Some bytes) ota = (ESP_OK, ow_ota w')"
proof -
  let ?w = "w\<lparr>ow_done := False, ow_commands := []\<rparr>"
  obtain w1 where w1: "execute_command api il fan c ?w = Some (ESP_OK, w1)" "ow_ota w' = ow_ota w1"
    by (rule submit_result [OF assms(1-3)]) blast
  then obtain f where "begin_command api il c (?w\<lparr>ow_fan := f, ow_busy := True\<rparr>) = Some (ESP_OK, w1)"
    by (auto simp: execute_command_def c quiesced_then_def or_fail_ok Let_def split: option.splits if_splits)
  moreover have "command_bytes c (?w\<lparr>ow_fan := f, ow_busy := True\<rparr>) = Some bytes"
    using bytes by (simp add: command_bytes_def Let_def split: if_splits)
  ultimately show ?thesis
    using w1(2) by (auto simp: begin_command_def write_command_def Let_def split: option.splits prod.splits if_splits)
qed

lemma write_done:
  assumes "submit api il fan k c w = Some (ESP_OK, w')" and "ow_task w" and "ow_commands w = []"
    and c: "wc_type c = COMMAND_WRITE" and bytes: "command_bytes c w = Some bytes"
  shows "ota_update_write api (Some bytes) (ow_ota w) = (ESP_OK, ow_ota w')"
proof -
  let ?w = "w\<lparr>ow_done := False, ow_commands := []\<rparr>"
  obtain w1 where w1: "execute_command api il fan c ?w = Some (ESP_OK, w1)" "ow_ota w' = ow_ota w1"
    by (rule submit_result [OF assms(1-3)]) blast
  moreover have "command_bytes c ?w = Some bytes" using bytes by (simp add: command_bytes_def Let_def split: if_splits)
  ultimately show ?thesis
    by (auto simp: execute_command_def c or_fail_ok write_command_def split: option.splits prod.splits)
qed

lemma finish_done:
  assumes "submit api il fan k (plain_command COMMAND_FINISH) w = Some (ESP_OK, w')" and "ow_task w"
    and "ow_commands w = []"
  shows "ota_update_finish api (ow_ota w) = (ESP_OK, ow_ota w')"
proof -
  obtain w1 where "execute_command api il fan (plain_command COMMAND_FINISH)
      (w\<lparr>ow_done := False, ow_commands := []\<rparr>) = Some (ESP_OK, w1)" "ow_ota w' = ow_ota w1"
    by (rule submit_result [OF assms]) blast
  then show ?thesis
    by (auto simp: execute_command_def plain_command_def or_fail_ok split: prod.splits)
qed

lemma abort_done:
  assumes "submit api il fan k (plain_command COMMAND_ABORT) w = Some (err, w')" and "ow_task w"
    and "ow_commands w = []"
  shows "\<not> ow_busy w'"
proof -
  obtain w1 where "execute_command api il fan (plain_command COMMAND_ABORT)
      (w\<lparr>ow_done := False, ow_commands := []\<rparr>) = Some (err, w1)" "ow_busy w' = ow_busy w1"
    by (rule submit_result [OF assms]) blast
  then show ?thesis by (auto simp: execute_command_def plain_command_def)
qed

section \<open>Failing and ending the maintenance\<close>

lemma end_fan_holds:
  assumes "net_holds orderly p0 held n" and "real_fan env drv" and "orderly \<Longrightarrow> \<not> ow_busy (nw_worker n)"
  shows "net_holds orderly p0 held (end_fan_maintenance env n)"
    "\<not> fs_maintenance_requested (net_fan (end_fan_maintenance env n))"
    "ow_busy (nw_worker (end_fan_maintenance env n)) = ow_busy (nw_worker n)"
    "nw_ota_request_active (end_fan_maintenance env n) = nw_ota_request_active n"
proof -
  obtain inputs b e where fan: "ne_fan env (nw_log n) = fan_calls drv inputs b e" by (rule real_fanE [OF assms(2)])
  have "fan_good p0 (fan_control_end_maintenance e (net_fan n))"
    using assms(1) by (simp add: net_holds_def ofan.safe_def net_fan_def end_maintenance_ok)
  then show "net_holds orderly p0 held (end_fan_maintenance env n)"
    using assms(1,3) by (cases orderly) (simp_all add: end_fan_maintenance_def fan fan_calls_def set_fan_def
        net_holds_def ofan.safe_def idle_queues_def wf_net_def net_fan_def)
  show "\<not> fs_maintenance_requested (net_fan (end_fan_maintenance env n))"
    by (simp add: end_fan_maintenance_def fan fan_calls_def set_fan_def net_fan_def
        fan_control_end_maintenance_def Let_def record_event_def)
qed (simp_all add: end_fan_maintenance_def set_fan_def)

text \<open>After a failure nothing of the upload is left: no session, no maintenance, no request.\<close>

definition released :: "'f network \<Rightarrow> bool" where
  "released n \<longleftrightarrow> \<not> nw_ota_request_active n \<and> \<not> ow_busy (nw_worker n) \<and> \<not> fs_maintenance_requested (net_fan n)"

lemma released_worker_same:
  "nw_worker n' = nw_worker n \<Longrightarrow> nw_ota_request_active n' = nw_ota_request_active n \<Longrightarrow> released n' = released n"
  by (simp add: released_def net_fan_def)

lemma responds_released: "responds n n' \<Longrightarrow> released n' = released n"
  by (rule released_worker_same) (simp_all add: responds_same)

lemma led_same:
  "nw_worker (update_network_led env n) = nw_worker n"
  "nw_ota_request_active (update_network_led env n) = nw_ota_request_active n"
  by (simp_all add: update_network_led_def set_network_status_def)

lemma ota_failure_releases:
  assumes "net_holds orderly p0 held n" and "real_fan env drv"
  shows "\<exists>r n'. ota_failure env cause message n = Some (r, n') \<and> net_holds orderly p0 held n' \<and> released n'"
proof -
  let ?f = "\<lambda>api il fan stack w. map_option (\<lambda>w. (ESP_OK, w)) (ota_worker_abort api il fan stack w)"
  obtain err w where w: "on_worker env ota_worker_finish n = on_worker env ota_worker_finish n"
    "on_worker env (\<lambda>api il fan stack. submit api il fan stack (plain_command COMMAND_ABORT)) n =
      Some (err, with_worker n w)" "net_holds orderly p0 held (with_worker n w)"
    "submit (ne_ota env) (ne_layout env) (ne_fan env (nw_log n)) (ne_stack env (nw_log n))
      (plain_command COMMAND_ABORT) (nw_worker n) = Some (err, w)"
    using worker_plain [OF assms, of "\<lambda>api il fan stack. submit api il fan stack (plain_command COMMAND_ABORT)"
        COMMAND_ABORT] by auto
  have call: "on_worker env ?f n = Some (ESP_OK, with_worker n w)"
    using w(4) by (simp add: on_worker_def ota_worker_abort_def)
  have "\<not> ow_busy w"
    by (rule abort_done [OF w(4)]) (use assms(1) in \<open>simp_all add: net_holds_def idle_queues_def\<close>)
  then have idle: "\<not> ow_busy (nw_worker (with_worker n w))" by simp
  let ?e = "end_fan_maintenance env (with_worker n w)"
  note e = end_fan_holds [OF w(3) assms(2) idle]
  let ?l = "update_network_led env (?e\<lparr>nw_ota_request_active := False\<rparr>)"
  let ?s = "set_result ''failed: '' (bytes_of (ne_err_name env cause)) ?l"
  have "calm ?e ?s" unfolding set_result_def
    by (rule calm_trans [OF calm_trans [OF calm_assign(22) calm_led(2)] calm_buffers(5)])
  then have "net_holds orderly p0 held ?s" using e(1) by (rule calm_holds)
  moreover have "released ?s"
    using e(2,3) idle by (simp add: released_def set_result_def led_same net_fan_def)
  moreover obtain r m where m: "send_json_error env (failure_status cause) message ?s = (r, m)"
    by (cases "send_json_error env (failure_status cause) message ?s")
  moreover have "responds ?s m" using responds_error [of ?s env "failure_status cause" message] by (simp only: m snd_conv)
  ultimately have "net_holds orderly p0 held m" "released m" using responds_holds responds_released by blast+
  moreover have "ota_failure env cause message n = Some (r, m)"
    by (simp only: ota_failure_def call option.case prod.case Let_def m)
  ultimately show ?thesis by blast
qed

lemma ota_failure_close_releases:
  assumes "net_holds orderly p0 held n" and "real_fan env drv"
  shows "\<exists>r n'. ota_failure_and_close env rq cause message n = Some (r, n') \<and> net_holds orderly p0 held n' \<and> released n'"
proof -
  obtain r m where m: "ota_failure env cause message n = Some (r, m)" "net_holds orderly p0 held m" "released m"
    using ota_failure_releases [OF assms] by blast
  let ?c = "close_upload_session env rq m"
  have "responds m ?c" by simp
  then have "net_holds orderly p0 held ?c" "released ?c" using m(2,3) responds_holds responds_released by blast+
  moreover have "ota_failure_and_close env rq cause message n = Some (r, ?c)"
    by (simp add: ota_failure_and_close_def m(1))
  ultimately show ?thesis by blast
qed

section \<open>Buffers of the HTTP task\<close>

text \<open>What a request's body delivers until its first failure.\<close>

fun stream :: "u8 list option list \<Rightarrow> u8 list" where
  "stream [] = []"
| "stream (None # chunks) = []"
| "stream (Some bytes # chunks) = (if bytes = [] then [] else bytes @ stream chunks)"

lemma recv_stream:
  "httpd_req_recv len chunks = (Some bytes, rest) \<Longrightarrow>
     stream chunks = bytes @ stream rest \<and> 0 < length bytes \<and> length bytes \<le> len"
  by (cases "(len, chunks)" rule: httpd_req_recv.cases) (auto split: if_splits)

lemma length_store_at: "offset + length bytes \<le> length buf \<Longrightarrow> length (store_at offset bytes buf) = length buf"
  by (simp add: store_at_def)

lemma take_store_at:
  "offset + length bytes \<le> length buf \<Longrightarrow> take (offset + length bytes) (store_at offset bytes buf) = take offset buf @ bytes"
  by (simp add: store_at_def)

definition buffer_of :: "nat \<Rightarrow> 'f network \<Rightarrow> u8 list" where
  "buffer_of i n = ow_buffers (nw_worker n) ! i"

lemma held_buffer_size:
  assumes "net_holds orderly p0 held n" and "i \<in> set held"
  shows "i < 2" "length (buffer_of i n) = 4096" "length (ow_buffers (nw_worker n)) = 2"
  using assms each_once_member buffers_ok_nth by (auto simp: net_holds_def idle_queues_def buffer_of_def)

lemma fill_buffer_holds:
  assumes "net_holds orderly p0 held n" and "i \<in> set held" and "offset + length bytes \<le> 4096"
  shows "net_holds orderly p0 held (fill_buffer i offset bytes n)"
    "buffer_of i (fill_buffer i offset bytes n) = store_at offset bytes (buffer_of i n)"
    "ow_ota (nw_worker (fill_buffer i offset bytes n)) = ow_ota (nw_worker n)"
    "nw_ota_request_active (fill_buffer i offset bytes n) = nw_ota_request_active n"
proof -
  note size = held_buffer_size [OF assms(1,2)]
  have "length (store_at offset bytes (buffer_of i n)) = 4096"
    using size(2) assms(3) by (simp add: length_store_at)
  then have "buffers_ok ((ow_buffers (nw_worker n))[i := store_at offset bytes (buffer_of i n)])"
    using assms(1) buffers_ok_update by (auto simp: net_holds_def idle_queues_def)
  then show "net_holds orderly p0 held (fill_buffer i offset bytes n)"
    using assms(1) by (simp add: fill_buffer_def net_holds_def wf_net_def ofan.safe_def idle_queues_def buffer_of_def)
  show "buffer_of i (fill_buffer i offset bytes n) = store_at offset bytes (buffer_of i n)"
    using size by (simp add: fill_buffer_def buffer_of_def)
qed (simp_all add: fill_buffer_def)

lemma acquire_holds:
  assumes "net_holds orderly p0 [] n"
  obtains i m where "acquire_buffer n = (Some i, Some OTA_BUFFER_SIZE, m)" "net_holds orderly p0 [i] m"
    "ow_ota (nw_worker m) = ow_ota (nw_worker n)" "nw_ota_request_active m = nw_ota_request_active n"
proof -
  obtain free where free: "ow_free (nw_worker n) = Some free" "each_once free []"
    using assms by (auto simp: net_holds_def idle_queues_def)
  from free(2) have "free \<noteq> []" by (auto simp: each_once_def)
  then obtain x rest where x: "free = x # rest" by (cases free) auto
  let ?m = "n\<lparr>nw_worker := (nw_worker n)\<lparr>ow_free := Some rest\<rparr>\<rparr>"
  have "acquire_buffer n = (Some (unat x), Some OTA_BUFFER_SIZE, ?m)"
    using free(1) x by (simp add: acquire_buffer_def ota_worker_acquire_buffer_def)
  moreover have "net_holds orderly p0 [unat x] ?m"
    using assms each_once_acquire [of x rest "[]"] free x
    by (simp add: net_holds_def wf_net_def ofan.safe_def idle_queues_def)
  ultimately show thesis by (rule that) simp_all
qed

lemma release_holds:
  assumes "net_holds orderly p0 [i] n"
  shows "net_holds orderly p0 [] (release_buffer (Some i) n)"
    "ow_ota (nw_worker (release_buffer (Some i) n)) = ow_ota (nw_worker n)"
    "nw_ota_request_active (release_buffer (Some i) n) = nw_ota_request_active n"
proof -
  have idle: "idle_queues [i] (nw_worker n)" using assms by (simp add: net_holds_def)
  obtain free where free: "ow_free (nw_worker n) = Some free" "each_once free [i]"
    using idle by (auto simp: idle_queues_def)
  have room: "length free < 2" using each_once_room [OF free(2), of i] by simp
  have i: "buffer_index (Some i) = int i" "of_int (int i) = (of_nat i :: u8)"
    using ofan.held_buffer [of i "[i]"] idle by simp_all
  have w: "ota_worker_release_buffer (Some i) (nw_worker n) = (nw_worker n)\<lparr>ow_free := Some (free @ [of_nat i])\<rparr>"
    using free(1) i room by (simp add: ota_worker_release_buffer_def Let_def)
  have "each_once (free @ [of_nat i]) []" using each_once_release [OF free(2), of i] by simp
  then show "net_holds orderly p0 [] (release_buffer (Some i) n)"
    using assms by (simp add: release_buffer_def w net_holds_def wf_net_def ofan.safe_def idle_queues_def)
  show "ow_ota (nw_worker (release_buffer (Some i) n)) = ow_ota (nw_worker n)"
    by (simp add: release_buffer_def w)
qed (simp add: release_buffer_def)

section \<open>Receiving the image\<close>

lemma receive_into_result:
  assumes "receive_into i wanted got chunks n = (complete, rest, n')"
    and "net_holds orderly p0 held n" and "i \<in> set held" and "got \<le> wanted" and "wanted \<le> 4096"
  shows "net_holds orderly p0 held n' \<and> ow_ota (nw_worker n') = ow_ota (nw_worker n) \<and>
    nw_ota_request_active n' = nw_ota_request_active n \<and>
    (complete \<longrightarrow> (\<exists>bytes. length bytes = wanted - got \<and> stream chunks = bytes @ stream rest \<and>
       take wanted (buffer_of i n') = take got (buffer_of i n) @ bytes))"
  using assms
proof (induction i wanted got chunks n rule: receive_into.induct)
  case (1 i wanted got chunks n)
  show ?case
  proof (cases "wanted \<le> got")
    case True
    then have "receive_into i wanted got chunks n = (True, chunks, n)" by (simp add: receive_into.simps)
    then show ?thesis using 1(2,3,5) True by simp
  next
    case False
    obtain r chunks' where r: "httpd_req_recv (wanted - got) chunks = (r, chunks')"
      by (cases "httpd_req_recv (wanted - got) chunks")
    show ?thesis
    proof (cases r)
      case None
      then have "\<not> complete" "n' = n" using 1(2) False r by (simp_all add: receive_into.simps [of i wanted])
      then show ?thesis using 1(3) by simp
    next
      case (Some bytes)
      note st = recv_stream [OF r [unfolded Some]]
      let ?m = "fill_buffer i got bytes n"
      have "length bytes \<le> wanted - got" using st by blast
      then have room: "got + length bytes \<le> wanted" using False by arith
      then have fits: "got + length bytes \<le> 4096" using 1(6) by simp
      note fill = fill_buffer_holds [OF 1(3,4) fits]
      have "receive_into i wanted (got + length bytes) chunks' ?m = (complete, rest, n')"
        using 1(2) False r Some by (simp add: receive_into.simps [of i wanted got])
      note ih = 1(1) [OF False r [symmetric] Some this fill(1) 1(4) room 1(6)]
      have "take (got + length bytes) (buffer_of i ?m) = take got (buffer_of i n) @ bytes"
        using held_buffer_size(2) [OF 1(3,4)] fits by (simp add: fill(2) take_store_at)
      then have "\<exists>all. length all = wanted - got \<and> stream chunks = all @ stream rest \<and>
          take wanted (buffer_of i n') = take got (buffer_of i n) @ all" if complete
      proof -
        note complete = that
        obtain more where "length more = wanted - (got + length bytes)" "stream chunks' = more @ stream rest"
          "take wanted (buffer_of i n') = take (got + length bytes) (buffer_of i ?m) @ more"
          using ih complete by blast
        then show ?thesis
          using \<open>take (got + length bytes) (buffer_of i ?m) = _\<close> st room
          by (intro exI [of _ "bytes @ more"]) simp
      qed
      then show ?thesis using ih fill(3,4) by simp
    qed
  qed
qed

section \<open>The rest of the upload\<close>

lemma upload_rest_result:
  assumes "net_holds orderly p0 [] n" and "real_fan env drv"
    and "expected = unat image_size" and "sent \<le> expected"
  shows "\<exists>err sent' n'. upload_rest env expected sent chunks n = Some (err, sent', n') \<and> net_holds orderly p0 [] n' \<and>
    (flash_contract (ne_ota env) v \<and> length img = sent \<and> image_ok v p img image_size (ow_ota (nw_worker n)) \<and> err = ESP_OK \<longrightarrow>
       expected - sent \<le> length (stream chunks) \<and>
       image_ok v p (img @ take (expected - sent) (stream chunks)) image_size (ow_ota (nw_worker n')))"
  using assms
proof (induction "expected - sent" arbitrary: sent chunks n img rule: less_induct)
  case less
  show ?case
  proof (cases "expected \<le> sent")
    case True
    then have "upload_rest env expected sent chunks n = Some (ESP_OK, sent, n)" by (simp add: upload_rest.simps)
    then show ?thesis using less(2,5) True by auto
  next
    case False
    obtain i m where acq: "acquire_buffer n = (Some i, Some OTA_BUFFER_SIZE, m)" "net_holds orderly p0 [i] m"
      "ow_ota (nw_worker m) = ow_ota (nw_worker n)"
      by (rule acquire_holds [OF less(2)]) blast
    let ?max = "min (expected - sent) (unat OTA_BUFFER_SIZE)"
    obtain r chunks' where r: "httpd_req_recv ?max chunks = (r, chunks')" by (cases "httpd_req_recv ?max chunks")
    show ?thesis
    proof (cases r)
      case None
      have "upload_rest env expected sent chunks n = Some (ESP_FAIL, sent, release_buffer (Some i) m)"
        using False acq(1) r None by (simp add: upload_rest.simps [of env expected sent])
      then show ?thesis using release_holds(1) [OF acq(2)] by auto
    next
      case (Some bytes)
      note st = recv_stream [OF r [unfolded Some]]
      let ?f = "fill_buffer i 0 bytes m"
      have fits: "0 + length bytes \<le> 4096" "length bytes \<le> expected - sent" using st by simp_all
      note fill = fill_buffer_holds [OF acq(2) _ fits(1), of i, simplified]
      have len: "unat (of_nat (length bytes) :: u32) = length bytes" using fits(1) by (intro unat_of_nat_u32) simp
      let ?c = "\<lparr>wc_type = COMMAND_WRITE, wc_buffer_index = of_nat i, wc_length = of_nat (length bytes), wc_image_size = 0\<rparr>"
      let ?more = "\<lambda>api il fan stack. ota_worker_write api il fan stack (Some i) (of_nat (length bytes))"
      have small: "(of_nat (length bytes) :: u32) \<noteq> 0" "(of_nat (length bytes) :: u32) \<le> OTA_BUFFER_SIZE"
        using fits(1) st len by (auto simp: word_le_nat_alt)
      have "buffer_index (Some i) = int i" "of_int (int i) = (of_nat i :: u8)"
        using ofan.held_buffer [of i "[i]" "nw_worker m"] acq(2) by (simp_all add: net_holds_def)
      then have same: "?more api il fan stack w = submit api il fan stack ?c w" for api il fan stack and w :: "('a, fan_sys) worker"
        using small(1) leD [OF small(2)] by (simp add: ota_worker_write_def Let_def)
      obtain err w where w: "on_worker env ?more ?f = Some (err, with_worker ?f w)"
        "net_holds orderly p0 (remove1 i [i]) (with_worker ?f w)"
        "submit (ne_ota env) (ne_layout env) (ne_fan env (nw_log ?f)) (ne_stack env (nw_log ?f)) ?c (nw_worker ?f) = Some (err, w)"
        using worker_buffer [OF fill(1) less(3) same, of i] small(2) by auto
      have step: "upload_rest env expected sent chunks n =
          (if err \<noteq> ESP_OK then Some (err, sent + length bytes, with_worker ?f w)
           else upload_rest env expected (sent + length bytes) chunks' (with_worker ?f w))"
        using False acq(1) r Some w(1) by (simp add: upload_rest.simps [of env expected sent])
      show ?thesis
      proof (cases "err = ESP_OK")
        case False
        then show ?thesis using step w(2) by auto
      next
        case True
        have idle: "ow_task (nw_worker ?f)" "ow_commands (nw_worker ?f) = []"
          using fill(1) by (simp_all add: net_holds_def idle_queues_def)
        have "command_bytes ?c (nw_worker ?f) = Some bytes"
          using held_buffer_size [OF fill(1), of i] held_buffer_size(2) [OF acq(2), of i] fits(1) len fill(2)
          by (simp add: command_bytes_def Let_def unat_of_nat buffer_of_def store_at_def)
        then have wr: "ota_update_write (ne_ota env) (Some bytes) (ow_ota (nw_worker n)) = (ESP_OK, ow_ota w)"
          using write_done [OF w(3) [unfolded True] idle] fill(3) acq(3) by simp
        have next_img: "image_ok v p (img @ bytes) image_size (ow_ota w)"
          if "flash_contract (ne_ota env) v" "image_ok v p img image_size (ow_ota (nw_worker n))"
          by (rule write_appends [OF that wr])
        have "0 < length bytes" using st by simp
        with False fits(2) have dec: "expected - (sent + length bytes) < expected - sent" "sent + length bytes \<le> expected"
          by arith+
        obtain err' sent' n' where ih: "upload_rest env expected (sent + length bytes) chunks' (with_worker ?f w) =
            Some (err', sent', n')" "net_holds orderly p0 [] n'"
          "flash_contract (ne_ota env) v \<and> length (img @ bytes) = sent + length bytes \<and>
             image_ok v p (img @ bytes) image_size (ow_ota (nw_worker (with_worker ?f w))) \<and> err' = ESP_OK \<longrightarrow>
           expected - (sent + length bytes) \<le> length (stream chunks') \<and>
           image_ok v p ((img @ bytes) @ take (expected - (sent + length bytes)) (stream chunks')) image_size (ow_ota (nw_worker n'))"
          using less(1) [of "sent + length bytes" "with_worker ?f w" chunks' "img @ bytes", OF dec(1) _ less(3,4) dec(2)] w(2)
          by auto
        show ?thesis
          using step True ih next_img st fits(2) 
          by (auto simp: diff_diff_left)
      qed
    qed
  qed
qed

section \<open>The outcome of an upload\<close>

text \<open>The slot that boots next holds exactly the first \<open>n\<close> bytes of the request's body, and is valid.\<close>

definition installed :: "'f net_env \<Rightarrow> 'f flash_view \<Rightarrow> partition \<Rightarrow> u8 list \<Rightarrow> nat \<Rightarrow> 'f network \<Rightarrow> bool" where
  "installed env v p body k n \<longleftrightarrow>
     (let f = ou_flash (ow_ota (nw_worker n))
      in fv_boot v f = Some p \<and> k \<le> length body \<and>
         fv_bytes v p f = take k body @ replicate (unat (pt_size p) - k) 0xff \<and> fv_valid v (fv_bytes v p f))"

lemma calm_installed: "calm n n' \<Longrightarrow> installed env v p body k n' = installed env v p body k n"
  by (auto simp: calm_def installed_def)

lemma accept_calm:
  assumes "\<And>m. calm m (no_restart m)"
  shows "calm n (snd (accept_and_restart env items reason no_restart n))"
proof -
  obtain json a where a: "create_json env items n = (json, a)" by (cases "create_json env items n")
  have na: "calm n a" using responds_calm [OF responds_create [of n env items]] by (simp only: a snd_conv)
  show ?thesis
  proof (cases json)
    case None
    then show ?thesis using na by (simp add: accept_and_restart_def a)
  next
    case (Some ms)
    obtain r b where b: "send_json env (Some ms) a = (r, b)" by (cases "send_json env (Some ms) a")
    have ab: "calm a b" using responds_calm [OF responds_send_json [of a env "Some ms"]] by (simp only: b snd_conv)
    let ?m = "maintenance_close env True b"
    obtain e c where c: "net_do env (Create_Restart_Task reason) ?m = (e, c)"
      by (cases "net_do env (Create_Restart_Task reason) ?m")
    have "calm ?m c" using calm_do(1) [of ?m env "Create_Restart_Task reason"] by (simp only: c snd_conv)
    then have bc: "calm b c" by (rule calm_trans [OF calm_maintenance_close])
    have "calm c (on_health f (no_restart (c\<lparr>nw_ota_request_active := False\<rparr>)))" for f
      by (rule calm_trans [OF calm_trans [OF calm_assign(22) assms] calm_health])
    then have "calm n c" "calm n (on_health f (no_restart (c\<lparr>nw_ota_request_active := False\<rparr>)))" for f
      using na ab bc calm_trans by blast+
    then show ?thesis by (simp add: accept_and_restart_def a Some b c)
  qed
qed

lemma finish_upload_result:
  assumes "net_holds orderly p0 [] n" and "real_fan env drv"
  shows "\<exists>r n'. finish_upload env version n = Some (r, n') \<and> net_holds orderly p0 [] n' \<and>
    (released n' \<or>
     (flash_contract (ne_ota env) v \<and> image_ok v p (take (unat k) body) k (ow_ota (nw_worker n)) \<and>
        unat k \<le> length body \<longrightarrow> installed env v p body (unat k) n'))"
proof -
  obtain err w where w: "on_worker env ota_worker_finish n = Some (err, with_worker n w)"
    "net_holds orderly p0 [] (with_worker n w)"
    "submit (ne_ota env) (ne_layout env) (ne_fan env (nw_log n)) (ne_stack env (nw_log n))
      (plain_command COMMAND_FINISH) (nw_worker n) = Some (err, w)"
    using worker_plain [OF assms ota_worker_finish_def] by auto
  show ?thesis
  proof (cases "err = ESP_OK")
    case False
    then have call: "finish_upload env version n =
        ota_failure env err ''firmware image or signature is invalid'' (with_worker n w)"
      by (simp add: finish_upload_def w(1))
    show ?thesis unfolding call using ota_failure_releases [OF w(2) assms(2)] by blast
  next
    case True
    let ?v = "c_str (ota_worker_new_version w)"
    let ?m = "set_result ''installed '' ?v (with_worker n w)"
    let ?items = "[(''accepted'', JBool True), (''from_version'', JString version), (''to_version'', JString ?v),
      (''restarting'', JBool True)]"
    let ?manual = "set_result ''installed; manual restart required'' []"
    obtain r n' where n': "accept_and_restart env ?items DIAGNOSTICS_RESTART_OTA ?manual ?m = (r, n')"
      by (cases "accept_and_restart env ?items DIAGNOSTICS_RESTART_OTA ?manual ?m")
    have set: "calm m (set_result pre rest m)" for pre rest and m :: "'a network"
      unfolding set_result_def by (rule calm_buffers(5))
    have "calm ?m (snd (accept_and_restart env ?items DIAGNOSTICS_RESTART_OTA ?manual ?m))"
      by (rule accept_calm [OF set])
    then have "calm ?m n'" by (simp only: n' snd_conv)
    then have calm: "calm (with_worker n w) n'" by (rule calm_trans [OF set])
    have call: "finish_upload env version n = Some (r, n')"
      using True n' by (simp add: finish_upload_def w(1) Let_def)
    have "ow_task (nw_worker n)" "ow_commands (nw_worker n) = []"
      using assms(1) by (simp_all add: net_holds_def idle_queues_def)
    note fin = finish_done [OF w(3) [unfolded True] this]
    have "installed env v p body (unat k) (with_worker n w)"
      if "flash_contract (ne_ota env) v" "image_ok v p (take (unat k) body) k (ow_ota (nw_worker n))" "unat k \<le> length body"
      using finish_boots_image [OF that(1,2) fin] that(3) by (auto simp: installed_def Let_def)
    then show ?thesis
      using call calm_holds [OF calm w(2)] calm_installed [OF calm] by auto
  qed
qed

text \<open>Every upload comes to an end: refused or failed with nothing left behind, or installed.\<close>

lemma status_holds:
  "net_holds orderly p0 held n \<Longrightarrow> net_holds orderly p0 held (set_network_status env st n)"
  "ow_ota (nw_worker (set_network_status env st n)) = ow_ota (nw_worker n)"
  "buffer_of i (set_network_status env st n) = buffer_of i n"
  by (rule calm_holds [OF calm_led(1)]) (simp_all add: set_network_status_def buffer_of_def)

lemma begin_upload:
  assumes "net_holds orderly p0 [i] n" and "real_fan env drv" and "0 < k" and "k \<le> 4096"
  obtains err w where
    "on_worker env (\<lambda>api il fan stack. ota_worker_begin_and_write api il fan stack (Some i) (of_nat k) image_size) n =
       Some (err, with_worker n w)" "net_holds orderly p0 [] (with_worker n w)"
    "\<And>v. flash_contract (ne_ota env) v \<Longrightarrow> err = ESP_OK \<Longrightarrow>
      \<exists>p. inactive_slot env n = Some p \<and> image_ok v p (take k (buffer_of i n)) image_size (ow_ota w)"
proof -
  let ?c = "\<lparr>wc_type = COMMAND_BEGIN_AND_WRITE, wc_buffer_index = of_nat i, wc_length = of_nat k,
    wc_image_size = image_size\<rparr>"
  let ?first = "\<lambda>api il fan stack. ota_worker_begin_and_write api il fan stack (Some i) (of_nat k) image_size"
  have len: "unat (of_nat k :: u32) = k" using assms(4) by (intro unat_of_nat_u32) simp
  then have small: "(of_nat k :: u32) \<noteq> 0" "(of_nat k :: u32) \<le> OTA_BUFFER_SIZE"
    using assms(3,4) by (auto simp: word_le_nat_alt)
  have "buffer_index (Some i) = int i" "of_int (int i) = (of_nat i :: u8)"
    using ofan.held_buffer [of i "[i]" "nw_worker n"] assms(1) by (simp_all add: net_holds_def)
  then have same: "?first api il fan stack w = submit api il fan stack ?c w" for api il fan stack and w :: "('a, fan_sys) worker"
    using small(1) leD [OF small(2)] by (simp add: ota_worker_begin_and_write_def Let_def)
  obtain err w where w: "on_worker env ?first n = Some (err, with_worker n w)"
    "net_holds orderly p0 (remove1 i [i]) (with_worker n w)"
    "submit (ne_ota env) (ne_layout env) (ne_fan env (nw_log n)) (ne_stack env (nw_log n)) ?c (nw_worker n) = Some (err, w)"
    using worker_buffer [OF assms(1,2) same, of i] small(2) by auto
  have idle: "ow_task (nw_worker n)" "ow_commands (nw_worker n) = []"
    using assms(1) by (simp_all add: net_holds_def idle_queues_def)
  have bytes: "command_bytes ?c (nw_worker n) = Some (take k (buffer_of i n))"
    using held_buffer_size [OF assms(1), of i] len assms(4)
    by (simp add: command_bytes_def Let_def unat_of_nat buffer_of_def)
  have "\<exists>p. inactive_slot env n = Some p \<and> image_ok v p (take k (buffer_of i n)) image_size (ow_ota w)"
    if v: "flash_contract (ne_ota env) v" and ok: "err = ESP_OK" for v
  proof -
    obtain ver ota where b: "ota_update_begin (ne_ota env) (ne_layout env) (Some (take k (buffer_of i n))) image_size
        (Some (ow_new_version (nw_worker n))) (ow_ota (nw_worker n)) = Some (ESP_OK, ver, ota)"
      "ota_update_write (ne_ota env) (Some (take k (buffer_of i n))) ota = (ESP_OK, ow_ota w)"
      using begin_done [OF w(3) [unfolded ok] idle _ bytes] by auto
    show ?thesis
    proof (cases rule: ota_update_begin_cases [of "ne_ota env" "ne_layout env" "Some (take k (buffer_of i n))"
          image_size "Some (ow_new_version (nw_worker n))" "ow_ota (nw_worker n)"])
      case (opened p e ver' s' h)
      then have "image_ok v p [] image_size ota" using open_target_effect [OF v opened(9)] b(1) by simp
      then have "image_ok v p ([] @ take k (buffer_of i n)) image_size (ow_ota w)"
        by (rule write_appends [OF v _ b(2)])
      then show ?thesis using opened(5) by (simp add: inactive_slot_def)
    qed (use b(1) in auto)
  qed
  then show thesis using that w(1,2) by simp
qed

lemma upload_image_result:
  assumes "net_holds orderly p0 [] n" and "real_fan env drv" and "rq_content_len rq \<noteq> 0"
  shows "\<exists>r n'. upload_image env rq version n = Some (r, n') \<and> net_holds orderly p0 [] n' \<and>
    (released n' \<or>
     (flash_contract (ne_ota env) v \<longrightarrow> (\<exists>p. inactive_slot env n = Some p \<and>
        installed env v p (stream (rq_chunks rq)) (unat (rq_content_len rq)) n')))"
proof -
  let ?image_size = "rq_content_len rq"
  let ?k = "min (unat ?image_size) 512"
  have k: "0 < ?k" "?k \<le> 4096" using assms(3) by (auto simp: unat_gt_0)
  let ?n1 = "n\<lparr>nw_ota_request_active := True\<rparr>"
  have "net_holds orderly p0 [] ?n1" by (rule calm_holds [OF calm_assign(22) assms(1)])
  then obtain i m where m: "acquire_buffer ?n1 = (Some i, Some OTA_BUFFER_SIZE, m)" "net_holds orderly p0 [i] m"
    "ow_ota (nw_worker m) = ow_ota (nw_worker ?n1)"
    by (rule acquire_holds) blast
  obtain complete rest m2 where r: "receive_into i ?k 0 (rq_chunks rq) m = (complete, rest, m2)"
    by (cases "receive_into i ?k 0 (rq_chunks rq) m")
  have mem: "i \<in> set [i]" "0 \<le> ?k" by simp_all
  note received = receive_into_result [OF r m(2) mem k(2)]
  have got: "net_holds orderly p0 [i] m2" "ow_ota (nw_worker m2) = ow_ota (nw_worker n)"
    using received m(3) by simp_all
  have big: "\<not> unat (OTA_BUFFER_SIZE) < ?k" using k(2) by simp
  have failed: ?thesis if "upload_image env rq version n = c" "\<exists>r n'. c = Some (r, n') \<and> net_holds orderly p0 [] n' \<and> released n'" for c
    using that by blast
  show ?thesis
  proof (cases complete)
    case False
    then have "upload_image env rq version n =
        ota_failure_and_close env rq ESP_FAIL ''firmware upload was interrupted'' (release_buffer (Some i) m2)"
      using r big by (simp add: upload_image_def m(1) Let_def)
    then show ?thesis by (rule failed) (rule ota_failure_close_releases [OF release_holds(1) [OF got(1)] assms(2)])
  next
    case True
    define bytes where "bytes = take ?k (buffer_of i m2)"
    obtain bs where "length bs = ?k - 0" "stream (rq_chunks rq) = bs @ stream rest"
      "take ?k (buffer_of i m2) = take 0 (buffer_of i m) @ bs"
      using received True by blast
    then have bytes: "length bytes = ?k" "stream (rq_chunks rq) = bytes @ stream rest"
      "take ?k (buffer_of i m2) = bytes" by (simp_all add: bytes_def)
    let ?m3 = "set_network_status env CONTROLLER_NETWORK_UPDATING m2"
    have m3: "net_holds orderly p0 [i] ?m3" by (rule status_holds(1) [OF got(1)])
    obtain err w where w: "on_worker env (\<lambda>api il fan stack. ota_worker_begin_and_write api il fan stack (Some i)
        (of_nat ?k) ?image_size) ?m3 = Some (err, with_worker ?m3 w)" "net_holds orderly p0 [] (with_worker ?m3 w)"
      "\<And>v. flash_contract (ne_ota env) v \<Longrightarrow> err = ESP_OK \<Longrightarrow> \<exists>p. inactive_slot env ?m3 = Some p \<and>
         image_ok v p (take ?k (buffer_of i ?m3)) ?image_size (ow_ota w)"
      by (rule begin_upload [OF m3 assms(2) k]) blast
    have slot: "inactive_slot env ?m3 = inactive_slot env n" by (simp add: inactive_slot_def status_holds(2) got(2))
    show ?thesis
    proof (cases "err = ESP_OK")
      case False
      then have "upload_image env rq version n =
          ota_failure_and_close env rq err ''firmware header is invalid'' (with_worker ?m3 w)"
        using r big w(1) True by (simp add: upload_image_def m(1) Let_def)
      then show ?thesis by (rule failed) (rule ota_failure_close_releases [OF w(2) assms(2)])
    next
      case ok: True
      have kle: "?k \<le> unat ?image_size" by simp
      note rest = upload_rest_result [OF w(2) assms(2) refl kle]
      obtain err2 sent m4 where m4: "upload_rest env (unat ?image_size) ?k rest (with_worker ?m3 w) = Some (err2, sent, m4)"
        "net_holds orderly p0 [] m4"
        using rest by blast
      have img: "unat ?image_size - ?k \<le> length (stream rest) \<and>
          image_ok v p (bytes @ take (unat ?image_size - ?k) (stream rest)) ?image_size (ow_ota (nw_worker m4))"
        if "flash_contract (ne_ota env) v" "image_ok v p bytes ?image_size (ow_ota w)" "err2 = ESP_OK" for p
        using rest [of rest v bytes p] m4(1) that bytes(1) by auto
      show ?thesis
      proof (cases "err2 = ESP_OK")
        case False
        then have "upload_image env rq version n =
            (if sent < unat ?image_size then ota_failure_and_close env rq err2 ''firmware upload was interrupted'' m4
             else ota_failure env err2 ''firmware write failed'' m4)"
          using r big w(1) True ok m4(1) by (simp add: upload_image_def m(1) Let_def)
        then show ?thesis
          by (rule failed) (simp add: ota_failure_close_releases [OF m4(2) assms(2)] ota_failure_releases [OF m4(2) assms(2)])
      next
        case done2: True
        have call: "upload_image env rq version n = finish_upload env version m4"
          using r big w(1) True ok m4(1) done2 by (simp add: upload_image_def m(1) Let_def)
        have "\<exists>p. inactive_slot env n = Some p \<and> unat ?image_size \<le> length (stream (rq_chunks rq)) \<and>
            image_ok v p (take (unat ?image_size) (stream (rq_chunks rq))) ?image_size (ow_ota (nw_worker m4))"
          if v: "flash_contract (ne_ota env) v"
        proof -
          obtain p where p: "inactive_slot env n = Some p" "image_ok v p bytes ?image_size (ow_ota w)"
            using w(3) [OF v ok] slot bytes(3) status_holds(3) by (metis)
          note fin = img [OF v p(2) done2]
          have "take (unat ?image_size) (stream (rq_chunks rq)) = bytes @ take (unat ?image_size - ?k) (stream rest)"
            "unat ?image_size \<le> length (stream (rq_chunks rq))"
            using bytes(1,2) fin by auto
          then show ?thesis using p(1) fin by simp
        qed
        note image = this
        obtain r n' where "finish_upload env version m4 = Some (r, n')" "net_holds orderly p0 [] n'"
          using finish_upload_result [OF m4(2) assms(2)] by blast
        moreover have "\<exists>p. inactive_slot env n = Some p \<and>
            installed env v p (stream (rq_chunks rq)) (unat ?image_size) n'"
          if law: "flash_contract (ne_ota env) v" and kept: "\<not> released n'"
        proof -
          obtain p where p: "inactive_slot env n = Some p" "unat ?image_size \<le> length (stream (rq_chunks rq))"
            "image_ok v p (take (unat ?image_size) (stream (rq_chunks rq))) ?image_size (ow_ota (nw_worker m4))"
            using image law by blast
          have "installed env v p (stream (rq_chunks rq)) (unat ?image_size) n'"
            using finish_upload_result [OF m4(2) assms(2), of version v p ?image_size "stream (rq_chunks rq)"]
              calculation(1) law kept p(2,3) by auto
          then show ?thesis using p(1) by blast
        qed
        ultimately show ?thesis unfolding call by blast
      qed
    qed
  qed
qed

end
