(* ===== verification/NetworkRun.thy ===== *)
theory NetworkRun
  imports NetworkSystem
begin

text \<open>
  Runs of the network: events, service rounds, gestures, requests and the fan's own moves in any
  order, with an environment that may answer differently at every step: every handler keeps the
  network sound and returns. The runs and the properties are in \<open>NetworkClaims\<close>.
\<close>

section \<open>The fan's side of a request\<close>

lemma submit_speed_env:
  assumes "fan_control_submit_speed pass view speed source cancel s = (err, sequence, s')"
  shows "s' = s \<or> fan_env orderly drv s s'"
proof -
  let ?c = "\<lparr>cmd_action = FAN_CONTROL_ACTION_SET_SPEED, cmd_speed = speed, cmd_source = source,
    cmd_cancel_timer = cancel, cmd_sequence = 0\<rparr>"
  have "s' = s \<or> s' = s\<lparr>fs_rejected_commands := fs_rejected_commands s + 1\<rparr> \<or>
      speed < NUM_FAN_SPEEDS \<and> s' = snd (snd (submit_locked pass ?c s))"
    using assms by (auto simp: fan_control_submit_speed_def submit_command_def not_le split: if_splits option.splits prod.splits)
  then show ?thesis
    using env_client [OF refuse_step [of s], of orderly drv] env_client [OF submit_step [of ?c s pass], of orderly drv]
    by (auto simp: valid_command_def)
qed

lemma fan_env_holds:
  assumes "net_holds orderly p0 held n" and "f = net_fan n \<or> fan_env orderly drv (net_fan n) f"
  shows "net_holds orderly p0 held (set_fan f n)"
proof -
  have good: "fan_good p0 (ow_fan (nw_worker n))"
    using assms(1) by (simp add: net_holds_def ofan.safe_def)
  have "fan_good p0 f" "orderly \<Longrightarrow> fan_halted (net_fan n) \<Longrightarrow> fan_halted f"
    using assms(2) good ofan.env_good ofan.env_halted unfolding net_fan_def by blast+
  then show ?thesis
    using assms(1) by (auto simp: set_fan_def net_holds_def wf_net_def ofan.safe_def idle_queues_def net_fan_def)
qed

section \<open>Every handler keeps the network sound\<close>

lemma ota_access_calm:
  assumes "wf_net n"
  shows "calm n (snd (require_ota_access env rq t now w n))"
proof -
  let ?m = "network_service env t now n"
  note nm = calm_service [OF assms, of env t now]
  have "calm n (snd (send_json_error env st msg ?m))" for st msg
    by (rule calm_trans [OF nm responds_calm [OF responds_error]])
  moreover have "calm n (snd (require_authorization env rq ?m))"
    by (rule calm_trans [OF nm responds_calm [OF responds_require]])
  ultimately show ?thesis using nm by (simp add: require_ota_access_def Let_def)
qed

lemma diagnostics_calm: "calm n (snd (add_boot_diagnostics env json n))"
  by (simp add: add_boot_diagnostics_def Let_def)

lemma status_get_calm:
  assumes "wf_net n" shows "calm n (snd (ota_status_get_handler env rq t now n))"
proof -
  obtain access a where a: "require_ota_access env rq t now False n = (access, a)"
    by (cases "require_ota_access env rq t now False n")
  have na: "calm n a" using ota_access_calm [OF assms, of env rq t now False] by (simp only: a snd_conv)
  obtain json b where b: "create_json env (status_items (nw_last_ota_result a) (ow_info (nw_worker a))
      (ow_validation (nw_worker a)) (inactive_slot env a) a) a = (json, b)" by fastforce
  have ab: "calm a b" using responds_calm [OF responds_create] b by (metis snd_conv)
  obtain json' c where c: "add_boot_diagnostics env json b = (json', c)" by fastforce
  have bc: "calm b c" using diagnostics_calm c by (metis snd_conv)
  have "calm c (snd (send_json env json' c))" by (simp add: responds_calm)
  then have "calm n c" "calm n b" "calm n (snd (send_json env json' c))" using na ab bc calm_trans by blast+
  then show ?thesis
    using na c by (cases json) (auto simp: ota_status_get_handler_def a ota_worker_get_info_def b)
qed

lemma device_calm: "calm n (snd (device_get_handler env rq version n))"
  unfolding device_get_handler_def
proof (rule responds_authorized_then)
  fix m assume "responds n m"
  then have nm: "calm n m" by (rule responds_calm)
  obtain json b where b: "create_json env (device_items env version) m = (json, b)" by fastforce
  have mb: "calm m b" using responds_calm [OF responds_create] b by (metis snd_conv)
  obtain json' c where c: "add_boot_diagnostics env json b = (json', c)" by fastforce
  have bc: "calm b c" using diagnostics_calm c by (metis snd_conv)
  have "calm c (snd (send_json env json' c))" by (simp add: responds_calm)
  then show "calm n (snd (case create_json env (device_items env version) m of (json, n) \<Rightarrow>
      case add_boot_diagnostics env json n of (json, n) \<Rightarrow> send_json env json n))"
    using nm mb bc by (simp add: b c) (blast intro: calm_trans)
qed (rule responds_calm)

lemma state_get_responds: "responds n (snd (state_get_handler env rq n))"
  unfolding state_get_handler_def
proof (rule responds_authorized_then)
  fix m assume nm: "responds n m"
  obtain json b where b: "make_state_json env m = (json, b)" by fastforce
  have "responds m (snd (make_state_json env m))"
    using responds_do(1) [of Json_Create m env] by (auto simp: make_state_json_def split_beta split: option.split)
  then have mb: "responds m b" by (simp add: b)
  have "responds b (snd (send_json env j b))" "responds b (snd (send_json_error env st msg b))" for j st msg by simp_all
  then show "responds n (snd (case make_state_json env m of
        (None, n) \<Rightarrow> send_json_error env ''500 Internal Server Error'' ''failed to read controller state'' n
      | (Some ms, n) \<Rightarrow> send_json env (Some ms) n))"
    using nm mb by (cases json) (auto simp: b intro: responds_trans)
qed

lemma page_responds:
  "responds n (snd (root_get_handler env n))" "responds n (snd (update_page_get_handler env n))"
  "responds n (snd (not_found_handler env rq n))" "responds n (snd (connectivity_check_get_handler env rq n))"
proof -
  have two: "is_response a \<Longrightarrow> is_response b \<Longrightarrow> responds m (snd (net_do env a (net_just env b m)))"
    for a b and m :: "'a network" by (rule responds_trans [OF responds_do(2) responds_do(1)])
  have three: "is_response a \<Longrightarrow> is_response b \<Longrightarrow> is_response c \<Longrightarrow>
      responds m (snd (net_do env a (net_just env b (net_just env c m))))"
    for a b c and m :: "'a network" by (rule responds_trans [OF responds_do(2) two])
  show "responds n (snd (root_get_handler env n))" "responds n (snd (update_page_get_handler env n))"
    "responds n (snd (not_found_handler env rq n))" "responds n (snd (connectivity_check_get_handler env rq n))"
    by (auto simp: root_get_handler_def update_page_get_handler_def not_found_handler_def
        connectivity_check_get_handler_def Let_def intro!: two three)
qed

lemma set_remote_speed_fan:
  assumes "set_remote_speed env speed n = (err, sequence, n')"
  obtains c seq where "n' = set_fan (ct_fan c) (n\<lparr>nw_ui := c\<rparr>)" "sequence = (case seq of None \<Rightarrow> 0 | Some k \<Rightarrow> k)"
    "fan_control_submit_speed (ne_mailbox_free env (nw_log n)) (ne_view env (nw_log n) 0) speed
       FAN_CONTROL_SOURCE_REST True (net_fan n) = (err, seq, ct_fan c)"
proof -
  obtain err' seq f where f: "fan_control_submit_speed (ne_mailbox_free env (nw_log n)) (ne_view env (nw_log n) 0) speed
       FAN_CONTROL_SOURCE_REST True (net_fan n) = (err', seq, f)"
    by (cases "fan_control_submit_speed (ne_mailbox_free env (nw_log n)) (ne_view env (nw_log n) 0) speed
       FAN_CONTROL_SOURCE_REST True (net_fan n)")
  then show thesis
    using assms that [of "(panel_of n)\<lparr>ct_fan := f\<rparr>" seq]
    by (simp add: set_remote_speed_def controller_set_remote_fan_speed_def panel_of_def)
qed

lemma remote_speed_holds:
  assumes "net_holds orderly p0 held n" and "set_remote_speed env speed n = (err, sequence, n')"
  shows "net_holds orderly p0 held n'"
proof -
  obtain c seq where n': "n' = set_fan (ct_fan c) (n\<lparr>nw_ui := c\<rparr>)"
    and sub: "fan_control_submit_speed (ne_mailbox_free env (nw_log n)) (ne_view env (nw_log n) 0) speed
       FAN_CONTROL_SOURCE_REST True (net_fan n) = (err, seq, ct_fan c)"
    by (rule set_remote_speed_fan [OF assms(2)])
  have fan: "net_fan (n\<lparr>nw_ui := c\<rparr>) = net_fan n" by (simp add: net_fan_def)
  have "net_holds orderly p0 held (n\<lparr>nw_ui := c\<rparr>)" by (rule calm_holds [OF calm_ui assms(1)])
  then show ?thesis unfolding n' using submit_speed_env [OF sub] fan_env_holds fan by metis
qed

lemma refuse_responds: "responds n (snd (refuse_fan_command env err n))"
  by (simp add: refuse_fan_command_def Let_def)

lemma accept_responds: "responds n (snd (accept_fan_command env sequence speed n))"
proof -
  obtain json a where a: "create_json env [(''accepted'', JBool True), (''sequence'', jnum sequence),
      (''requested_speed'', jnum speed)] n = (json, a)" by fastforce
  have na: "responds n a" using responds_create a by (metis snd_conv)
  have "responds a (snd (send_json env j (net_just env (Resp_Status st) a)))" for j st
    by (rule responds_trans [OF responds_do(2) responds_send_json]) simp
  then show ?thesis using na by (cases json) (auto simp: accept_fan_command_def a intro: responds_trans)
qed

lemma fan_put_holds:
  assumes "net_holds orderly p0 held n"
  shows "net_holds orderly p0 held (snd (fan_put_handler env parse rq n))"
  unfolding fan_put_handler_def
proof (rule responds_authorized_then)
  fix m assume "responds n m"
  then have m: "net_holds orderly p0 held m" using assms by (rule responds_holds)
  have err: "net_holds orderly p0 held (snd (send_json_error env st msg m))" for st msg
    by (rule responds_holds [OF responds_error m])
  have sub: "net_holds orderly p0 held (snd (case set_remote_speed env speed m of (submitted, sequence, n) \<Rightarrow>
      if submitted \<noteq> ESP_OK then refuse_fan_command env submitted n
      else accept_fan_command env sequence speed n))" for speed
  proof -
    obtain e s m' where r: "set_remote_speed env speed m = (e, s, m')" by (cases "set_remote_speed env speed m")
    note m' = remote_speed_holds [OF m r]
    show ?thesis
      using responds_holds [OF refuse_responds m'] responds_holds [OF accept_responds m'] by (simp add: r)
  qed
  show "net_holds orderly p0 held (snd (case receive_body rq 128 of
         (_, None) \<Rightarrow> send_json_error env ''400 Bad Request'' ''invalid request body'' m
       | (_, Some body) \<Rightarrow>
           (case requested_speed (json_get (parse (c_str body)) ''speed'') of
              None \<Rightarrow> send_json_error env ''422 Unprocessable Entity'' ''speed must be an integer from 0 through 4'' m
            | Some speed \<Rightarrow>
                (case set_remote_speed env speed m of (submitted, sequence, n) \<Rightarrow>
                   if submitted \<noteq> ESP_OK then refuse_fan_command env submitted n
                   else accept_fan_command env sequence speed n))))"
    using err sub by (auto split: option.split prod.split)
qed (rule responds_holds [OF _ assms])

section \<open>Provisioning\<close>

lemma store_settings_calm: "calm n (snd (store_settings env token config n))"
  unfolding store_settings_def by (rule calm_run) auto

lemma answer_provisioned_holds:
  assumes "net_holds orderly p0 held n" and "real_fan env drv" and "orderly \<Longrightarrow> \<not> ow_busy (nw_worker n)"
  shows "net_holds orderly p0 held (snd (answer_provisioned env n))"
proof -
  obtain json a where a: "create_json env [(''saved'', JBool True), (''restarting'', JBool True)] n = (json, a)"
    by fastforce
  have na: "responds n a" using responds_create a by (metis snd_conv)
  obtain e b where b: "send_json env json a = (e, b)" by fastforce
  have "responds a b" using responds_send_json b by (metis snd_conv)
  with na have nb: "responds n b" by (rule responds_trans)
  obtain e2 c where c: "net_do env (Create_Restart_Task DIAGNOSTICS_RESTART_PROVISIONING) b = (e2, c)" by fastforce
  have bc: "calm b c" using calm_do(1) c by (metis snd_conv)
  have hold: "net_holds orderly p0 held b" "net_holds orderly p0 held c"
    using responds_holds [OF nb assms(1)] calm_holds [OF bc] by simp_all
  have idle: "orderly \<Longrightarrow> \<not> ow_busy (nw_worker b)" "orderly \<Longrightarrow> \<not> ow_busy (nw_worker c)"
    using assms(3) responds_same(1) [OF nb] bc by (auto simp: calm_def)
  show ?thesis
    using hold end_fan_holds(1) [OF hold(1) assms(2) idle(1)] end_fan_holds(1) [OF hold(2) assms(2) idle(2)]
    by (simp add: answer_provisioned_def a b c)
qed

lemma quiesce_holds:
  assumes "net_holds orderly p0 held n" and "real_fan env drv"
  obtains err f where "fan_quiesce (ne_fan env (nw_log n)) (net_fan n) = Some (err, f)" "fan_good p0 f"
    "err = ESP_OK \<Longrightarrow> fan_halted f" "(orderly \<Longrightarrow> \<not> ow_busy (nw_worker n)) \<Longrightarrow> net_holds orderly p0 held (set_fan f n)"
proof -
  obtain inputs b e where fan: "ne_fan env (nw_log n) = fan_calls drv inputs b e" by (rule real_fanE [OF assms(2)])
  have good: "fan_good p0 (net_fan n)" using assms(1) by (simp add: net_holds_def ofan.safe_def net_fan_def)
  obtain err f where q: "fan_quiesce (fan_calls drv inputs b e) (net_fan n) = Some (err, f)"
    using ofan.quiesce_returns [OF good] by blast
  have f: "fan_good p0 f" by (rule ofan.quiesce_good [OF good q])
  have "err = ESP_OK \<Longrightarrow> fan_halted f" using ofan.quiesce_halts [OF good] q by simp
  moreover have "(orderly \<Longrightarrow> \<not> ow_busy (nw_worker n)) \<Longrightarrow> net_holds orderly p0 held (set_fan f n)"
    using assms(1) f by (auto simp: set_fan_def net_holds_def wf_net_def ofan.safe_def idle_queues_def)
  ultimately show thesis using that q f fan by simp
qed

lemma provision_holds:
  assumes n: "net_holds orderly p0 held n" and env: "real_fan env drv" and idle: "orderly \<Longrightarrow> \<not> ow_busy (nw_worker n)"
  shows "\<exists>r n'. provision_post_handler env parse rq n = Some (r, n') \<and> net_holds orderly p0 held n'"
proof -
  have err: "\<exists>r n'. Some (send_json_error env st msg m) = Some (r, n') \<and> net_holds orderly p0 held n'"
    if "net_holds orderly p0 held m" for st msg m
    using responds_holds [OF responds_error that, of env st msg] by (metis prod.collapse)
  obtain e f where q: "fan_quiesce (ne_fan env (nw_log n)) (net_fan n) = Some (e, f)" "net_holds orderly p0 held (set_fan f n)"
    using quiesce_holds [OF n env] idle by metis
  have stores: "\<exists>r n'. (case store_settings env token config (set_fan f n) of (err, n) \<Rightarrow>
      if err \<noteq> ESP_OK
      then Some (send_json_error env ''500 Internal Server Error'' ''failed to save configuration'' (end_fan_maintenance env n))
      else Some (answer_provisioned env (n\<lparr>nw_has_wifi_credentials := True\<rparr>))) = Some (r, n') \<and> net_holds orderly p0 held n'"
    for token config
  proof -
    obtain e2 m where m: "store_settings env token config (set_fan f n) = (e2, m)" by fastforce
    have calm: "calm (set_fan f n) m" using store_settings_calm m by (metis snd_conv)
    then have hold: "net_holds orderly p0 held m" using q(2) by (rule calm_holds)
    have quiet: "orderly \<Longrightarrow> \<not> ow_busy (nw_worker m)" using calm idle by (auto simp: calm_def set_fan_def)
    let ?c = "m\<lparr>nw_has_wifi_credentials := True\<rparr>"
    have "net_holds orderly p0 held ?c" by (rule calm_holds [OF calm_assign(21) hold])
    then have "net_holds orderly p0 held (snd (answer_provisioned env ?c))"
      by (rule answer_provisioned_holds [OF _ env]) (use quiet in simp)
    then have "\<exists>r n'. Some (answer_provisioned env ?c) = Some (r, n') \<and> net_holds orderly p0 held n'"
      by (metis prod.collapse)
    then show ?thesis using err [OF end_fan_holds(1) [OF hold env quiet]] by (auto simp: m)
  qed
  show ?thesis
    using err [OF n] err [OF q(2)] stores q(1)
    by (auto simp: provision_post_handler_def Let_def split: option.split prod.split simp del: split_paired_Ex)
qed

section \<open>Uploading\<close>

text \<open>What an upload may leave behind: nothing begun, everything given back, or the image installed.\<close>

definition upload_outcome ::
    "'f net_env \<Rightarrow> 'f flash_view \<Rightarrow> http_request \<Rightarrow> 'f network \<Rightarrow> 'f network \<Rightarrow> bool" where
  "upload_outcome env v rq n n' \<longleftrightarrow>
     (\<exists>h. nw_worker n' = (nw_worker n)\<lparr>ow_health := h\<rparr>) \<or> released n' \<or>
     (\<exists>p. inactive_slot env n = Some p \<and> installed env v p (stream (rq_chunks rq)) (unat (rq_content_len rq)) n')"

lemma calm_outcome: "calm n n' \<Longrightarrow> upload_outcome env v rq n n'"
  by (auto simp: calm_def upload_outcome_def)

lemma calm_slot: "calm n n' \<Longrightarrow> inactive_slot env n' = inactive_slot env n"
  by (auto simp: calm_def inactive_slot_def)

lemma ota_post_result:
  assumes "net_holds orderly p0 [] n" and "real_fan env drv"
  shows "\<exists>r n'. ota_post_handler env rq t now version n = Some (r, n') \<and> net_holds orderly p0 [] n' \<and>
    (flash_contract (ne_ota env) v \<longrightarrow> upload_outcome env v rq n n')"
proof -
  have wf: "wf_net n" using assms(1) by (simp add: net_holds_def)
  obtain access m where m: "require_ota_access env rq t now True n = (access, m)"
    by (cases "require_ota_access env rq t now True n")
  have nm: "calm n m" using ota_access_calm [OF wf, of env rq t now True] by (simp only: m snd_conv)
  have hold: "net_holds orderly p0 [] m" by (rule calm_holds [OF nm assms(1)])
  have quiet: ?thesis if c: "ota_post_handler env rq t now version n = Some (r, k)" "calm m k" for r k
    using c(1) calm_outcome [OF calm_trans [OF nm c(2)]] calm_holds [OF c(2) hold] by blast
  have error: ?thesis if c: "ota_post_handler env rq t now version n = Some (send_json_error env st msg m)" for st msg
    using quiet [OF _ responds_calm [OF responds_error]] c by (metis prod.collapse)
  consider "access \<noteq> ESP_OK" | "access = ESP_OK" "network_ota_is_busy m"
    | "access = ESP_OK" "\<not> network_ota_is_busy m" "rq_content_len rq = 0"
    | "access = ESP_OK" "\<not> network_ota_is_busy m" "rq_content_len rq \<noteq> 0" "inactive_slot env m = None"
    | inactive where "access = ESP_OK" "\<not> network_ota_is_busy m" "rq_content_len rq \<noteq> 0" "inactive_slot env m = Some inactive"
    by blast
  then show ?thesis
  proof cases
    case 1
    then show ?thesis by (intro quiet [of access m]) (simp_all add: ota_post_handler_def m)
  next
    case 2
    then show ?thesis by (intro error) (simp add: ota_post_handler_def m)
  next
    case 3
    then show ?thesis by (intro error) (simp add: ota_post_handler_def m)
  next
    case 4
    then show ?thesis by (intro error) (simp add: ota_post_handler_def m)
  next
    case 5
    show ?thesis
    proof (cases "pt_size inactive < rq_content_len rq")
      case True
      let ?s = "set_result ''failed: image too large'' [] m"
      let ?e = "send_json_error_and_close env rq ''413 Payload Too Large'' ''firmware exceeds the inactive OTA partition'' ?s"
      have "calm m ?s" by (simp add: set_result_def)
      then have "calm m (snd ?e)" by (rule calm_trans) (simp add: responds_calm)
      moreover have "ota_post_handler env rq t now version n = Some (fst ?e, snd ?e)"
        using 5 True by (simp add: ota_post_handler_def m)
      ultimately show ?thesis by (rule quiet [rotated])
    next
      case False
      then have "ota_post_handler env rq t now version n = upload_image env rq version m"
        using 5 by (simp add: ota_post_handler_def m)
      then show ?thesis
        using upload_image_result [OF hold assms(2) 5(3), of version v] calm_slot [OF nm]
        by (auto simp: upload_outcome_def)
    qed
  qed
qed

section \<open>Rolling back\<close>

lemma select_failed:
  assumes "submit api il fan k (plain_command COMMAND_SELECT_PREVIOUS) w = Some (err, w')" and "ow_task w"
    and "ow_commands w = []" and "err \<noteq> ESP_OK" and "\<not> ow_busy w"
  shows "\<not> ow_busy w'"
proof -
  obtain w1 where "execute_command api il fan (plain_command COMMAND_SELECT_PREVIOUS)
      (w\<lparr>ow_done := False, ow_commands := []\<rparr>) = Some (err, w1)" "ow_busy w' = ow_busy w1"
    by (rule submit_result [OF assms(1-3)]) blast
  then show ?thesis
    using assms(4,5)
    by (auto simp: execute_command_def plain_command_def quiesced_then_def or_fail_def Let_def fail_maintenance_def
        split: option.splits prod.splits if_splits)
qed

text \<open>The worker's call: either early, with the worker untouched, or through its queue.\<close>

lemma select_call:
  assumes "net_holds orderly p0 [] n" and "real_fan env drv" and "\<not> ow_busy (nw_worker n)"
  shows "\<exists>err m. on_worker env ota_worker_select_previous n = Some (err, m) \<and> net_holds orderly p0 [] m \<and>
    (err \<noteq> ESP_OK \<longrightarrow> \<not> ow_busy (nw_worker m))"
proof (cases "ow_validation (nw_worker n) = OTA_PREVIOUS_VALID")
  case True
  let ?f = "\<lambda>api il fan stack. submit api il fan stack (plain_command COMMAND_SELECT_PREVIOUS)"
  obtain err w where w: "on_worker env ?f n = Some (err, with_worker n w)" "net_holds orderly p0 [] (with_worker n w)"
    "submit (ne_ota env) (ne_layout env) (ne_fan env (nw_log n)) (ne_stack env (nw_log n))
      (plain_command COMMAND_SELECT_PREVIOUS) (nw_worker n) = Some (err, w)"
    using worker_plain [OF assms(1,2), of ?f COMMAND_SELECT_PREVIOUS] by auto
  have "on_worker env ota_worker_select_previous n = Some (err, with_worker n w)"
    using True w(3) by (simp add: on_worker_def ota_worker_select_previous_def)
  moreover have "err \<noteq> ESP_OK \<Longrightarrow> \<not> ow_busy w"
    by (rule select_failed [OF w(3)]) (use assms in \<open>simp_all add: net_holds_def idle_queues_def\<close>)
  ultimately show ?thesis using w(2) by auto
next
  case False
  have "net_holds orderly p0 [] (with_worker n (nw_worker n))"
    by (rule with_worker_holds [OF assms(1)]) (use assms(1) in \<open>simp_all add: net_holds_def\<close>)
  moreover obtain err where "on_worker env ota_worker_select_previous n = Some (err, with_worker n (nw_worker n))"
    using False by (cases "ow_validation (nw_worker n) = OTA_PREVIOUS_PENDING")
      (simp_all add: on_worker_def ota_worker_select_previous_def)
  ultimately show ?thesis using assms(3) by fastforce
qed

lemma rollback_result:
  assumes "net_holds orderly p0 [] n" and "real_fan env drv"
  shows "\<exists>r n'. ota_rollback_post_handler env rq t now n = Some (r, n') \<and> net_holds orderly p0 [] n'"
proof -
  have wf: "wf_net n" using assms(1) by (simp add: net_holds_def)
  obtain access m where m: "require_ota_access env rq t now True n = (access, m)"
    by (cases "require_ota_access env rq t now True n")
  have nm: "calm n m" using ota_access_calm [OF wf, of env rq t now True] by (simp only: m snd_conv)
  have hold: "net_holds orderly p0 [] m" by (rule calm_holds [OF nm assms(1)])
  have error: "\<exists>r n'. Some (send_json_error env st msg k) = Some (r, n') \<and> net_holds orderly p0 [] n'"
    if "net_holds orderly p0 [] k" for st msg k
    using responds_holds [OF responds_error that, of env st msg] by (metis prod.collapse)
  show ?thesis
  proof (cases "access = ESP_OK \<and> \<not> network_ota_is_busy m")
    case False
    then show ?thesis using error [OF hold] hold by (simp add: ota_rollback_post_handler_def m)
  next
    case True
    let ?u = "set_network_status env CONTROLLER_NETWORK_UPDATING (m\<lparr>nw_ota_request_active := True\<rparr>)"
    have u: "net_holds orderly p0 [] ?u" by (rule calm_holds [OF calm_trans [OF calm_assign(22) calm_led(1)] hold])
    have idle: "\<not> ow_busy (nw_worker ?u)"
      using True by (simp add: network_ota_is_busy_def ota_worker_is_busy_def set_network_status_def)
    obtain err k where k: "on_worker env ota_worker_select_previous ?u = Some (err, k)" "net_holds orderly p0 [] k"
      "err \<noteq> ESP_OK \<Longrightarrow> \<not> ow_busy (nw_worker k)"
      using select_call [OF u assms(2) idle] by blast
    let ?c = "k\<lparr>nw_ota_request_active := False\<rparr>"
    have c: "net_holds orderly p0 [] ?c" by (rule calm_holds [OF calm_assign(22) k(2)])
    consider "err = ESP_ERR_NOT_FINISHED" | "err = ESP_ERR_NOT_FOUND"
      | "err \<noteq> ESP_ERR_NOT_FINISHED" "err \<noteq> ESP_ERR_NOT_FOUND" "err \<noteq> ESP_OK" | "err = ESP_OK" by blast
    then show ?thesis
    proof cases
      case 1
      then show ?thesis using error [OF c] True by (simp add: ota_rollback_post_handler_def m k(1))
    next
      case 2
      then have "net_holds orderly p0 [] (end_fan_maintenance env ?c)"
        using end_fan_holds(1) [OF c assms(2)] k(3) by simp
      then have "net_holds orderly p0 [] (update_network_led env (end_fan_maintenance env ?c))"
        by (rule calm_holds [OF calm_led(2)])
      then show ?thesis using error 2 True by (simp add: ota_rollback_post_handler_def m k(1))
    next
      case 3
      then have "ota_rollback_post_handler env rq t now n = ota_failure env err ''previous firmware failed validation'' k"
        using True by (simp add: ota_rollback_post_handler_def m k(1))
      then show ?thesis using ota_failure_releases [OF k(2) assms(2)] by metis
    next
      case 4
      let ?a = "accept_and_restart env [(''accepted'', JBool True), (''restarting'', JBool True)]
        DIAGNOSTICS_RESTART_ROLLBACK (\<lambda>n. n) k"
      have "net_holds orderly p0 [] (snd ?a)" by (rule calm_holds [OF accept_calm k(2)]) simp
      moreover have "ota_rollback_post_handler env rq t now n = Some (fst ?a, snd ?a)"
        using 4 True by (simp add: ota_rollback_post_handler_def m k(1))
      ultimately show ?thesis by blast
    qed
  qed
qed

end
