(* ===== verification/NetworkClaims.thy ===== *)
theory NetworkClaims
  imports NetworkRun
begin

text \<open>
  Runs of the network: events, service rounds, gestures, requests, the other tasks' calls of the
  worker and the fan's own moves in any order, each under an environment of its own; and the
  properties of \<open>main/network.c\<close>. A request is one step, as the HTTP server runs one handler at
  a time. The parameter \<open>orderly\<close> leaves out, when set, the steps that end the fan's maintenance under
  a busy worker.
\<close>

section \<open>Runs\<close>

text \<open>The statics at power-on, with the worker started and the panel and DNS server as they are then.\<close>

definition network_boot :: "controller \<Rightarrow> ('f, fan_sys) worker \<Rightarrow> dns_server \<Rightarrow> 'f network" where
  "network_boot ui w dns =
     \<lparr>nw_http_server = False, nw_dns_server = False, nw_sta_netif = False, nw_ap_netif = False,
      nw_wifi_started = False, nw_http_ready = False, nw_netif_initialized = False,
      nw_event_loop_initialized = False, nw_wifi_initialized = False, nw_wifi_handler_registered = False,
      nw_ip_handler_registered = False, nw_http_start_attempted = False, nw_dns_start_attempted = False,
      nw_has_wifi_credentials = False, nw_connected = False, nw_provisioning = False,
      nw_provisioning_forced = False, nw_reconnect_pending = False, nw_maintenance_active = False,
      nw_maintenance_keep_ap = False, nw_ota_request_active = False, nw_maintenance_started = 0,
      nw_reconnect_at = 0, nw_retry_count = 0, nw_api_token = replicate (API_TOKEN_MAX_LENGTH + 1) 0,
      nw_captive_portal_uri = replicate 32 0, nw_last_ota_result = replicate 96 0,
      nw_manager_queue = None, nw_ui = ui, nw_worker = w, nw_dns = dns, nw_log = []\<rparr>"

text \<open>
  \<open>provision\<close> and \<open>confirm\<close> are the two calls that end the fan's maintenance without asking
  whether the worker is busy. A run is orderly when they, and the other tasks, do not come while it is;
  with \<open>orderly = False\<close> every run of the code is allowed.
\<close>

inductive net_step :: "bool \<Rightarrow> gpio_driver \<Rightarrow> 'f network \<Rightarrow> 'f network \<Rightarrow> bool" for orderly drv where
  wifi_event: "net_step orderly drv n (wifi_event_handler base event_id ip n)"
| service: "net_step orderly drv n (network_service env t now n)"
| gesture: "net_step orderly drv n (snd (network_start_provisioning env now n))"
| initialise: "net_step orderly drv n (snd (network_init env n))"
| fan_moves: "fan_env orderly drv (net_fan n) f \<Longrightarrow> net_step orderly drv n (set_fan f n)"
| panel_moves: "net_step orderly drv n (n\<lparr>nw_ui := c\<rparr>)"
| health_moves: "net_step orderly drv n (on_health g n)"
| confirm: "real_fan env drv \<Longrightarrow> (orderly \<longrightarrow> \<not> ow_busy (nw_worker n)) \<Longrightarrow>
    on_worker env ota_worker_confirm_running n = Some (err, n') \<Longrightarrow> net_step orderly drv n n'"
| rollback_running: "real_fan env drv \<Longrightarrow>
    on_worker env ota_worker_rollback_running n = Some (err, n') \<Longrightarrow> net_step orderly drv n n'"
| root_page: "net_step orderly drv n (snd (root_get_handler env n))"
| update_page: "net_step orderly drv n (snd (update_page_get_handler env n))"
| connectivity_check: "net_step orderly drv n (snd (connectivity_check_get_handler env rq n))"
| not_found: "net_step orderly drv n (snd (not_found_handler env rq n))"
| device: "net_step orderly drv n (snd (device_get_handler env rq version n))"
| state_read: "net_step orderly drv n (snd (state_get_handler env rq n))"
| ota_status: "net_step orderly drv n (snd (ota_status_get_handler env rq t now n))"
| fan_put: "net_step orderly drv n (snd (fan_put_handler env parse rq n))"
| provision: "real_fan env drv \<Longrightarrow> (orderly \<longrightarrow> \<not> ow_busy (nw_worker n)) \<Longrightarrow>
    provision_post_handler env parse rq n = Some (err, n') \<Longrightarrow> net_step orderly drv n n'"
| upload: "real_fan env drv \<Longrightarrow> ota_post_handler env rq t now version n = Some (err, n') \<Longrightarrow> net_step orderly drv n n'"
| rollback: "real_fan env drv \<Longrightarrow> ota_rollback_post_handler env rq t now n = Some (err, n') \<Longrightarrow> net_step orderly drv n n'"

inductive net_reachable :: "bool \<Rightarrow> gpio_driver \<Rightarrow> fan_sys \<Rightarrow> 'f network \<Rightarrow> bool" for orderly drv fan0 where
  net_start: "worker_boot w0 \<Longrightarrow> ow_fan w0 = fan0 \<Longrightarrow> ota_worker_init we w0 = (ESP_OK, w) \<Longrightarrow>
    net_reachable orderly drv fan0 (network_boot ui (ota_worker_task_start api w) dns)"
| net_run: "net_reachable orderly drv fan0 n \<Longrightarrow> net_step orderly drv n n' \<Longrightarrow> net_reachable orderly drv fan0 n'"

lemma boot_holds:
  assumes "worker_boot w0" and "fan_good p0 (ow_fan w0)" and "ota_worker_init we w0 = (ESP_OK, w)"
  shows "net_holds orderly p0 [] (network_boot ui (ota_worker_task_start api w) dns)"
  using ofan.init_ok [OF assms, where api = api and orderly = orderly]
  by (simp add: net_holds_def network_boot_def wf_net_def ofan.worker_ok.simps)

lemma probation_holds:
  assumes "net_holds orderly p0 [] n" and "real_fan env drv"
    and "on_worker env (\<lambda>api il fan stack. submit api il fan stack (plain_command c)) n = Some (err, n')"
    and "c \<in> {COMMAND_CONFIRM_RUNNING, COMMAND_ROLLBACK_RUNNING}" and "orderly \<and> c = COMMAND_CONFIRM_RUNNING \<longrightarrow> \<not> ow_busy (nw_worker n)"
  shows "net_holds orderly p0 [] n'"
proof -
  obtain inputs b e where fan: "ne_fan env (nw_log n) = fan_calls drv inputs b e" by (rule real_fanE [OF assms(2)])
  have ok: "ofan.safe orderly p0 (nw_worker n)" "idle_queues [] (nw_worker n)" using assms(1) by (simp_all add: net_holds_def)
  have "wc_type (plain_command c) \<notin> {COMMAND_BEGIN_AND_WRITE, COMMAND_WRITE}"
    "orderly \<and> wc_type (plain_command c) = COMMAND_CONFIRM_RUNNING \<longrightarrow> \<not> ow_busy (nw_worker n)"
    using assms(4,5) by (auto simp: plain_command_def)
  then obtain err' w where w: "submit (ne_ota env) (ne_layout env) (fan_calls drv inputs b e) (ne_stack env (nw_log n))
      (plain_command c) (nw_worker n) = Some (err', w)" "ofan.safe orderly p0 w" "idle_queues [] w"
    using ofan.submit_plain [OF ok] by blast
  then have "n' = with_worker n w" using assms(3) by (simp add: on_worker_def fan)
  then show ?thesis using with_worker_holds [OF assms(1) w(2,3)] by simp
qed

lemma step_holds:
  assumes "net_step orderly drv n n'" and "net_holds orderly p0 [] n"
  shows "net_holds orderly p0 [] n'"
proof -
  have wf: "wf_net n" using assms(2) by (simp add: net_holds_def)
  note calm = calm_holds [OF _ assms(2)] and answer = responds_holds [OF _ assms(2)]
  from assms(1) show ?thesis
  proof cases
    case (fan_moves f)
    then show ?thesis using fan_env_holds [OF assms(2)] by blast
  next
    case (confirm env err)
    then show ?thesis
      using probation_holds [OF assms(2), of env drv COMMAND_CONFIRM_RUNNING err n'] by (simp add: on_worker_def ota_worker_confirm_running_def)
  next
    case (rollback_running env err)
    then show ?thesis
      using probation_holds [OF assms(2), of env drv COMMAND_ROLLBACK_RUNNING] by (simp add: on_worker_def ota_worker_rollback_running_def)
  next
    case (provision env parse rq err)
    then show ?thesis using provision_holds [OF assms(2) provision(1), of parse rq] by auto
  next
    case (upload env rq t now version err)
    then show ?thesis using ota_post_result [OF assms(2) upload(1), of rq t now version] by auto
  next
    case (rollback env rq t now err)
    then show ?thesis using rollback_result [OF assms(2) rollback(1), of rq t now] by auto
  qed (simp_all add: calm answer calm_service [OF wf] page_responds device_calm state_get_responds
      status_get_calm [OF wf] fan_put_holds [OF assms(2)])
qed

lemma net_reachable_holds:
  assumes "net_reachable orderly drv fan0 n" and "reachable valid_output drv (Sleeping, fan0)"
  shows "net_holds orderly p0 [] n"
  using assms(1)
proof induction
  case (net_start w0 we w ui api dns)
  then show ?case using boot_holds [OF net_start(1) _ net_start(3)] reachable_ok [OF assms(2), of p0, folded fan_good_def] by blast
next
  case (net_run n n')
  then show ?case using step_holds by blast
qed

lemma net_reachable_safe:
  assumes "net_reachable orderly drv fan0 n" and "reachable valid_output drv (Sleeping, fan0)"
  shows "net_holds False p0 [] n"
  using net_reachable_holds [OF assms, of p0] by (simp add: net_holds_def ofan.safe_def)

section \<open>Which status an answer has\<close>

definition answers_only :: "string set \<Rightarrow> 'f network \<Rightarrow> 'f network \<Rightarrow> bool" where
  "answers_only statuses n n' \<longleftrightarrow>
     (\<exists>new. nw_log n' = new @ nw_log n \<and> (\<forall>s. Resp_Status s \<in> set new \<longrightarrow> s \<in> statuses))"

lemma answers_onlyD:
  "answers_only S n n' \<Longrightarrow> nw_log n' = new @ nw_log n \<Longrightarrow> Resp_Status s \<in> set new \<Longrightarrow> s \<in> S"
  by (auto simp: answers_only_def)

lemma answers_only_trans: "answers_only S a b \<Longrightarrow> answers_only S b c \<Longrightarrow> answers_only S a c"
  by (fastforce simp: answers_only_def)

lemma answers_only_error: "answers_only {st} n (snd (send_json_error env st msg n))"
  by (auto simp: answers_only_def send_json_error_def send_json_def net_do_def net_just_def Let_def split_beta)

lemma answers_only_authorized: "answers_only S n (snd (request_is_authorized env rq n))"
  by (auto simp: answers_only_def request_is_authorized_def net_do_def Let_def split: option.split)

lemma answers_only_mono: "answers_only S n n' \<Longrightarrow> S \<subseteq> T \<Longrightarrow> answers_only T n n'"
  by (fastforce simp: answers_only_def)

lemma answers_only_refuse:
  "answers_only {''503 Service Unavailable'', ''409 Conflict'', ''500 Internal Server Error''} n
     (snd (refuse_fan_command env e n))"
  unfolding refuse_fan_command_def Let_def
  by (auto intro: answers_only_mono [OF answers_only_error])

lemma requested_speed_range:
  assumes "requested_speed item = Some speed" shows "speed \<le> 4"
proof -
  obtain x where x: "0 \<le> x \<and> x < 5" "speed = word_of_int x"
    using assms that by (auto simp: requested_speed_def not_less not_le split: option.splits json_item.splits if_splits)
  have "x = 0 \<or> x = 1 \<or> x = 2 \<or> x = 3 \<or> x = 4" using x(1) by presburger
  then show ?thesis using x(2) by auto
qed

lemma submit_speed_ok:
  "fan_control_submit_speed pass view speed source cancel s = (ESP_OK, seq, s1) \<Longrightarrow> seq \<noteq> None"
  by (auto simp: fan_control_submit_speed_def submit_command_def submit_locked_def Let_def
      split: if_splits option.splits prod.splits)

section \<open>An instance\<close>

definition sample_token :: "u8 list" where
  "sample_token = bytes_of ''0123456789abcdef''"

text \<open>Every call succeeds; a token and a network are stored.\<close>

definition sample_env :: "sample_flash net_env" where
  "sample_env =
     \<lparr>ne_err = (\<lambda>_ _. ESP_OK), ne_tick = (\<lambda>_. 1000), ne_ui_free = (\<lambda>_. True), ne_leds = sample_driver,
      ne_mac = [0, 1, 2, 0xA3, 0xB4, 0xC5], ne_ap_ip = (\<lambda>_. 0x0104A8C0),
      ne_stored_token = (\<lambda>_. sample_token @ [0]), ne_stored_ssid = (\<lambda>_. bytes_of ''home'' @ [0]),
      ne_dns_created = (\<lambda>_. (True, True)), ne_dns_task = (\<lambda>_. (id, id)),
      ne_ota = sample_api, ne_layout = sample_layout, ne_fan = (\<lambda>_. sample_calls), ne_stack = (\<lambda>_. 900),
      ne_alloc = (\<lambda>_ _. True), ne_view = (\<lambda>_ _. (ESP_OK, Some starting_snapshot)),
      ne_mailbox_free = (\<lambda>_. True), ne_uptime_us = (\<lambda>_. 7000), ne_err_name = (\<lambda>_. ''ESP_FAIL'')\<rparr>"

lemma sample_real_fan: "real_fan sample_env all_calls_succeed"
  unfolding real_fan_def sample_env_def by simp blast

definition sample_boot_net :: "sample_flash network" where
  "sample_boot_net = network_boot sample_panel sample_started
     \<lparr>ds_running = False, ds_task = False, ds_in_use = False, ds_socket = False, ds_netif_key = None,
      ds_started = False, ds_stopped = False, ds_failed = False\<rparr>"

definition sample_request :: http_request where
  "sample_request =
     \<lparr>rq_method = HTTP_POST, rq_uri = ''/api/v1/ota'', rq_content_len = 6,
      rq_authorization = Some (bytes_of ''Bearer '' @ sample_token),
      rq_chunks = [Some [0xE9, 0, 0], Some [1, 7, 8, 9]], rq_socket = 3, rq_local_address = None,
      rq_peer_address = None, rq_ap_clients = None, rq_ap_ip = (None, None), rq_sta_ip = None\<rparr>"

text \<open>Initialised, then the maintenance window opened by the gesture at tick 1000.\<close>

definition sample_open :: "sample_flash network" where
  "sample_open = snd (network_start_provisioning sample_env 1000 (snd (network_init sample_env sample_boot_net)))"

lemma sample_boot_reachable: "net_reachable orderly all_calls_succeed (sample_running all_calls_succeed) sample_boot_net"
proof -
  have "ow_fan sample_worker = sample_running all_calls_succeed" by (simp add: sample_worker_def)
  moreover have "ota_worker_init all_created sample_worker = (ESP_OK, snd (ota_worker_init all_created sample_worker))"
    by (simp add: ota_worker_init_def all_created_def sample_worker_def Let_def)
  ultimately show ?thesis
    unfolding sample_boot_net_def sample_started_def by (rule net_start [OF sample_worker_boot])
qed

lemma sample_open_reachable: "net_reachable orderly all_calls_succeed (sample_running all_calls_succeed) sample_open"
  unfolding sample_open_def by (rule net_run [OF net_run [OF sample_boot_reachable initialise] gesture])

definition sample_form :: json_parser where
  "sample_form text = Some [(bytes_of ''ssid'', IString (bytes_of ''home'' @ [0])),
     (bytes_of ''password'', IString (bytes_of ''secret-word'' @ [0])),
     (bytes_of ''api_token'', IString (sample_token @ [0]))]"

section \<open>Properties\<close>

text \<open>C9. The network's state stays sound whatever happens: in every state that events, service rounds,
  gestures, requests and the other tasks reach in any order the token array keeps its size and a
  terminating NUL, the retry counter and the event queue their bounds, and the two upload buffers
  are free. In an orderly run, one in which nobody ends the maintenance of the fan (by a confirmation, by a
  provisioning request or directly) while the worker is busy, the fan is moreover quiesced in maintenance
  with no decoder output active as long as an update is under way.\<close>

theorem network_stays_sound:
  assumes "reachable valid_output drv (Sleeping, fan0)" and "net_reachable orderly drv fan0 n"
  shows "length (nw_api_token n) = API_TOKEN_MAX_LENGTH + 1 \<and> 0 \<in> set (nw_api_token n) \<and>
    length (nw_last_ota_result n) = 96 \<and> nw_retry_count n \<le> WIFI_RETRY_LIMIT \<and>
    (\<forall>q. nw_manager_queue n = Some q \<longrightarrow> length q \<le> NETWORK_EVENT_QUEUE_LENGTH) \<and>
    (\<exists>free. ow_free (nw_worker n) = Some free \<and> mset (map unat free) = {#0, 1#}) \<and>
    (ou_busy (ow_ota (nw_worker n)) \<longrightarrow> ow_busy (nw_worker n)) \<and>
    (orderly \<and> ow_busy (nw_worker n) \<longrightarrow> fs_maintenance_requested (net_fan n) \<and> fs_quiesced (net_fan n) \<and>
       driver_output p0 (fs_hw (net_fan n)) = None)"
proof -
  have "net_holds orderly p0 [] n" by (rule net_reachable_holds [OF assms(2,1)])
  then show ?thesis
    by (auto simp: net_holds_def wf_net_def ofan.safe_def idle_queues_def each_once_def net_fan_def fan_halted_def
        fan_good_def sys_defs speed_output_def)
qed

theorem network_stays_sound_witness:
  "length (nw_api_token sample_open) = 65 \<and> nw_retry_count sample_open \<le> 5 \<and>
   (\<exists>free. ow_free (nw_worker sample_open) = Some free \<and> mset (map unat free) = {#0, 1#})"
  using network_stays_sound [OF sample_reachable sample_open_reachable [of False]] by simp

text \<open>C10. Every request is answered: from every state of every run the three handlers that wait for
  the fan or the OTA worker return, whatever the calls they make answer and whether or not the
  worker is busy.\<close>

theorem requests_return:
  assumes "reachable valid_output drv (Sleeping, fan0)" and "net_reachable orderly drv fan0 n" and "real_fan env drv"
  shows "(\<exists>r n'. ota_post_handler env rq t now version n = Some (r, n')) \<and>
    (\<exists>r n'. ota_rollback_post_handler env rq t now n = Some (r, n')) \<and>
    (\<exists>r n'. provision_post_handler env parse rq n = Some (r, n'))"
proof -
  have hold: "net_holds False undriven_pads [] n" by (rule net_reachable_safe [OF assms(2,1)])
  show ?thesis
    using ota_post_result [OF hold assms(3)] rollback_result [OF hold assms(3)] provision_holds [OF hold assms(3)]
    by blast
qed

theorem requests_return_witness:
  "(\<exists>r n'. ota_post_handler sample_env sample_request 1001 1001 [] sample_open = Some (r, n')) \<and>
   (\<exists>r n'. ota_rollback_post_handler sample_env sample_request 1001 1001 sample_open = Some (r, n')) \<and>
   (\<exists>r n'. provision_post_handler sample_env sample_form sample_request sample_open = Some (r, n'))"
  using requests_return [OF sample_reachable sample_open_reachable [of False] sample_real_fan] by blast

text \<open>C11. What an upload leaves behind: from every reachable state the upload handler returns, and
  then either nothing was begun (the worker is as before, up to the health table), or the failure
  was cleaned up (worker idle, the fan's maintenance over, the request flag clear), or the slot
  that boots next is the inactive one and holds exactly the announced number of bytes, the first
  of the request's body, everything behind them erased, and its content passed the signature
  check.\<close>

theorem upload_installs_body:
  assumes "reachable valid_output drv (Sleeping, fan0)" and "net_reachable orderly drv fan0 n"
    and "real_fan env drv" and "flash_contract (ne_ota env) v"
  shows "\<exists>r n'. ota_post_handler env rq t now version n = Some (r, n') \<and>
    ((\<exists>h. nw_worker n' = (nw_worker n)\<lparr>ow_health := h\<rparr>) \<or>
     \<not> ow_busy (nw_worker n') \<and> \<not> fs_maintenance_requested (net_fan n') \<and> \<not> nw_ota_request_active n' \<or>
     (\<exists>p. let body = stream (rq_chunks rq); k = unat (rq_content_len rq); f = ou_flash (ow_ota (nw_worker n'))
          in inactive_slot env n = Some p \<and> fv_boot v f = Some p \<and> k \<le> length body \<and>
             fv_bytes v p f = take k body @ replicate (unat (pt_size p) - k) 0xff \<and> fv_valid v (fv_bytes v p f)))"
proof -
  have "net_holds False undriven_pads [] n" by (rule net_reachable_safe [OF assms(2,1)])
  from ota_post_result [OF this assms(3), of rq t now version v] show ?thesis
    using assms(4) unfolding upload_outcome_def released_def installed_def Let_def by fast
qed

theorem upload_installs_body_witness:
  "\<exists>r n'. ota_post_handler sample_env sample_request 1001 1001 [] sample_open = Some (r, n') \<and>
    ((\<exists>h. nw_worker n' = (nw_worker sample_open)\<lparr>ow_health := h\<rparr>) \<or> \<not> ow_busy (nw_worker n') \<or>
     (\<exists>p. fv_bytes sample_view p (ou_flash (ow_ota (nw_worker n'))) =
        [0xE9, 0, 0, 1, 7, 8] @ replicate (unat (pt_size p) - 6) 0xff))"
proof -
  have "flash_contract (ne_ota sample_env) sample_view" using sample_contract by (simp add: sample_env_def)
  from upload_installs_body [OF sample_reachable sample_open_reachable [of False] sample_real_fan this, of sample_request 1001 1001 "[]"]
  show ?thesis by (simp add: sample_request_def Let_def) blast
qed

text \<open>C12. Known weakness of the firmware endpoints: the access check never refuses when the refusal
  itself could be sent. A request outside the maintenance window has been answered 403, one
  without the token 401, and still the check returns \<open>ESP_OK\<close>, on which the handlers go on.\<close>

theorem refused_ota_request_proceeds:
  assumes "\<And>log c. is_response c \<Longrightarrow> ne_err env log c = ESP_OK"
  shows "\<exists>k. require_ota_access env rq t now window n = (ESP_OK, k) \<and>
    (let m = network_service env t now n
     in if window \<and> \<not> nw_maintenance_active m then Resp_Status ''403 Forbidden'' \<in> set (nw_log k)
        else \<not> request_is_from_ap rq m \<and> \<not> fst (request_is_authorized env rq m) \<longrightarrow>
          Resp_Status ''401 Unauthorized'' \<in> set (nw_log k))"
proof -
  have err: "fst (send_json_error env st msg m) = ESP_OK" "Resp_Status st \<in> set (nw_log (snd (send_json_error env st msg m)))"
    for st msg m
    by (simp_all add: send_json_error_def send_json_def net_do_def net_just_def assms Let_def)
  show ?thesis
    by (auto simp: require_ota_access_def require_authorization_def Let_def err split_beta prod_eq_iff)
qed

theorem refused_ota_request_proceeds_witness:
  "\<exists>k. require_ota_access sample_env sample_request 1001 1001 True sample_boot_net = (ESP_OK, k) \<and>
     Resp_Status ''403 Forbidden'' \<in> set (nw_log k)"
proof -
  have "\<not> nw_maintenance_active (network_service sample_env 1001 1001 sample_boot_net)"
    by (simp add: network_service_def service_reconnect_def sample_boot_net_def network_boot_def)
  then show ?thesis
    using refused_ota_request_proceeds [of sample_env sample_request 1001 1001 True sample_boot_net]
    by (simp add: sample_env_def Let_def)
qed

text \<open>A request to the fan endpoint that changes anything of the worker or the fan: it was let in, its
  body asked for a speed, and the command went to the fan.\<close>

lemma fan_put_changed:
  assumes "wf_net n" and "fan_put_handler env parse rq n = (r, n')" and "nw_worker n' \<noteq> nw_worker n"
  obtains m h body speed e s k c seq where
    "request_is_authorized env rq n = (True, m)" "rq_authorization rq = Some h"
    "c_str h = bytes_of ''Bearer '' @ c_str (nw_api_token n)" "c_str (nw_api_token n) \<noteq> []"
    "receive_body rq 128 = (ESP_OK, Some body)" "requested_speed (json_get (parse (c_str body)) ''speed'') = Some speed"
    "k = set_fan (ct_fan c) (m\<lparr>nw_ui := c\<rparr>)"
    "fan_control_submit_speed (ne_mailbox_free env (nw_log m)) (ne_view env (nw_log m) 0) speed
       FAN_CONTROL_SOURCE_REST True (net_fan m) = (e, seq, ct_fan c)"
    "(if e \<noteq> ESP_OK then refuse_fan_command env e k else accept_fan_command env s speed k) = (r, n')"
proof -
  obtain a m where m: "request_is_authorized env rq n = (a, m)" by (cases "request_is_authorized env rq n")
  have nm: "responds n m" using responds_authorized [of n env rq] by (simp add: m)
  have worker: "nw_worker n' \<noteq> nw_worker m" using assms(3) responds_same(1) [OF nm] by simp
  have a: a
  proof (rule ccontr)
    assume "\<not> a"
    then have "n' = snd (require_authorization env rq m)" using assms(2) by (simp add: fan_put_handler_def authorized_then_def m)
    then show False using worker responds_same(1) [OF responds_require [of m env rq]] by simp
  qed
  obtain h where header: "rq_authorization rq = Some h" "c_str h = bytes_of ''Bearer '' @ c_str (nw_api_token n)"
    "c_str (nw_api_token n) \<noteq> []"
    using authorized_iff [OF assms(1), of env rq] a m by (auto simp: bearer_def)
  have run: "(case receive_body rq 128 of
         (_, None) \<Rightarrow> send_json_error env ''400 Bad Request'' ''invalid request body'' m
       | (_, Some body) \<Rightarrow>
           (case requested_speed (json_get (parse (c_str body)) ''speed'') of
              None \<Rightarrow> send_json_error env ''422 Unprocessable Entity'' ''speed must be an integer from 0 through 4'' m
            | Some speed \<Rightarrow>
                (case set_remote_speed env speed m of (submitted, sequence, n) \<Rightarrow>
                   if submitted \<noteq> ESP_OK then refuse_fan_command env submitted n
                   else accept_fan_command env sequence speed n))) = (r, n')"
    using assms(2) a by (simp add: fan_put_handler_def authorized_then_def m)
  have err: "send_json_error env st msg m \<noteq> (r, n')" for st msg
    using worker responds_same(1) [OF responds_error [of m env st msg]] by auto
  obtain body speed where body: "receive_body rq 128 = (ESP_OK, Some body)"
    "requested_speed (json_get (parse (c_str body)) ''speed'') = Some speed"
    using run err by (auto simp: receive_body_def split: if_splits option.splits prod.splits)
  obtain e s k where k: "set_remote_speed env speed m = (e, s, k)" by (cases "set_remote_speed env speed m")
  obtain c seq where kc: "k = set_fan (ct_fan c) (m\<lparr>nw_ui := c\<rparr>)"
    "fan_control_submit_speed (ne_mailbox_free env (nw_log m)) (ne_view env (nw_log m) 0) speed
       FAN_CONTROL_SOURCE_REST True (net_fan m) = (e, seq, ct_fan c)"
    by (rule set_remote_speed_fan [OF k]) blast
  have "(if e \<noteq> ESP_OK then refuse_fan_command env e k else accept_fan_command env s speed k) = (r, n')"
    using run body k by simp
  with m a header body kc show thesis by (intro that) simp_all
qed

text \<open>C13. The fan endpoint is closed without the token: if a request to it changes anything of the
  fan, its header was exactly the scheme and the stored, nonempty token, and its body asked for a
  speed from 0 through 4; and if the command was answered 202, it is in the fan's mailbox with
  that speed and the fan is not in maintenance.\<close>

theorem fan_endpoint_needs_token:
  assumes "wf_net n" and "fan_put_handler env parse rq n = (r, n')" and "nw_worker n' \<noteq> nw_worker n"
  shows "\<exists>h body speed. rq_authorization rq = Some h \<and>
    c_str h = bytes_of ''Bearer '' @ c_str (nw_api_token n) \<and> c_str (nw_api_token n) \<noteq> [] \<and>
    receive_body rq 128 = (ESP_OK, Some body) \<and>
    requested_speed (json_get (parse (c_str body)) ''speed'') = Some speed \<and> speed \<le> 4 \<and>
    (\<forall>new. nw_log n' = new @ nw_log n \<longrightarrow> Resp_Status ''202 Accepted'' \<in> set new \<longrightarrow>
      (\<exists>c. fs_mailbox (net_fan n') = Some c \<and> cmd_action c = FAN_CONTROL_ACTION_SET_SPEED \<and>
        cmd_speed c = speed \<and> \<not> fs_maintenance_requested (net_fan n')))"
proof -
  obtain m h body speed e s k c seq where m: "request_is_authorized env rq n = (True, m)"
    and header: "rq_authorization rq = Some h" "c_str h = bytes_of ''Bearer '' @ c_str (nw_api_token n)"
      "c_str (nw_api_token n) \<noteq> []"
    and body: "receive_body rq 128 = (ESP_OK, Some body)"
      "requested_speed (json_get (parse (c_str body)) ''speed'') = Some speed"
    and kc: "k = set_fan (ct_fan c) (m\<lparr>nw_ui := c\<rparr>)"
      "fan_control_submit_speed (ne_mailbox_free env (nw_log m)) (ne_view env (nw_log m) 0) speed
         FAN_CONTROL_SOURCE_REST True (net_fan m) = (e, seq, ct_fan c)"
    and run: "(if e \<noteq> ESP_OK then refuse_fan_command env e k else accept_fan_command env s speed k) = (r, n')"
    by (rule fan_put_changed [OF assms])
  have "\<exists>c. fs_mailbox (net_fan n') = Some c \<and> cmd_action c = FAN_CONTROL_ACTION_SET_SPEED \<and>
        cmd_speed c = speed \<and> \<not> fs_maintenance_requested (net_fan n')"
    if "nw_log n' = new @ nw_log n" "Resp_Status ''202 Accepted'' \<in> set new" for new
  proof -
    have "answers_only {''503 Service Unavailable'', ''409 Conflict'', ''500 Internal Server Error''} n n'" if "e \<noteq> ESP_OK"
    proof -
      have "nw_log k = nw_log m" "n' = snd (refuse_fan_command env e k)" using run kc(1) that by (auto simp: set_fan_def)
      then have "answers_only {''503 Service Unavailable'', ''409 Conflict'', ''500 Internal Server Error''} m n'"
        using answers_only_refuse [of k env e] by (simp add: answers_only_def)
      moreover have "answers_only S n m" for S using answers_only_authorized [of S n env rq] by (simp add: m)
      ultimately show ?thesis by (rule answers_only_trans [rotated])
    qed
    then have ok: "e = ESP_OK" using answers_onlyD [OF _ that] by (cases "e = ESP_OK") auto
    then obtain i where i: "seq = Some i" using submit_speed_ok kc(2) by blast
    have "n' = snd (accept_fan_command env s speed k)" using run ok by simp
    then have "net_fan n' = ct_fan c"
      using responds_same(4) [OF accept_responds [of k env s speed]] kc(1) by (simp add: set_fan_def net_fan_def)
    moreover obtain k where "cmd_speed k = speed" "cmd_action k = FAN_CONTROL_ACTION_SET_SPEED"
      "fs_mailbox (ct_fan c) = Some k" "\<not> fs_maintenance_requested (ct_fan c)"
      by (rule submit_speed_accepted [OF kc(2) [unfolded ok i]])
    ultimately show ?thesis by simp
  qed
  moreover have "speed \<le> 4" by (rule requested_speed_range [OF body(2)])
  ultimately show ?thesis using header body by blast
qed

lemma submit_speed_runs:
  assumes "speed < NUM_FAN_SPEEDS" and "fs_task s" and "\<not> fs_maintenance_requested s" and "\<not> fc_fault_latched st"
  shows "\<exists>i f c. fan_control_submit_speed True (ESP_OK, Some st) speed source cancel s = (ESP_OK, Some i, f) \<and>
    fs_mailbox f = Some c \<and> cmd_action c = FAN_CONTROL_ACTION_SET_SPEED \<and> cmd_speed c = speed \<and> cmd_cancel_timer c = cancel"
  using assms by (simp add: fan_control_submit_speed_def submit_command_def submit_locked_def Let_def not_le)

lemma fan_put_runs:
  assumes "wf_net n" and ok: "\<And>log c. is_response c \<Longrightarrow> ne_err env log c = ESP_OK"
    and "rq_authorization rq = Some h" "length h < API_TOKEN_MAX_LENGTH + 8"
      "c_str h = bytes_of ''Bearer '' @ c_str (nw_api_token n)" "c_str (nw_api_token n) \<noteq> []"
    and body: "receive_body rq 128 = (ESP_OK, Some body)"
      "requested_speed (json_get (parse (c_str body)) ''speed'') = Some speed"
    and "fs_task (net_fan n)" and "\<not> fs_maintenance_requested (net_fan n)"
    and "\<And>log. ne_mailbox_free env log" and "\<And>log. ne_view env log 0 = (ESP_OK, Some st)" and "\<not> fc_fault_latched st"
  shows "\<exists>n' new c. fan_put_handler env parse rq n = (ESP_OK, n') \<and> nw_log n' = new @ nw_log n \<and>
    Resp_Status ''202 Accepted'' \<in> set new \<and> fs_mailbox (net_fan n') = Some c \<and>
    cmd_action c = FAN_CONTROL_ACTION_SET_SPEED \<and> cmd_speed c = speed \<and> cmd_cancel_timer c"
proof -
  obtain m where m: "request_is_authorized env rq n = (True, m)"
    using authorized_iff [OF assms(1), of env rq] assms(3-6) ok
    by (cases "request_is_authorized env rq n") (auto simp: bearer_def)
  have nm: "responds n m" using responds_authorized [of n env rq] by (simp add: m)
  have speed: "speed < NUM_FAN_SPEEDS" using requested_speed_range [OF body(2)] by (rule le_less_trans) simp
  obtain i f c where f: "fan_control_submit_speed (ne_mailbox_free env (nw_log m)) (ne_view env (nw_log m) 0) speed
      FAN_CONTROL_SOURCE_REST True (net_fan m) = (ESP_OK, Some i, f)" "fs_mailbox f = Some c"
    "cmd_action c = FAN_CONTROL_ACTION_SET_SPEED" "cmd_speed c = speed" "cmd_cancel_timer c"
    using submit_speed_runs [OF speed, of "net_fan m"] assms(9-13) responds_same(4) [OF nm] by metis
  define k where "k = set_fan f (m\<lparr>nw_ui := (panel_of m)\<lparr>ct_fan := f\<rparr>\<rparr>)"
  have k: "set_remote_speed env speed m = (ESP_OK, i, k)" "nw_log k = nw_log m" "fs_mailbox (net_fan k) = Some c"
    using f(1,2) by (simp_all add: set_remote_speed_def controller_set_remote_fan_speed_def panel_of_def k_def
        set_fan_def net_fan_def)
  have "fan_put_handler env parse rq n = accept_fan_command env i speed k"
    by (simp add: fan_put_handler_def authorized_then_def m body k(1))
  moreover have "\<exists>a b c d. accept_fan_command env i speed k =
      (ESP_OK, k\<lparr>nw_log := [a, b, c, Resp_Status ''202 Accepted'', d] @ nw_log k\<rparr>)"
    by (simp add: accept_fan_command_def create_json_def send_json_def net_do_def net_just_def ok) blast
  ultimately obtain x1 x2 x3 x4 where
    "fan_put_handler env parse rq n = (ESP_OK, k\<lparr>nw_log := [x1, x2, x3, Resp_Status ''202 Accepted'', x4] @ nw_log k\<rparr>)"
    by metis
  moreover have "Resp_Status ''202 Accepted'' \<in> set [x1, x2, x3, Resp_Status ''202 Accepted'', x4]" by simp
  ultimately obtain new where k': "fan_put_handler env parse rq n = (ESP_OK, k\<lparr>nw_log := new @ nw_log k\<rparr>)"
    "Resp_Status ''202 Accepted'' \<in> set new"
    by metis
  obtain old where "nw_log m = old @ nw_log n" using nm by (auto simp: responds_def)
  then have "nw_log (k\<lparr>nw_log := new @ nw_log k\<rparr>) = (new @ old) @ nw_log n"
    "Resp_Status ''202 Accepted'' \<in> set (new @ old)"
    using k'(2) k(2) by simp_all
  moreover have "fs_mailbox (net_fan (k\<lparr>nw_log := new @ nw_log k\<rparr>)) = Some c" using k(3) by (simp add: net_fan_def)
  ultimately show ?thesis using k'(1) f(3-5) by blast
qed

text \<open>C14. The fan endpoint is open with the token: a request whose header is the scheme and the
  stored token and whose body asks for a speed from 0 through 4 is answered 202 and its command,
  which also cancels the shut-off timer, waits in the fan's mailbox, unless the fan is in
  maintenance, faulted or a call fails.\<close>

theorem fan_endpoint_queues_speed:
  assumes "wf_net n" and "\<And>log c. is_response c \<Longrightarrow> ne_err env log c = ESP_OK"
    and "rq_authorization rq = Some h" and "length h < API_TOKEN_MAX_LENGTH + 8"
    and "c_str h = bytes_of ''Bearer '' @ c_str (nw_api_token n)" and "c_str (nw_api_token n) \<noteq> []"
    and "receive_body rq 128 = (ESP_OK, Some body)"
    and "requested_speed (json_get (parse (c_str body)) ''speed'') = Some speed"
    and "fs_task (net_fan n)" and "\<not> fs_maintenance_requested (net_fan n)"
    and "\<And>log. ne_mailbox_free env log" and "\<And>log. ne_view env log 0 = (ESP_OK, Some st)" and "\<not> fc_fault_latched st"
  shows "\<exists>n' new c. fan_put_handler env parse rq n = (ESP_OK, n') \<and> nw_log n' = new @ nw_log n \<and>
    Resp_Status ''202 Accepted'' \<in> set new \<and> fs_mailbox (net_fan n') = Some c \<and>
    cmd_action c = FAN_CONTROL_ACTION_SET_SPEED \<and> cmd_speed c = speed \<and> cmd_cancel_timer c"
  using assms by (rule fan_put_runs)

text \<open>A request for speed 2 to the network with a token, and a parser that reads its body.\<close>

definition sample_keyed :: "sample_flash network" where
  "sample_keyed = sample_boot_net\<lparr>nw_api_token := sample_token @ replicate 49 0\<rparr>"

definition sample_put :: http_request where
  "sample_put = sample_request\<lparr>rq_method := HTTP_PUT, rq_uri := ''/api/v1/fan'', rq_content_len := 11,
     rq_chunks := [Some (bytes_of ''{speed: 2}x'')]\<rparr>"

definition sample_parser :: json_parser where
  "sample_parser text = Some [(bytes_of ''speed'', INumber True 2)]"

lemma sample_keyed_facts:
  "wf_net sample_keyed" "c_str (nw_api_token sample_keyed) = sample_token"
  "net_fan sample_keyed = sample_running all_calls_succeed"
proof -
  have token: "length sample_token = 16" "0 \<notin> set sample_token" by (simp_all add: sample_token_def bytes_of_def of_char_def)
  show "wf_net sample_keyed" "net_fan sample_keyed = sample_running all_calls_succeed"
    using token by (simp_all add: wf_net_def sample_keyed_def sample_boot_net_def network_boot_def net_fan_def)
  have "replicate 49 (0 :: u8) = 0 # replicate 48 0" by (simp add: numeral_eq_Suc)
  then show "c_str (nw_api_token sample_keyed) = sample_token"
    using token by (simp add: sample_keyed_def c_str_append_nul)
qed

lemma sample_header:
  "rq_authorization sample_put = Some (bytes_of ''Bearer '' @ sample_token)"
  "length (bytes_of ''Bearer '' @ sample_token) < API_TOKEN_MAX_LENGTH + 8"
  "c_str (bytes_of ''Bearer '' @ sample_token) = bytes_of ''Bearer '' @ c_str (nw_api_token sample_keyed)"
  "c_str (nw_api_token sample_keyed) \<noteq> []"
  unfolding sample_keyed_facts
  by (simp_all add: sample_put_def sample_request_def sample_token_def bytes_of_def of_char_def c_str_def)

lemma sample_body:
  "receive_body sample_put 128 = (ESP_OK, Some (bytes_of ''{speed: 2}x'' @ [0]))"
  "requested_speed (json_get (sample_parser (c_str (bytes_of ''{speed: 2}x'' @ [0]))) ''speed'') = Some FAN_SPEED_2"
  by (code_simp, simp add: sample_parser_def json_get_def requested_speed_def)

lemma sample_fan_free:
  "fs_task (net_fan sample_keyed)" "\<not> fs_maintenance_requested (net_fan sample_keyed)" "fs_mailbox (net_fan sample_keyed) = None"
  unfolding sample_keyed_facts by code_simp+

lemma sample_answers:
  "ne_err sample_env log c = ESP_OK" "ne_mailbox_free sample_env log"
  "ne_view sample_env log 0 = (ESP_OK, Some starting_snapshot)" "\<not> fc_fault_latched starting_snapshot"
  by (simp_all add: sample_env_def starting_snapshot_def zero_snapshot_def)

lemmas sample_put_runs = sample_keyed_facts(1) sample_answers(1) sample_header sample_body sample_fan_free(1,2)
  sample_answers(2-4)

theorem fan_endpoint_queues_speed_witness:
  "\<exists>n' c. fan_put_handler sample_env sample_parser sample_put sample_keyed = (ESP_OK, n') \<and>
     fs_mailbox (net_fan n') = Some c \<and> cmd_speed c = FAN_SPEED_2"
  using fan_endpoint_queues_speed [of sample_keyed sample_env sample_put "bytes_of ''Bearer '' @ sample_token"
      "bytes_of ''{speed: 2}x'' @ [0]" sample_parser FAN_SPEED_2 starting_snapshot, OF sample_put_runs] by blast

theorem fan_endpoint_needs_token_witness:
  "\<exists>r n'. fan_put_handler sample_env sample_parser sample_put sample_keyed = (r, n') \<and>
     rq_authorization sample_put = Some (bytes_of ''Bearer '' @ sample_token) \<and>
     c_str (bytes_of ''Bearer '' @ sample_token) = bytes_of ''Bearer '' @ c_str (nw_api_token sample_keyed)"
proof -
  obtain n' c where n': "fan_put_handler sample_env sample_parser sample_put sample_keyed = (ESP_OK, n')"
    "fs_mailbox (net_fan n') = Some c"
    using fan_put_runs [of sample_keyed sample_env sample_put "bytes_of ''Bearer '' @ sample_token"
      "bytes_of ''{speed: 2}x'' @ [0]" sample_parser FAN_SPEED_2 starting_snapshot, OF sample_put_runs] by blast
  then have "nw_worker n' \<noteq> nw_worker sample_keyed"
    using sample_fan_free(3) by (auto simp: net_fan_def)
  from fan_endpoint_needs_token [OF sample_keyed_facts(1) n'(1) this] n'(1) sample_header(1) show ?thesis by auto
qed

text \<open>The string that NVS holds after these calls: the last one set.\<close>

fun nvs_string :: "net_call list \<Rightarrow> u8 list option" where
  "nvs_string [] = None"
| "nvs_string (Nvs_Set_Str s # log) = Some s"
| "nvs_string (_ # log) = nvs_string log"

lemma save_token_ok:
  assumes "save_api_token env token n = (ESP_OK, n1)"
  shows "nvs_string (nw_log n1) = Some token" "nw_api_token n1 = strlcpy token (nw_api_token n)"
  using assms by (auto simp: save_api_token_def net_do_def split: if_splits prod.splits)

lemma load_token_ok:
  assumes "load_api_token env n = (ESP_OK, n1)" and "\<And>log. ne_stored_token env log = s"
    and "\<And>log c. ne_err env log c \<noteq> ESP_ERR_NVS_NOT_FOUND"
  shows "nw_api_token n1 = store_str (c_str s) (nw_api_token n)"
  using assms by (auto simp: load_api_token_def net_do_def Let_def split: if_splits)

lemma token_accepted:
  assumes "wf_net n" and "c_str (nw_api_token n) = token" and "token \<noteq> []" and "\<And>log. ne_err env log Req_Get_Hdr = ESP_OK"
    and "rq_authorization rq = Some h" and "length h < API_TOKEN_MAX_LENGTH + 8"
  shows "fst (request_is_authorized env rq n) \<longleftrightarrow> c_str h = bytes_of ''Bearer '' @ token"
  using authorized_iff [OF assms(1), of env rq] assms(2-6) by (simp add: bearer_def)

text \<open>C23. The token survives: what provisioning saves is what a restarted device loads, and before and
  after the restart exactly the requests with the header \<open>Bearer\<close> and that token are let in,
  for every token of the lengths that provisioning accepts.\<close>

theorem token_round_trip:
  assumes "0 \<notin> set token" and "API_TOKEN_MIN_LENGTH \<le> length token" and "length token \<le> API_TOKEN_MAX_LENGTH"
    and "wf_net n" and "save_api_token env token n = (ESP_OK, n1)"
    and "wf_net m" and "load_api_token env2 m = (ESP_OK, m1)"
    and "\<And>log s. nvs_string (nw_log n1) = Some s \<Longrightarrow> ne_stored_token env2 log = s @ [0]"
    and "\<And>log c. ne_err env2 log c \<noteq> ESP_ERR_NVS_NOT_FOUND" and "\<And>log. ne_err env3 log Req_Get_Hdr = ESP_OK"
    and "rq_authorization rq = Some h" and "length h < API_TOKEN_MAX_LENGTH + 8"
  shows "(fst (request_is_authorized env3 rq n1) \<longleftrightarrow> c_str h = bytes_of ''Bearer '' @ token) \<and>
    (fst (request_is_authorized env3 rq m1) \<longleftrightarrow> c_str h = bytes_of ''Bearer '' @ token)"
proof -
  have wf: "wf_net n1" "wf_net m1"
    using calm_save_token [of n env token] calm_load_token [of m env2] assms(4-7) by (auto simp: calm_def)
  have len: "length (nw_api_token n) = 65" "length (nw_api_token m) = 65" using assms(4,6) by (simp_all add: wf_net_def)
  have "token \<noteq> []" using assms(2) by auto
  note accepted = token_accepted [OF _ _ this, of _ env3 rq h]
  have "c_str (nw_api_token n1) = token"
    using save_token_ok(2) [OF assms(5)] len assms(1,3) by (simp add: c_str_strlcpy c_str_id)
  then have first: "fst (request_is_authorized env3 rq n1) \<longleftrightarrow> c_str h = bytes_of ''Bearer '' @ token"
    using accepted wf(1) assms(10-12) by blast
  have "ne_stored_token env2 log = token @ [0]" for log using assms(8) save_token_ok(1) [OF assms(5)] by blast
  then have "nw_api_token m1 = store_str (c_str (token @ [0])) (nw_api_token m)"
    using load_token_ok [OF assms(7)] assms(9) by blast
  then have "c_str (nw_api_token m1) = token"
    using len assms(1,3) by (simp add: c_str_append_nul store_str_fits)
  then show ?thesis using first accepted wf(2) assms(10-12) by blast
qed

theorem token_round_trip_witness:
  "\<exists>n1 m1. save_api_token sample_env sample_token sample_boot_net = (ESP_OK, n1) \<and>
     load_api_token sample_env sample_boot_net = (ESP_OK, m1) \<and>
     fst (request_is_authorized sample_env sample_put n1) \<and> fst (request_is_authorized sample_env sample_put m1)"
proof -
  have tok: "length sample_token = 16" "0 \<notin> set sample_token" by (simp_all add: sample_token_def bytes_of_def of_char_def)
  have wf: "wf_net sample_boot_net" by (simp add: sample_boot_net_def network_boot_def wf_net_def)
  obtain n1 where n1: "save_api_token sample_env sample_token sample_boot_net = (ESP_OK, n1)"
    by (simp add: save_api_token_def net_do_def sample_env_def)
  obtain m1 where m1: "load_api_token sample_env sample_boot_net = (ESP_OK, m1)"
    by (simp add: load_api_token_def net_do_def sample_env_def Let_def)
  have "ne_stored_token sample_env log = s @ [0]" if "nvs_string (nw_log n1) = Some s" for log s
    using that save_token_ok(1) [OF n1] by (simp add: sample_env_def)
  then show ?thesis
    using token_round_trip [OF tok(2) _ _ wf n1 wf m1, of sample_env sample_put "bytes_of ''Bearer '' @ sample_token"]
      tok n1 m1 sample_answers(1) sample_header sample_keyed_facts(2)
    by auto
qed

text \<open>What the events and the reconnects of a service round leave alone.\<close>

definition window_same :: "'f network \<Rightarrow> 'f network \<Rightarrow> bool" where
  "window_same n n' \<longleftrightarrow> nw_maintenance_active n' = nw_maintenance_active n \<and>
     nw_maintenance_started n' = nw_maintenance_started n \<and> nw_maintenance_keep_ap n' = nw_maintenance_keep_ap n \<and>
     nw_api_token n' = nw_api_token n"

lemma window_same_refl [simp]: "window_same n n"
  by (simp add: window_same_def)

lemma window_same_trans: "window_same a b \<Longrightarrow> window_same b c \<Longrightarrow> window_same a c"
  by (simp add: window_same_def)

lemma window_led [simp]: "window_same n (update_network_led env m) \<longleftrightarrow> window_same n m"
  by (simp add: window_same_def update_network_led_def set_network_status_def)

lemma window_just [simp]: "window_same n (net_just env c m) \<longleftrightarrow> window_same n m"
  by (simp add: window_same_def net_just_def net_do_def)

lemma window_health [simp]: "window_same n (on_health f m) \<longleftrightarrow> window_same n m"
  by (simp add: window_same_def on_health_def)

lemma window_disable [simp]: "window_same n (provisioning_disable env n)"
  by (simp add: provisioning_disable_def Let_def) (simp add: window_same_def)

lemma window_event [simp]: "window_same n (handle_event env t e n)"
proof (cases e)
  case (MANAGER_EVENT_GOT_IP a)
  let ?b = "on_health (service_health_set SERVICE_NETWORK SERVICE_STATE_READY ESP_OK) (n\<lparr>nw_connected := True, nw_retry_count := 0\<rparr>)"
  have "window_same n ?b" by simp (simp add: window_same_def)
  then have "window_same n (provisioning_disable env ?b)" by (rule window_same_trans) simp
  then show ?thesis by (simp add: MANAGER_EVENT_GOT_IP station_got_ip_def Let_def)
qed (simp_all add: station_lost_def Let_def window_same_def update_network_led_def set_network_status_def
    net_just_def net_do_def on_health_def)

lemma window_drain [simp]: "window_same n (drain_events env t es n)"
proof (induction es arbitrary: n)
  case (Cons e es)
  let ?a = "n\<lparr>nw_manager_queue := Some es\<rparr>"
  have "window_same n ?a" by (simp add: window_same_def)
  then have "window_same n (handle_event env t e ?a)" by (rule window_same_trans) simp
  then have "window_same n (drain_events env t es (handle_event env t e ?a))" using Cons by (rule window_same_trans)
  then show ?case by simp
qed simp

lemma window_reconnect [simp]: "window_same n (service_reconnect env now n)"
  by (simp add: service_reconnect_def Let_def) (simp add: window_same_def)

lemma window_ticks: "pdMS_TO_TICKS OTA_MAINTENANCE_WINDOW_MS = 60000"
  by (simp add: pdMS_TO_TICKS_at_def)

lemma service_window:
  obtains m where "window_same n m"
    "network_service env t now n =
       (if \<not> nw_maintenance_active m \<or> network_ota_is_busy m then m
        else if 60000 \<le> now - nw_maintenance_started m then maintenance_close env False m else m)"
proof -
  let ?a = "case nw_manager_queue n of Some es \<Rightarrow> drain_events env t es n | None \<Rightarrow> n"
  have "window_same n ?a" by (simp split: option.split)
  then have "window_same n (service_reconnect env now ?a)" by (rule window_same_trans) simp
  then show thesis using that by (simp add: network_service_def Let_def window_ticks)
qed

lemma close_effect:
  assumes "nw_maintenance_active n"
  shows "\<not> nw_maintenance_active (maintenance_close env False n)"
    "\<not> nw_provisioning_forced (maintenance_close env False n)"
    "\<not> nw_maintenance_keep_ap (maintenance_close env False n)"
    "\<not> nw_maintenance_keep_ap n \<Longrightarrow> nw_api_token n ! 0 \<noteq> 0 \<Longrightarrow> \<not> nw_provisioning (maintenance_close env False n) \<and>
       (nw_provisioning n \<longrightarrow> \<not> nw_dns_server (maintenance_close env False n) \<and>
          Wifi_Set_Mode WIFI_MODE_STA \<in> set (nw_log (maintenance_close env False n)))"
  using assms
  by (simp_all add: maintenance_close_def provisioning_disable_def Let_def net_just_def net_do_def
      update_network_led_def set_network_status_def)

text \<open>C24. A maintenance window does not stay open: after a service round with no update under way it
  has been open for less than ten minutes, across the tick wrap, and a round that closes it ends
  the forced access point; a token being set, an access point that was not open before the
  gesture is gone, with its DNS server.\<close>

theorem maintenance_window_closes:
  "(nw_maintenance_active (network_service env t now n) \<and> \<not> network_ota_is_busy (network_service env t now n) \<longrightarrow>
      now - nw_maintenance_started n < pdMS_TO_TICKS OTA_MAINTENANCE_WINDOW_MS) \<and>
   (nw_maintenance_active n \<and> \<not> nw_maintenance_active (network_service env t now n) \<longrightarrow>
      pdMS_TO_TICKS OTA_MAINTENANCE_WINDOW_MS \<le> now - nw_maintenance_started n \<and>
      \<not> nw_provisioning_forced (network_service env t now n) \<and>
      (\<not> nw_maintenance_keep_ap n \<and> nw_api_token n ! 0 \<noteq> 0 \<longrightarrow> \<not> nw_provisioning (network_service env t now n)))"
proof -
  obtain m where same: "window_same n m" and run: "network_service env t now n =
       (if \<not> nw_maintenance_active m \<or> network_ota_is_busy m then m
        else if 60000 \<le> now - nw_maintenance_started m then maintenance_close env False m else m)"
    by (rule service_window)
  show ?thesis
    unfolding run using same close_effect [of m env] by (auto simp: window_same_def not_le window_ticks)
qed

theorem maintenance_window_closes_witness:
  "\<not> nw_maintenance_active (network_service sample_env 61000 61000
     (sample_keyed\<lparr>nw_maintenance_active := True, nw_maintenance_started := 1000\<rparr>))"
proof -
  let ?n = "sample_keyed\<lparr>nw_maintenance_active := True, nw_maintenance_started := 1000\<rparr>"
  have "\<not> network_ota_is_busy (network_service sample_env 61000 61000 ?n)"
    by (simp add: network_service_def service_reconnect_def maintenance_close_def provisioning_disable_def
        sample_keyed_def sample_boot_net_def network_boot_def network_ota_is_busy_def ota_worker_is_busy_def window_ticks Let_def)
  then show ?thesis using maintenance_window_closes [of sample_env 61000 61000 ?n] by (auto simp: window_ticks)
qed

lemma launch_keeps:
  "nw_provisioning (start_captive_dns env n) = nw_provisioning n"
  "nw_provisioning_forced (start_captive_dns env n) = nw_provisioning_forced n"
  "nw_maintenance_keep_ap (start_captive_dns env n) = nw_maintenance_keep_ap n"
  by (simp_all add: start_captive_dns_def configure_captive_portal_dhcp_def launch_dns_def net_do_def net_just_def
      on_health_def Let_def split_beta)

text \<open>Calls that leave the mode and the access point of the radio alone.\<close>

definition radio_same :: "'f network \<Rightarrow> 'f network \<Rightarrow> bool" where
  "radio_same n n' \<longleftrightarrow> (\<exists>new. nw_log n' = new @ nw_log n \<and>
     (\<forall>mode. Wifi_Set_Mode mode \<notin> set new) \<and> (\<forall>config. Wifi_Set_Ap_Config config \<notin> set new))"

lemma radio_same_log [simp]: "nw_log n' = nw_log n \<Longrightarrow> radio_same n n'"
  by (simp add: radio_same_def)

lemma radio_captive_dns: "radio_same n (start_captive_dns env n)"
  by (simp add: start_captive_dns_def configure_captive_portal_dhcp_def launch_dns_def net_do_def net_just_def
      on_health_def radio_same_def Let_def split_beta)

lemma open_ap_effect:
  assumes "open_setup_ap env True n = (ESP_OK, k)" and "nw_wifi_started n"
  shows "nw_provisioning k" "nw_provisioning_forced k" "nw_maintenance_keep_ap k = nw_maintenance_keep_ap n"
    "nw_dns_server k" "radio_same n k"
  using assms radio_captive_dns [of "n\<lparr>nw_provisioning := True, nw_provisioning_forced := True\<rparr>" env]
  by (auto simp: open_setup_ap_def launch_keeps radio_same_def Let_def split: if_splits)

text \<open>The configuration of the setup access point: open, named after the last three bytes of the MAC address.\<close>

definition is_setup_ap :: "u8 list \<Rightarrow> ap_config \<Rightarrow> bool" where
  "is_setup_ap mac config \<longleftrightarrow>
     c_str (ap_ssid config) = bytes_of (''HPA300-'' @ concat (map (\<lambda>i. hex2 True (mac ! i)) [3, 4, 5])) \<and>
     ap_ssid_len config = 13 \<and> ap_authmode config = WIFI_AUTH_OPEN \<and> \<not> ap_pmf_required config"

lemma hex_digit_not_nul:
  assumes "d < 16" shows "of_char (hex_digit upper d) \<noteq> (0 :: u8)"
proof -
  have "list_all (\<lambda>d. of_char (hex_digit True d) \<noteq> (0 :: u8) \<and> of_char (hex_digit False d) \<noteq> (0 :: u8)) [0..<16]"
    by code_simp
  then show ?thesis using assms by (cases upper) (simp_all add: list_all_iff)
qed

lemma configure_ap_sets:
  obtains config where "is_setup_ap (ne_mac env) config"
    "configure_ap env = net_do env (Wifi_Set_Ap_Config config)"
proof -
  let ?name = "bytes_of (''HPA300-'' @ concat (map (\<lambda>i. hex2 True (ne_mac env ! i)) [3, 4, 5]))"
  have "0 \<notin> set (bytes_of (hex2 True x))" for x :: u8
    using hex_digit_not_nul [of "unat x div 16" True] hex_digit_not_nul [of "unat x mod 16" True] unsigned_less [of x, where ?'a = nat]
    by (auto simp: hex2_def bytes_of_def)
  then have nul: "0 \<notin> set ?name" by (simp add: bytes_of_def of_char_def)
  have len: "length ?name = 13" by (simp add: bytes_of_def hex2_def)
  show thesis
    by (rule that [rotated], unfold configure_ap_def Let_def, rule refl)
      (use nul len in \<open>simp add: is_setup_ap_def make_setup_ssid_def Let_def store_str_fits c_str_strlcpy c_str_id\<close>)
qed

text \<open>What forcing the access point does, whether it is up already or not.\<close>

lemma enable_opens_ap:
  assumes "provisioning_enable env True n = (ESP_OK, k)" and "\<not> nw_provisioning n" and "nw_wifi_started n"
  obtains config new where "is_setup_ap (ne_mac env) config"
    "nw_log k = new @ [Wifi_Set_Ap_Config config, Wifi_Set_Mode WIFI_MODE_APSTA] @ nw_log n"
    "\<forall>mode. Wifi_Set_Mode mode \<notin> set new" "\<forall>config. Wifi_Set_Ap_Config config \<notin> set new"
    "ne_err env (nw_log n) (Wifi_Set_Mode WIFI_MODE_APSTA) = ESP_OK"
    "ne_err env (Wifi_Set_Mode WIFI_MODE_APSTA # nw_log n) (Wifi_Set_Ap_Config config) = ESP_OK"
    "nw_provisioning k" "nw_provisioning_forced k" "nw_maintenance_keep_ap k = nw_maintenance_keep_ap n" "nw_dns_server k"
proof -
  obtain config where c: "is_setup_ap (ne_mac env) config" "configure_ap env = net_do env (Wifi_Set_Ap_Config config)"
    by (rule configure_ap_sets)
  let ?n = "n\<lparr>nw_log := [Wifi_Set_Ap_Config config, Wifi_Set_Mode WIFI_MODE_APSTA] @ nw_log n\<rparr>"
  obtain err m where m: "open_setup_ap env True ?n = (err, m)" by (cases "open_setup_ap env True ?n")
  have ok: "ne_err env (nw_log n) (Wifi_Set_Mode WIFI_MODE_APSTA) = ESP_OK"
    "ne_err env (Wifi_Set_Mode WIFI_MODE_APSTA # nw_log n) (Wifi_Set_Ap_Config config) = ESP_OK"
    "err = ESP_OK" "k = update_network_led env m"
    using assms(1,2) m by (auto simp: provisioning_enable_def c(2) net_do_def split: if_splits)
  have "nw_wifi_started ?n" using assms(3) by simp
  note ap = open_ap_effect [OF m [unfolded ok(3)] this]
  obtain new where "nw_log m = new @ nw_log ?n" "\<forall>mode. Wifi_Set_Mode mode \<notin> set new"
    "\<forall>config. Wifi_Set_Ap_Config config \<notin> set new"
    using ap(5) by (auto simp: radio_same_def)
  then show thesis
    using that [of config new] c(1) ok ap(1-4) by (simp add: update_network_led_def set_network_status_def)
qed

lemma enable_again:
  assumes "provisioning_enable env True n = (err, k)" and "nw_provisioning n"
  shows "nw_provisioning k" "nw_provisioning_forced k" "nw_maintenance_keep_ap k = nw_maintenance_keep_ap n"
    "nw_log k = nw_log n"
  using assms by (auto simp: provisioning_enable_def update_network_led_def set_network_status_def)

text \<open>C25. The gesture opens the window: when it succeeds the access point is forced, the window
  runs from now, and a window that was closed will close again to the access point's state of
  before (kept without credentials or token, or when it was already open). An access point that was not open
  has been opened by the radio: the mode was set to access point and station, then the open network
  \<open>HPA300-...\<close> was configured, both calls succeeded, no later call of the gesture changed either, and the
  captive DNS server runs. When the access point was open already the radio is left as it is.\<close>

theorem gesture_opens_window:
  assumes "network_start_provisioning env now n = (ESP_OK, n')"
  shows "nw_maintenance_active n' \<and> nw_maintenance_started n' = now \<and> nw_provisioning n' \<and> nw_provisioning_forced n' \<and>
    (nw_maintenance_keep_ap n' \<longleftrightarrow>
       (if nw_maintenance_active n then nw_maintenance_keep_ap n
        else \<not> nw_has_wifi_credentials n \<or> nw_api_token n ! 0 = 0 \<or> nw_provisioning n \<and> \<not> nw_provisioning_forced n)) \<and>
    (if nw_provisioning n then nw_log n' = nw_log n
     else nw_dns_server n' \<and> (\<exists>config new. is_setup_ap (ne_mac env) config \<and>
       nw_log n' = new @ [Wifi_Set_Ap_Config config, Wifi_Set_Mode WIFI_MODE_APSTA] @ nw_log n \<and>
       (\<forall>mode. Wifi_Set_Mode mode \<notin> set new) \<and> (\<forall>other. Wifi_Set_Ap_Config other \<notin> set new) \<and>
       ne_err env (nw_log n) (Wifi_Set_Mode WIFI_MODE_APSTA) = ESP_OK \<and>
       ne_err env (Wifi_Set_Mode WIFI_MODE_APSTA # nw_log n) (Wifi_Set_Ap_Config config) = ESP_OK))"
proof -
  define m where "m = (if nw_maintenance_active n then n
    else n\<lparr>nw_maintenance_keep_ap := \<not> nw_has_wifi_credentials n \<or> nw_api_token n ! 0 = 0 \<or>
      nw_provisioning n \<and> \<not> nw_provisioning_forced n\<rparr>)"
  have m: "nw_provisioning m = nw_provisioning n" "nw_maintenance_keep_ap m = (if nw_maintenance_active n then nw_maintenance_keep_ap n
        else \<not> nw_has_wifi_credentials n \<or> nw_api_token n ! 0 = 0 \<or> nw_provisioning n \<and> \<not> nw_provisioning_forced n)"
    "nw_log m = nw_log n" "nw_wifi_started m = nw_wifi_started n"
    by (simp_all add: m_def)
  obtain err k where k: "provisioning_enable env True m = (err, k)" by (cases "provisioning_enable env True m")
  have n': "err = ESP_OK" "n' = k\<lparr>nw_maintenance_active := True, nw_maintenance_started := now\<rparr>" "nw_wifi_started n"
    using assms k by (auto simp: network_start_provisioning_def Let_def m_def split: if_splits)
  show ?thesis
  proof (cases "nw_provisioning n")
    case True
    then show ?thesis using enable_again [OF k] m n'(2) by simp
  next
    case False
    then have "\<not> nw_provisioning m" "nw_wifi_started m" using m n'(3) by simp_all
    then obtain config new where ap: "is_setup_ap (ne_mac env) config"
      "nw_log k = new @ [Wifi_Set_Ap_Config config, Wifi_Set_Mode WIFI_MODE_APSTA] @ nw_log m"
      "\<forall>mode. Wifi_Set_Mode mode \<notin> set new" "\<forall>config. Wifi_Set_Ap_Config config \<notin> set new"
      "ne_err env (nw_log m) (Wifi_Set_Mode WIFI_MODE_APSTA) = ESP_OK"
      "ne_err env (Wifi_Set_Mode WIFI_MODE_APSTA # nw_log m) (Wifi_Set_Ap_Config config) = ESP_OK"
      and flags: "nw_provisioning k" "nw_provisioning_forced k" "nw_maintenance_keep_ap k = nw_maintenance_keep_ap m"
        "nw_dns_server k"
      by (rule enable_opens_ap [OF k [unfolded n'(1)]])
    have "\<exists>config new. is_setup_ap (ne_mac env) config \<and>
       nw_log n' = new @ [Wifi_Set_Ap_Config config, Wifi_Set_Mode WIFI_MODE_APSTA] @ nw_log n \<and>
       (\<forall>mode. Wifi_Set_Mode mode \<notin> set new) \<and> (\<forall>other. Wifi_Set_Ap_Config other \<notin> set new) \<and>
       ne_err env (nw_log n) (Wifi_Set_Mode WIFI_MODE_APSTA) = ESP_OK \<and>
       ne_err env (Wifi_Set_Mode WIFI_MODE_APSTA # nw_log n) (Wifi_Set_Ap_Config config) = ESP_OK"
      by (intro exI [of _ config] exI [of _ new]) (use ap m(3) n'(2) in simp)
    then show ?thesis using False m(2) n'(2) flags by simp
  qed
qed

theorem gesture_opens_window_witness:
  "\<exists>n' config. network_start_provisioning (sample_env\<lparr>ne_dns_task := \<lambda>_. (\<lambda>s. s\<lparr>ds_started := True\<rparr>, id)\<rparr>) 1000
      (sample_keyed\<lparr>nw_wifi_started := True\<rparr>) = (ESP_OK, n') \<and>
    nw_maintenance_active n' \<and> nw_maintenance_started n' = 1000 \<and> nw_maintenance_keep_ap n' \<and>
    Wifi_Set_Ap_Config config \<in> set (nw_log n') \<and> ap_ssid_len config = 13"
proof -
  let ?n = "sample_keyed\<lparr>nw_wifi_started := True\<rparr>"
  let ?env = "sample_env\<lparr>ne_dns_task := \<lambda>_. (\<lambda>s. s\<lparr>ds_started := True\<rparr>, id)\<rparr>"
  have "fst (network_start_provisioning ?env 1000 ?n) = ESP_OK"
    by (simp add: network_start_provisioning_def provisioning_enable_def configure_ap_def open_setup_ap_def
        start_captive_dns_def configure_captive_portal_dhcp_def launch_dns_def dns_server_start_def net_do_def
        sample_keyed_def sample_boot_net_def network_boot_def sample_env_def Let_def)
  then obtain n' where n': "network_start_provisioning ?env 1000 ?n = (ESP_OK, n')"
    by (metis prod.collapse)
  have before: "\<not> nw_maintenance_active ?n" "\<not> nw_has_wifi_credentials ?n" "\<not> nw_provisioning ?n"
    by (simp_all add: sample_keyed_def sample_boot_net_def network_boot_def)
  note window = gesture_opens_window [OF n']
  then obtain config where "is_setup_ap (ne_mac ?env) config" "Wifi_Set_Ap_Config config \<in> set (nw_log n')"
    using before(3) by auto
  then show ?thesis using window n' before by (auto simp: is_setup_ap_def)
qed

section \<open>Provisioning\<close>

text \<open>Nothing is stored by a step, as far as the calls of it show.\<close>

definition stores_nothing :: "'f network \<Rightarrow> 'f network \<Rightarrow> bool" where
  "stores_nothing n n' \<longleftrightarrow> (\<exists>new. nw_log n' = new @ nw_log n \<and>
     (\<forall>s. Nvs_Set_Str s \<notin> set new) \<and> (\<forall>config. Wifi_Set_Sta_Config config \<notin> set new))"

lemma stores_nothing_refl [simp]: "nw_log n' = nw_log n \<Longrightarrow> stores_nothing n n'"
  by (simp add: stores_nothing_def)

lemma stores_nothing_trans: "stores_nothing a b \<Longrightarrow> stores_nothing b c \<Longrightarrow> stores_nothing a c"
  by (fastforce simp: stores_nothing_def)

lemma response_stores_nothing: "responds n n' \<Longrightarrow> stores_nothing n n'"
  by (fastforce simp: stores_nothing_def responds_def list_all_iff)

lemma answer_stores_nothing: "stores_nothing n (snd (answer_provisioned env n))"
proof -
  obtain json a where a: "create_json env [(''saved'', JBool True), (''restarting'', JBool True)] n = (json, a)" by fastforce
  have na: "stores_nothing n a" using response_stores_nothing [OF responds_create] a by (metis snd_conv)
  obtain e b where b: "send_json env json a = (e, b)" by fastforce
  have ab: "stores_nothing a b" using response_stores_nothing [OF responds_send_json] b by (metis snd_conv)
  have "stores_nothing b (snd (answer_provisioned env n))"
    by (simp add: answer_provisioned_def a b net_do_def stores_nothing_def end_fan_maintenance_def set_fan_def)
  with na ab show ?thesis by (blast intro: stores_nothing_trans)
qed

lemma settings_stored:
  assumes "store_settings env token config n = (err, n')"
  shows "\<exists>new. nw_log n' = new @ nw_log n \<and> (\<forall>s. Nvs_Set_Str s \<in> set new \<longrightarrow> s = token) \<and>
    (\<forall>c. Wifi_Set_Sta_Config c \<in> set new \<longrightarrow> c = config) \<and>
    (err = ESP_OK \<longrightarrow> Nvs_Set_Str token \<in> set new \<and> Nvs_Commit \<in> set new \<and> Wifi_Set_Sta_Config config \<in> set new)"
  using assms
  by (auto simp: store_settings_def save_api_token_def net_do_def split: if_splits prod.splits)

lemma station_config_holds:
  assumes "length ssid \<le> 32" and "0 \<notin> set ssid" and "0 \<notin> set password" and "length password \<le> 63"
  shows "c_str (sta_ssid (station_config ssid password) @ [0]) = ssid"
    "c_str (sta_password (station_config ssid password)) = password"
proof -
  have "sta_ssid (station_config ssid password) @ [0] = ssid @ replicate (Suc (32 - length ssid)) 0"
    using assms(1) by (simp add: station_config_def copy_bytes_def min_def replicate_append_same)
  then show "c_str (sta_ssid (station_config ssid password) @ [0]) = ssid" using c_str_append_nul [OF assms(2)] by simp
  show "c_str (sta_password (station_config ssid password)) = password"
    using assms(3,4) by (simp add: station_config_def c_str_strlcpy c_str_id)
qed

lemma provision_cases:
  assumes "provision_post_handler env parse rq n = Some (r, n')" and "\<not> stores_nothing n n'"
  obtains body ssid password token f err m where "nw_provisioning n" "receive_body rq 512 = (ESP_OK, Some body)"
    "provision_form (parse (c_str body)) = Some (ssid, password, token)"
    "form_lengths_ok (length ssid) (length password) (length token)"
    "fan_quiesce (ne_fan env (nw_log n)) (net_fan n) = Some (ESP_OK, f)"
    "store_settings env token (station_config ssid password) (set_fan f n) = (err, m)"
    "stores_nothing m n'"
proof -
  have err: "send_json_error env st msg m \<noteq> (r, n')" if "nw_log m = nw_log n" for st msg m
  proof
    assume e: "send_json_error env st msg m = (r, n')"
    have "stores_nothing m n'" using response_stores_nothing [OF responds_error [of m env st msg]] by (simp add: e)
    then show False using assms(2) that by (simp add: stores_nothing_def)
  qed
  obtain body where p: "nw_provisioning n" and body: "receive_body rq 512 = (ESP_OK, Some body)"
    using assms(1) err by (auto simp: provision_post_handler_def receive_body_def split: if_splits option.splits prod.splits)
  obtain ssid password token where form: "provision_form (parse (c_str body)) = Some (ssid, password, token)"
    using assms(1) err p by (auto simp: provision_post_handler_def body split: option.splits)
  have lengths: "form_lengths_ok (length ssid) (length password) (length token)"
    using assms(1) err p by (auto simp: provision_post_handler_def body form split: if_splits)
  obtain f where f: "fan_quiesce (ne_fan env (nw_log n)) (net_fan n) = Some (ESP_OK, f)"
    using assms(1) err p lengths
    by (auto simp: provision_post_handler_def body form Let_def set_fan_def split: if_splits option.splits prod.splits)
  obtain e m where m: "store_settings env token (station_config ssid password) (set_fan f n) = (e, m)" by fastforce
  have run: "(if e \<noteq> ESP_OK
      then send_json_error env ''500 Internal Server Error'' ''failed to save configuration'' (end_fan_maintenance env m)
      else answer_provisioned env (m\<lparr>nw_has_wifi_credentials := True\<rparr>)) = (r, n')"
    using assms(1) p lengths by (simp add: provision_post_handler_def body form f m split: if_splits)
  have "stores_nothing m n'"
  proof (cases "e = ESP_OK")
    case True
    have "stores_nothing (m\<lparr>nw_has_wifi_credentials := True\<rparr>) n'"
      using answer_stores_nothing [of "m\<lparr>nw_has_wifi_credentials := True\<rparr>" env] run True by simp
    then show ?thesis by (simp add: stores_nothing_def)
  next
    case False
    have "stores_nothing (end_fan_maintenance env m) n'"
      using response_stores_nothing [OF responds_error [of "end_fan_maintenance env m" env]] run False by (metis snd_conv)
    then show ?thesis by (simp add: stores_nothing_def end_fan_maintenance_def set_fan_def)
  qed
  then show thesis using that p body form lengths f m by blast
qed

text \<open>C26. Provisioning stores what was asked, when it may: if a provisioning request stores anything,
  the setup access point is open, the form's network name, password and token have legal
  lengths, the fan has been quiesced and its decoder is off; the only token stored is the form's,
  and the only station settings stored hold exactly its name and password.\<close>

theorem provisioning_stores_form:
  assumes "reachable valid_output drv (Sleeping, net_fan n)" and "real_fan env drv"
    and "provision_post_handler env parse rq n = Some (r, n')" and "\<not> stores_nothing n n'"
  shows "\<exists>body ssid password token f new. nw_provisioning n \<and> receive_body rq 512 = (ESP_OK, Some body) \<and>
    provision_form (parse (c_str body)) = Some (ssid, password, token) \<and>
    0 < length ssid \<and> length ssid \<le> 32 \<and> (password = [] \<or> 8 \<le> length password \<and> length password \<le> 63) \<and>
    API_TOKEN_MIN_LENGTH \<le> length token \<and> length token \<le> API_TOKEN_MAX_LENGTH \<and>
    fan_quiesce (ne_fan env (nw_log n)) (net_fan n) = Some (ESP_OK, f) \<and> fs_quiesced f \<and>
    driver_output p0 (fs_hw f) = None \<and> nw_log n' = new @ nw_log n \<and>
    (\<forall>s. Nvs_Set_Str s \<in> set new \<longrightarrow> s = token) \<and>
    (\<forall>c. Wifi_Set_Sta_Config c \<in> set new \<longrightarrow> c_str (sta_ssid c @ [0]) = ssid \<and> c_str (sta_password c) = password)"
proof -
  have good: "fan_good p0 (net_fan n)" using reachable_ok [OF assms(1), of p0, folded fan_good_def] by blast
  obtain inputs b e where fan: "ne_fan env (nw_log n) = fan_calls drv inputs b e" by (rule real_fanE [OF assms(2)])
  obtain body ssid password token f err m where run: "nw_provisioning n" "receive_body rq 512 = (ESP_OK, Some body)"
    "provision_form (parse (c_str body)) = Some (ssid, password, token)"
    "form_lengths_ok (length ssid) (length password) (length token)"
    "fan_quiesce (ne_fan env (nw_log n)) (net_fan n) = Some (ESP_OK, f)"
    "store_settings env token (station_config ssid password) (set_fan f n) = (err, m)"
    "stores_nothing m n'" by (rule provision_cases [OF assms(3,4)])
  obtain new where new: "nw_log m = new @ nw_log n" "\<forall>s. Nvs_Set_Str s \<in> set new \<longrightarrow> s = token"
    "\<forall>c. Wifi_Set_Sta_Config c \<in> set new \<longrightarrow> c = station_config ssid password"
    using settings_stored [OF run(6)] by (auto simp: set_fan_def)
  obtain later where "nw_log n' = later @ nw_log m" "\<forall>s. Nvs_Set_Str s \<notin> set later"
    "\<forall>c. Wifi_Set_Sta_Config c \<notin> set later"
    using run(7) by (auto simp: stores_nothing_def)
  then have log: "nw_log n' = (later @ new) @ nw_log n" "\<forall>s. Nvs_Set_Str s \<in> set (later @ new) \<longrightarrow> s = token"
    "\<forall>c. Wifi_Set_Sta_Config c \<in> set (later @ new) \<longrightarrow> c = station_config ssid password"
    using new by auto
  have nul: "0 \<notin> set ssid" "0 \<notin> set password"
    using run(3) by (auto simp: provision_form_def split: option.splits json_item.splits)
  have lengths: "0 < length ssid" "length ssid \<le> 32" "password = [] \<or> 8 \<le> length password \<and> length password \<le> 63"
    "API_TOKEN_MIN_LENGTH \<le> length token" "length token \<le> API_TOKEN_MAX_LENGTH"
    using run(4) by (auto simp: form_lengths_ok_def)
  have "length password \<le> 63" using lengths(3) by auto
  note stored = station_config_holds [OF lengths(2) nul this]
  have "fan_good p0 f" "fan_halted f"
    using ofan.quiesce_good [OF good] ofan.quiesce_halts [OF good] run(5) unfolding fan by blast+
  then have "fs_quiesced f" "driver_output p0 (fs_hw f) = None"
    by (auto simp: fan_halted_def fan_good_def sys_defs speed_output_def)
  then show ?thesis using run(1-3,5) lengths log stored by blast
qed

lemma sample_form_ok:
  "provision_form (sample_form text) = Some (bytes_of ''home'', bytes_of ''secret-word'', sample_token)"
  "form_lengths_ok (length (bytes_of ''home'')) (length (bytes_of ''secret-word'')) (length sample_token)"
proof -
  have nul: "0 \<notin> set (bytes_of ''home'')" "0 \<notin> set (bytes_of ''secret-word'')" "0 \<notin> set sample_token"
    by (simp_all add: sample_token_def bytes_of_def of_char_def)
  show "provision_form (sample_form text) = Some (bytes_of ''home'', bytes_of ''secret-word'', sample_token)"
    by (simp add: provision_form_def sample_form_def json_get_def nul c_str_append_nul)
      (simp add: bytes_of_def of_char_def)
qed (simp add: form_lengths_ok_def sample_token_def bytes_of_def)

theorem provisioning_stores_form_witness:
  "\<exists>r n' new. provision_post_handler sample_env sample_form (sample_put)
       (sample_keyed\<lparr>nw_provisioning := True\<rparr>) = Some (r, n') \<and>
     nw_log n' = new @ nw_log sample_keyed \<and> (\<exists>s. Nvs_Set_Str s \<in> set new \<and> length s \<le> API_TOKEN_MAX_LENGTH)"
proof -
  let ?n = "sample_keyed\<lparr>nw_provisioning := True\<rparr>"
  have fan: "net_fan ?n = sample_running all_calls_succeed" using sample_keyed_facts(3) by (simp add: net_fan_def)
  obtain f where f: "fan_quiesce (ne_fan sample_env (nw_log ?n)) (net_fan ?n) = Some (ESP_OK, f)"
    using sample_quiesces unfolding fan by (auto simp: sample_env_def)
  have body: "receive_body sample_put 512 = (ESP_OK, Some (bytes_of ''{speed: 2}x'' @ [0]))" by code_simp
  obtain err m where m: "store_settings sample_env sample_token (station_config (bytes_of ''home'') (bytes_of ''secret-word''))
      (set_fan f ?n) = (err, m)" by fastforce
  have "err = ESP_OK" using m by (simp add: store_settings_def save_api_token_def net_do_def sample_answers)
  then obtain new where new: "nw_log m = new @ nw_log sample_keyed" "Nvs_Set_Str sample_token \<in> set new"
    using settings_stored [OF m] by (auto simp: set_fan_def)
  obtain r n' where n': "answer_provisioned sample_env (m\<lparr>nw_has_wifi_credentials := True\<rparr>) = (r, n')" by fastforce
  have run: "provision_post_handler sample_env sample_form sample_put ?n = Some (r, n')"
    using f \<open>err = ESP_OK\<close> by (simp add: provision_post_handler_def body sample_form_ok m n' Let_def)
  have "stores_nothing m n'"
    using answer_stores_nothing [of "m\<lparr>nw_has_wifi_credentials := True\<rparr>" sample_env] n' by (simp add: stores_nothing_def)
  then obtain later where later: "nw_log n' = later @ nw_log m" by (auto simp: stores_nothing_def)
  have "\<not> stores_nothing ?n n'" using later new by (auto simp: stores_nothing_def)
  moreover have "reachable (\<lambda>g. 0 \<le> g) all_calls_succeed (Sleeping, net_fan ?n)" using sample_reachable fan by simp
  ultimately obtain token k where "nw_log n' = k @ nw_log ?n" "\<forall>s. Nvs_Set_Str s \<in> set k \<longrightarrow> s = token"
    "length token \<le> API_TOKEN_MAX_LENGTH"
    using provisioning_stores_form [OF _ sample_real_fan run, of _ undriven_pads] by blast
  then have "k = later @ new" "sample_token = token" using later new by auto
  then show ?thesis using run later new \<open>length token \<le> API_TOKEN_MAX_LENGTH\<close> by fastforce
qed

end
