(* ===== verification/TouchDriver.thy ===== *)
theory TouchDriver
  imports TouchGesture Board "HOL-Library.Sublist"
begin

text \<open>
  \<open>components/touch/touch.c\<close>: the driver between the touch sensor and the gesture filter. Its
  two interrupt callbacks queue edges; the main task drains the queue into the filter. What the
  sensor driver answers is a function of the calls made before (\<open>tc_log\<close>, newest first);
  interrupts are explicit, also those that arrive while a function runs.
\<close>

section \<open>State\<close>

abbreviation (input) NUM_KEYS :: nat where "NUM_KEYS \<equiv> 6"
abbreviation (input) INIT_SCAN_TIMES :: nat where "INIT_SCAN_TIMES \<equiv> 3"
abbreviation (input) KEY_EVENT_QUEUE_LENGTH :: nat where "KEY_EVENT_QUEUE_LENGTH \<equiv> 16"

definition s_channel_id :: "int list" where
  "s_channel_id = map uint touch_keys"

datatype filter_mode = TOUCH_BM_IIR_FILTER_16 | TOUCH_SMOOTH_IIR_FILTER_4

record touch_filter =
  tf_benchmark_mode :: filter_mode
  tf_denoise_lvl :: u32
  tf_smooth_filter :: filter_mode
  tf_active_hysteresis :: u32
  tf_debounce_cnt :: u32

datatype touch_call =
    New_Controller | New_Channel int | Config_Filter touch_filter | Enable | Trigger_Oneshot u32 | Disable
  | Read_Benchmark nat | Reconfig_Channel nat "u32 list" | Create_Queue | Register_Callbacks
  | Start_Scanning | Stop_Scanning | Delete_Queue | Del_Channel nat | Del_Controller

text \<open>The result codes, and for each channel the benchmark read: one value per sample configuration.\<close>

record touch_env =
  te_err :: "touch_call list \<Rightarrow> touch_call \<Rightarrow> esp_err"
  te_benchmark :: "touch_call list \<Rightarrow> nat \<Rightarrow> u32 list"

type_synonym touch_edge = "u8 \<times> bool"

record touch_state =
  tc_sensor :: bool
  tc_channels :: "bool list"
  tc_queue :: "touch_edge list option"
  tc_gesture :: touch_gesture
  tc_overflow :: bool
  tc_log :: "touch_call list"

type_synonym touch_op = "touch_state \<Rightarrow> esp_err \<times> touch_state"

definition touch_do :: "touch_env \<Rightarrow> touch_call \<Rightarrow> touch_op" where
  "touch_do env call s = (te_err env (tc_log s) call, s\<lparr>tc_log := call # tc_log s\<rparr>)"

definition touch_just :: "touch_call \<Rightarrow> touch_state \<Rightarrow> touch_state" where
  "touch_just call s = s\<lparr>tc_log := call # tc_log s\<rparr>"

text \<open>The filter's functions get the address of the static, so their argument is never null.\<close>

definition fresh_gesture :: touch_gesture where
  "fresh_gesture = the (touch_gesture_init (Some gesture_cleared))"

definition filter_edge :: "u32 \<Rightarrow> touch_edge \<Rightarrow> touch_gesture \<Rightarrow> touch_gesture" where
  "filter_edge now_ms edge g = the (touch_gesture_edge (Some g) (fst edge) (snd edge) now_ms)"

section \<open>Interrupts\<close>

definition channel_to_key :: "int \<Rightarrow> u8" where
  "channel_to_key channel =
     (case find (\<lambda>i. channel = s_channel_id ! i) [0..<NUM_KEYS] of Some i \<Rightarrow> of_nat i + 1 | None \<Rightarrow> 0)"

definition queue_edge :: "int \<times> bool \<Rightarrow> touch_state \<Rightarrow> touch_state" where
  "queue_edge event s =
     (case event of (channel, active) \<Rightarrow>
        let key = channel_to_key channel
        in case tc_queue s of
             None \<Rightarrow> s
           | Some q \<Rightarrow>
               if key = 0 then s
               else if length q < KEY_EVENT_QUEUE_LENGTH then s\<lparr>tc_queue := Some (q @ [(key, active)])\<rparr>
               else s\<lparr>tc_overflow := True\<rparr>)"

definition on_active :: "int \<Rightarrow> touch_state \<Rightarrow> touch_state" where
  "on_active chan_id = queue_edge (chan_id, True)"

definition on_inactive :: "int \<Rightarrow> touch_state \<Rightarrow> touch_state" where
  "on_inactive chan_id = queue_edge (chan_id, False)"

definition interrupt :: "int \<times> bool \<Rightarrow> touch_state \<Rightarrow> touch_state" where
  "interrupt event s = (if snd event then on_active (fst event) s else on_inactive (fst event) s)"

definition interrupts :: "(int \<times> bool) list \<Rightarrow> touch_state \<Rightarrow> touch_state" where
  "interrupts = fold interrupt"

section \<open>Thresholds\<close>

text \<open>
  Single-precision floats of nonnegative integers: rounding to 24 significant bits, to even. The
  ratio \<open>0.020f\<close> is 10737418 / 2 ^ 29.
\<close>

fun bit_len :: "nat \<Rightarrow> nat" where
  "bit_len n = (if n = 0 then 0 else Suc (bit_len (n div 2)))"

declare bit_len.simps [simp del]

definition round_even :: "nat \<Rightarrow> nat \<Rightarrow> nat" where
  "round_even n d = n div d + (if d < 2 * (n mod d) \<or> d = 2 * (n mod d) \<and> odd (n div d) then 1 else 0)"

definition float32 :: "nat \<Rightarrow> nat" where
  "float32 n = (let d = 2 ^ (bit_len n - 24) in round_even n d * d)"

abbreviation (input) THRESHOLD_RATIO :: nat where "THRESHOLD_RATIO \<equiv> 10737418"

definition active_threshold :: "u32 \<Rightarrow> u32" where
  "active_threshold benchmark = of_nat (float32 (float32 (unat benchmark) * THRESHOLD_RATIO) div 2 ^ 29)"

section \<open>Set-up\<close>

definition free_channel :: "nat \<Rightarrow> touch_state \<Rightarrow> touch_state" where
  "free_channel i s =
     (if tc_channels s ! i then (touch_just (Del_Channel i) s)\<lparr>tc_channels := (tc_channels s)[i := False]\<rparr> else s)"

definition cleanup_touch :: "touch_state \<Rightarrow> touch_state" where
  "cleanup_touch s =
     (let s = (if tc_sensor s then touch_just Disable (touch_just Stop_Scanning s) else s);
          s = (if tc_queue s \<noteq> None then (touch_just Delete_Queue s)\<lparr>tc_queue := None\<rparr> else s);
          s = s\<lparr>tc_gesture := fresh_gesture, tc_overflow := False\<rparr>;
          s = fold free_channel (rev [0..<NUM_KEYS]) s
      in if tc_sensor s then (touch_just Del_Controller s)\<lparr>tc_sensor := False\<rparr> else s)"

definition set_threshold :: "touch_env \<Rightarrow> nat \<Rightarrow> touch_op" where
  "set_threshold env i s =
     (let benchmark = te_benchmark env (tc_log s) i
      in return_on_errors
           [touch_do env (Read_Benchmark i),
            touch_do env (Reconfig_Channel i (map active_threshold benchmark))] s)"

definition do_initial_scanning :: "touch_env \<Rightarrow> touch_op" where
  "do_initial_scanning env =
     return_on_errors
       ([touch_do env Enable] @ replicate INIT_SCAN_TIMES (touch_do env (Trigger_Oneshot 5000)) @
        [touch_do env Disable] @ map (set_threshold env) [0..<NUM_KEYS])"

definition new_controller :: "touch_env \<Rightarrow> touch_op" where
  "new_controller env s =
     (case touch_do env New_Controller s of (err, s) \<Rightarrow>
        (err, if err = ESP_OK then s\<lparr>tc_sensor := True\<rparr> else s))"

definition new_channel :: "touch_env \<Rightarrow> nat \<Rightarrow> touch_op" where
  "new_channel env i s =
     (case touch_do env (New_Channel (s_channel_id ! i)) s of (err, s) \<Rightarrow>
        (err, if err = ESP_OK then s\<lparr>tc_channels := (tc_channels s)[i := True]\<rparr> else s))"

definition create_queue :: "touch_env \<Rightarrow> touch_op" where
  "create_queue env s =
     (case touch_do env Create_Queue s of (err, s) \<Rightarrow>
        if err = ESP_OK then (ESP_OK, s\<lparr>tc_queue := Some []\<rparr>) else (ESP_ERR_NO_MEM, s))"

definition touch_filter :: touch_filter where
  "touch_filter =
     \<lparr>tf_benchmark_mode = TOUCH_BM_IIR_FILTER_16, tf_denoise_lvl = 2,
      tf_smooth_filter = TOUCH_SMOOTH_IIR_FILTER_4, tf_active_hysteresis = 3, tf_debounce_cnt = 4\<rparr>"

definition touch_setup :: "touch_env \<Rightarrow> touch_op" where
  "touch_setup env =
     return_on_errors
       ([new_controller env] @ map (new_channel env) [0..<NUM_KEYS] @
        [touch_do env (Config_Filter touch_filter), do_initial_scanning env, create_queue env,
         touch_do env Register_Callbacks, touch_do env Enable, touch_do env Start_Scanning])"

text \<open>\<open>during\<close> are the interrupts between the start of the scanning and the end of the function.\<close>

definition touch_sens_init :: "touch_env \<Rightarrow> (int \<times> bool) list \<Rightarrow> touch_op" where
  "touch_sens_init env during s =
     (if tc_sensor s then (ESP_ERR_INVALID_STATE, s)
      else case touch_setup env s of (err, s) \<Rightarrow>
        if err \<noteq> ESP_OK then (err, cleanup_touch s)
        else (ESP_OK, (interrupts during s)\<lparr>tc_gesture := fresh_gesture, tc_overflow := False\<rparr>))"

section \<open>Reading a key\<close>

text \<open>
  A loop that receives until the queue is empty. \<open>moments\<close> are the interrupts before each of its
  receives, and those listed for later receives arrive after the last one; the loop ends, since
  they are finitely many and every receive takes an edge.
\<close>

lemma length_queue_edge:
  "length (case tc_queue (queue_edge e s) of Some q \<Rightarrow> q | None \<Rightarrow> []) \<le>
   Suc (length (case tc_queue s of Some q \<Rightarrow> q | None \<Rightarrow> []))"
  by (auto simp: queue_edge_def Let_def split: prod.split option.split)

definition queued :: "touch_state \<Rightarrow> touch_edge list" where
  "queued s = (case tc_queue s of Some q \<Rightarrow> q | None \<Rightarrow> [])"

lemma interrupt_eq: "interrupt e s = queue_edge e s"
  by (cases e) (auto simp: interrupt_def on_active_def on_inactive_def)

lemma length_interrupts: "length (queued (interrupts es s)) \<le> length es + length (queued s)"
proof (induction es arbitrary: s)
  case (Cons e es)
  have "length (queued (queue_edge e s)) \<le> Suc (length (queued s))"
    using length_queue_edge by (simp add: queued_def)
  then show ?case using Cons [of "interrupt e s"] by (simp add: interrupts_def interrupt_eq)
qed (simp add: interrupts_def)

function drain :: "(touch_edge \<Rightarrow> touch_gesture \<Rightarrow> touch_gesture) \<Rightarrow> (int \<times> bool) list list \<Rightarrow> touch_state \<Rightarrow> touch_state" where
  "drain f moments s =
     (let s = interrupts (case moments of [] \<Rightarrow> [] | es # _ \<Rightarrow> es) s
      in case tc_queue s of
           Some (edge # q) \<Rightarrow> drain f (tl moments) (s\<lparr>tc_queue := Some q, tc_gesture := f edge (tc_gesture s)\<rparr>)
         | _ \<Rightarrow> interrupts (concat (tl moments)) s)"
  by pat_completeness auto
termination
proof (relation "measure (\<lambda>(f, moments, s). length (concat moments) + length (queued s))", goal_cases)
  case (2 f moments s s' q edge rest)
  have "length (queued s') \<le> length (case moments of [] \<Rightarrow> [] | es # _ \<Rightarrow> es) + length (queued s)"
    unfolding 2(1) by (rule length_interrupts)
  moreover have "queued s' = edge # rest" using 2 by (simp add: queued_def)
  ultimately show ?case by (cases moments) (auto simp: queued_def)
qed simp

declare drain.simps [simp del]

definition touch_sens_get_key_num ::
    "tick \<Rightarrow> (int \<times> bool) list list \<Rightarrow> touch_state \<Rightarrow> u8 \<times> touch_state" where
  "touch_sens_get_key_num tick_count moments s =
     (if tc_queue s = None then (0, s)
      else
        let now_ms = tick_count * portTICK_PERIOD_MS
        in if tc_overflow s then
             let s = drain (\<lambda>_ g. g) moments (s\<lparr>tc_overflow := False\<rparr>)
             in (0, s\<lparr>tc_gesture := the (touch_gesture_discard_until_quiet (Some (tc_gesture s)) now_ms)\<rparr>)
           else
             let s = drain (filter_edge now_ms) moments s
             in case touch_gesture_poll (Some (tc_gesture s)) now_ms of
                  (key, g) \<Rightarrow> (key, s\<lparr>tc_gesture := the g\<rparr>))"

section \<open>Runs\<close>

datatype touch_move = Isr "int \<times> bool" | Get tick "(int \<times> bool) list list"

fun touch_moves :: "touch_move list \<Rightarrow> touch_state \<Rightarrow> u8 list \<times> touch_state" where
  "touch_moves [] s = ([], s)"
| "touch_moves (Isr event # ms) s = touch_moves ms (interrupt event s)"
| "touch_moves (Get t moments # ms) s =
     (case touch_sens_get_key_num t moments s of (key, s) \<Rightarrow>
        case touch_moves ms s of (keys, s) \<Rightarrow> (key # keys, s))"

text \<open>The edges of keys among the interrupts.\<close>

definition key_edges :: "(int \<times> bool) list \<Rightarrow> touch_edge list" where
  "key_edges events = filter (\<lambda>e. fst e \<noteq> 0) (map (\<lambda>(channel, active). (channel_to_key channel, active)) events)"

fun move_events :: "touch_move \<Rightarrow> (int \<times> bool) list" where
  "move_events (Isr event) = [event]"
| "move_events (Get t moments) = concat moments"

text \<open>The edges and the outputs of a run of the gesture filter.\<close>

fun edge_of :: "touch_event \<Rightarrow> touch_edge list" where
  "edge_of (Edge key active t) = [(key, active)]"
| "edge_of _ = []"

fun outputs :: "touch_event list \<Rightarrow> u8 list \<Rightarrow> u8 list" where
  "outputs (e # es) (k # ks) = (if edge_of e = [] then [k] else []) @ outputs es ks"
| "outputs _ _ = []"

abbreviation edges_in :: "touch_event list \<Rightarrow> touch_edge list" where
  "edges_in es \<equiv> concat (map edge_of es)"

text \<open>
  How the events of the filter belong to the calls of a run: each call hands the filter some edges
  that have occurred by then and polls it, both with the time of this very call, or it makes the filter
  discard. It may only discard after a possible loss. \<open>past\<close> are the interrupts so far, \<open>n\<close> counts
  the edges since the call before began, those that can be queued, and \<open>lossy\<close> says that since
  the call before began they were more than the queue holds.
\<close>

abbreviation ms_of :: "tick \<Rightarrow> u32" where
  "ms_of t \<equiv> t * portTICK_PERIOD_MS"

abbreviation edge_count :: "(int \<times> bool) list \<Rightarrow> nat" where
  "edge_count events \<equiv> length (key_edges events)"

definition edges_at :: "u32 \<Rightarrow> touch_edge list \<Rightarrow> touch_event list" where
  "edges_at t edges = map (\<lambda>e. Edge (fst e) (snd e) t) edges"

inductive stamped :: "(int \<times> bool) list \<Rightarrow> nat \<Rightarrow> bool \<Rightarrow> touch_move list \<Rightarrow> touch_event list \<Rightarrow> bool" where
  at_end: "stamped past n lossy [] []"
| isr: "stamped (past @ [e]) (n + edge_count [e]) (lossy \<or> KEY_EVENT_QUEUE_LENGTH < n + edge_count [e]) ms es \<Longrightarrow>
    stamped past n lossy (Isr e # ms) es"
| polled: "set edges \<subseteq> set (key_edges (past @ concat moments)) \<Longrightarrow>
    stamped (past @ concat moments) (edge_count (concat moments))
      (KEY_EVENT_QUEUE_LENGTH < n + edge_count (concat moments)) ms es \<Longrightarrow>
    stamped past n lossy (Get t moments # ms) (edges_at (ms_of t) edges @ Poll (ms_of t) # es)"
| discarded: "lossy \<Longrightarrow>
    stamped (past @ concat moments) (edge_count (concat moments))
      (KEY_EVENT_QUEUE_LENGTH < n + edge_count (concat moments)) ms es \<Longrightarrow>
    stamped past n lossy (Get t moments # ms) (Discard (ms_of t) # es)"

text \<open>A run in which never more than sixteen edges arrive from the beginning of one call to the end of
  the next.\<close>

fun uncrowded :: "nat \<Rightarrow> touch_move list \<Rightarrow> bool" where
  "uncrowded n [] \<longleftrightarrow> True"
| "uncrowded n (Isr e # ms) \<longleftrightarrow> n + edge_count [e] \<le> KEY_EVENT_QUEUE_LENGTH \<and> uncrowded (n + edge_count [e]) ms"
| "uncrowded n (Get t moments # ms) \<longleftrightarrow>
     n + edge_count (concat moments) \<le> KEY_EVENT_QUEUE_LENGTH \<and> uncrowded (edge_count (concat moments)) ms"

lemma key_edges_append [simp]: "key_edges (a @ b) = key_edges a @ key_edges b"
  by (simp add: key_edges_def)

lemma key_edges_Nil [simp]: "key_edges [] = []"
  by (simp add: key_edges_def)

section \<open>The queue\<close>

text \<open>What some interrupts do to a queue: nothing is invented or reordered, and an edge is only lost
  with the overflow flag set.\<close>

definition fed :: "(int \<times> bool) list \<Rightarrow> touch_state \<Rightarrow> touch_state \<Rightarrow> bool" where
  "fed events s s' \<longleftrightarrow> (\<exists>q r. tc_queue s = Some q \<and> tc_queue s' = Some (q @ r) \<and>
     subseq r (key_edges events) \<and> (length q \<le> 16 \<longrightarrow> length (q @ r) \<le> 16) \<and>
     tc_gesture s' = tc_gesture s \<and> (tc_overflow s \<longrightarrow> tc_overflow s') \<and>
     (\<not> tc_overflow s' \<longrightarrow> r = key_edges events))"

lemma fedI:
  assumes "tc_queue s = Some q" and "tc_queue s' = Some (q @ r)" and "subseq r (key_edges events)"
    and "length q \<le> 16 \<Longrightarrow> length (q @ r) \<le> 16" and "tc_gesture s' = tc_gesture s"
    and "tc_overflow s \<Longrightarrow> tc_overflow s'" and "\<not> tc_overflow s' \<Longrightarrow> r = key_edges events"
  shows "fed events s s'"
  unfolding fed_def using assms by blast

lemma fedE:
  assumes "fed events s s'" and "tc_queue s = Some q"
  obtains r where "tc_queue s' = Some (q @ r)" "subseq r (key_edges events)"
    "length q \<le> 16 \<Longrightarrow> length (q @ r) \<le> 16" "tc_gesture s' = tc_gesture s" "tc_overflow s \<Longrightarrow> tc_overflow s'"
    "\<not> tc_overflow s' \<Longrightarrow> r = key_edges events"
  using assms unfolding fed_def by (metis option.inject)

lemma interrupt_fed: "tc_queue s = Some q \<Longrightarrow> fed [e] s (interrupt e s)"
  by (cases e) (auto simp: fed_def interrupt_eq queue_edge_def key_edges_def Let_def)

lemma fed_trans:
  assumes "fed a s1 s2" and "fed b s2 s3" shows "fed (a @ b) s1 s3"
proof -
  obtain q where q: "tc_queue s1 = Some q" using assms(1) by (auto simp: fed_def)
  obtain r where r: "tc_queue s2 = Some (q @ r)" "subseq r (key_edges a)"
    "length q \<le> 16 \<Longrightarrow> length (q @ r) \<le> 16" "tc_gesture s2 = tc_gesture s1" "tc_overflow s1 \<Longrightarrow> tc_overflow s2"
    "\<not> tc_overflow s2 \<Longrightarrow> r = key_edges a"
    using fedE [OF assms(1) q] by metis
  obtain x where x: "tc_queue s3 = Some ((q @ r) @ x)" "subseq x (key_edges b)"
    "length (q @ r) \<le> 16 \<Longrightarrow> length ((q @ r) @ x) \<le> 16" "tc_gesture s3 = tc_gesture s2" "tc_overflow s2 \<Longrightarrow> tc_overflow s3"
    "\<not> tc_overflow s3 \<Longrightarrow> x = key_edges b"
    using fedE [OF assms(2) r(1)] by metis
  show ?thesis
  proof (rule fedI [OF q])
    show "tc_queue s3 = Some (q @ r @ x)" using x(1) by simp
    show "subseq (r @ x) (key_edges (a @ b))" using r(2) x(2) by (simp add: list_emb_append_mono)
    show "length (q @ r @ x) \<le> 16" if "length q \<le> 16" using x(3) [OF r(3) [OF that]] by simp
    show "r @ x = key_edges (a @ b)" if "\<not> tc_overflow s3" using r(6) x(5,6) that by auto
  qed (use r(4,5) x(4,5) in simp_all)
qed

lemma interrupts_fed: "tc_queue s = Some q \<Longrightarrow> fed es s (interrupts es s)"
proof (induction es arbitrary: s q)
  case (Cons e es)
  obtain q2 where "tc_queue (interrupt e s) = Some q2" using interrupt_fed [OF Cons.prems, of e] by (auto simp: fed_def)
  from fed_trans [OF interrupt_fed [OF Cons.prems, of e] Cons.IH [OF this]] show ?case by (simp add: interrupts_def)
qed (simp add: interrupts_def fed_def)

text \<open>A drain hands a prefix of what is queued and what arrives to its function.\<close>

lemma drain_feeds:
  assumes "tc_queue s = Some q"
  shows "\<exists>edges r. tc_queue (drain f moments s) = Some r \<and>
    tc_gesture (drain f moments s) = fold f edges (tc_gesture s) \<and>
    subseq (edges @ r) (q @ key_edges (concat moments)) \<and> prefix q (edges @ r) \<and>
    (length q \<le> 16 \<longrightarrow> length r \<le> 16) \<and> (tc_overflow s \<longrightarrow> tc_overflow (drain f moments s)) \<and>
    (\<not> tc_overflow (drain f moments s) \<longrightarrow> edges @ r = q @ key_edges (concat moments))"
  using assms
proof (induction f moments s arbitrary: q rule: drain.induct)
  case (1 f moments s)
  let ?now = "case moments of [] \<Rightarrow> [] | es # _ \<Rightarrow> es"
  let ?s = "interrupts ?now s"
  have all: "concat moments = ?now @ concat (tl moments)" by (cases moments) simp_all
  obtain r where r: "tc_queue ?s = Some (q @ r)" "subseq r (key_edges ?now)" "length q \<le> 16 \<Longrightarrow> length (q @ r) \<le> 16"
    "tc_gesture ?s = tc_gesture s" "tc_overflow s \<Longrightarrow> tc_overflow ?s" "\<not> tc_overflow ?s \<Longrightarrow> r = key_edges ?now"
    by (rule fedE [OF interrupts_fed [OF 1(2), of ?now] 1(2)]) blast
  show ?case
  proof (cases "q @ r")
    case Nil
    then have end': "drain f moments s = interrupts (concat (tl moments)) ?s"
      using r(1) by (simp add: drain.simps [of f moments s] Let_def)
    obtain x where x: "tc_queue (interrupts (concat (tl moments)) ?s) = Some x" "subseq x (key_edges (concat (tl moments)))"
      "length x \<le> 16" "tc_gesture (interrupts (concat (tl moments)) ?s) = tc_gesture ?s"
      "tc_overflow ?s \<Longrightarrow> tc_overflow (interrupts (concat (tl moments)) ?s)"
      "\<not> tc_overflow (interrupts (concat (tl moments)) ?s) \<Longrightarrow> x = key_edges (concat (tl moments))"
      using fedE [OF interrupts_fed [OF r(1), of "concat (tl moments)"] r(1)] Nil
      by (metis append_Nil list.size(3) zero_le)
    have "subseq x (key_edges (concat moments))" unfolding all using x(2) by (simp add: list_emb_append2)
    moreover have "x = key_edges (concat moments)" if "\<not> tc_overflow (interrupts (concat (tl moments)) ?s)"
    proof -
      have "r = key_edges ?now" using r(6) x(5) that by blast
      then show ?thesis using x(6) [OF that] Nil by (simp add: all)
    qed
    ultimately show ?thesis
      unfolding end' using x r(4,5) Nil by (intro exI [of _ "[]"] exI [of _ x]) simp
  next
    case (Cons edge rest)
    let ?t = "?s\<lparr>tc_queue := Some rest, tc_gesture := f edge (tc_gesture ?s)\<rparr>"
    have run: "drain f moments s = drain f (tl moments) ?t"
      using r(1) Cons by (simp add: drain.simps [of f moments s] Let_def)
    have head: "tc_queue ?s = Some (edge # rest)" using r(1) Cons by simp
    note ih = 1(1) [OF refl head refl]
    have "tc_queue ?t = Some rest" by simp
    from ih [OF this] obtain edges x where x: "tc_queue (drain f (tl moments) ?t) = Some x"
      "tc_gesture (drain f (tl moments) ?t) = fold f edges (tc_gesture ?t)"
      "subseq (edges @ x) (rest @ key_edges (concat (tl moments)))" "length rest \<le> 16 \<longrightarrow> length x \<le> 16"
      "prefix rest (edges @ x)"
      "tc_overflow ?t \<longrightarrow> tc_overflow (drain f (tl moments) ?t)"
      "\<not> tc_overflow (drain f (tl moments) ?t) \<longrightarrow> edges @ x = rest @ key_edges (concat (tl moments))"
      by auto
    have "prefix (q @ r) ((edge # edges) @ x)" using x(5) Cons by simp
    then have front: "prefix q ((edge # edges) @ x)" by (rule append_prefixD)
    have "subseq ((edge # edges) @ x) ((q @ r) @ key_edges (concat (tl moments)))" using x(3) Cons by simp
    moreover have "subseq ((q @ r) @ key_edges (concat (tl moments))) (q @ key_edges (concat moments))"
      using r(2) by (simp add: all list_emb_append_mono)
    ultimately have "subseq ((edge # edges) @ x) (q @ key_edges (concat moments))" by (rule subseq_order.trans)
    moreover have "(edge # edges) @ x = q @ key_edges (concat moments)" if "\<not> tc_overflow (drain f (tl moments) ?t)"
    proof -
      have "r = key_edges ?now" using r(6) x(6) that by auto
      moreover have "edge # rest @ key_edges (concat (tl moments)) = (q @ r) @ key_edges (concat (tl moments))" using Cons by simp
      ultimately show ?thesis using x(7) that by (simp add: all)
    qed
    moreover have "length q \<le> 16 \<longrightarrow> length x \<le> 16" using r(3) x(4) Cons by auto
    ultimately show ?thesis
      unfolding run using x(1,2,6) r(4,5) front by (intro exI [of _ "edge # edges"] exI [of _ x]) simp
  qed
qed

text \<open>An edge is only lost when the queue and what arrives exceed the sixteen places; after a drain only
  what arrived during it can be queued.\<close>

lemma interrupts_room:
  assumes "tc_queue s = Some q" and "tc_overflow (interrupts es s)"
  shows "tc_overflow s \<or> 16 < length q + length (key_edges es)"
  using assms
proof (induction es arbitrary: s q)
  case (Cons e es)
  have run: "tc_overflow (interrupts es (interrupt e s))" using Cons.prems(2) by (simp add: interrupts_def)
  have len: "length (key_edges (e # es)) = length (key_edges [e]) + length (key_edges es)"
    using key_edges_append [of "[e]" es] by simp
  have "\<exists>q2. tc_queue (interrupt e s) = Some q2 \<and> length q2 \<le> length q + length (key_edges [e]) \<and>
    (tc_overflow (interrupt e s) \<longrightarrow> tc_overflow s \<or> 16 < length q + length (key_edges [e]))"
    using Cons.prems(1) by (cases e) (simp add: interrupt_eq queue_edge_def key_edges_def Let_def)
  then obtain q2 where q2: "tc_queue (interrupt e s) = Some q2" "length q2 \<le> length q + length (key_edges [e])"
    "tc_overflow (interrupt e s) \<Longrightarrow> tc_overflow s \<or> 16 < length q + length (key_edges [e])" by auto
  from Cons.IH [OF q2(1) run] q2(2,3) show ?case unfolding len by auto
qed (simp add: interrupts_def)

lemma drain_room:
  assumes "tc_queue s = Some q" and "tc_queue (drain f moments s) = Some r"
  shows "length r \<le> length (key_edges (concat moments)) \<and>
    (tc_overflow (drain f moments s) \<longrightarrow> tc_overflow s \<or> 16 < length q + length (key_edges (concat moments)))"
  using assms
proof (induction f moments s arbitrary: q rule: drain.induct)
  case (1 f moments s)
  let ?now = "case moments of [] \<Rightarrow> [] | es # _ \<Rightarrow> es"
  let ?s = "interrupts ?now s"
  have "concat moments = ?now @ concat (tl moments)" by (cases moments) simp_all
  then have all: "length (key_edges (concat moments)) = length (key_edges ?now) + length (key_edges (concat (tl moments)))" by simp
  obtain x where x: "tc_queue ?s = Some (q @ x)" "subseq x (key_edges ?now)"
    by (rule fedE [OF interrupts_fed [OF 1(2), of ?now] 1(2)]) blast
  have len: "length x \<le> length (key_edges ?now)" using x(2) by (rule list_emb_length)
  note room = interrupts_room [OF 1(2), of ?now]
  show ?case
  proof (cases "q @ x")
    case Nil
    have end': "drain f moments s = interrupts (concat (tl moments)) ?s"
      using x(1) Nil by (simp add: drain.simps [of f moments s] Let_def)
    have empty: "tc_queue ?s = Some []" using x(1) Nil by simp
    obtain y where y: "tc_queue (interrupts (concat (tl moments)) ?s) = Some ([] @ y)" "subseq y (key_edges (concat (tl moments)))"
      by (rule fedE [OF interrupts_fed [OF empty, of "concat (tl moments)"] empty]) blast
    have "length r \<le> length (key_edges (concat (tl moments)))"
      using y 1(3) end' by (simp add: list_emb_length)
    then show ?thesis using interrupts_room [OF empty, of "concat (tl moments)"] room end' by (auto simp: all)
  next
    case (Cons edge rest)
    let ?t = "?s\<lparr>tc_queue := Some rest, tc_gesture := f edge (tc_gesture ?s)\<rparr>"
    have run: "drain f moments s = drain f (tl moments) ?t"
      using x(1) Cons by (simp add: drain.simps [of f moments s] Let_def)
    have head: "tc_queue ?s = Some (edge # rest)" using x(1) Cons by simp
    have "tc_queue ?t = Some rest" by simp
    from 1(1) [OF refl head refl this 1(3) [unfolded run]]
    have ih: "length r \<le> length (key_edges (concat (tl moments)))"
      "tc_overflow (drain f moments s) \<longrightarrow> tc_overflow ?s \<or> 16 < length rest + length (key_edges (concat (tl moments)))"
      unfolding run by simp_all
    have "Suc (length rest) = length q + length x" using Cons by (metis length_Cons length_append)
    then show ?thesis using ih room len by (auto simp: all)
  qed
qed

section \<open>A run of the driver is a run of the filter\<close>

lemma run_append:
  assumes "gesture_run g es1 = (outs1, g1)" and "gesture_run g1 es2 = (outs2, g2)"
  shows "gesture_run g (es1 @ es2) = (outs1 @ outs2, g2)"
  using assms by (induction es1 arbitrary: g outs1) (auto split: prod.splits)

lemma run_length: "gesture_run g es = (outs, g') \<Longrightarrow> length outs = length es"
  by (induction es arbitrary: g outs) (auto split: prod.splits)

lemma outputs_append: "length es = length outs \<Longrightarrow> outputs (es @ es2) (outs @ outs2) = outputs es outs @ outputs es2 outs2"
  by (induction es outs rule: list_induct2) auto

lemma edges_at_facts [simp]:
  "edges_in (edges_at t edges) = edges" "outputs (edges_at t edges) ks = []" "Discard u \<notin> set (edges_at t edges)"
proof -
  show "edges_in (edges_at t edges) = edges" by (induction edges) (simp_all add: edges_at_def)
  show "outputs (edges_at t edges) ks = []"
    by (induction edges arbitrary: ks; rename_tac ks; case_tac ks) (auto simp: edges_at_def)
qed (auto simp: edges_at_def)

lemma run_edges:
  "\<exists>outs. gesture_run (Some g) (edges_at t edges) = (outs, Some (fold (filter_edge t) edges g))"
proof (induction edges arbitrary: g)
  case (Cons e edges)
  have "touch_gesture_edge (Some g) (fst e) (snd e) t = Some (filter_edge t e g)"
    by (simp add: filter_edge_def touch_gesture_edge_def)
  then show ?case using Cons [of "filter_edge t e g"] by (auto simp: edges_at_def)
qed (simp add: edges_at_def)

definition no_discard :: "touch_event list \<Rightarrow> bool" where
  "no_discard es \<longleftrightarrow> (\<forall>t. Discard t \<notin> set es)"

lemma no_discard_simps [simp]:
  "no_discard []" "no_discard (a @ b) \<longleftrightarrow> no_discard a \<and> no_discard b" "no_discard (edges_at t es)"
  "no_discard [Poll t]" "\<not> no_discard [Discard t]"
  by (auto simp: no_discard_def)

definition follows ::
    "touch_state \<Rightarrow> (int \<times> bool) list \<Rightarrow> touch_event list \<Rightarrow> u8 list \<Rightarrow> touch_state \<Rightarrow> bool" where
  "follows s events es keys s' \<longleftrightarrow>
     (\<exists>q r outs. tc_queue s = Some q \<and> tc_queue s' = Some r \<and>
        gesture_run (Some (tc_gesture s)) es = (outs, Some (tc_gesture s')) \<and> keys = outputs es outs \<and>
        (length q \<le> 16 \<longrightarrow> length r \<le> 16) \<and> subseq (edges_in es @ r) (q @ key_edges events) \<and>
        (tc_overflow s \<and> no_discard es \<longrightarrow> tc_overflow s') \<and>
        (no_discard es \<longrightarrow> prefix q (edges_in es @ r)) \<and>
        (no_discard es \<and> \<not> tc_overflow s' \<longrightarrow> edges_in es @ r = q @ key_edges events))"

lemma followsE:
  assumes "follows s events es keys s'" and "tc_queue s = Some q"
  obtains r outs where "tc_queue s' = Some r"
    "gesture_run (Some (tc_gesture s)) es = (outs, Some (tc_gesture s'))" "keys = outputs es outs"
    "length q \<le> 16 \<Longrightarrow> length r \<le> 16" "subseq (edges_in es @ r) (q @ key_edges events)"
    "tc_overflow s \<Longrightarrow> no_discard es \<Longrightarrow> tc_overflow s'" "no_discard es \<Longrightarrow> prefix q (edges_in es @ r)"
    "no_discard es \<Longrightarrow> \<not> tc_overflow s' \<Longrightarrow> edges_in es @ r = q @ key_edges events"
  using assms unfolding follows_def by (metis option.inject)

lemma follows_trans:
  assumes "follows a ev1 es1 keys1 b" and "follows b ev2 es2 keys2 c"
  shows "follows a (ev1 @ ev2) (es1 @ es2) (keys1 @ keys2) c"
proof -
  obtain q where q: "tc_queue a = Some q" using assms(1) by (auto simp: follows_def)
  obtain r o1 where r: "tc_queue b = Some r"
    "gesture_run (Some (tc_gesture a)) es1 = (o1, Some (tc_gesture b))" "keys1 = outputs es1 o1"
    "length q \<le> 16 \<Longrightarrow> length r \<le> 16" "subseq (edges_in es1 @ r) (q @ key_edges ev1)"
    "tc_overflow a \<Longrightarrow> no_discard es1 \<Longrightarrow> tc_overflow b" "no_discard es1 \<Longrightarrow> prefix q (edges_in es1 @ r)"
    "no_discard es1 \<Longrightarrow> \<not> tc_overflow b \<Longrightarrow> edges_in es1 @ r = q @ key_edges ev1"
    by (rule followsE [OF assms(1) q]) blast
  obtain x o2 where x: "tc_queue c = Some x"
    "gesture_run (Some (tc_gesture b)) es2 = (o2, Some (tc_gesture c))" "keys2 = outputs es2 o2"
    "length r \<le> 16 \<Longrightarrow> length x \<le> 16" "subseq (edges_in es2 @ x) (r @ key_edges ev2)"
    "tc_overflow b \<Longrightarrow> no_discard es2 \<Longrightarrow> tc_overflow c" "no_discard es2 \<Longrightarrow> prefix r (edges_in es2 @ x)"
    "no_discard es2 \<Longrightarrow> \<not> tc_overflow c \<Longrightarrow> edges_in es2 @ x = r @ key_edges ev2"
    by (rule followsE [OF assms(2) r(1)]) blast
  have run: "gesture_run (Some (tc_gesture a)) (es1 @ es2) = (o1 @ o2, Some (tc_gesture c))"
    by (rule run_append [OF r(2) x(2)])
  have keys: "keys1 @ keys2 = outputs (es1 @ es2) (o1 @ o2)"
    using r(3) x(3) outputs_append run_length [OF r(2)] by simp
  have "subseq (edges_in es1 @ edges_in es2 @ x) (edges_in es1 @ r @ key_edges ev2)"
    using x(5) by (simp add: list_emb_append_mono)
  moreover have "subseq ((edges_in es1 @ r) @ key_edges ev2) ((q @ key_edges ev1) @ key_edges ev2)"
    using r(5) by (simp add: list_emb_append_mono del: append_assoc)
  ultimately have sub: "subseq (edges_in (es1 @ es2) @ x) (q @ key_edges (ev1 @ ev2))"
    using subseq_order.trans by fastforce
  have same: "edges_in (es1 @ es2) @ x = q @ key_edges (ev1 @ ev2)"
    if "no_discard (es1 @ es2)" "\<not> tc_overflow c"
  proof -
    have "edges_in es2 @ x = r @ key_edges ev2" "edges_in es1 @ r = q @ key_edges ev1"
      using r(8) x(6,8) that by auto
    then show ?thesis by (metis append_assoc concat_append key_edges_append map_append)
  qed
  have front: "prefix q (edges_in (es1 @ es2) @ x)" if "no_discard (es1 @ es2)"
  proof -
    have "prefix q (edges_in es1 @ r)" "prefix (edges_in es1 @ r) (edges_in es1 @ edges_in es2 @ x)"
      using r(7) x(7) that by simp_all
    then have "prefix q (edges_in es1 @ edges_in es2 @ x)" by (rule prefix_order.trans)
    then show ?thesis by simp
  qed
  show ?thesis
    unfolding follows_def
    by (rule exI [of _ q], rule exI [of _ x], rule exI [of _ "o1 @ o2"])
      (use q x(1,4,6) r(4,6) run keys sub same front in auto)
qed

lemma fed_follows: "fed events s s' \<Longrightarrow> follows s events [] [] s'"
  unfolding fed_def follows_def by (auto simp: list_emb_append_mono)

lemma poll_stays: "\<exists>k h. touch_gesture_poll (Some g) t = (k, Some h)"
  by (auto simp: touch_gesture_poll_def Let_def)

lemma discard_stays: "\<exists>h. touch_gesture_discard_until_quiet (Some g) t = Some h"
  by (simp add: touch_gesture_discard_until_quiet_def)

lemma subseq_in: "subseq a b \<Longrightarrow> x \<in> set a \<Longrightarrow> x \<in> set b"
  by (induction rule: list_emb.induct) auto

text \<open>One call of the main task, with the interrupts during it.\<close>

lemma get_discards:
  assumes "tc_queue s = Some q" and "touch_sens_get_key_num t moments s = (key, s')" and "tc_overflow s"
  shows "follows s (concat moments) [Discard (ms_of t)] [key] s' \<and>
    length (queued s') \<le> edge_count (concat moments) \<and>
    (tc_overflow s' \<longrightarrow> KEY_EVENT_QUEUE_LENGTH < length q + edge_count (concat moments))"
proof -
  define d where "d = drain (\<lambda>_ g. g) moments (s\<lparr>tc_overflow := False\<rparr>)"
  have fixed: "fold (\<lambda>_ g. g) edges g = g" for edges :: "touch_edge list" and g :: touch_gesture
    by (induction edges) simp_all
  have queue: "tc_queue (s\<lparr>tc_overflow := False\<rparr>) = Some q" using assms(1) by simp
  obtain edges r where d: "tc_queue d = Some r" "tc_gesture d = tc_gesture s"
    "subseq (edges @ r) (q @ key_edges (concat moments))" "length q \<le> 16 \<longrightarrow> length r \<le> 16"
    using drain_feeds [OF queue, of "\<lambda>_ g. g" moments] by (auto simp: d_def [symmetric] fixed)
  obtain h where h: "touch_gesture_discard_until_quiet (Some (tc_gesture s)) (ms_of t) = Some h" using discard_stays by blast
  have s': "key = 0" "s' = d\<lparr>tc_gesture := h\<rparr>"
    using assms h d(2) by (simp_all add: touch_sens_get_key_num_def Let_def d_def)
  have "subseq r (edges @ r)" by (rule list_emb_append2) simp
  then have "subseq r (q @ key_edges (concat moments))" using d(3) by (rule subseq_order.trans)
  then have "follows s (concat moments) [Discard (ms_of t)] [key] s'"
    unfolding follows_def using assms(1) d(1,4) h s' by auto
  then show ?thesis using drain_room [OF queue d(1) [unfolded d_def]] s'(2) d(1) by (simp add: queued_def d_def)
qed

lemma get_polls:
  assumes "tc_queue s = Some q" and "touch_sens_get_key_num t moments s = (key, s')" and "\<not> tc_overflow s"
  shows "\<exists>edges. follows s (concat moments) (edges_at (ms_of t) edges @ [Poll (ms_of t)]) [key] s' \<and>
    set edges \<subseteq> set (q @ key_edges (concat moments)) \<and>
    length (queued s') \<le> edge_count (concat moments) \<and>
    (tc_overflow s' \<longrightarrow> KEY_EVENT_QUEUE_LENGTH < length q + edge_count (concat moments))"
proof -
  let ?now = "ms_of t"
  define d where "d = drain (filter_edge ?now) moments s"
  obtain edges r where d: "tc_queue d = Some r" "tc_gesture d = fold (filter_edge ?now) edges (tc_gesture s)"
    "subseq (edges @ r) (q @ key_edges (concat moments))" "length q \<le> 16 \<longrightarrow> length r \<le> 16"
    "\<not> tc_overflow d \<longrightarrow> edges @ r = q @ key_edges (concat moments)" "prefix q (edges @ r)"
    using drain_feeds [OF assms(1), of "filter_edge ?now" moments] by (auto simp: d_def [symmetric])
  obtain k h where h: "touch_gesture_poll (Some (tc_gesture d)) ?now = (k, Some h)" using poll_stays by blast
  have s': "key = k" "s' = d\<lparr>tc_gesture := h\<rparr>"
    using assms h by (simp_all add: touch_sens_get_key_num_def Let_def d_def)
  obtain outs where outs: "gesture_run (Some (tc_gesture s)) (edges_at ?now edges) = (outs, Some (tc_gesture d))"
    using run_edges [of "tc_gesture s" ?now edges] d(2) by auto
  have "gesture_run (Some (tc_gesture d)) [Poll ?now] = ([k], Some h)" by (simp add: h)
  from run_append [OF outs this]
  have "gesture_run (Some (tc_gesture s)) (edges_at ?now edges @ [Poll ?now]) = (outs @ [k], Some h)" .
  moreover have "outputs (edges_at ?now edges @ [Poll ?now]) (outs @ [k]) = [k]"
    using run_length [OF outs] by (simp add: outputs_append)
  ultimately have "follows s (concat moments) (edges_at ?now edges @ [Poll ?now]) [key] s'"
    unfolding follows_def using assms(1,3) d(1,3-6) s'
    by (intro exI [of _ q] exI [of _ r] exI [of _ "outs @ [k]"]) (simp del: key_edges_append)
  moreover have "set edges \<subseteq> set (q @ key_edges (concat moments))"
  proof
    fix e assume "e \<in> set edges"
    then have "e \<in> set (edges @ r)" by simp
    then show "e \<in> set (q @ key_edges (concat moments))" by (rule subseq_in [OF d(3)])
  qed
  moreover have "length r \<le> edge_count (concat moments)"
    "tc_overflow d \<longrightarrow> KEY_EVENT_QUEUE_LENGTH < length q + edge_count (concat moments)"
    using drain_room [OF assms(1) d(1) [unfolded d_def]] assms(3) by (simp_all add: d_def)
  moreover have "queued s' = r" "tc_overflow s' = tc_overflow d" using s'(2) d(1) by (simp_all add: queued_def)
  ultimately show ?thesis by (intro exI [of _ edges]) simp
qed

lemma queued_Some: "tc_queue s = Some q \<Longrightarrow> queued s = q"
  by (simp add: queued_def)

lemma queue_after_interrupt:
  assumes "tc_queue s = Some q"
  obtains q' where "tc_queue (interrupt e s) = Some q'" "length q' \<le> length q + edge_count [e]"
    "set q' \<subseteq> set q \<union> set (key_edges [e])"
    "tc_overflow (interrupt e s) \<Longrightarrow> tc_overflow s \<or> KEY_EVENT_QUEUE_LENGTH < length q + edge_count [e]"
proof -
  obtain r where r: "tc_queue (interrupt e s) = Some (q @ r)" "subseq r (key_edges [e])"
    by (rule fedE [OF interrupt_fed [OF assms, of e] assms]) blast
  have "length r \<le> edge_count [e]" using r(2) by (rule list_emb_length)
  moreover have "set r \<subseteq> set (key_edges [e])" using subseq_in [OF r(2)] by (rule subsetI)
  moreover have "tc_overflow (interrupt e s) \<Longrightarrow> tc_overflow s \<or> KEY_EVENT_QUEUE_LENGTH < length q + edge_count [e]"
    using interrupts_room [OF assms, of "[e]"] by (simp add: interrupts_def)
  moreover have "length (q @ r) = length q + length r" "set (q @ r) = set q \<union> set r" by simp_all
  ultimately show thesis by (intro that [OF r(1)]) (simp, blast, blast)
qed

text \<open>What is queued has occurred, and a set overflow flag means that a loss was possible.\<close>

definition queue_known :: "(int \<times> bool) list \<Rightarrow> nat \<Rightarrow> bool \<Rightarrow> touch_state \<Rightarrow> bool" where
  "queue_known past n lossy s \<longleftrightarrow> (\<exists>q. tc_queue s = Some q \<and> set q \<subseteq> set (key_edges past) \<and> length q \<le> n \<and>
     (tc_overflow s \<longrightarrow> lossy))"

lemma known_after_interrupt:
  assumes "queue_known past n lossy s"
  shows "queue_known (past @ [e]) (n + edge_count [e]) (lossy \<or> KEY_EVENT_QUEUE_LENGTH < n + edge_count [e]) (interrupt e s)"
proof -
  obtain q where q: "tc_queue s = Some q" "set q \<subseteq> set (key_edges past)" "length q \<le> n" "tc_overflow s \<longrightarrow> lossy"
    using assms by (auto simp: queue_known_def)
  show ?thesis
    by (rule queue_after_interrupt [OF q(1), of e]) (use q in \<open>auto simp: queue_known_def\<close>)
qed

lemma known_after_get:
  assumes "queue_known past n lossy s" and "follows s (concat moments) es [key] s'"
    and "length (queued s') \<le> edge_count (concat moments)"
    and "tc_overflow s' \<longrightarrow> KEY_EVENT_QUEUE_LENGTH < length (queued s) + edge_count (concat moments)"
  shows "queue_known (past @ concat moments) (edge_count (concat moments))
    (KEY_EVENT_QUEUE_LENGTH < n + edge_count (concat moments)) s'"
proof -
  obtain q where q: "tc_queue s = Some q" "set q \<subseteq> set (key_edges past)" "length q \<le> n"
    using assms(1) by (auto simp: queue_known_def)
  obtain r where r: "tc_queue s' = Some r" "subseq (edges_in es @ r) (q @ key_edges (concat moments))"
    by (rule followsE [OF assms(2) q(1)]) blast
  have "e \<in> set (q @ key_edges (concat moments))" if "e \<in> set r" for e
    by (rule subseq_in [OF r(2)]) (use that in simp)
  then have "set r \<subseteq> set (key_edges (past @ concat moments))" using q(2) by auto
  then show ?thesis using r(1) assms(3,4) q(1,3) by (auto simp: queue_known_def queued_def)
qed

text \<open>Unless something is discarded, what is queued and what occurs before a call reaches the filter in
  order or stays queued.\<close>

definition delivered :: "touch_state \<Rightarrow> touch_move list \<Rightarrow> touch_event list \<Rightarrow> touch_state \<Rightarrow> bool" where
  "delivered s ms es s' \<longleftrightarrow> (no_discard es \<longrightarrow>
     (\<forall>ms1 t moments ms2. ms = ms1 @ Get t moments # ms2 \<longrightarrow> \<not> tc_overflow s \<and>
        prefix (queued s @ key_edges (concat (map move_events ms1))) (edges_in es @ queued s')))"

lemma delivered_isr:
  assumes "tc_queue s = Some q" and "delivered (interrupt e s) ms es s'"
  shows "delivered s (Isr e # ms) es s'"
  unfolding delivered_def
proof (intro impI allI)
  fix ms1 t moments ms2
  assume es: "no_discard es" and split: "Isr e # ms = ms1 @ Get t moments # ms2"
  then obtain ms1' where ms1: "ms1 = Isr e # ms1'" "ms = ms1' @ Get t moments # ms2" by (cases ms1) auto
  obtain r where r: "tc_queue (interrupt e s) = Some (q @ r)" "tc_overflow s \<Longrightarrow> tc_overflow (interrupt e s)"
    "\<not> tc_overflow (interrupt e s) \<Longrightarrow> r = key_edges [e]"
    by (rule fedE [OF interrupt_fed [OF assms(1), of e] assms(1)]) blast
  have ih: "\<not> tc_overflow (interrupt e s)"
    "prefix (queued (interrupt e s) @ key_edges (concat (map move_events ms1'))) (edges_in es @ queued s')"
    using assms(2) es ms1(2) unfolding delivered_def by blast+
  have all: "key_edges (concat (map move_events ms1)) = key_edges [e] @ key_edges (concat (map move_events ms1'))"
    unfolding ms1(1) by (simp flip: key_edges_append)
  have "\<not> tc_overflow s" using ih(1) r(2) by blast
  moreover have "queued s @ key_edges (concat (map move_events ms1)) =
      queued (interrupt e s) @ key_edges (concat (map move_events ms1'))"
    unfolding all queued_Some [OF r(1)] queued_Some [OF assms(1)] r(3) [OF ih(1)] by simp
  ultimately show "\<not> tc_overflow s \<and> prefix (queued s @ key_edges (concat (map move_events ms1))) (edges_in es @ queued s')"
    using ih(2) by (simp only: simp_thms)
qed

lemma delivered_get:
  assumes "tc_queue s = Some q" and "follows s (concat moments) es1 [k] b" and "follows b ev es ks s'"
    and "delivered b ms es s'" and "tc_overflow s \<Longrightarrow> \<not> no_discard es1"
  shows "delivered s (Get t moments # ms) (es1 @ es) s'"
  unfolding delivered_def
proof (intro impI allI)
  fix ms1 t' moments' ms2
  assume "no_discard (es1 @ es)" and split: "Get t moments # ms = ms1 @ Get t' moments' # ms2"
  then have es: "no_discard es1" "no_discard es" by simp_all
  obtain r where r: "tc_queue b = Some r" "no_discard es1 \<Longrightarrow> prefix q (edges_in es1 @ r)"
    "no_discard es1 \<Longrightarrow> \<not> tc_overflow b \<Longrightarrow> edges_in es1 @ r = q @ key_edges (concat moments)"
    by (rule followsE [OF assms(2,1)]) blast
  obtain x where x: "tc_queue s' = Some x" "no_discard es \<Longrightarrow> prefix r (edges_in es @ x)"
    by (rule followsE [OF assms(3) r(1)]) blast
  note known = queued_Some [OF assms(1)] queued_Some [OF r(1)] queued_Some [OF x(1)]
  show "\<not> tc_overflow s \<and> prefix (queued s @ key_edges (concat (map move_events ms1))) (edges_in (es1 @ es) @ queued s')"
  proof (cases ms1)
    case Nil
    have "prefix (edges_in es1 @ r) (edges_in es1 @ edges_in es @ x)" using x(2) es(2) by simp
    then have "prefix q (edges_in es1 @ edges_in es @ x)" by (rule prefix_order.trans [OF r(2) [OF es(1)]])
    then show ?thesis using Nil assms(5) es(1) known by auto
  next
    case (Cons m ms1')
    then have "ms = ms1' @ Get t' moments' # ms2" and m: "m = Get t moments" using split by simp_all
    then have ih: "\<not> tc_overflow b"
      "prefix (r @ key_edges (concat (map move_events ms1'))) (edges_in es @ x)"
      using assms(4) es(2) known unfolding delivered_def by auto
    have "prefix ((edges_in es1 @ r) @ key_edges (concat (map move_events ms1'))) (edges_in es1 @ edges_in es @ x)"
      using ih(2) by simp
    then show ?thesis using Cons m assms(5) es(1) known r(3) [OF es(1) ih(1)] by auto
  qed
qed

lemma moves_follow:
  assumes "queue_known past n lossy s" and "touch_moves ms s = (keys, s')"
  shows "\<exists>es. follows s (concat (map move_events ms)) es keys s' \<and> stamped past n lossy ms es \<and> delivered s ms es s'"
  using assms
proof (induction ms arbitrary: past n lossy s keys)
  case Nil
  then show ?case by (intro exI [of _ "[]"]) (auto simp: follows_def queue_known_def delivered_def intro: at_end)
next
  case (Cons m ms)
  obtain q where q: "tc_queue s = Some q" "set q \<subseteq> set (key_edges past)" "tc_overflow s \<longrightarrow> lossy"
    using Cons.prems(1) by (auto simp: queue_known_def)
  show ?case
  proof (cases m)
    case (Isr e)
    have first: "follows s [e] [] [] (interrupt e s)" by (rule fed_follows [OF interrupt_fed [OF q(1)]])
    obtain es where "follows (interrupt e s) (concat (map move_events ms)) es keys s'"
      "stamped (past @ [e]) (n + edge_count [e]) (lossy \<or> KEY_EVENT_QUEUE_LENGTH < n + edge_count [e]) ms es"
      "delivered (interrupt e s) ms es s'"
      using Cons.IH [OF known_after_interrupt [OF Cons.prems(1)], of e keys] Cons.prems(2) Isr by auto
    with follows_trans [OF first this(1)] delivered_isr [OF q(1)] show ?thesis
      unfolding Isr by (intro exI [of _ es] conjI isr) simp_all
  next
    case (Get t moments)
    obtain k b where b: "touch_sens_get_key_num t moments s = (k, b)" by fastforce
    obtain ks where ks: "touch_moves ms b = (ks, s')" "keys = k # ks"
      using Cons.prems(2) Get b by (auto split: prod.splits)
    show ?thesis
    proof (cases "tc_overflow s")
      case True
      note g = get_discards [OF q(1) b True]
      have "queue_known (past @ concat moments) (edge_count (concat moments))
          (KEY_EVENT_QUEUE_LENGTH < n + edge_count (concat moments)) b"
        by (rule known_after_get [OF Cons.prems(1)]) (use g queued_Some [OF q(1)] in auto)
      from Cons.IH [OF this ks(1)] obtain es where es: "follows b (concat (map move_events ms)) es ks s'"
        "stamped (past @ concat moments) (edge_count (concat moments))
          (KEY_EVENT_QUEUE_LENGTH < n + edge_count (concat moments)) ms es" "delivered b ms es s'" by blast
      have "follows s (concat (map move_events (m # ms))) ([Discard (ms_of t)] @ es) keys s'"
        using follows_trans [OF conjunct1 [OF g] es(1)] Get ks(2) by simp
      moreover have "delivered s (Get t moments # ms) ([Discard (ms_of t)] @ es) s'"
        by (rule delivered_get [OF q(1) conjunct1 [OF g] es(1,3)]) simp
      ultimately show ?thesis using discarded [OF _ es(2), of lossy t] q(3) True Get by auto
    next
      case False
      obtain edges where g: "follows s (concat moments) (edges_at (ms_of t) edges @ [Poll (ms_of t)]) [k] b"
        "set edges \<subseteq> set (q @ key_edges (concat moments))" "length (queued b) \<le> edge_count (concat moments)"
        "tc_overflow b \<longrightarrow> KEY_EVENT_QUEUE_LENGTH < length q + edge_count (concat moments)"
        using get_polls [OF q(1) b False] by blast
      have "queue_known (past @ concat moments) (edge_count (concat moments))
          (KEY_EVENT_QUEUE_LENGTH < n + edge_count (concat moments)) b"
        by (rule known_after_get [OF Cons.prems(1) g(1,3)]) (use g(4) queued_Some [OF q(1)] in auto)
      from Cons.IH [OF this ks(1)] obtain es where es: "follows b (concat (map move_events ms)) es ks s'"
        "stamped (past @ concat moments) (edge_count (concat moments))
          (KEY_EVENT_QUEUE_LENGTH < n + edge_count (concat moments)) ms es" "delivered b ms es s'" by blast
      have sub: "set edges \<subseteq> set (key_edges (past @ concat moments))" using g(2) q(2) by auto
      have "follows s (concat (map move_events (m # ms))) ((edges_at (ms_of t) edges @ [Poll (ms_of t)]) @ es) keys s'"
        using follows_trans [OF g(1) es(1)] Get ks(2) by simp
      moreover have "delivered s (Get t moments # ms) ((edges_at (ms_of t) edges @ [Poll (ms_of t)]) @ es) s'"
        by (rule delivered_get [OF q(1) g(1) es(1,3)]) (use False in simp)
      ultimately show ?thesis using polled [OF sub es(2), of lossy t] Get
        by (intro exI [of _ "(edges_at (ms_of t) edges @ [Poll (ms_of t)]) @ es"]) simp
    qed
  qed
qed

section \<open>Properties\<close>

definition touch_ready :: "touch_state \<Rightarrow> bool" where
  "touch_ready s \<longleftrightarrow> tc_queue s = Some [] \<and> tc_gesture s = fresh_gesture \<and> \<not> tc_overflow s"

lemma uncrowded_never_discards:
  assumes "stamped past n lossy ms es" and "uncrowded n ms" and "\<not> lossy"
  shows "no_discard es"
  using assms by (induction rule: stamped.induct) (auto simp: no_discard_def edges_at_def)

lemma stamped_origin:
  assumes "stamped past n lossy ms es" and "Edge key active t0 \<in> set es"
  shows "\<exists>ms1 t moments ms2. ms = ms1 @ Get t moments # ms2 \<and> t0 = ms_of t \<and>
    (key, active) \<in> set (key_edges (past @ concat (map move_events ms1) @ concat moments))"
  using assms
proof (induction rule: stamped.induct)
  case (isr past e n lossy ms es)
  then obtain ms1 t moments ms2 where "ms = ms1 @ Get t moments # ms2" "t0 = ms_of t"
    "(key, active) \<in> set (key_edges ((past @ [e]) @ concat (map move_events ms1) @ concat moments))" by blast
  then show ?case by (intro exI [of _ "Isr e # ms1"]) auto
next
  case (polled edges past moments n ms es lossy t)
  show ?case
  proof (cases "Edge key active t0 \<in> set es")
    case True
    with polled.IH obtain ms1 t' moments' ms2 where "ms = ms1 @ Get t' moments' # ms2" "t0 = ms_of t'"
      "(key, active) \<in> set (key_edges ((past @ concat moments) @ concat (map move_events ms1) @ concat moments'))" by blast
    then show ?thesis by (intro exI [of _ "Get t moments # ms1"]) auto
  next
    case False
    then have "(key, active) \<in> set edges" "t0 = ms_of t" using polled.prems by (auto simp: edges_at_def)
    then show ?thesis using polled.hyps(1) by (intro exI [of _ "[]"]) auto
  qed
next
  case (discarded lossy past moments n ms es t)
  then obtain ms1 t' moments' ms2 where "ms = ms1 @ Get t' moments' # ms2" "t0 = ms_of t'"
    "(key, active) \<in> set (key_edges ((past @ concat moments) @ concat (map move_events ms1) @ concat moments'))" by auto
  then show ?case by (intro exI [of _ "Get t moments # ms1"]) auto
qed simp

text \<open>The events of a call at the end of a run.\<close>

lemma stamped_last:
  assumes "stamped past n lossy (ms @ [Get t moments]) es"
  shows "\<exists>es0. es = es0 @ [Poll (ms_of t)] \<or> es = es0 @ [Discard (ms_of t)]"
  using assms
proof (induction "ms @ [Get t moments]" es arbitrary: ms rule: stamped.induct)
  case (isr past e n lossy ms' es)
  then obtain ms2 where "ms' = ms2 @ [Get t moments]" by (cases ms) auto
  then show ?case using isr by blast
next
  case (polled edges past moments' n ms' es lossy t')
  show ?case
  proof (cases ms)
    case Nil
    then have "es = []" "t' = t" using polled by (auto elim: stamped.cases)
    then show ?thesis by blast
  next
    case (Cons m ms2)
    then obtain es0 where "es = es0 @ [Poll (ms_of t)] \<or> es = es0 @ [Discard (ms_of t)]" using polled by auto
    then show ?thesis by (metis append.assoc append_Cons)
  qed
next
  case (discarded lossy past moments' n ms' es t')
  show ?case
  proof (cases ms)
    case Nil
    then have "es = []" "t' = t" using discarded by (auto elim: stamped.cases)
    then show ?thesis by (intro exI [of _ "[]"]) simp
  next
    case (Cons m ms2)
    then obtain es0 where "es = es0 @ [Poll (ms_of t)] \<or> es = es0 @ [Discard (ms_of t)]" using discarded by auto
    then show ?thesis by (metis append_Cons)
  qed
qed simp

lemma moves_append:
  assumes "touch_moves ms s = (keys, s')" and "touch_moves ms2 s' = (keys2, s'')"
  shows "touch_moves (ms @ ms2) s = (keys @ keys2, s'')"
  using assms
proof (induction ms arbitrary: s keys)
  case (Cons m ms)
  then show ?case by (cases m) (auto split: prod.splits)
qed simp

lemma ready_known: "touch_ready s \<Longrightarrow> queue_known [] 0 False s"
  by (simp add: touch_ready_def queue_known_def)

lemma uncrowded_no_overflow:
  assumes "tc_queue s = Some q" and "length q \<le> n" and "\<not> tc_overflow s" and "uncrowded n ms"
    and "touch_moves ms s = (keys, s')"
  shows "\<not> tc_overflow s'"
  using assms
proof (induction ms arbitrary: s q n keys)
  case (Cons m ms)
  show ?case
  proof (cases m)
    case (Isr e)
    obtain q' where q': "tc_queue (interrupt e s) = Some q'" "length q' \<le> length q + edge_count [e]"
      "tc_overflow (interrupt e s) \<Longrightarrow> tc_overflow s \<or> KEY_EVENT_QUEUE_LENGTH < length q + edge_count [e]"
      using queue_after_interrupt [OF Cons.prems(1), of e] by metis
    show ?thesis
      by (rule Cons.IH [OF q'(1), of "n + edge_count [e]" keys]) (use q' Cons.prems Isr in auto)
  next
    case (Get t moments)
    obtain k b where b: "touch_sens_get_key_num t moments s = (k, b)" by fastforce
    obtain ks where ks: "touch_moves ms b = (ks, s')" using Cons.prems(5) Get b by (auto split: prod.splits)
    obtain edges where g: "follows s (concat moments) (edges_at (ms_of t) edges @ [Poll (ms_of t)]) [k] b"
      "length (queued b) \<le> edge_count (concat moments)"
      "tc_overflow b \<longrightarrow> KEY_EVENT_QUEUE_LENGTH < length q + edge_count (concat moments)"
      using get_polls [OF Cons.prems(1) b Cons.prems(3)] by blast
    obtain r where r: "tc_queue b = Some r" using g(1) by (auto simp: follows_def)
    show ?thesis
      by (rule Cons.IH [OF r, of "edge_count (concat moments)" ks])
        (use g(2,3) r ks Cons.prems(2,4) Get in \<open>auto simp: queued_def\<close>)
  qed
qed simp


definition sample_touch :: touch_state where
  "sample_touch = \<lparr>tc_sensor = True, tc_channels = replicate NUM_KEYS True, tc_queue = Some [],
     tc_gesture = fresh_gesture, tc_overflow = False, tc_log = []\<rparr>"

lemma sample_touch_ready: "touch_ready sample_touch"
  by (simp add: touch_ready_def sample_touch_def)

lemma sample_touch_run:
  "fst (touch_moves [Isr (5, True), Get 100 [], Get 104 [[(6, True)]], Get 110 []] sample_touch) = [0, 0, 0]"
  "fst (touch_sens_get_key_num 104 [] (snd (touch_moves [Isr (5, True), Get 100 []] sample_touch))) = 4"
  by code_simp+


lemma channel_of_key:
  assumes "channel_to_key c = key" and "key \<noteq> 0"
  shows "key \<le> 6" "c = s_channel_id ! (unat key - 1)"
proof -
  have six: "[0..<NUM_KEYS] = [0, 1, 2, 3, 4, 5]" by (simp add: upt_rec)
  show "key \<le> 6" "c = s_channel_id ! (unat key - 1)"
    using assms unfolding channel_to_key_def six by (auto split: if_splits)
qed



section \<open>What the sensor driver has allocated\<close>

text \<open>The controller, the channels and the queue that the calls have created and not deleted.\<close>

fun live_controller :: "touch_env \<Rightarrow> touch_call list \<Rightarrow> bool" where
  "live_controller env [] \<longleftrightarrow> False"
| "live_controller env (call # log) \<longleftrightarrow>
     (if call = New_Controller \<and> te_err env log call = ESP_OK then True
      else call \<noteq> Del_Controller \<and> live_controller env log)"

fun live_queue :: "touch_env \<Rightarrow> touch_call list \<Rightarrow> bool" where
  "live_queue env [] \<longleftrightarrow> False"
| "live_queue env (call # log) \<longleftrightarrow>
     (if call = Create_Queue \<and> te_err env log call = ESP_OK then True else call \<noteq> Delete_Queue \<and> live_queue env log)"

fun live_channel :: "touch_env \<Rightarrow> touch_call list \<Rightarrow> nat \<Rightarrow> bool" where
  "live_channel env [] i \<longleftrightarrow> False"
| "live_channel env (call # log) i \<longleftrightarrow>
     (if call = New_Channel (s_channel_id ! i) \<and> te_err env log call = ESP_OK then True
      else call \<noteq> Del_Channel i \<and> live_channel env log i)"

definition tracks :: "touch_env \<Rightarrow> touch_state \<Rightarrow> bool" where
  "tracks env s \<longleftrightarrow> length (tc_channels s) = NUM_KEYS \<and> tc_sensor s = live_controller env (tc_log s) \<and>
     (\<forall>i < NUM_KEYS. tc_channels s ! i = live_channel env (tc_log s) i) \<and>
     (tc_queue s \<noteq> None) = live_queue env (tc_log s)"

lemma channel_ids_inject: "i < NUM_KEYS \<Longrightarrow> j < NUM_KEYS \<Longrightarrow> s_channel_id ! i = s_channel_id ! j \<longleftrightarrow> i = j"
proof -
  have "distinct s_channel_id" "length s_channel_id = NUM_KEYS" by (simp_all add: s_channel_id_def touch_keys_def)
  then show "i < NUM_KEYS \<Longrightarrow> j < NUM_KEYS \<Longrightarrow> s_channel_id ! i = s_channel_id ! j \<longleftrightarrow> i = j"
    by (simp add: nth_eq_iff_index_eq)
qed

fun plain_call :: "touch_call \<Rightarrow> bool" where
  "plain_call New_Controller \<longleftrightarrow> False" | "plain_call (New_Channel c) \<longleftrightarrow> False" | "plain_call Create_Queue \<longleftrightarrow> False"
| "plain_call Delete_Queue \<longleftrightarrow> False" | "plain_call (Del_Channel i) \<longleftrightarrow> False" | "plain_call Del_Controller \<longleftrightarrow> False"
| "plain_call _ \<longleftrightarrow> True"

lemma plain_tracks:
  "plain_call c \<Longrightarrow> tracks env s \<Longrightarrow> tracks env (s\<lparr>tc_log := c # tc_log s\<rparr>)"
  by (cases c) (auto simp: tracks_def)

lemma do_tracks: "plain_call c \<Longrightarrow> tracks env s \<Longrightarrow> tracks env (snd (touch_do env c s))"
  by (simp add: touch_do_def plain_tracks)

lemma just_tracks: "plain_call c \<Longrightarrow> tracks env s \<Longrightarrow> tracks env (touch_just c s)"
  by (simp add: touch_just_def plain_tracks)

lemma new_controller_tracks: "tracks env s \<Longrightarrow> tracks env (snd (new_controller env s))"
  by (auto simp: tracks_def new_controller_def touch_do_def)

lemma new_channel_tracks: "i < NUM_KEYS \<Longrightarrow> tracks env s \<Longrightarrow> tracks env (snd (new_channel env i s))"
  by (auto simp: tracks_def new_channel_def touch_do_def nth_list_update channel_ids_inject)

lemma create_queue_tracks: "tracks env s \<Longrightarrow> tracks env (snd (create_queue env s))"
  by (auto simp: tracks_def create_queue_def touch_do_def)

lemma threshold_tracks: "tracks env s \<Longrightarrow> tracks env (snd (set_threshold env i s))"
  unfolding set_threshold_def Let_def by (rule return_on_errors_inv) (auto simp: do_tracks)

lemma scanning_tracks: "tracks env s \<Longrightarrow> tracks env (snd (do_initial_scanning env s))"
  unfolding do_initial_scanning_def by (rule return_on_errors_inv) (auto simp: do_tracks threshold_tracks)

lemma setup_tracks: "tracks env s \<Longrightarrow> tracks env (snd (touch_setup env s))"
  unfolding touch_setup_def
  by (rule return_on_errors_inv)
    (auto simp: do_tracks new_controller_tracks new_channel_tracks scanning_tracks create_queue_tracks)

text \<open>Cleaning up frees all of it.\<close>

definition touch_off :: "touch_env \<Rightarrow> touch_state \<Rightarrow> bool" where
  "touch_off env s \<longleftrightarrow> \<not> tc_sensor s \<and> tc_queue s = None \<and> tc_channels s = replicate NUM_KEYS False \<and>
     \<not> live_controller env (tc_log s) \<and> \<not> live_queue env (tc_log s) \<and>
     (\<forall>i < NUM_KEYS. \<not> live_channel env (tc_log s) i)"

lemma free_channel_tracks: "i < NUM_KEYS \<Longrightarrow> tracks env s \<Longrightarrow> tracks env (free_channel i s)"
  by (auto simp: tracks_def free_channel_def touch_just_def nth_list_update)

lemma free_channels:
  assumes "tracks env s" and "set is \<subseteq> {0..<NUM_KEYS}"
  shows "tracks env (fold free_channel is s) \<and> (\<forall>i \<in> set is. \<not> tc_channels (fold free_channel is s) ! i) \<and>
    (\<forall>i. \<not> tc_channels s ! i \<longrightarrow> \<not> tc_channels (fold free_channel is s) ! i) \<and>
    tc_sensor (fold free_channel is s) = tc_sensor s \<and> tc_queue (fold free_channel is s) = tc_queue s"
  using assms
proof (induction "is" arbitrary: s)
  case (Cons i "is")
  have i: "i < NUM_KEYS" using Cons.prems(2) by simp
  have step: "tracks env (free_channel i s)" by (rule free_channel_tracks [OF i Cons.prems(1)])
  have "\<not> tc_channels (free_channel i s) ! i"
    using Cons.prems(1) i by (auto simp: free_channel_def tracks_def)
  moreover have "\<not> tc_channels s ! j \<Longrightarrow> \<not> tc_channels (free_channel i s) ! j" for j
    using Cons.prems(1) i by (cases "i = j") (auto simp: free_channel_def tracks_def)
  moreover have "tc_sensor (free_channel i s) = tc_sensor s" "tc_queue (free_channel i s) = tc_queue s"
    by (simp_all add: free_channel_def touch_just_def)
  ultimately show ?case using Cons.IH [OF step] Cons.prems(2) by simp
qed simp

lemma cleanup_off:
  assumes "tracks env s" shows "touch_off env (cleanup_touch s)"
proof -
  define a where "a = (if tc_sensor s then touch_just Disable (touch_just Stop_Scanning s) else s)"
  define b where "b = (if tc_queue a \<noteq> None then (touch_just Delete_Queue a)\<lparr>tc_queue := None\<rparr> else a)"
  define c where "c = b\<lparr>tc_gesture := fresh_gesture, tc_overflow := False\<rparr>"
  define d where "d = fold free_channel (rev [0..<NUM_KEYS]) c"
  have a: "tracks env a" "tc_sensor a = tc_sensor s" using assms by (simp_all add: a_def just_tracks) (simp add: touch_just_def)
  have c: "tracks env c" "tc_queue c = None"
    using a(1) by (auto simp: c_def b_def tracks_def touch_just_def)
  have "set (rev [0..<NUM_KEYS]) \<subseteq> {0..<NUM_KEYS}" by simp
  note d = free_channels [OF c(1) this, folded d_def]
  let ?e = "if tc_sensor d then (touch_just Del_Controller d)\<lparr>tc_sensor := False\<rparr> else d"
  have "cleanup_touch s = ?e" by (simp only: cleanup_touch_def Let_def a_def b_def c_def d_def)
  moreover have "tracks env ?e" using d c(2) by (auto simp: tracks_def touch_just_def)
  moreover have "\<not> tc_sensor ?e" "tc_queue ?e = None" "tc_channels ?e = tc_channels d"
    using d c(2) by (simp_all add: touch_just_def)
  moreover have "tc_channels d = replicate NUM_KEYS False"
    using d by (intro nth_equalityI) (auto simp: tracks_def)
  ultimately show ?thesis by (auto simp: touch_off_def tracks_def)
qed

lemma off_tracks: "touch_off env s \<Longrightarrow> tracks env s"
  by (auto simp: touch_off_def tracks_def)

section \<open>What a successful set-up has done\<close>

lemma channels_kept:
  "tc_channels (snd (touch_do env c s)) = tc_channels s"
  "tc_channels (snd (create_queue env s)) = tc_channels s"
  by (simp_all add: touch_do_def create_queue_def)

lemma run_keeps_channels:
  assumes "\<And>f s. f \<in> set fs \<Longrightarrow> tc_channels (snd (f s)) = tc_channels s"
  shows "tc_channels (snd (return_on_errors fs s)) = tc_channels s"
  using return_on_errors_inv [of fs "\<lambda>t. tc_channels t = tc_channels s" s] assms by simp

lemma scanning_keeps_channels: "tc_channels (snd (do_initial_scanning env s)) = tc_channels s"
proof -
  have "tc_channels (snd (set_threshold env i s)) = tc_channels s" for i s
    unfolding set_threshold_def Let_def by (rule run_keeps_channels) (auto simp: channels_kept)
  then show ?thesis unfolding do_initial_scanning_def by (intro run_keeps_channels) (auto simp: channels_kept)
qed

lemma sensor_run: "(\<And>f s. f \<in> set fs \<Longrightarrow> tc_sensor (snd (f s)) = tc_sensor s) \<Longrightarrow>
    tc_sensor (snd (return_on_errors fs s)) = tc_sensor s"
  using return_on_errors_inv [of fs "\<lambda>t. tc_sensor t = tc_sensor s" s] by simp

lemma sensor_kept:
  "tc_sensor (snd (touch_do env c s)) = tc_sensor s" "tc_sensor (snd (create_queue env s)) = tc_sensor s"
  "tc_sensor (snd (new_channel env i s)) = tc_sensor s" "tc_sensor (snd (do_initial_scanning env s)) = tc_sensor s"
proof -
  show one: "tc_sensor (snd (touch_do env c s)) = tc_sensor s" "tc_sensor (snd (create_queue env s)) = tc_sensor s"
    "tc_sensor (snd (new_channel env i s)) = tc_sensor s" for c s
    by (simp_all add: touch_do_def create_queue_def new_channel_def)
  have "tc_sensor (snd (set_threshold env i s)) = tc_sensor s" for i s
    unfolding set_threshold_def Let_def by (rule sensor_run) (auto simp: one)
  then show "tc_sensor (snd (do_initial_scanning env s)) = tc_sensor s"
    unfolding do_initial_scanning_def by (intro sensor_run) (auto simp: one)
qed

lemma new_channels_done:
  assumes "return_on_errors (map (new_channel env) is) s = (ESP_OK, s')" and "\<forall>i \<in> set is. i < length (tc_channels s)"
  shows "(\<forall>i \<in> set is. tc_channels s' ! i) \<and> (\<forall>i. tc_channels s ! i \<longrightarrow> tc_channels s' ! i) \<and>
    length (tc_channels s') = length (tc_channels s)"
  using assms
proof (induction "is" arbitrary: s)
  case (Cons i "is")
  obtain e a where a: "new_channel env i s = (e, a)" by fastforce
  have e: "e = ESP_OK" "return_on_errors (map (new_channel env) is) a = (ESP_OK, s')"
    using Cons.prems(1) a by (auto split: if_splits)
  have a2: "tc_channels a = (tc_channels s)[i := True]" using a e(1) by (auto simp: new_channel_def touch_do_def split: if_splits)
  note ih = Cons.IH [OF e(2)]
  have "tc_channels s ! j \<Longrightarrow> tc_channels a ! j" for j
    using a2 Cons.prems(2) by (cases "i = j") auto
  moreover have "tc_channels a ! i" using a2 Cons.prems(2) by simp
  ultimately show ?case using ih Cons.prems(2) a2 by simp
qed simp

lemma setup_done:
  assumes "touch_setup env s = (ESP_OK, s')" and "tracks env s"
  shows "tc_sensor s' \<and> (\<forall>i < NUM_KEYS. tc_channels s' ! i) \<and> tc_queue s' = Some [] \<and>
    (\<exists>log. tc_log s' = Start_Scanning # Enable # Register_Callbacks # log)"
proof -
  let ?rest = "[touch_do env (Config_Filter touch_filter), do_initial_scanning env, create_queue env,
         touch_do env Register_Callbacks, touch_do env Enable, touch_do env Start_Scanning]"
  obtain e1 a where a: "new_controller env s = (e1, a)" by fastforce
  have run: "e1 = ESP_OK" "return_on_errors (map (new_channel env) [0..<NUM_KEYS] @ ?rest) a = (ESP_OK, s')"
    using assms(1) a by (auto simp: touch_setup_def split: if_splits)
  have ta: "tracks env a" using new_controller_tracks [OF assms(2)] a by (metis snd_conv)
  obtain e2 b where b: "return_on_errors (map (new_channel env) [0..<NUM_KEYS]) a = (e2, b)" by fastforce
  have rest: "e2 = ESP_OK" "return_on_errors ?rest b = (ESP_OK, s')"
    using run(2) b by (auto simp: return_on_errors_append split: if_splits)
  have "length (tc_channels a) = NUM_KEYS" using ta by (simp add: tracks_def)
  then have all: "\<forall>i < NUM_KEYS. tc_channels b ! i"
    using new_channels_done [OF b [unfolded rest(1)]] by auto
  have "tc_channels (snd (return_on_errors ?rest b)) = tc_channels b"
    by (rule run_keeps_channels) (auto simp: channels_kept scanning_keeps_channels)
  then have "\<forall>i < NUM_KEYS. tc_channels s' ! i" using all rest(2) by simp
  moreover obtain e3 d where d: "return_on_errors [touch_do env (Config_Filter touch_filter), do_initial_scanning env] b = (e3, d)"
    by fastforce
  have "return_on_errors [create_queue env, touch_do env Register_Callbacks, touch_do env Enable, touch_do env Start_Scanning] d =
      (ESP_OK, s')"
    using rest(2) d return_on_errors_append [of "[touch_do env (Config_Filter touch_filter), do_initial_scanning env]"
        "[create_queue env, touch_do env Register_Callbacks, touch_do env Enable, touch_do env Start_Scanning]" b]
    by (auto split: if_splits)
  then have "tc_queue s' = Some []" "\<exists>log. tc_log s' = Start_Scanning # Enable # Register_Callbacks # log"
    by (auto simp: create_queue_def touch_do_def split: if_splits)
  moreover have "tc_sensor s'"
  proof -
    have "tracks env s'" using setup_tracks [OF assms(2)] assms(1) by (metis snd_conv)
    moreover have "tc_sensor a" using a run(1) by (auto simp: new_controller_def touch_do_def split: if_splits)
    moreover have "tc_sensor (snd (return_on_errors (map (new_channel env) [0..<NUM_KEYS] @ ?rest) a)) = tc_sensor a"
      by (rule sensor_run) (auto simp: sensor_kept)
    ultimately show ?thesis using run(2) by simp
  qed
  ultimately show ?thesis by blast
qed

text \<open>C29. Set-up is all or nothing: from a driver that holds nothing it either succeeds, with controller,
  all six channels and the queue allocated, the scanning started and the gesture filter fresh; or
  it fails with every controller, channel and queue it has created deleted again, so that it can
  be tried again.\<close>

theorem touch_init_all_or_nothing:
  assumes "touch_off env s" and "touch_sens_init env [] s = (err, s')"
  shows "if err = ESP_OK
    then touch_ready s' \<and> tc_sensor s' \<and> live_controller env (tc_log s') \<and> live_queue env (tc_log s') \<and>
      (\<forall>i < NUM_KEYS. live_channel env (tc_log s') i) \<and>
      (\<exists>log. tc_log s' = Start_Scanning # Enable # Register_Callbacks # log)
    else touch_off env s'"
proof (cases "err = ESP_OK")
  case True
  have idle: "\<not> tc_sensor s" using assms(1) by (simp add: touch_off_def)
  obtain e m where m: "touch_setup env s = (e, m)" by fastforce
  have run: "e = ESP_OK" "s' = m\<lparr>tc_gesture := fresh_gesture, tc_overflow := False\<rparr>"
    using assms(2) True idle m by (auto simp: touch_sens_init_def interrupts_def split: if_splits)
  note full = setup_done [OF m [unfolded run(1)] off_tracks [OF assms(1)]]
  have "tracks env m" using setup_tracks [OF off_tracks [OF assms(1)]] m by (metis snd_conv)
  then show ?thesis using full run(2) True by (auto simp: touch_ready_def tracks_def)
next
  case False
  have idle: "\<not> tc_sensor s" using assms(1) by (simp add: touch_off_def)
  obtain e m where m: "touch_setup env s = (e, m)" by fastforce
  have "s' = cleanup_touch m" using assms(2) False idle m by (auto simp: touch_sens_init_def split: if_splits)
  moreover have "tracks env m" using setup_tracks [OF off_tracks [OF assms(1)]] m by (metis snd_conv)
  ultimately show ?thesis using cleanup_off False by simp
qed

text \<open>A driver whose third channel cannot be created.\<close>

definition short_env :: touch_env where
  "short_env = \<lparr>te_err = (\<lambda>_ call. if call = New_Channel 1 then ESP_ERR_NOT_FOUND else ESP_OK),
     te_benchmark = (\<lambda>_ _. [20000])\<rparr>"

definition idle_touch :: touch_state where
  "idle_touch = \<lparr>tc_sensor = False, tc_channels = replicate NUM_KEYS False, tc_queue = None,
     tc_gesture = gesture_cleared, tc_overflow = False, tc_log = []\<rparr>"

theorem touch_init_all_or_nothing_witness:
  "\<exists>s'. touch_sens_init short_env [] idle_touch = (ESP_ERR_NOT_FOUND, s') \<and> touch_off short_env s' \<and>
     Del_Controller \<in> set (tc_log s')"
proof -
  have run: "fst (touch_sens_init short_env [] idle_touch) = ESP_ERR_NOT_FOUND"
    "Del_Controller \<in> set (tc_log (snd (touch_sens_init short_env [] idle_touch)))" by code_simp+
  have off: "touch_off short_env idle_touch" by (simp add: touch_off_def idle_touch_def)
  obtain s' where s': "touch_sens_init short_env [] idle_touch = (ESP_ERR_NOT_FOUND, s')"
    using run(1) by (metis prod.collapse)
  from touch_init_all_or_nothing [OF off this] run(2) s' show ?thesis by simp
qed

section \<open>The thresholds\<close>

lemma bit_len_bound: "n < 2 ^ bit_len n"
proof (induction n rule: bit_len.induct)
  case (1 n)
  show ?case
  proof (cases "n = 0")
    case False
    then have "n div 2 < 2 ^ bit_len (n div 2)" by (rule 1)
    then show ?thesis using False by (simp add: bit_len.simps [of n])
  qed (simp add: bit_len.simps)
qed

lemma bit_len_le: "n < 2 ^ k \<Longrightarrow> bit_len n \<le> k"
proof (induction n arbitrary: k rule: bit_len.induct)
  case (1 n)
  show ?case
  proof (cases "n = 0")
    case False
    then obtain j where j: "k = Suc j" using 1(2) by (cases k) auto
    then have "bit_len (n div 2) \<le> j" using 1 False by simp
    then show ?thesis using False j by (simp add: bit_len.simps [of n])
  qed (simp add: bit_len.simps)
qed

lemma float32_exact: "n < 2 ^ 24 \<Longrightarrow> float32 n = n"
  using bit_len_le [of n 24] by (simp add: float32_def round_even_def)

lemma round_even_bounds:
  assumes "0 < d"
  shows "n div d \<le> round_even n d" and "2 * (round_even n d * d) \<le> 2 * n + d"
proof -
  show "n div d \<le> round_even n d" by (simp add: round_even_def)
  have n: "n div d * d + n mod d = n" by simp
  show "2 * (round_even n d * d) \<le> 2 * n + d"
  proof (cases "d < 2 * (n mod d) \<or> d = 2 * (n mod d) \<and> odd (n div d)")
    case True
    then have "round_even n d * d = n div d * d + d" by (simp add: round_even_def)
    then show ?thesis using n True by linarith
  next
    case False
    then have "round_even n d * d = n div d * d" by (simp only: round_even_def if_False add_0_right)
    then show ?thesis using n by linarith
  qed
qed

text \<open>The product of a benchmark \<open>50 * k + r\<close> with the ratio lies close above \<open>k * 2 ^ 29\<close>, or for
  \<open>r = 0\<close> so close below it that it is rounded up.\<close>

lemma float32_product:
  assumes "b < 2 ^ 24"
  shows "float32 (b * THRESHOLD_RATIO) div 2 ^ 29 = b div 50"
proof -
  define k r p where "k = b div 50" and "r = b mod 50" and "p = b * THRESHOLD_RATIO"
  define d :: nat where "d = 2 ^ (bit_len p - 24)"
  have b: "b = 50 * k + r" "r < 50" by (simp_all add: k_def r_def)
  have p: "p + 12 * k = k * 2 ^ 29 + r * THRESHOLD_RATIO" by (simp add: p_def b(1) algebra_simps)
  have k: "k \<le> 335544" using assms by (simp add: k_def)
  have "p < 2 ^ 48" using assms by (simp add: p_def)
  then have len: "bit_len p \<le> 48" by (rule bit_len_le)
  then have small: "d \<le> 2 ^ 24" "d dvd 2 ^ 29" unfolding d_def by (intro power_increasing le_imp_power_dvd; simp)+
  have pos: "0 < d" by (simp add: d_def)
  have "(2 :: nat) ^ bit_len p \<le> 2 ^ (bit_len p - 24 + 24)" by (rule power_increasing) simp_all
  then have d: "p < 16777216 * d" using bit_len_bound [of p] by (simp add: d_def power_add)
  obtain m where m: "k * 2 ^ 29 = m * d" using small(2) by (metis dvd_def dvd_mult mult.commute)
  note near = round_even_bounds [OF pos, of p]
  have f: "float32 (b * THRESHOLD_RATIO) = round_even p d * d" by (simp add: float32_def p_def d_def Let_def)
  have up: "2 * (round_even p d * d) < 2 * ((k + 1) * 2 ^ 29)"
  proof -
    have "r * THRESHOLD_RATIO \<le> 49 * THRESHOLD_RATIO" using b(2) by simp
    then have "p + 10737430 \<le> (k + 1) * 2 ^ 29" using p by simp
    then show ?thesis using near(2) small(1) by simp
  qed
  have low: "k * 2 ^ 29 \<le> round_even p d * d"
  proof (cases "r = 0 \<and> 0 < k")
    case True
    then have pk: "p + 12 * k = m * d" using p m by simp
    then have gap: "24 * k < d" using True d p by simp
    then obtain j where j: "m = Suc j" using True m by (cases m) auto
    have q: "p = j * d + (d - 12 * k)" using pk gap j by simp
    have "d - 12 * k < d" using gap True by simp
    then have "p div d = j" "p mod d = d - 12 * k" unfolding q using pos by simp_all
    moreover have "d < 2 * (d - 12 * k)" using gap by simp
    ultimately have "round_even p d = m" by (simp add: round_even_def j)
    then show ?thesis using m by simp
  next
    case False
    have "m * d \<le> p"
    proof (cases "k = 0")
      case False
      with \<open>\<not> (r = 0 \<and> 0 < k)\<close> have "THRESHOLD_RATIO \<le> r * THRESHOLD_RATIO" by simp
      then show ?thesis using p m k by simp
    qed (use m in auto)
    then have "m \<le> p div d" using pos by (simp add: less_eq_div_iff_mult_less_eq)
    then have "m \<le> round_even p d" using near(1) by simp
    then show ?thesis unfolding m by simp
  qed
  have "float32 (b * THRESHOLD_RATIO) div 2 ^ 29 = k"
    unfolding f using low up by (intro div_nat_eqI) (simp_all add: algebra_simps)
  then show ?thesis by (simp add: k_def)
qed

text \<open>The thresholds are two percent of the benchmark: for every benchmark below 2 to the 24th the
  computation in single precision, with its rounded ratio and its
  rounded product, gives exactly the benchmark divided by fifty, rounded down.\<close>

theorem threshold_is_two_percent:
  assumes "benchmark < 2 ^ 24"
  shows "active_threshold benchmark = benchmark div 50"
proof -
  have "unat benchmark < 2 ^ 24" using assms by (simp add: word_less_nat_alt)
  then have "active_threshold benchmark = of_nat (unat benchmark div 50)"
    by (simp only: active_threshold_def float32_exact float32_product)
  then show ?thesis using word_arith_nat_div [of benchmark 50] by simp
qed

theorem threshold_is_two_percent_witness: "active_threshold 20049 = 400"
  using threshold_is_two_percent [of 20049] by simp

end
