(* ===== verification/SetupSequence.thy ===== *)
theory SetupSequence
  imports Prelude
begin

text \<open>
  \<open>service_setup_sequence\<close> of \<open>main/main.c\<close>: the recogniser of the gesture 4, 5, 4, 5 that
  opens network setup, with its two static variables, against a reference recogniser that looks
  at the presses themselves.
\<close>

section \<open>The recogniser\<close>

abbreviation (input) SETUP_SEQUENCE_TIMEOUT_MS :: u32 where "SETUP_SEQUENCE_TIMEOUT_MS \<equiv> 10000"

definition setup_keys :: "u8 list" where
  "setup_keys = [4, 5, 4, 5]"

record setup_state =
  ss_position :: nat
  ss_started :: tick

definition setup_power_on :: setup_state where
  "setup_power_on = \<lparr>ss_position = 0, ss_started = 0\<rparr>"

text \<open>Whether the press completes the gesture.\<close>

definition service_setup_sequence :: "u8 \<Rightarrow> tick \<Rightarrow> setup_state \<Rightarrow> bool \<times> setup_state" where
  "service_setup_sequence key now s =
     (let s = (if ss_position s \<noteq> 0 \<and> pdMS_TO_TICKS SETUP_SEQUENCE_TIMEOUT_MS < now - ss_started s
               then s\<lparr>ss_position := 0\<rparr> else s)
      in if key = setup_keys ! ss_position s then
           let s = (if ss_position s = 0 then s\<lparr>ss_started := now\<rparr> else s);
               s = s\<lparr>ss_position := ss_position s + 1\<rparr>
           in if ss_position s = length setup_keys then (True, s\<lparr>ss_position := 0\<rparr>) else (False, s)
         else
           let s = s\<lparr>ss_position := if key = setup_keys ! 0 then 1 else 0\<rparr>
           in (False, if ss_position s = 1 then s\<lparr>ss_started := now\<rparr> else s))"

type_synonym press = "u8 \<times> tick"

fun setup_run :: "press list \<Rightarrow> setup_state \<Rightarrow> bool list \<times> setup_state" where
  "setup_run [] s = ([], s)"
| "setup_run ((key, now) # ps) s =
     (case service_setup_sequence key now s of (hit, s) \<Rightarrow>
        case setup_run ps s of (hits, s) \<Rightarrow> (hit # hits, s))"

section \<open>The reference\<close>

text \<open>
  A press completes the gesture when it and the three before it, none of them used up by an
  earlier gesture, are 4, 5, 4, 5 (\<open>recent\<close> holds the earlier presses, newest first).
\<close>

fun gestures :: "u8 list \<Rightarrow> u8 list \<Rightarrow> bool list" where
  "gestures recent [] = []"
| "gestures recent (key # keys) =
     (let hit = (take 4 (key # recent) = [5, 4, 5, 4])
      in hit # gestures (if hit then [] else key # recent) keys)"

section \<open>Lemmas\<close>

lemma timeout_ticks: "pdMS_TO_TICKS SETUP_SEQUENCE_TIMEOUT_MS = 1000"
  by (simp add: pdMS_TO_TICKS_at_def)

lemma setup_keys_nth: "setup_keys ! 0 = 4" "setup_keys ! 1 = 5" "setup_keys ! Suc 0 = 5" "setup_keys ! 2 = 4" "setup_keys ! 3 = 5"
    "length setup_keys = 4"
  by (simp_all add: setup_keys_def)

text \<open>The position is the length of the part of the gesture that the newest presses are.\<close>

definition progress :: "u8 list \<Rightarrow> nat" where
  "progress recent =
     (if take 3 recent = [4, 5, 4] then 3 else if take 2 recent = [5, 4] then 2
      else if take 1 recent = [4] then 1 else 0)"

lemma few_presses:
  obtains "recent = []" | a where "recent = [a]" | a b where "recent = [a, b]" | a b c ds where "recent = a # b # c # ds"
  by (metis neq_Nil_conv)

lemma progress_simps:
  "progress [] = 0" "progress [a] = (if a = 4 then 1 else 0)"
  "progress [a, b] = (if a = 5 \<and> b = 4 then 2 else if a = 4 then 1 else 0)"
  "progress (a # b # c # ds) =
     (if a = 4 \<and> b = 5 \<and> c = 4 then 3 else if a = 5 \<and> b = 4 then 2 else if a = 4 then 1 else 0)"
  by (simp_all add: progress_def)

lemma progress_hit: "take 4 (key # recent) = [5, 4, 5, 4] \<longleftrightarrow> progress recent = 3 \<and> key = 5"
  by (cases recent rule: few_presses) (auto simp: progress_simps)

lemma progress_step:
  assumes "\<not> (progress recent = 3 \<and> key = 5)"
  shows "progress (key # recent) =
    (if key = setup_keys ! progress recent then progress recent + 1 else if key = 4 then 1 else 0)"
proof -
  have three: "progress (key # a # b # r) =
      (if key = setup_keys ! progress (a # b # r) then progress (a # b # r) + 1 else if key = 4 then 1 else 0)"
    if "\<not> (progress (a # b # r) = 3 \<and> key = 5)" for a b r
    using that
    by (cases r; cases "a = 4"; cases "a = 5"; cases "b = 4"; cases "b = 5"; cases "key = 4"; cases "key = 5")
      (simp_all add: progress_simps setup_keys_nth split: if_splits)
  show ?thesis
  proof (cases recent rule: few_presses)
    case 1
    then show ?thesis by (simp add: progress_simps setup_keys_nth)
  next
    case (2 a)
    then show ?thesis by (cases "a = 4"; cases "key = 4"; simp add: progress_simps setup_keys_nth)
  qed (use three assms in simp_all)
qed

lemma progress_le: "progress recent \<le> 3"
  by (simp add: progress_def)

text \<open>One press, when the gesture has not timed out.\<close>

lemma press_in_time:
  assumes "ss_position s = progress recent" and "ss_position s \<noteq> 0 \<Longrightarrow> now - ss_started s \<le> 1000"
    and hit: "hit \<longleftrightarrow> take 4 (key # recent) = [5, 4, 5, 4]"
  shows "\<exists>s'. service_setup_sequence key now s = (hit, s') \<and>
    ss_position s' = progress (if hit then [] else key # recent) \<and>
    ss_started s' \<in> {now, ss_started s} \<and> (ss_position s = 0 \<and> ss_position s' \<noteq> 0 \<longrightarrow> ss_started s' = now)"
proof -
  have early: "\<not> (ss_position s \<noteq> 0 \<and> 1000 < now - ss_started s)" using assms(2) by (auto simp: not_less)
  have h: "hit \<longleftrightarrow> progress recent = 3 \<and> key = 5" using hit progress_hit by simp
  show ?thesis
  proof (cases hit)
    case True
    then show ?thesis
      using early h assms(1) by (simp add: service_setup_sequence_def timeout_ticks setup_keys_nth progress_simps Let_def)
  next
    case False
    then have step: "progress (key # recent) =
        (if key = setup_keys ! progress recent then progress recent + 1 else if key = 4 then 1 else 0)"
      using progress_step h by blast
    have "progress recent + 1 \<noteq> 4" if "key = setup_keys ! progress recent"
      using False h that progress_le [of recent] by (auto simp: setup_keys_nth)
    then show ?thesis
      using early False step assms(1)
      by (auto simp: service_setup_sequence_def timeout_ticks setup_keys_nth Let_def)
  qed
qed

text \<open>Presses that come within ten seconds of one another.\<close>

definition quick :: "tick list \<Rightarrow> bool" where
  "quick ts \<longleftrightarrow> sorted_wrt (\<lambda>earlier later. later - earlier \<le> 1000) ts"

lemma run_matches:
  assumes "ss_position s = progress recent" and "quick (map snd ps)"
    and "ss_position s \<noteq> 0 \<Longrightarrow> \<forall>p \<in> set ps. snd p - ss_started s \<le> 1000"
  shows "fst (setup_run ps s) = gestures recent (map fst ps)"
  using assms
proof (induction ps arbitrary: s recent)
  case (Cons p ps)
  obtain key now where p: "p = (key, now)" by (cases p)
  have now: "ss_position s \<noteq> 0 \<Longrightarrow> now - ss_started s \<le> 1000" using Cons.prems(3) p by simp
  let ?hit = "take 4 (key # recent) = [5, 4, 5, 4]"
  let ?recent = "if ?hit then [] else key # recent"
  obtain s' where s': "service_setup_sequence key now s = (?hit, s')" "ss_position s' = progress ?recent"
    "ss_started s' \<in> {now, ss_started s}" "ss_position s = 0 \<and> ss_position s' \<noteq> 0 \<longrightarrow> ss_started s' = now"
    using press_in_time [OF Cons.prems(1) now refl, of key] by blast
  have later: "\<forall>p \<in> set ps. snd p - now \<le> 1000" "quick (map snd ps)"
    using Cons.prems(2) p by (auto simp: quick_def)
  have "\<forall>p \<in> set ps. snd p - ss_started s' \<le> 1000" if "ss_position s' \<noteq> 0"
    using later(1) s'(3,4) that Cons.prems(3) by (cases "ss_position s = 0") auto
  then have "fst (setup_run ps s') = gestures ?recent (map fst ps)"
    using Cons.IH [OF s'(2) later(2)] by blast
  then show ?case by (simp add: p s'(1) split_beta Let_def)
qed simp

section \<open>Properties\<close>

text \<open>C30. The recogniser is the reference: for presses that come within ten seconds of one another, the
  state machine reports the gesture at exactly the presses at which the last four unused presses
  are 4, 5, 4, 5, overlapping and repeated beginnings (4, 4, 5, or 4, 5, 4, 4, 5, 4, 5) included.\<close>

theorem setup_gesture_equivalence:
  assumes "quick (map snd ps)"
  shows "fst (setup_run ps setup_power_on) = gestures [] (map fst ps)"
  by (rule run_matches) (use assms in \<open>simp_all add: setup_power_on_def progress_simps\<close>)

theorem setup_gesture_equivalence_witness:
  "fst (setup_run [(4, 10), (5, 60), (4, 90), (4, 130), (5, 200), (4, 240), (5, 300)] setup_power_on) =
     [False, False, False, False, False, False, True]"
proof -
  let ?ps = "[(4, 10), (5, 60), (4, 90), (4, 130), (5, 200), (4, 240), (5, 300)] :: press list"
  have "quick (map snd ?ps)" by (simp add: quick_def)
  from setup_gesture_equivalence [OF this] show ?thesis by simp
qed

text \<open>The newest presses are the part of the gesture seen so far, the first of them at \<open>ss_started\<close>.\<close>

definition underway :: "press list \<Rightarrow> setup_state \<Rightarrow> bool" where
  "underway ps s \<longleftrightarrow> ss_position s \<le> 3 \<and>
     (\<exists>before newest. ps = before @ newest \<and> map fst newest = take (ss_position s) setup_keys \<and>
        (newest \<noteq> [] \<longrightarrow> snd (hd newest) = ss_started s))"

lemma underway_reset: "underway ps (s\<lparr>ss_position := 0\<rparr>)"
  by (simp add: underway_def)

lemma underway_next:
  assumes "underway ps s" and "ss_position s < 3" and "key = setup_keys ! ss_position s"
    and "ss_position s = 0 \<longrightarrow> ss_started s = now"
  shows "underway (ps @ [(key, now)]) (s\<lparr>ss_position := ss_position s + 1\<rparr>)"
proof -
  obtain before newest where n: "ps = before @ newest" "map fst newest = take (ss_position s) setup_keys"
    "newest \<noteq> [] \<longrightarrow> snd (hd newest) = ss_started s" using assms(1) by (auto simp: underway_def)
  have "map fst (newest @ [(key, now)]) = take (ss_position s + 1) setup_keys"
    using n(2) assms(2,3) by (simp add: take_Suc_conv_app_nth setup_keys_nth)
  moreover have "newest = [] \<longrightarrow> ss_position s = 0" using n(2) by (auto simp: setup_keys_def)
  moreover have "ps @ [(key, now)] = before @ (newest @ [(key, now)])" using n(1) by simp
  ultimately show ?thesis
    unfolding underway_def using n(3) assms(2,4)
    by (intro conjI exI [of _ before] exI [of _ "newest @ [(key, now)]"]) (auto simp: hd_append)
qed

lemma underway_started: "ss_position s = 0 \<Longrightarrow> underway ps s \<Longrightarrow> underway ps (s\<lparr>ss_started := t\<rparr>)"
  by (auto simp: underway_def)

lemma press_underway:
  assumes "underway ps s" and "service_setup_sequence key now s = (hit, s')"
  shows "underway (ps @ [(key, now)]) s' \<and>
    (hit \<longrightarrow> key = 5 \<and> (\<exists>before t1 t2 t3. ps = before @ [(4, t1), (5, t2), (4, t3)] \<and> now - t1 \<le> 1000))"
proof -
  define m where "m = (if ss_position s \<noteq> 0 \<and> 1000 < now - ss_started s then s\<lparr>ss_position := 0\<rparr> else s)"
  have m: "underway ps m" using assms(1) underway_reset by (simp add: m_def)
  have timely: "ss_position m \<noteq> 0 \<Longrightarrow> now - ss_started m \<le> 1000" by (auto simp: m_def not_less split: if_splits)
  have le: "ss_position m \<le> 3" using m by (simp add: underway_def)
  define k where "k = (if ss_position m = 0 then m\<lparr>ss_started := now\<rparr> else m)"
  have kpos: "ss_position k = ss_position m" by (simp add: k_def)
  have run: "service_setup_sequence key now s =
      (if key = setup_keys ! ss_position m
       then if ss_position m + 1 = 4 then (True, k\<lparr>ss_position := 0\<rparr>) else (False, k\<lparr>ss_position := ss_position m + 1\<rparr>)
       else (False, if key = 4 then m\<lparr>ss_position := 1, ss_started := now\<rparr> else m\<lparr>ss_position := 0\<rparr>))"
    unfolding service_setup_sequence_def timeout_ticks m_def [symmetric] Let_def k_def [symmetric]
    by (simp add: kpos setup_keys_nth)
  show ?thesis
  proof (cases "key = setup_keys ! ss_position m")
    case False
    then have hit: "\<not> hit" and s': "s' = (if key = 4 then m\<lparr>ss_position := 1, ss_started := now\<rparr> else m\<lparr>ss_position := 0\<rparr>)"
      using assms(2) run by auto
    have "underway (ps @ [(4, now)]) (m\<lparr>ss_position := 1, ss_started := now\<rparr>)"
      by (auto simp: underway_def setup_keys_def intro: exI [of _ ps])
    then show ?thesis using hit s' underway_reset by auto
  next
    case True
    have k: "underway ps k" "ss_position k = ss_position m" "ss_position k = 0 \<longrightarrow> ss_started k = now"
      using m underway_started by (auto simp: k_def)
    show ?thesis
    proof (cases "ss_position m = 3")
      case False
      then have lt: "ss_position k < 3" using le k(2) by simp
      have "hit = False" "s' = k\<lparr>ss_position := ss_position k + 1\<rparr>"
        using assms(2) True False le run kpos by auto
      then show ?thesis using underway_next [OF k(1) lt _ k(3), of key] True k(2) by simp
    next
      case full: True
      then have s': "hit" "s' = m\<lparr>ss_position := 0\<rparr>" "key = 5"
        using assms(2) True run full by (auto simp: k_def setup_keys_nth)
      obtain before newest where n: "ps = before @ newest" "map fst newest = [4, 5, 4]" "snd (hd newest) = ss_started m"
        using m full by (auto simp: underway_def setup_keys_def)
      then obtain t1 t2 t3 where "newest = [(4, t1), (5, t2), (4, t3)]" by auto
      then show ?thesis using n s' timely full underway_reset by auto
    qed
  qed
qed

lemma run_underway: "underway ps s \<Longrightarrow> setup_run qs s = (hits, s') \<Longrightarrow> underway (ps @ qs) s'"
proof (induction qs arbitrary: ps s hits)
  case (Cons q qs)
  obtain key now where q: "q = (key, now)" by (cases q)
  obtain hit a where a: "service_setup_sequence key now s = (hit, a)" by fastforce
  obtain rest where "setup_run qs a = (rest, s')" using Cons.prems(2) a q by (auto split: prod.splits)
  then show ?case using Cons.IH [of "ps @ [q]" a] press_underway [OF Cons.prems(1) a] q by simp
qed simp

text \<open>C31. Setup only opens for the gesture: whatever was pressed before and whenever, if a press is
  reported as completing the gesture then it is a 5, the three presses before it are 4, 5, 4, and
  the first of them is at most ten seconds old, across the tick wrap; and the position never
  leaves the table of the sequence.\<close>

theorem setup_gesture_sound:
  assumes "setup_run ps setup_power_on = (hits, s)" and "service_setup_sequence key now s = (hit, s')"
  shows "ss_position s < length setup_keys \<and>
    (hit \<longrightarrow> key = 5 \<and> (\<exists>before t1 t2 t3. ps = before @ [(4, t1), (5, t2), (4, t3)] \<and>
       now - t1 \<le> pdMS_TO_TICKS SETUP_SEQUENCE_TIMEOUT_MS))"
proof -
  have "underway [] setup_power_on" by (simp add: underway_def setup_power_on_def)
  from run_underway [OF this assms(1)] have u: "underway ps s" by simp
  then have "ss_position s < length setup_keys" by (simp add: underway_def setup_keys_nth)
  then show ?thesis using press_underway [OF u assms(2)] by (simp add: timeout_ticks)
qed

theorem setup_gesture_sound_witness:
  "\<exists>hits s s'. setup_run [(1, 5), (4, 4294967290), (5, 40), (4, 90)] setup_power_on = (hits, s) \<and>
     service_setup_sequence 5 130 s = (True, s') \<and> (130 :: tick) - 4294967290 \<le> 1000"
proof -
  let ?ps = "[(1, 5), (4, 4294967290), (5, 40), (4, 90)] :: press list"
  obtain hits s where run: "setup_run ?ps setup_power_on = (hits, s)" by fastforce
  obtain hit s' where press: "service_setup_sequence 5 130 s = (hit, s')" by fastforce
  have "fst (service_setup_sequence 5 130 (snd (setup_run ?ps setup_power_on)))" by code_simp
  then have hit using run press by simp
  then show ?thesis using setup_gesture_sound [OF run press] run press by (simp add: timeout_ticks)
qed

text \<open>
  The converse fails with timeouts: when a beginning times out, presses that could begin the
  gesture anew are forgotten with it.
\<close>

lemma setup_gesture_missed:
  "fst (setup_run [(4, 0), (5, 500), (4, 950), (5, 1001), (4, 1050), (5, 1100)] setup_power_on) = replicate 6 False"
  by code_simp

end
