(* ===== verification/AppMain.thy ===== *)
theory AppMain
  imports NetworkClaims TouchDriver SetupSequence RecoveryPolicy
begin

text \<open>
  \<open>main/main.c\<close>: the boot sequence and the main loop, over the models of the parts they call.
  The panel, the OTA worker, the fan and the health table are those of the network's state. What
  the outside delivers to one boot or one round is a record of inputs; \<open>None\<close> is a round that
  does not go on: an abort, a read out of range or a call that never returns.
\<close>

section \<open>State\<close>

abbreviation (input) OTA_BOOT_PROBATION_MS :: u32 where "OTA_BOOT_PROBATION_MS \<equiv> 30000"

record 'f app =
  am_net :: "'f network"
  am_touch :: touch_state
  am_setup :: setup_state
  am_led_retry :: recovery_policy
  am_touch_retry :: recovery_policy
  am_network_retry :: recovery_policy
  am_ota_pending :: bool
  am_network_seen :: bool
  am_probation_started :: tick
  am_last_stack_sample :: tick

type_synonym 'f stage = "'f app \<Rightarrow> 'f app option"

text \<open>Stages one after the other, until one does not go on.\<close>

fun run_stages :: "'s list \<Rightarrow> ('s \<Rightarrow> 'a \<Rightarrow> 'a option) \<Rightarrow> 'a \<Rightarrow> 'a option" where
  "run_stages [] f a = Some a"
| "run_stages (s # ss) f a = (case f s a of None \<Rightarrow> None | Some a \<Rightarrow> run_stages ss f a)"

section \<open>Helpers\<close>

definition on_net :: "('f network \<Rightarrow> 'f network) \<Rightarrow> 'f app \<Rightarrow> 'f app" where
  "on_net f a = a\<lparr>am_net := f (am_net a)\<rparr>"

definition set_health_of :: "service_id \<Rightarrow> service_state \<Rightarrow> esp_err \<Rightarrow> 'f app \<Rightarrow> 'f app" where
  "set_health_of service state err = on_net (on_health (service_health_set service state err))"

text \<open>A call of the panel: it works on the panel with the fan as it is now.\<close>

definition with_panel :: "(controller \<Rightarrow> memory_fault + 'r \<times> controller) \<Rightarrow> 'f app \<Rightarrow> ('r \<times> 'f app) option" where
  "with_panel f a =
     (case f (panel_of (am_net a)) of
        Inl _ \<Rightarrow> None
      | Inr (r, c) \<Rightarrow> Some (r, on_net (\<lambda>n. set_fan (ct_fan c) (n\<lparr>nw_ui := c\<rparr>)) a))"

definition retry_failed :: "tick \<Rightarrow> recovery_policy \<Rightarrow> recovery_policy option" where
  "retry_failed now retry =
     (case recovery_policy_mark_failed (Some retry) now configTICK_RATE_HZ of
        Inr policy \<Rightarrow> policy | Inl _ \<Rightarrow> None)"

definition retry_due :: "recovery_policy \<Rightarrow> tick \<Rightarrow> bool" where
  "retry_due retry now = recovery_policy_is_due (Some retry) now"

definition retry_succeeded :: "recovery_policy \<Rightarrow> recovery_policy" where
  "retry_succeeded retry = the (recovery_policy_mark_ready (Some retry))"

definition set_led_retry :: "recovery_policy option \<Rightarrow> 'f app \<Rightarrow> 'f app option" where
  "set_led_retry retry a = map_option (\<lambda>r. a\<lparr>am_led_retry := r\<rparr>) retry"

definition set_touch_retry :: "recovery_policy option \<Rightarrow> 'f app \<Rightarrow> 'f app option" where
  "set_touch_retry retry a = map_option (\<lambda>r. a\<lparr>am_touch_retry := r\<rparr>) retry"

definition set_network_retry :: "recovery_policy option \<Rightarrow> 'f app \<Rightarrow> 'f app option" where
  "set_network_retry retry a = map_option (\<lambda>r. a\<lparr>am_network_retry := r\<rparr>) retry"

text \<open>Rolling the running image back; on success the device restarts in the call.\<close>

definition roll_back :: "'f net_env \<Rightarrow> 'f app \<Rightarrow> 'f app option" where
  "roll_back env a =
     map_option (\<lambda>(err, n). a\<lparr>am_net := n\<rparr>)
       (on_worker env ota_worker_rollback_running (restart_task DIAGNOSTICS_RESTART_ROLLBACK (am_net a)))"

section \<open>A round of the main loop\<close>

text \<open>What one round meets: the ticks read, whether the panel's mutex is free, the fan's
  snapshots read, the interrupts, and the environments of the network and of the touch sensor.\<close>

record 'f turn =
  tn_now :: tick
  tn_env :: "'f net_env"
  tn_stack :: u32
  tn_led_free :: bool
  tn_led_view :: fan_view
  tn_touch :: touch_env
  tn_touch_during :: "(int \<times> bool) list"
  tn_touch_tick :: tick
  tn_touch_moments :: "(int \<times> bool) list list"
  tn_key_free :: bool
  tn_key_pass :: bool
  tn_key_view :: fan_view
  tn_gesture_tick :: tick
  tn_panel_free :: bool
  tn_panel_view :: fan_view
  tn_service_loop :: tick
  tn_service_now :: tick

definition sample_stacks :: "'f turn \<Rightarrow> 'f stage" where
  "sample_stacks tn a = Some
     (if pdMS_TO_TICKS 1000 \<le> tn_now tn - am_last_stack_sample a then
        let free_stack = tn_stack tn * SIZEOF_STACKTYPE
        in (on_net (on_health (service_health_set_stack SERVICE_NETWORK free_stack \<circ>
                               service_health_set_stack SERVICE_TOUCH free_stack \<circ>
                               service_health_set_stack SERVICE_UI free_stack)) a)
             \<lparr>am_last_stack_sample := tn_now tn\<rparr>
      else a)"

text \<open>\<open>leds_init\<close> on the panel's LEDs.\<close>

definition init_leds :: "'f net_env \<Rightarrow> 'f app \<Rightarrow> esp_err \<times> 'f app" where
  "init_leds env a =
     (case leds_init (ne_leds env) (ct_leds (nw_ui (am_net a))) of
        (err, l) \<Rightarrow> (err, on_net (\<lambda>n. n\<lparr>nw_ui := (nw_ui n)\<lparr>ct_leds := l\<rparr>\<rparr>) a))"

definition set_led_available :: "'f turn \<Rightarrow> bool \<Rightarrow> 'f app \<Rightarrow> 'f app option" where
  "set_led_available tn available a =
     map_option snd (with_panel (\<lambda>c. map_sum id (\<lambda>c. ((), c))
       (controller_set_led_available (ne_leds (tn_env tn)) (tn_led_free tn) (tn_led_view tn) available c)) a)"

definition retry_leds :: "'f turn \<Rightarrow> 'f stage" where
  "retry_leds tn a =
     (if \<not> retry_due (am_led_retry a) (tn_now tn) then Some a
      else
        let a = on_net (on_health (service_health_note_restart SERVICE_UI)) a
        in case init_leds (tn_env tn) a of (led_err, a) \<Rightarrow>
          if led_err = ESP_OK
          then map_option (set_health_of SERVICE_UI SERVICE_STATE_READY ESP_OK)
                 (set_led_available tn True (a\<lparr>am_led_retry := retry_succeeded (am_led_retry a)\<rparr>))
          else map_option (set_health_of SERVICE_UI SERVICE_STATE_DEGRADED led_err)
                 (Option.bind (set_led_available tn False a)
                    (\<lambda>a. set_led_retry (retry_failed (tn_now tn) (am_led_retry a)) a)))"

definition retry_touch :: "'f turn \<Rightarrow> 'f stage" where
  "retry_touch tn a =
     (if \<not> retry_due (am_touch_retry a) (tn_now tn) then Some a
      else
        let a = on_net (on_health (service_health_note_restart SERVICE_TOUCH)) a
        in case touch_sens_init (tn_touch tn) (tn_touch_during tn) (am_touch a) of (touch_err, s) \<Rightarrow>
          let a = a\<lparr>am_touch := s\<rparr>
          in if touch_err = ESP_OK
             then Some (set_health_of SERVICE_TOUCH SERVICE_STATE_READY ESP_OK
                          (a\<lparr>am_touch_retry := retry_succeeded (am_touch_retry a)\<rparr>))
             else map_option (set_health_of SERVICE_TOUCH SERVICE_STATE_DEGRADED touch_err)
                    (set_touch_retry (retry_failed (tn_now tn) (am_touch_retry a)) a))"

definition retry_network :: "'f turn \<Rightarrow> 'f stage" where
  "retry_network tn a =
     (if \<not> retry_due (am_network_retry a) (tn_now tn) then Some a
      else
        let a = on_net (on_health (service_health_note_restart SERVICE_NETWORK)) a
        in case network_init (tn_env tn) (am_net a) of (network_err, n) \<Rightarrow>
          let a = a\<lparr>am_net := n\<rparr>
          in if network_err = ESP_OK
             then Some (set_health_of SERVICE_NETWORK SERVICE_STATE_READY ESP_OK
                          (a\<lparr>am_network_retry := retry_succeeded (am_network_retry a)\<rparr>))
             else map_option (set_health_of SERVICE_NETWORK SERVICE_STATE_DEGRADED network_err)
                    (set_network_retry (retry_failed (tn_now tn) (am_network_retry a)) a))"

text \<open>A key: first for the panel, then for the setup gesture.\<close>

definition press_key :: "'f turn \<Rightarrow> u8 \<Rightarrow> 'f stage" where
  "press_key tn key a =
     (case with_panel (\<lambda>c. Inr (controller_handle_key (ne_leds (tn_env tn)) (tn_key_free tn) (tn_key_pass tn)
              (tn_key_view tn) key (tn_now tn) c)) a of
        None \<Rightarrow> None
      | Some (key_err, a) \<Rightarrow>
          (case service_setup_sequence key (tn_now tn) (am_setup a) of (hit, s) \<Rightarrow>
             let a = a\<lparr>am_setup := s\<rparr>
             in Some (if hit then on_net (\<lambda>n. snd (network_start_provisioning (tn_env tn) (tn_gesture_tick tn) n)) a
                      else a)))"

definition local_control :: "'f turn \<Rightarrow> 'f stage" where
  "local_control tn a =
     (case (if rp_ready (am_touch_retry a)
            then touch_sens_get_key_num (tn_touch_tick tn) (tn_touch_moments tn) (am_touch a)
            else (0, am_touch a)) of (key, s) \<Rightarrow>
        let a = a\<lparr>am_touch := s\<rparr>
        in if key \<noteq> 0 \<and> \<not> network_ota_is_busy (am_net a) then press_key tn key a else Some a)"

definition service_panel :: "'f turn \<Rightarrow> 'f stage" where
  "service_panel tn a =
     (case with_panel (controller_service (ne_leds (tn_env tn)) (tn_panel_free tn) (tn_panel_view tn) (tn_now tn)) a of
        None \<Rightarrow> None
      | Some (controller_err, a) \<Rightarrow> Some
          (if controller_err \<noteq> ESP_OK \<and> controller_err \<noteq> ESP_ERR_TIMEOUT
           then set_health_of SERVICE_UI SERVICE_STATE_DEGRADED controller_err a
           else if controller_err = ESP_OK \<and> rp_ready (am_led_retry a)
           then set_health_of SERVICE_UI SERVICE_STATE_READY ESP_OK a else a))"

definition service_network :: "'f turn \<Rightarrow> 'f stage" where
  "service_network tn a = Some (on_net (network_service (tn_env tn) (tn_service_loop tn) (tn_service_now tn)) a)"

text \<open>The probation of a new image: the network is watched, then it is confirmed or rolled back.\<close>

definition watch_network :: "'f turn \<Rightarrow> 'f stage" where
  "watch_network tn a =
     (if am_ota_pending a \<and> network_is_connected (am_net a) then Some (a\<lparr>am_network_seen := True\<rparr>)
      else if am_ota_pending a \<and> am_network_seen a
      then map_option (\<lambda>a. a\<lparr>am_network_seen := False, am_probation_started := tn_now tn\<rparr>)
             (roll_back (tn_env tn) a)
      else Some a)"

definition end_probation :: "'f turn \<Rightarrow> 'f stage" where
  "end_probation tn a =
     (if \<not> (am_ota_pending a \<and> pdMS_TO_TICKS OTA_BOOT_PROBATION_MS \<le> tn_now tn - am_probation_started a)
      then Some a
      else if \<not> network_is_connected (am_net a)
      then map_option (\<lambda>a. a\<lparr>am_probation_started := tn_now tn\<rparr>) (roll_back (tn_env tn) a)
      else case on_worker (tn_env tn) ota_worker_confirm_running (am_net a) of
        None \<Rightarrow> None
      | Some (err, n) \<Rightarrow>
          let a = a\<lparr>am_net := n\<rparr>
          in if err = ESP_OK then Some (a\<lparr>am_ota_pending := False\<rparr>)
             else if err = ESP_ERR_TIMEOUT then Some (a\<lparr>am_probation_started := tn_now tn\<rparr>)
             else roll_back (tn_env tn) a)"

definition main_turn :: "'f turn \<Rightarrow> 'f stage" where
  "main_turn tn =
     run_stages [sample_stacks, retry_leds, retry_touch, retry_network, local_control, service_panel,
                 service_network, watch_network, end_probation] (\<lambda>stage. stage tn)"

section \<open>Boot\<close>

record 'f boot =
  bt_reset :: reset_reason
  bt_now_us :: us_time
  bt_fan_env :: fan_init_env
  bt_fan_task :: "fan_sys \<Rightarrow> fan_sys"
  bt_diag_task :: bool
  bt_worker :: worker_env
  bt_turn :: "'f turn"
  bt_ui_created :: bool
  bt_ui_view :: fan_view
  bt_probation_tick :: tick

abbreviation bt_env :: "'f boot \<Rightarrow> 'f net_env" where
  "bt_env bt \<equiv> tn_env (bt_turn bt)"

text \<open>The statics at power-on: the network's, with the fan and worker not started, and the driver's.\<close>

definition app_power_on :: "'f network \<Rightarrow> touch_state \<Rightarrow> 'f app" where
  "app_power_on n s =
     (let retry = \<lparr>rp_ready = False, rp_backoff_index = 0, rp_retry_at = 0\<rparr>
      in \<lparr>am_net = n, am_touch = s, am_setup = setup_power_on, am_led_retry = retry, am_touch_retry = retry,
          am_network_retry = retry, am_ota_pending = False, am_network_seen = False,
          am_probation_started = 0, am_last_stack_sample = 0\<rparr>)"

text \<open>Up to the fan: a failure of its initialisation aborts (\<open>ESP_ERROR_CHECK\<close>).\<close>

definition boot_fan :: "'f boot \<Rightarrow> 'f stage" where
  "boot_fan bt a =
     (let n = set_fan ((net_fan (am_net a))\<lparr>fs_diag := diagnostics_init (bt_reset bt) (bt_now_us bt)
                          (fs_diag (net_fan (am_net a))), fs_health := service_health_init\<rparr>) (am_net a);
          n = on_health (\<lambda>_. service_health_init) n;
          pending = ota_update_boot_is_pending (ne_ota (bt_env bt)) (ow_ota (nw_worker n))
      in case fan_control_init (bt_fan_env bt) (bt_fan_task bt) (net_fan n) of (err, f) \<Rightarrow>
        if err \<noteq> ESP_OK then None
        else Some (a\<lparr>am_net := set_fan f n, am_ota_pending := pending\<rparr>))"

text \<open>The diagnostics task, then the OTA worker, whose task starts once it is created.\<close>

definition boot_tasks :: "'f boot \<Rightarrow> 'f stage" where
  "boot_tasks bt a =
     (case diagnostics_start (bt_diag_task bt) (fs_diag (net_fan (am_net a))) (ow_health (nw_worker (am_net a))) of
        (diagnostics_err, d, h) \<Rightarrow>
          let n = on_health (\<lambda>_. h) (set_fan ((net_fan (am_net a))\<lparr>fs_diag := d\<rparr>) (am_net a))
          in case ota_worker_init (bt_worker bt) (nw_worker n) of (ota_worker_err, w) \<Rightarrow>
            Some (a\<lparr>am_net := n\<lparr>nw_worker := if ota_worker_err = ESP_OK
                                              then ota_worker_task_start (ne_ota (bt_env bt)) w else w\<rparr>\<rparr>))"

definition boot_leds :: "'f boot \<Rightarrow> 'f stage" where
  "boot_leds bt a =
     (case init_leds (bt_env bt) a of (led_err, a) \<Rightarrow>
        Option.bind (set_led_available (bt_turn bt) (led_err = ESP_OK) a) (\<lambda>a.
          if led_err = ESP_OK
          then Some (set_health_of SERVICE_UI SERVICE_STATE_STARTING ESP_OK
                       (a\<lparr>am_led_retry := retry_succeeded (am_led_retry a)\<rparr>))
          else map_option (set_health_of SERVICE_UI SERVICE_STATE_DEGRADED led_err)
                 (set_led_retry (retry_failed (tn_now (bt_turn bt)) (am_led_retry a)) a)))"

definition boot_panel :: "'f boot \<Rightarrow> 'f stage" where
  "boot_panel bt a =
     map_option (\<lambda>(controller_err, a).
         set_health_of SERVICE_UI (if controller_err = ESP_OK then SERVICE_STATE_READY else SERVICE_STATE_DEGRADED)
           controller_err a)
       (with_panel (controller_init (ne_leds (bt_env bt)) (bt_ui_created bt) (bt_ui_view bt)) a)"

definition boot_touch :: "'f boot \<Rightarrow> 'f stage" where
  "boot_touch bt a =
     (case touch_sens_init (tn_touch (bt_turn bt)) (tn_touch_during (bt_turn bt)) (am_touch a) of (touch_err, s) \<Rightarrow>
        let a = a\<lparr>am_touch := s\<rparr>
        in if touch_err = ESP_OK
           then Some (set_health_of SERVICE_TOUCH SERVICE_STATE_READY ESP_OK
                        (a\<lparr>am_touch_retry := retry_succeeded (am_touch_retry a)\<rparr>))
           else map_option (set_health_of SERVICE_TOUCH SERVICE_STATE_DEGRADED touch_err)
                  (set_touch_retry (retry_failed (tn_now (bt_turn bt)) (am_touch_retry a)) a))"

definition boot_network :: "'f boot \<Rightarrow> 'f stage" where
  "boot_network bt a =
     (case network_init (bt_env bt) (am_net a) of (network_err, n) \<Rightarrow>
        let a = a\<lparr>am_net := n\<rparr>
        in if network_err = ESP_OK then Some (a\<lparr>am_network_retry := retry_succeeded (am_network_retry a)\<rparr>)
           else
             Option.bind (map_option (set_health_of SERVICE_NETWORK SERVICE_STATE_DEGRADED network_err)
                (set_network_retry (retry_failed (tn_now (bt_turn bt)) (am_network_retry a))
                   (on_net (set_network_status (bt_env bt) CONTROLLER_NETWORK_OFFLINE) a)))
               (\<lambda>a. if am_ota_pending a then roll_back (bt_env bt) a else Some a))"

definition boot_probation :: "'f boot \<Rightarrow> 'f stage" where
  "boot_probation bt a = Some (a\<lparr>am_probation_started := bt_probation_tick bt, am_network_seen := False\<rparr>)"

definition app_boot :: "'f boot \<Rightarrow> 'f stage" where
  "app_boot bt =
     run_stages [boot_fan, boot_tasks, boot_leds, boot_panel, boot_touch, boot_network, boot_probation]
       (\<lambda>stage. stage bt)"

end
