(* ===== verification/AppRun.thy ===== *)
theory AppRun
  imports AppMain
begin

text \<open>
  What the parts of \<open>main/main.c\<close> keep: the panel's calls return and reach the fan only as
  commands, every stage of a round goes on and keeps the application sound (\<open>goes_on\<close>), and the two
  calls of the worker that end a probation return.
\<close>

section \<open>The panel's calls return and leave the fan to the fan\<close>

definition leaves_fan :: "controller op \<Rightarrow> bool" where
  "leaves_fan f \<longleftrightarrow> (\<forall>c. ct_fan (snd (f c)) = ct_fan c)"

named_theorems fan_frames "operations of the panel that leave the fan alone"

lemma leaves_fanD: "leaves_fan f \<Longrightarrow> f c = (err, c') \<Longrightarrow> ct_fan c' = ct_fan c"
  by (metis leaves_fan_def snd_conv)

lemma leaves_run [fan_frames]:
  "(\<And>f. f \<in> set fs \<Longrightarrow> leaves_fan f) \<Longrightarrow> leaves_fan (return_on_errors fs)"
  unfolding leaves_fan_def by (intro allI return_on_errors_inv [of fs "\<lambda>d. ct_fan d = ct_fan _"]) auto

lemma leaves_leds [fan_frames]: "leaves_fan (on_leds f)"
  by (simp add: leaves_fan_def on_leds_def split_beta)

lemma leaves_mark [fan_frames]: "leaves_fan (mark_rendered fan)"
  by (simp add: leaves_fan_def mark_rendered_def)

lemma leaves_network [fan_frames]: "leaves_fan (apply_network_led_locked drv)"
  by (auto simp: leaves_fan_def apply_network_led_locked_def on_leds_def split_beta)

lemma leaves_brightness [fan_frames]:
  "leaves_fan (apply_led_brightness_locked drv b)" "leaves_fan (set_led_brightness_locked drv b)"
  "leaves_fan (wake_led_brightness_locked drv now)" "leaves_fan (service_led_wake_locked drv now)"
proof -
  show duty: "leaves_fan (apply_led_brightness_locked drv b)" for b
    by (auto simp: leaves_fan_def apply_led_brightness_locked_def on_leds_def split_beta)
  show "leaves_fan (set_led_brightness_locked drv b)" "leaves_fan (wake_led_brightness_locked drv now)"
    "leaves_fan (service_led_wake_locked drv now)"
    using duty
    by (auto simp: leaves_fan_def set_led_brightness_locked_def wake_led_brightness_locked_def service_led_wake_locked_def
        on_leds_def split_beta Let_def)
qed

lemma leaves_network_service [fan_frames]: "leaves_fan (service_network_led_locked drv now)"
  using leaves_network by (auto simp: leaves_fan_def service_network_led_locked_def split: option.split)

lemma length_timer_map: "length s_fan_shutoff_led_map = 4"
  by (simp add: s_fan_shutoff_led_map_def)

lemma render_returns:
  assumes "fc_shutoff_mode fan < NUM_FAN_SHUTOFF_MODES"
  shows "\<exists>err c'. render_status_leds_locked drv fan c = Inr (err, c') \<and> ct_fan c' = ct_fan c"
proof -
  have "unat (fc_shutoff_mode fan) < 4" using assms by (simp add: word_less_nat_alt)
  then have "\<exists>steps. status_leds drv fan = Inr steps \<and> (\<forall>f \<in> set steps. leaves_fan f)"
    by (simp add: status_leds_def length_timer_map not_le Let_def leaves_leds)
  then obtain steps where steps: "status_leds drv fan = Inr steps" "\<forall>f \<in> set steps. leaves_fan f" by blast
  then have "leaves_fan (return_on_errors (on_leds (all_leds_off drv) # steps @ [mark_rendered fan, apply_network_led_locked drv]))"
    by (intro leaves_run) (auto simp: fan_frames)
  then show ?thesis
    using leaves_mark [of fan] steps(1)
    by (auto simp: render_status_leds_locked_def leaves_fan_def mark_rendered_def prod_eq_iff)
qed

lemma view_timer: "view_ok view \<Longrightarrow> snd view = Some fan \<Longrightarrow> fc_shutoff_mode fan < NUM_FAN_SHUTOFF_MODES"
  by (simp add: view_ok_def)

lemma service_returns:
  assumes "view_ok view"
  shows "\<exists>err c'. controller_service drv free view now c = Inr (err, c') \<and> ct_fan c' = ct_fan c"
proof -
  let ?ops = "[service_led_wake_locked drv now, service_network_led_locked drv now]"
  obtain err d where d: "return_on_errors ?ops c = (err, d)" by (cases "return_on_errors ?ops c")
  have "leaves_fan (return_on_errors ?ops)" by (rule leaves_run) (auto simp: fan_frames)
  then have fan: "ct_fan d = ct_fan c" using d by (rule leaves_fanD)
  obtain e view' where v: "view = (e, view')" by (cases view)
  show ?thesis
  proof (cases view')
    case (Some s)
    then obtain e2 c2 where "render_status_leds_locked drv s d = Inr (e2, c2)" "ct_fan c2 = ct_fan d"
      using render_returns view_timer [OF assms] v by fastforce
    then show ?thesis using fan d by (simp add: controller_service_def v Some)
  qed (use fan d in \<open>simp add: controller_service_def v\<close>)
qed

lemma available_returns:
  assumes "view_ok view"
  shows "\<exists>c'. controller_set_led_available drv free view b c = Inr c' \<and> ct_fan c' = ct_fan c"
proof -
  let ?c = "c\<lparr>ct_led_available := b\<rparr>"
  obtain err d where d: "apply_led_brightness_locked drv (ui_led_brightness (ct_ui ?c)) ?c = (err, d)" by fastforce
  have fan: "ct_fan d = ct_fan c" using leaves_fanD [OF leaves_brightness(1) d] by simp
  obtain e view' where v: "view = (e, view')" by (cases view)
  show ?thesis
  proof (cases view')
    case (Some s)
    then obtain e2 c2 where "render_status_leds_locked drv s d = Inr (e2, c2)" "ct_fan c2 = ct_fan d"
      using render_returns view_timer [OF assms] v by fastforce
    then show ?thesis using fan d by (cases b) (simp_all add: controller_set_led_available_def v Some Let_def)
  qed (use fan d in \<open>cases b; simp add: controller_set_led_available_def v Let_def\<close>)
qed

lemma controller_init_returns:
  assumes "view_ok view"
  shows "\<exists>err c'. controller_init drv created view c = Inr (err, c') \<and> ct_fan c' = ct_fan c"
proof -
  let ?c = "c\<lparr>ct_lock := True, ct_ui := initial_ui\<rparr>"
  obtain err d where d: "set_led_brightness_locked drv LED_BRIGHTNESS_HIGH ?c = (err, d)" by fastforce
  have fan: "ct_fan d = ct_fan c" using leaves_fanD [OF leaves_brightness(2) d] by simp
  obtain e view' where v: "view = (e, view')" by (cases view)
  show ?thesis
  proof (cases view')
    case (Some s)
    then obtain e2 c2 where "render_status_leds_locked drv s d = Inr (e2, c2)" "ct_fan c2 = ct_fan d"
      using render_returns view_timer [OF assms] v by fastforce
    then show ?thesis using fan d by (simp add: controller_init_def v Some Let_def)
  qed (use fan d in \<open>simp add: controller_init_def v Let_def\<close>)
qed

text \<open>A key reaches the fan as a command of a client.\<close>

lemma submit_action_env:
  assumes "fan_control_submit_action pass view action s = (err, sequence, s')"
  shows "s' = s \<or> fan_env False drv s s'"
proof -
  let ?c = "\<lparr>cmd_action = action, cmd_speed = FAN_SPEED_OFF, cmd_source = FAN_CONTROL_SOURCE_TOUCH,
    cmd_cancel_timer = False, cmd_sequence = 0\<rparr>"
  have "s' = s \<or> s' = s\<lparr>fs_rejected_commands := fs_rejected_commands s + 1\<rparr> \<or>
      \<not> FAN_CONTROL_ACTION_CYCLE_TIMER < action \<and> s' = snd (snd (submit_locked pass ?c s))"
    using assms by (auto simp: fan_control_submit_action_def submit_command_def not_le split: if_splits option.splits prod.splits)
  then show ?thesis
    using env_client [OF refuse_step [of s], of False drv] env_client [OF submit_step [of ?c s pass], of False drv]
    by (auto simp: valid_command_def not_less)
qed

definition moves_fan :: "gpio_driver \<Rightarrow> fan_sys \<Rightarrow> fan_sys \<Rightarrow> bool" where
  "moves_fan drv f f' \<longleftrightarrow> f' = f \<or> fan_env False drv f f'"

lemma key_command_fan: "moves_fan drv (ct_fan c) (ct_fan (snd (key_command led pass view key c)))"
proof -
  have "moves_fan drv (ct_fan c) f" if "fan_control_submit_action pass view action (ct_fan c) = (err, seq, f)"
    for action err seq f
    using submit_action_env [OF that] by (simp add: moves_fan_def)
  then have action: "moves_fan drv (ct_fan c) (ct_fan (snd (case fan_control_submit_action pass view action (ct_fan c) of
      (err, _, fan) \<Rightarrow> (err, c\<lparr>ct_fan := fan\<rparr>))))" for action
    by (auto split: prod.split)
  have "ct_fan (snd (set_led_brightness_locked led b c)) = ct_fan c" for b
    using leaves_brightness(2) by (simp add: leaves_fan_def)
  then have "moves_fan drv (ct_fan c) (ct_fan (snd (set_led_brightness_locked led b c)))" for b
    by (simp add: moves_fan_def)
  then show ?thesis using action by (simp add: key_command_def moves_fan_def [of _ "ct_fan c" "ct_fan c"])
qed

lemma key_moves_fan:
  assumes "controller_handle_key led free pass view key now c = (err, c')"
  shows "moves_fan drv (ct_fan c) (ct_fan c')"
proof -
  let ?i = "unat (key - 1)" and ?ui = "ct_ui c"
  let ?c = "c\<lparr>ct_ui := ?ui\<lparr>ui_last_key_tick := (ui_last_key_tick ?ui)[?i := now],
    ui_has_key_tick := (ui_has_key_tick ?ui)[?i := True]\<rparr>\<rparr>"
  obtain e c1 where k: "key_command led pass view key ?c = (e, c1)" by fastforce
  have moved: "moves_fan drv (ct_fan c) (ct_fan c1)" using key_command_fan [of drv ?c led pass view key] k by simp
  have "snd (controller_handle_key led free pass view key now c) \<in> {c, c1, snd (wake_led_brightness_locked led now c1)}"
    by (simp add: controller_handle_key_def Let_def k)
  then have "c' \<in> {c, c1, snd (wake_led_brightness_locked led now c1)}" using assms by simp
  moreover have "ct_fan (snd (wake_led_brightness_locked led now c1)) = ct_fan c1"
    using leaves_brightness(3) by (simp add: leaves_fan_def)
  ultimately have "ct_fan c' = ct_fan c \<or> ct_fan c' = ct_fan c1" by auto
  then show ?thesis using moved by (auto simp: moves_fan_def)
qed

section \<open>The application's invariant\<close>

definition app_ok :: "pads \<Rightarrow> 'f app \<Rightarrow> bool" where
  "app_ok p0 a \<longleftrightarrow> net_holds False p0 [] (am_net a) \<and> recovery_inv (am_led_retry a) \<and>
     recovery_inv (am_touch_retry a) \<and> recovery_inv (am_network_retry a)"

text \<open>What the stages before the probation's leave alone.\<close>

definition same_probation :: "'f app \<Rightarrow> 'f app \<Rightarrow> bool" where
  "same_probation a a' \<longleftrightarrow> am_ota_pending a' = am_ota_pending a \<and>
     am_probation_started a' = am_probation_started a \<and> am_network_seen a' = am_network_seen a \<and>
     ow_busy (nw_worker (am_net a')) = ow_busy (nw_worker (am_net a))"

lemma same_trans: "same_probation a b \<Longrightarrow> same_probation b c \<Longrightarrow> same_probation a c"
  by (simp add: same_probation_def)

lemma same_refl [simp]: "same_probation a a"
  by (simp add: same_probation_def)

text \<open>A stage that goes on, keeps the application sound and does not touch the probation.\<close>

definition goes_on :: "pads \<Rightarrow> 'f stage \<Rightarrow> bool" where
  "goes_on p0 f \<longleftrightarrow> (\<forall>a. app_ok p0 a \<longrightarrow> (\<exists>a'. f a = Some a' \<and> app_ok p0 a' \<and> same_probation a a'))"

lemma goes_onI: "(\<And>a. app_ok p0 a \<Longrightarrow> \<exists>a'. f a = Some a' \<and> app_ok p0 a' \<and> same_probation a a') \<Longrightarrow> goes_on p0 f"
  by (simp add: goes_on_def)

lemma goes_onE:
  assumes "goes_on p0 f" and "app_ok p0 a"
  obtains a' where "f a = Some a'" "app_ok p0 a'" "same_probation a a'"
  using assms by (auto simp: goes_on_def)

lemma run_stages_on:
  "(\<And>s. s \<in> set ss \<Longrightarrow> goes_on p0 (f s)) \<Longrightarrow> goes_on p0 (run_stages ss f)"
proof (induction ss)
  case (Cons s ss)
  then have s: "goes_on p0 (f s)" and ss: "goes_on p0 (run_stages ss f)" by simp_all
  show ?case
  proof (rule goes_onI)
    fix a :: "'b app" assume "app_ok p0 a"
    with s obtain b where b: "f s a = Some b" "app_ok p0 b" "same_probation a b" by (rule goes_onE)
    with ss obtain c where "run_stages ss f b = Some c" "app_ok p0 c" "same_probation b c" by (metis goes_onE)
    then show "\<exists>a'. run_stages (s # ss) f a = Some a' \<and> app_ok p0 a' \<and> same_probation a a'"
      using b same_trans by auto
  qed
qed (simp add: goes_on_def)

lemma on_net_ok: "app_ok p0 a \<Longrightarrow> calm (am_net a) (g (am_net a)) \<Longrightarrow> app_ok p0 (on_net g a)"
  by (auto simp: app_ok_def on_net_def intro: calm_holds)

lemma on_net_same [simp]: "calm (am_net a) (g (am_net a)) \<Longrightarrow> same_probation a (on_net g a)"
  by (auto simp: same_probation_def on_net_def calm_def)

lemma health_same [simp]: "same_probation a (set_health_of service st err a)"
  by (simp add: set_health_of_def)

lemma health_of_ok [simp]: "app_ok p0 (set_health_of service st err a) \<longleftrightarrow> app_ok p0 a"
  by (auto simp: set_health_of_def app_ok_def on_net_def net_holds_def on_health_def wf_net_def
      ofan.safe_def idle_queues_def)

lemma net_cong_ok: "app_ok p0 a \<Longrightarrow> calm (am_net a) n \<Longrightarrow> app_ok p0 (a\<lparr>am_net := n\<rparr>)"
  by (auto simp: app_ok_def intro: calm_holds)

text \<open>The retry timers.\<close>

lemma retry_failed_ok:
  assumes "recovery_inv r"
  obtains q where "retry_failed now r = Some q" "recovery_inv q"
proof -
  have "(configTICK_RATE_HZ :: u32) \<noteq> 0" by simp
  with assms obtain q where "recovery_policy_mark_failed (Some r) now configTICK_RATE_HZ = Inr (Some q)" "recovery_inv q"
    by (rule mark_failed_inv)
  then show thesis using that by (simp add: retry_failed_def)
qed

lemma retry_succeeded_ok [simp]: "recovery_inv (retry_succeeded r)"
  by (simp add: retry_succeeded_def recovery_policy_mark_ready_def recovery_inv_def)

lemma panel_call_ok:
  assumes "app_ok p0 a"
    and "f (panel_of (am_net a)) = Inr (r, c)" and "moves_fan drv (net_fan (am_net a)) (ct_fan c)"
  shows "\<exists>a'. with_panel f a = Some (r, a') \<and> app_ok p0 a' \<and> same_probation a a'"
proof -
  let ?n = "(am_net a)\<lparr>nw_ui := c\<rparr>"
  have "net_holds False p0 [] ?n" by (rule calm_holds [OF calm_ui]) (use assms(1) in \<open>simp add: app_ok_def\<close>)
  moreover have "net_fan ?n = net_fan (am_net a)" by (simp add: net_fan_def)
  ultimately have "net_holds False p0 [] (set_fan (ct_fan c) ?n)"
    using fan_env_holds [of False p0 "[]" ?n "ct_fan c" drv] assms(3) by (simp add: moves_fan_def)
  then show ?thesis using assms(1,2) by (simp add: with_panel_def app_ok_def on_net_def same_probation_def set_fan_def)
qed

lemma panel_call_frame:
  assumes "app_ok p0 a" and "f (panel_of (am_net a)) = Inr (r, c)" and "ct_fan c = ct_fan (panel_of (am_net a))"
  shows "\<exists>a'. with_panel f a = Some (r, a') \<and> app_ok p0 a' \<and> same_probation a a'"
  using panel_call_ok [of p0 a f r c, OF assms(1,2)] assms(3) by (simp add: moves_fan_def panel_of_def)

section \<open>The stages of a round\<close>

definition turn_ok :: "gpio_driver \<Rightarrow> 'f turn \<Rightarrow> bool" where
  "turn_ok drv tn \<longleftrightarrow> real_fan (tn_env tn) drv \<and> view_ok (tn_led_view tn) \<and> view_ok (tn_panel_view tn)"

lemma set_retry_ok:
  assumes "app_ok p0 a" and "recovery_inv r"
  shows "app_ok p0 (a\<lparr>am_led_retry := r\<rparr>)" "app_ok p0 (a\<lparr>am_touch_retry := r\<rparr>)"
    "app_ok p0 (a\<lparr>am_network_retry := r\<rparr>)"
  using assms by (simp_all add: app_ok_def)

lemma set_retry_on:
  fixes a :: "'f app"
  assumes "app_ok p0 a"
  shows "\<exists>b. set_led_retry (retry_failed now (am_led_retry a)) a = Some b \<and> app_ok p0 b \<and> same_probation a b"
    and "\<exists>b. set_touch_retry (retry_failed now (am_touch_retry a)) a = Some b \<and> app_ok p0 b \<and> same_probation a b"
    and "\<exists>b. set_network_retry (retry_failed now (am_network_retry a)) a = Some b \<and> app_ok p0 b \<and> same_probation a b"
proof -
  have inv: "recovery_inv (am_led_retry a)" "recovery_inv (am_touch_retry a)" "recovery_inv (am_network_retry a)"
    using assms by (simp_all add: app_ok_def)
  show "\<exists>b. set_led_retry (retry_failed now (am_led_retry a)) a = Some b \<and> app_ok p0 b \<and> same_probation a b"
    by (rule retry_failed_ok [OF inv(1), of now]) (simp add: set_led_retry_def set_retry_ok [OF assms] same_probation_def)
  show "\<exists>b. set_touch_retry (retry_failed now (am_touch_retry a)) a = Some b \<and> app_ok p0 b \<and> same_probation a b"
    by (rule retry_failed_ok [OF inv(2), of now]) (simp add: set_touch_retry_def set_retry_ok [OF assms] same_probation_def)
  show "\<exists>b. set_network_retry (retry_failed now (am_network_retry a)) a = Some b \<and> app_ok p0 b \<and> same_probation a b"
    by (rule retry_failed_ok [OF inv(3), of now]) (simp add: set_network_retry_def set_retry_ok [OF assms] same_probation_def)
qed

lemma retries_on:
  "goes_on p0 (\<lambda>a. set_led_retry (retry_failed now (am_led_retry a)) a)"
  "goes_on p0 (\<lambda>a. set_touch_retry (retry_failed now (am_touch_retry a)) a)"
  "goes_on p0 (\<lambda>a. set_network_retry (retry_failed now (am_network_retry a)) a)"
  by (rule goes_onI, erule set_retry_on)+

text \<open>Building blocks: assignments that always go on, and one stage after another.\<close>

lemma goes_on_some: "(\<And>a. app_ok p0 a \<Longrightarrow> app_ok p0 (g a) \<and> same_probation a (g a)) \<Longrightarrow> goes_on p0 (\<lambda>a. Some (g a))"
  by (simp add: goes_on_def)

lemma goes_on_map:
  assumes "goes_on p0 f" and "\<And>a. app_ok p0 a \<Longrightarrow> app_ok p0 (g a) \<and> same_probation a (g a)"
  shows "goes_on p0 (\<lambda>a. map_option g (f a))"
  using assms same_trans unfolding goes_on_def by fastforce

lemma goes_on_bind:
  assumes "goes_on p0 f" and "goes_on p0 g"
  shows "goes_on p0 (\<lambda>a. Option.bind (f a) g)"
  using assms same_trans unfolding goes_on_def by fastforce

lemma goes_on_health: "goes_on p0 f \<Longrightarrow> goes_on p0 (\<lambda>a. map_option (set_health_of st service err) (f a))"
  by (rule goes_on_map) simp_all

lemma init_leds_ok: "init_leds env a = (err, b) \<Longrightarrow> app_ok p0 a \<Longrightarrow> app_ok p0 b \<and> same_probation a b"
  by (auto simp: init_leds_def on_net_ok split: prod.splits)

lemma available_on:
  fixes tn :: "'a turn"
  shows "turn_ok drv tn \<Longrightarrow> goes_on p0 (set_led_available tn b)"
proof (rule goes_onI)
  fix a :: "'a app" assume tn: "turn_ok drv tn" and a: "app_ok p0 a"
  let ?f = "controller_set_led_available (ne_leds (tn_env tn)) (tn_led_free tn) (tn_led_view tn) b"
  obtain c where "?f (panel_of (am_net a)) = Inr c" "ct_fan c = ct_fan (panel_of (am_net a))"
    using available_returns tn unfolding turn_ok_def by blast
  then show "\<exists>a'. set_led_available tn b a = Some a' \<and> app_ok p0 a' \<and> same_probation a a'"
    using panel_call_frame [OF a, of "\<lambda>c. map_sum id (\<lambda>c. ((), c)) (?f c)" "()" c]
    by (auto simp: set_led_available_def)
qed

lemma sample_on: "goes_on p0 (sample_stacks tn)"
  by (auto simp: goes_on_def sample_stacks_def Let_def same_probation_def on_net_def app_ok_def on_health_def
      net_holds_def wf_net_def ofan.safe_def idle_queues_def)

text \<open>A retry: the health table notes it, the part is initialised, the timer is set.\<close>

lemma note_restart_ok [simp]:
  "app_ok p0 a \<Longrightarrow> app_ok p0 (on_net (on_health g) a)"
  by (rule on_net_ok) simp_all

lemma goes_on_from: "goes_on p0 g \<Longrightarrow> app_ok p0 b \<Longrightarrow> same_probation a b \<Longrightarrow>
    \<exists>a'. g b = Some a' \<and> app_ok p0 a' \<and> same_probation a a'"
  using same_trans unfolding goes_on_def by blast

lemma retry_leds_on:
  fixes tn :: "'a turn"
  shows "turn_ok drv tn \<Longrightarrow> goes_on p0 (retry_leds tn)"
proof (rule goes_onI)
  fix a :: "'a app" assume tn: "turn_ok drv tn" and a: "app_ok p0 a"
  let ?b = "on_net (on_health (service_health_note_restart SERVICE_UI)) a"
  obtain err c where c: "init_leds (tn_env tn) ?b = (err, c)" by fastforce
  have ok: "app_ok p0 c" "same_probation a c"
    using init_leds_ok [OF c, of p0] a same_trans [of a ?b c] by auto
  let ?good = "\<lambda>a. map_option (set_health_of SERVICE_UI SERVICE_STATE_READY ESP_OK) (set_led_available tn True a)"
  let ?bad = "\<lambda>a. map_option (set_health_of SERVICE_UI SERVICE_STATE_DEGRADED err)
    (Option.bind (set_led_available tn False a) (\<lambda>a. set_led_retry (retry_failed (tn_now tn) (am_led_retry a)) a))"
  have on: "goes_on p0 ?good" "goes_on p0 ?bad"
    by (intro goes_on_health goes_on_bind available_on [OF tn] retries_on)+
  have "app_ok p0 (c\<lparr>am_led_retry := retry_succeeded (am_led_retry c)\<rparr>)"
    "same_probation a (c\<lparr>am_led_retry := retry_succeeded (am_led_retry c)\<rparr>)"
    using ok by (simp_all add: set_retry_ok same_probation_def)
  note up = goes_on_from [OF on(1) this] and down = goes_on_from [OF on(2) ok]
  show "\<exists>a'. retry_leds tn a = Some a' \<and> app_ok p0 a' \<and> same_probation a a'"
    using a up down by (simp add: retry_leds_def Let_def c)
qed

lemma health_from: "app_ok p0 b \<Longrightarrow> same_probation a b \<Longrightarrow>
    \<exists>a'. Some (set_health_of service st err b) = Some a' \<and> app_ok p0 a' \<and> same_probation a a'"
  using same_trans [OF _ health_same] by auto

lemma touch_ok: "app_ok p0 a \<Longrightarrow> app_ok p0 (a\<lparr>am_touch := s\<rparr>)" "same_probation a (a\<lparr>am_touch := s\<rparr>)"
  by (simp_all add: app_ok_def same_probation_def)

lemma retry_touch_on:
  fixes tn :: "'f turn"
  shows "goes_on p0 (retry_touch tn)"
proof (rule goes_onI)
  fix a :: "'f app" assume a: "app_ok p0 a"
  let ?b = "on_net (on_health (service_health_note_restart SERVICE_TOUCH)) a"
  obtain err s where s: "touch_sens_init (tn_touch tn) (tn_touch_during tn) (am_touch ?b) = (err, s)" by fastforce
  let ?c = "?b\<lparr>am_touch := s\<rparr>"
  have ok: "app_ok p0 ?c" "same_probation a ?c"
    using a by (simp_all add: touch_ok) (simp add: same_probation_def on_net_def on_health_def)
  let ?d = "?c\<lparr>am_touch_retry := retry_succeeded (am_touch_retry ?c)\<rparr>"
  let ?bad = "\<lambda>a. map_option (set_health_of SERVICE_TOUCH SERVICE_STATE_DEGRADED err)
    (set_touch_retry (retry_failed (tn_now tn) (am_touch_retry a)) a)"
  have "goes_on p0 ?bad" by (intro goes_on_health retries_on)
  note down = goes_on_from [OF this ok]
  have "app_ok p0 ?d" by (rule set_retry_ok(2) [OF ok(1) retry_succeeded_ok])
  moreover have "same_probation ?c ?d" by (simp add: same_probation_def)
  then have "same_probation a ?d" by (rule same_trans [OF ok(2)])
  ultimately have up: "\<exists>a'. Some (set_health_of SERVICE_TOUCH SERVICE_STATE_READY ESP_OK ?d) = Some a' \<and>
      app_ok p0 a' \<and> same_probation a a'" by (rule health_from)
  then show "\<exists>a'. retry_touch tn a = Some a' \<and> app_ok p0 a' \<and> same_probation a a'"
    using a up down by (simp add: retry_touch_def Let_def s)
qed

lemma retry_network_on:
  fixes tn :: "'f turn"
  shows "goes_on p0 (retry_network tn)"
proof (rule goes_onI)
  fix a :: "'f app" assume a: "app_ok p0 a"
  let ?b = "on_net (on_health (service_health_note_restart SERVICE_NETWORK)) a"
  obtain err n where n: "network_init (tn_env tn) (am_net ?b) = (err, n)" by fastforce
  let ?c = "?b\<lparr>am_net := n\<rparr>"
  have "calm (am_net ?b) n" using calm_network_init n by (metis snd_conv)
  then have ok: "app_ok p0 ?c" "same_probation a ?c"
    using a by (simp_all add: net_cong_ok) (auto simp: same_probation_def on_net_def on_health_def calm_def)
  let ?d = "?c\<lparr>am_network_retry := retry_succeeded (am_network_retry ?c)\<rparr>"
  let ?bad = "\<lambda>a. map_option (set_health_of SERVICE_NETWORK SERVICE_STATE_DEGRADED err)
    (set_network_retry (retry_failed (tn_now tn) (am_network_retry a)) a)"
  have "goes_on p0 ?bad" by (intro goes_on_health retries_on)
  note down = goes_on_from [OF this ok]
  have "app_ok p0 ?d" by (rule set_retry_ok(3) [OF ok(1) retry_succeeded_ok])
  moreover have "same_probation ?c ?d" by (simp add: same_probation_def)
  then have "same_probation a ?d" by (rule same_trans [OF ok(2)])
  ultimately have up: "\<exists>a'. Some (set_health_of SERVICE_NETWORK SERVICE_STATE_READY ESP_OK ?d) = Some a' \<and>
      app_ok p0 a' \<and> same_probation a a'" by (rule health_from)
  then show "\<exists>a'. retry_network tn a = Some a' \<and> app_ok p0 a' \<and> same_probation a a'"
    using a up down by (simp add: retry_network_def Let_def n)
qed

lemma press_key_on:
  fixes tn :: "'f turn"
  shows "goes_on p0 (press_key tn key)"
proof (rule goes_onI)
  fix a :: "'f app" assume a: "app_ok p0 a"
  let ?f = "controller_handle_key (ne_leds (tn_env tn)) (tn_key_free tn) (tn_key_pass tn) (tn_key_view tn) key (tn_now tn)"
  obtain err c where c: "?f (panel_of (am_net a)) = (err, c)" by fastforce
  have "moves_fan drv (net_fan (am_net a)) (ct_fan c)" for drv
    using key_moves_fan [OF c, of drv] by (simp add: panel_of_def)
  then obtain b where b: "with_panel (\<lambda>c. Inr (?f c)) a = Some (err, b)" "app_ok p0 b" "same_probation a b"
    using panel_call_ok [OF a, of "\<lambda>c. Inr (?f c)" err c] c by auto
  obtain hit s where s: "service_setup_sequence key (tn_now tn) (am_setup b) = (hit, s)" by fastforce
  let ?c = "b\<lparr>am_setup := s\<rparr>"
  let ?d = "on_net (\<lambda>n. snd (network_start_provisioning (tn_env tn) (tn_gesture_tick tn) n)) ?c"
  have c: "app_ok p0 ?c" "same_probation b ?c" using b(2) by (simp_all add: app_ok_def same_probation_def)
  have "app_ok p0 ?d" by (rule on_net_ok [OF c(1)]) simp
  moreover have "same_probation a ?c" by (rule same_trans [OF b(3) c(2)])
  moreover from this have "same_probation a ?d" by (rule same_trans) simp
  ultimately show "\<exists>a'. press_key tn key a = Some a' \<and> app_ok p0 a' \<and> same_probation a a'"
    using b(1) c(1) by (simp add: press_key_def Let_def s)
qed

lemma local_control_on:
  fixes tn :: "'f turn"
  shows "goes_on p0 (local_control tn)"
proof (rule goes_onI)
  fix a :: "'f app" assume a: "app_ok p0 a"
  obtain key s where s: "(if rp_ready (am_touch_retry a)
      then touch_sens_get_key_num (tn_touch_tick tn) (tn_touch_moments tn) (am_touch a) else (0, am_touch a)) = (key, s)"
    by fastforce
  note ok = touch_ok(1) [OF a, of s] touch_ok(2) [of a s]
  show "\<exists>a'. local_control tn a = Some a' \<and> app_ok p0 a' \<and> same_probation a a'"
    unfolding local_control_def s Let_def prod.case using goes_on_from [OF press_key_on ok] ok by simp
qed

lemma service_panel_on:
  fixes tn :: "'f turn"
  assumes tn: "turn_ok drv tn"
  shows "goes_on p0 (service_panel tn)"
proof (rule goes_onI)
  fix a :: "'f app" assume a: "app_ok p0 a"
  let ?f = "controller_service (ne_leds (tn_env tn)) (tn_panel_free tn) (tn_panel_view tn) (tn_now tn)"
  have "view_ok (tn_panel_view tn)" using tn by (simp add: turn_ok_def)
  then obtain err c where c: "?f (panel_of (am_net a)) = Inr (err, c)" "ct_fan c = ct_fan (panel_of (am_net a))"
    using service_returns by blast
  obtain b where b: "with_panel ?f a = Some (err, b)" "app_ok p0 b" "same_probation a b"
    using panel_call_frame [OF a, of ?f err c] c by auto
  then show "\<exists>a'. service_panel tn a = Some a' \<and> app_ok p0 a' \<and> same_probation a a'"
    using same_trans [OF b(3) health_same] by (simp add: service_panel_def)
qed

lemma service_network_on:
  fixes tn :: "'f turn"
  shows "goes_on p0 (service_network tn)"
  unfolding service_network_def
proof (rule goes_on_some)
  fix a :: "'f app" assume a: "app_ok p0 a"
  then have "wf_net (am_net a)" by (simp add: app_ok_def net_holds_def)
  then show "app_ok p0 (on_net (network_service (tn_env tn) (tn_service_loop tn) (tn_service_now tn)) a) \<and>
    same_probation a (on_net (network_service (tn_env tn) (tn_service_loop tn) (tn_service_now tn)) a)"
    by (intro conjI on_net_ok [OF a] calm_service on_net_same)
qed

text \<open>The stages up to the probation.\<close>

definition before_probation :: "('f turn \<Rightarrow> 'f stage) list" where
  "before_probation = [sample_stacks, retry_leds, retry_touch, retry_network, local_control, service_panel, service_network]"

lemma before_probation_on: "turn_ok drv tn \<Longrightarrow> goes_on p0 (run_stages before_probation (\<lambda>stage. stage tn))"
  by (rule run_stages_on) (auto simp: before_probation_def sample_on retry_leds_on retry_touch_on retry_network_on
      local_control_on service_panel_on service_network_on)

lemma run_stages_append: "run_stages (ss @ ts) f a = Option.bind (run_stages ss f a) (run_stages ts f)"
  by (induction ss arbitrary: a) (auto split: option.split)

lemma main_turn_split: "main_turn tn a =
    Option.bind (run_stages before_probation (\<lambda>stage. stage tn) a) (\<lambda>a. Option.bind (watch_network tn a) (end_probation tn))"
proof -
  have "run_stages [watch_network, end_probation] (\<lambda>stage. stage tn) =
      (\<lambda>a. Option.bind (watch_network tn a) (end_probation tn))"
    by (rule ext) (simp split: option.split)
  then show ?thesis
    using run_stages_append [of before_probation "[watch_network, end_probation]" "\<lambda>stage. stage tn" a]
    by (simp add: main_turn_def before_probation_def del: run_stages.simps)
qed

section \<open>The probation's stages\<close>

lemma restart_task_same: "fan_good p0 (net_fan (restart_task r n)) = fan_good p0 (net_fan n)"
  by (simp add: restart_task_def net_fan_def set_fan_def fan_good_def sys_ok_def state_ok_def mailbox_ok_def
      hw_ok_def quiesced_ok_def diagnostics_mark_planned_restart_def diagnostics_fan_fault_is_latched_def)

lemma restart_task_holds: "net_holds orderly p0 [] n \<Longrightarrow> net_holds orderly p0 [] (restart_task r n)"
  using restart_task_same [of p0 r n]
  by (simp add: net_holds_def ofan.safe_def idle_queues_def wf_net_def restart_task_def net_fan_def set_fan_def fan_halted_def)

lemma quiesced_thenE:
  assumes "quiesced_then fan refusal body w = Some (err, w1)"
  obtains e f where "e \<noteq> ESP_OK" "err = refusal e" "w1 = w\<lparr>ow_fan := f\<rparr>"
  | f where "body (w\<lparr>ow_fan := f\<rparr>) = Some (err, w1)"
  using assms that by (auto simp: quiesced_then_def Let_def split: option.splits prod.splits if_splits)

lemma execute_running:
  assumes "execute_command api il fan (plain_command c) w = Some (err, w1)"
  shows "c = COMMAND_ROLLBACK_RUNNING \<Longrightarrow> ow_busy w1 = ow_busy w"
    and "c = COMMAND_CONFIRM_RUNNING \<Longrightarrow> ow_busy w1 = ow_busy w \<and>
      (err = ESP_OK \<longrightarrow> api_mark_app_valid api (ou_flash (ow_ota w)) = (ESP_OK, ou_flash (ow_ota w1)))"
proof -
  assume "c = COMMAND_ROLLBACK_RUNNING"
  then have "quiesced_then fan (\<lambda>err. ESP_ERR_TIMEOUT) (\<lambda>w. case ota_update_rollback_running api (ow_ota w) of
      (err, ota) \<Rightarrow> Some (err, update_called ota w)) w = Some (err, w1)"
    using assms by (simp add: execute_command_def plain_command_def)
  then show "ow_busy w1 = ow_busy w" by (rule quiesced_thenE) (auto simp: update_called_def split: prod.splits)
next
  assume "c = COMMAND_CONFIRM_RUNNING"
  then have "quiesced_then fan (\<lambda>err. err) (\<lambda>w. case ota_update_confirm_running api (ow_ota w) of
      (err, ota) \<Rightarrow> let w = update_called ota w in Some (err, w\<lparr>ow_fan := fan_end_maintenance fan (ow_fan w)\<rparr>)) w = Some (err, w1)"
    using assms by (simp add: execute_command_def plain_command_def)
  then show "ow_busy w1 = ow_busy w \<and>
      (err = ESP_OK \<longrightarrow> api_mark_app_valid api (ou_flash (ow_ota w)) = (ESP_OK, ou_flash (ow_ota w1)))"
  proof (rule quiesced_thenE)
    fix f
    obtain e g where m: "api_mark_app_valid api (ou_flash (ow_ota w)) = (e, g)" by fastforce
    assume "(case ota_update_confirm_running api (ow_ota (w\<lparr>ow_fan := f\<rparr>)) of
      (err, ota) \<Rightarrow> let w = update_called ota (w\<lparr>ow_fan := f\<rparr>)
        in Some (err, w\<lparr>ow_fan := fan_end_maintenance fan (ow_fan w)\<rparr>)) = Some (err, w1)"
    then have "err = e" "ow_busy w1 = ow_busy w" "ou_flash (ow_ota w1) = g"
      by (auto simp: ota_update_confirm_running_def m update_called_def Let_def)
    then show "ow_busy w1 = ow_busy w \<and>
        (err = ESP_OK \<longrightarrow> api_mark_app_valid api (ou_flash (ow_ota w)) = (ESP_OK, ou_flash (ow_ota w1)))"
      by (simp add: m)
  qed simp
qed

text \<open>The two calls of the worker: they return, and leave its \<open>busy\<close> flag as it is.\<close>

lemma running_call:
  fixes n :: "'f network"
  assumes "net_holds orderly p0 [] n" and "real_fan env drv"
    and "c \<in> {COMMAND_CONFIRM_RUNNING, COMMAND_ROLLBACK_RUNNING}" and "orderly \<and> c = COMMAND_CONFIRM_RUNNING \<longrightarrow> \<not> ow_busy (nw_worker n)"
  shows "\<exists>err w. on_worker env (\<lambda>api il fan stack. submit api il fan stack (plain_command c)) n = Some (err, with_worker n w) \<and>
    net_holds orderly p0 [] (with_worker n w) \<and> ow_busy w = ow_busy (nw_worker n) \<and>
    (c = COMMAND_CONFIRM_RUNNING \<and> err = ESP_OK \<longrightarrow>
      api_mark_app_valid (ne_ota env) (ou_flash (ow_ota (nw_worker n))) = (ESP_OK, ou_flash (ow_ota w)))"
proof -
  obtain inputs b e where fan: "ne_fan env (nw_log n) = fan_calls drv inputs b e" by (rule real_fanE [OF assms(2)])
  let ?submit = "\<lambda>api il fan stack. submit api il fan stack (plain_command c)"
  have ok: "ofan.safe orderly p0 (nw_worker n)" "idle_queues [] (nw_worker n)" using assms(1) by (simp_all add: net_holds_def)
  have "wc_type (plain_command c) \<notin> {COMMAND_BEGIN_AND_WRITE, COMMAND_WRITE}"
    "orderly \<and> wc_type (plain_command c) = COMMAND_CONFIRM_RUNNING \<longrightarrow> \<not> ow_busy (nw_worker n)"
    using assms(3,4) by (auto simp: plain_command_def)
  then obtain err w where w: "submit (ne_ota env) (ne_layout env) (fan_calls drv inputs b e) (ne_stack env (nw_log n))
      (plain_command c) (nw_worker n) = Some (err, w)"
    using ofan.submit_plain [OF ok] by blast
  then have call: "on_worker env ?submit n = Some (err, with_worker n w)" by (simp add: on_worker_def fan)
  have holds: "net_holds orderly p0 [] (with_worker n w)"
    by (rule probation_holds [OF assms(1,2) call assms(3,4)])
  have idle: "ow_task (nw_worker n)" "ow_commands (nw_worker n) = []" using ok(2) by (simp_all add: idle_queues_def)
  obtain w1 where e1: "execute_command (ne_ota env) (ne_layout env) (fan_calls drv inputs b e) (plain_command c)
      ((nw_worker n)\<lparr>ow_done := False, ow_commands := []\<rparr>) = Some (err, w1)" "ow_ota w = ow_ota w1" "ow_busy w = ow_busy w1"
    by (rule submit_result [OF w idle]) blast
  have busy: "ow_busy w = ow_busy (nw_worker n)"
    using execute_running [OF e1(1)] assms(3) e1(3) by (cases "c = COMMAND_ROLLBACK_RUNNING") simp_all
  have "api_mark_app_valid (ne_ota env) (ou_flash (ow_ota (nw_worker n))) = (ESP_OK, ou_flash (ow_ota w))"
    if "c = COMMAND_CONFIRM_RUNNING" "err = ESP_OK"
    using execute_running(2) [OF e1(1) that(1)] that(2) e1(2) by simp
  then show ?thesis using call holds busy by blast
qed

lemma roll_back_on:
  fixes env :: "'f net_env"
  assumes "real_fan env drv"
  shows "goes_on p0 (roll_back env)"
proof (rule goes_onI)
  fix a :: "'f app" assume a: "app_ok p0 a"
  let ?n = "restart_task DIAGNOSTICS_RESTART_ROLLBACK (am_net a)"
  have n: "net_holds False p0 [] ?n" by (rule restart_task_holds) (use a in \<open>simp add: app_ok_def\<close>)
  obtain err w where w: "on_worker env (\<lambda>api il fan stack. submit api il fan stack (plain_command COMMAND_ROLLBACK_RUNNING)) ?n =
      Some (err, with_worker ?n w)" "net_holds False p0 [] (with_worker ?n w)" "ow_busy w = ow_busy (nw_worker ?n)"
    using running_call [OF n assms, of COMMAND_ROLLBACK_RUNNING] by auto
  have "roll_back env a = Some (a\<lparr>am_net := with_worker ?n w\<rparr>)"
    using w(1) by (simp add: roll_back_def on_worker_def ota_worker_rollback_running_def split: option.splits)
  moreover have "ow_busy (nw_worker ?n) = ow_busy (nw_worker (am_net a))" by (simp add: restart_task_def set_fan_def)
  ultimately show "\<exists>a'. roll_back env a = Some a' \<and> app_ok p0 a' \<and> same_probation a a'"
    using a w(2,3) by (simp add: app_ok_def same_probation_def)
qed

end
