(* ===== verification/AppClaims.thy ===== *)
theory AppClaims
  imports AppRun
begin

text \<open>
  The application from power-on: what boot establishes, that the main loop always goes on among
  requests, fan cycles and touch interrupts, and what the probation of a new image decides.
\<close>

section \<open>Boot\<close>

text \<open>The statics at power-on, and what boot is handed: the worker's objects can be created, the
  fan's task is that of \<open>fan_control.c\<close> (if it gets to run), and the snapshots are the fan's.\<close>

definition powered :: "'f app \<Rightarrow> bool" where
  "powered a \<longleftrightarrow> (\<exists>ui w dns s. a = app_power_on (network_boot ui w dns) s \<and> worker_boot w \<and> boot_state (ow_fan w))"

definition boot_ok :: "gpio_driver \<Rightarrow> 'f boot \<Rightarrow> bool" where
  "boot_ok drv bt \<longleftrightarrow> turn_ok drv (bt_turn bt) \<and> view_ok (bt_ui_view bt) \<and>
     bt_worker bt = \<lparr>we_command_queue = True, we_free_queue = True, we_events = True, we_mutex = True, we_task = True\<rparr> \<and>
     (\<exists>valid_output wdt t1 t2. bt_fan_task bt = fan_control_task_start valid_output drv wdt t1 t2)"

lemma start_decoder_off:
  assumes "fs_init_result (start_decoder valid_output drv t s) = ESP_OK"
  shows "driver_output p0 (fs_hw (start_decoder valid_output drv t s)) = None"
proof -
  obtain e1 hw1 where init: "fan_init valid_output drv (fs_hw s) = (e1, hw1)"
    by (cases "fan_init valid_output drv (fs_hw s)")
  obtain e2 ph hw2 where off: "fan_transition drv FAN_SPEED_OFF (Some 0) hw1 = (e2, ph, hw2)"
    by (cases "fan_transition drv FAN_SPEED_OFF (Some 0) hw1")
  obtain fe fp where fault: "diagnostics_get_fan_fault (fs_diag s) = (fe, fp)"
    by (cases "diagnostics_get_fan_fault (fs_diag s)")
  have e: "e1 = ESP_OK" "e2 = ESP_OK"
    using assms init off fault by (auto simp: start_decoder_def start_fault_def Let_def split: if_splits)
  have "driver_output p0 hw2 = speed_output FAN_SPEED_OFF"
    by (rule fan_transition_output(2) [OF fan_init_ready [OF init] off [unfolded e]])
  then show ?thesis using init off fault e by (simp add: start_decoder_def Let_def speed_output_def)
qed

lemma fan_boot:
  assumes "fan_control_init ie (fan_control_task_start valid_output drv wdt t1 t2) s = (ESP_OK, f)"
    and "\<not> fs_maintenance_requested s"
  shows "fan_good p0 f \<and> driver_output p0 (fs_hw f) = None"
proof -
  let ?s = "s\<lparr>fs_mailbox := None, fs_initialized := False, fs_quiesced := False, fs_snapshot := starting_snapshot, fs_task := True\<rparr>"
  have f: "f = fan_control_task_start valid_output drv wdt t1 t2 ?s" "fs_init_result f = ESP_OK"
    using assms(1) by (auto simp: fan_control_init_def Let_def split: if_splits)
  have "boot_state ?s" using assms(2) by (simp add: boot_state_def)
  from task_start_ok [OF this f(1), of p0] have good: "fan_good p0 f" by (simp add: fan_good_def)
  have "fs_init_result (start_decoder valid_output drv t1 ?s) = ESP_OK" "fs_hw f = fs_hw (start_decoder valid_output drv t1 ?s)"
    using f by (auto simp: fan_control_task_start_def Let_def split: if_splits)
  then show ?thesis using good start_decoder_off by simp
qed

text \<open>What boot has established once the fan is initialised.\<close>

definition fan_booted :: "pads \<Rightarrow> 'f app \<Rightarrow> bool" where
  "fan_booted p0 a \<longleftrightarrow> worker_boot (nw_worker (am_net a)) \<and> fan_good p0 (net_fan (am_net a)) \<and> wf_net (am_net a) \<and>
     recovery_inv (am_led_retry a) \<and> recovery_inv (am_touch_retry a) \<and> recovery_inv (am_network_retry a)"

lemma boot_fan_ok:
  assumes "powered a" and "boot_ok drv bt" and "boot_fan bt a = Some b"
  shows "fan_booted p0 b" and "driver_output p0 (fs_hw (net_fan (am_net b))) = None"
proof -
  obtain ui w dns s where a: "a = app_power_on (network_boot ui w dns) s" "worker_boot w" "boot_state (ow_fan w)"
    using assms(1) by (auto simp: powered_def)
  obtain vo wdt t1 t2 where task: "bt_fan_task bt = fan_control_task_start vo drv wdt t1 t2"
    using assms(2) by (auto simp: boot_ok_def)
  let ?f = "(ow_fan w)\<lparr>fs_diag := diagnostics_init (bt_reset bt) (bt_now_us bt) (fs_diag (ow_fan w)), fs_health := service_health_init\<rparr>"
  obtain err f where f: "fan_control_init (bt_fan_env bt) (bt_fan_task bt) ?f = (err, f)" by fastforce
  have "err = ESP_OK" and net: "am_net b = set_fan f (on_health (\<lambda>_. service_health_init) (set_fan ?f (am_net a)))"
    and retries: "am_led_retry b = am_led_retry a" "am_touch_retry b = am_touch_retry a" "am_network_retry b = am_network_retry a"
    using assms(3) f
    by (auto simp: boot_fan_def Let_def a(1) app_power_on_def network_boot_def net_fan_def set_fan_def on_health_def
        split: if_splits)
  then have fan: "fan_good p0 f \<and> driver_output p0 (fs_hw f) = None"
    using fan_boot [of "bt_fan_env bt" vo drv wdt t1 t2 ?f f p0] a(3) f task by (simp add: boot_state_def)
  show "driver_output p0 (fs_hw (net_fan (am_net b))) = None" using fan by (simp add: net net_fan_def set_fan_def)
  show "fan_booted p0 b"
    using fan a(2) retries
    by (simp add: fan_booted_def net a(1) app_power_on_def network_boot_def set_fan_def on_health_def net_fan_def
        worker_boot_def wf_net_def recovery_inv_def Let_def)
qed

lemma init_busy:
  "ota_worker_init we w0 = (err, w) \<Longrightarrow> ow_busy w = ow_busy w0"
  "ow_busy (ota_worker_task_start api v) = ow_busy v"
proof -
  show "ota_worker_init we w0 = (err, w) \<Longrightarrow> ow_busy w = ow_busy w0"
    by (auto simp: ota_worker_init_def set_health_def Let_def split: if_splits)
  show "ow_busy (ota_worker_task_start api v) = ow_busy v"
    by (simp add: ota_worker_task_start_def refresh_validation_cache_def set_health_def split: prod.split option.split)
qed

lemma boot_tasks_ok:
  assumes "fan_booted p0 a" and "boot_ok drv bt"
  shows "\<exists>b. boot_tasks bt a = Some b \<and> app_ok p0 b \<and> \<not> ow_busy (nw_worker (am_net b))"
proof -
  obtain e d h where d: "diagnostics_start (bt_diag_task bt) (fs_diag (net_fan (am_net a))) (ow_health (nw_worker (am_net a))) = (e, d, h)"
    by (cases "diagnostics_start (bt_diag_task bt) (fs_diag (net_fan (am_net a))) (ow_health (nw_worker (am_net a)))")
  have kept: "diagnostics_fan_fault_is_latched d = diagnostics_fan_fault_is_latched (fs_diag (net_fan (am_net a)))"
    using d by (auto simp: diagnostics_start_def diagnostics_fan_fault_is_latched_def split: if_splits)
  let ?n = "on_health (\<lambda>_. h) (set_fan ((net_fan (am_net a))\<lparr>fs_diag := d\<rparr>) (am_net a))"
  have n: "worker_boot (nw_worker ?n)" "wf_net ?n" "fan_good p0 (ow_fan (nw_worker ?n))"
    using assms(1) kept
    by (simp_all add: fan_booted_def worker_boot_def on_health_def set_fan_def wf_net_def net_fan_def fan_good_def
        sys_ok_def state_ok_def mailbox_ok_def hw_ok_def quiesced_ok_def)
  obtain w where w: "ota_worker_init (bt_worker bt) (nw_worker ?n) = (ESP_OK, w)"
    using assms(2) n(1) by (simp add: boot_ok_def ota_worker_init_def worker_boot_def Let_def)
  have "ofan.worker_ok False p0 ([], ota_worker_task_start (ne_ota (bt_env bt)) w)"
    by (rule ofan.init_ok [OF n(1,3) w])
  moreover have "\<not> ow_busy (ota_worker_task_start (ne_ota (bt_env bt)) w)"
    using init_busy(1) [OF w] init_busy(2) [of "ne_ota (bt_env bt)" w] n(1) by (simp add: worker_boot_def)
  ultimately have "net_holds False p0 [] (?n\<lparr>nw_worker := ota_worker_task_start (ne_ota (bt_env bt)) w\<rparr>)"
    "\<not> ow_busy (ota_worker_task_start (ne_ota (bt_env bt)) w)"
    using n(2) by (simp_all add: net_holds_def ofan.worker_ok.simps wf_net_def)
  moreover have "boot_tasks bt a =
      Some (a\<lparr>am_net := ?n\<lparr>nw_worker := ota_worker_task_start (ne_ota (bt_env bt)) w\<rparr>\<rparr>)"
    by (simp add: boot_tasks_def d w)
  ultimately show ?thesis using assms(1) by (simp add: app_ok_def fan_booted_def)
qed

lemma boot_leds_on:
  fixes bt :: "'f boot"
  assumes "boot_ok drv bt"
  shows "goes_on p0 (boot_leds bt)"
proof (rule goes_onI)
  fix a :: "'f app" assume a: "app_ok p0 a"
  have tn: "turn_ok drv (bt_turn bt)" using assms by (simp add: boot_ok_def)
  obtain err c where c: "init_leds (bt_env bt) a = (err, c)" by fastforce
  have ok: "app_ok p0 c" "same_probation a c" using init_leds_ok [OF c a] by simp_all
  have up: "goes_on p0 (\<lambda>a :: 'f app. Some (set_health_of SERVICE_UI SERVICE_STATE_STARTING ESP_OK
      (a\<lparr>am_led_retry := retry_succeeded (am_led_retry a)\<rparr>)))"
    by (rule goes_on_some) (simp add: set_retry_ok, simp add: same_probation_def set_health_of_def on_net_def on_health_def)
  have down: "goes_on p0 (\<lambda>a :: 'f app. map_option (set_health_of SERVICE_UI SERVICE_STATE_DEGRADED err)
      (set_led_retry (retry_failed (tn_now (bt_turn bt)) (am_led_retry a)) a))"
    by (intro goes_on_health retries_on)
  note on = goes_on_bind [OF available_on [OF tn, of p0]]
  show "\<exists>a'. boot_leds bt a = Some a' \<and> app_ok p0 a' \<and> same_probation a a'"
    using goes_on_from [OF on [OF up, of "True"] ok] goes_on_from [OF on [OF down, of "False"] ok]
    by (cases "err = ESP_OK") (simp_all add: boot_leds_def c)
qed

lemma boot_panel_on:
  fixes bt :: "'f boot"
  assumes "boot_ok drv bt"
  shows "goes_on p0 (boot_panel bt)"
  unfolding boot_panel_def
proof (rule goes_onI)
  fix a :: "'f app" assume a: "app_ok p0 a"
  let ?f = "controller_init (ne_leds (bt_env bt)) (bt_ui_created bt) (bt_ui_view bt)"
  have "view_ok (bt_ui_view bt)" using assms by (simp add: boot_ok_def)
  then obtain err c where c: "?f (panel_of (am_net a)) = Inr (err, c)" "ct_fan c = ct_fan (panel_of (am_net a))"
    using controller_init_returns by blast
  obtain b where b: "with_panel ?f a = Some (err, b)" "app_ok p0 b" "same_probation a b"
    using panel_call_frame [OF a, of ?f err c] c by auto
  show "\<exists>a'. map_option (\<lambda>(controller_err, a).
         set_health_of SERVICE_UI (if controller_err = ESP_OK then SERVICE_STATE_READY else SERVICE_STATE_DEGRADED)
           controller_err a) (with_panel ?f a) = Some a' \<and> app_ok p0 a' \<and> same_probation a a'"
    using b(2) same_trans [OF b(3) health_same] by (simp add: b(1))
qed

lemma boot_touch_on:
  fixes bt :: "'f boot"
  shows "goes_on p0 (boot_touch bt)"
proof (rule goes_onI)
  fix a :: "'f app" assume a: "app_ok p0 a"
  obtain err s where s: "touch_sens_init (tn_touch (bt_turn bt)) (tn_touch_during (bt_turn bt)) (am_touch a) = (err, s)"
    by fastforce
  let ?b = "a\<lparr>am_touch := s\<rparr>" and ?c = "a\<lparr>am_touch := s, am_touch_retry := retry_succeeded (am_touch_retry a)\<rparr>"
  note b = touch_ok(1) [OF a, of s] touch_ok(2) [of a s]
  have "app_ok p0 ?c" using set_retry_ok(2) [OF b(1) retry_succeeded_ok, of "am_touch_retry a"] by simp
  moreover have "same_probation a ?c" by (simp add: same_probation_def)
  ultimately have up: "\<exists>a'. Some (set_health_of SERVICE_TOUCH SERVICE_STATE_READY ESP_OK ?c) = Some a' \<and>
      app_ok p0 a' \<and> same_probation a a'" by (rule health_from)
  have "goes_on p0 (\<lambda>a :: 'f app. map_option (set_health_of SERVICE_TOUCH SERVICE_STATE_DEGRADED err)
      (set_touch_retry (retry_failed (tn_now (bt_turn bt)) (am_touch_retry a)) a))"
    by (intro goes_on_health retries_on)
  note down = goes_on_from [OF this b]
  show "\<exists>a'. boot_touch bt a = Some a' \<and> app_ok p0 a' \<and> same_probation a a'"
    using up down by (simp add: boot_touch_def Let_def s)
qed

lemma boot_network_on:
  fixes bt :: "'f boot"
  assumes "boot_ok drv bt"
  shows "goes_on p0 (boot_network bt)"
proof (rule goes_onI)
  fix a :: "'f app" assume a: "app_ok p0 a"
  obtain err n where n: "network_init (bt_env bt) (am_net a) = (err, n)" by fastforce
  let ?b = "a\<lparr>am_net := n\<rparr>" and ?c = "a\<lparr>am_net := n, am_network_retry := retry_succeeded (am_network_retry a)\<rparr>"
  have "calm (am_net a) n" using calm_network_init n by (metis snd_conv)
  then have b: "app_ok p0 ?b" "same_probation a ?b"
    using a by (simp_all add: net_cong_ok) (auto simp: same_probation_def calm_def)
  have up: "app_ok p0 ?c" "same_probation a ?c"
    using set_retry_ok(3) [OF b(1) retry_succeeded_ok, of "am_network_retry a"] b(2) by (simp_all add: same_probation_def)
  have led: "\<exists>a'. Some (on_net (set_network_status (bt_env bt) CONTROLLER_NETWORK_OFFLINE) a) = Some a' \<and>
      app_ok p0 a' \<and> same_probation a a'" if "app_ok p0 a" for a :: "'f app"
    using that by (simp add: on_net_ok)
  have rollback: "goes_on p0 (roll_back (bt_env bt))"
    by (rule roll_back_on [of _ drv]) (use assms in \<open>simp add: boot_ok_def turn_ok_def\<close>)
  have maybe: "goes_on p0 (\<lambda>a. if am_ota_pending a then roll_back (bt_env bt) a else Some a)"
    using rollback by (auto simp: goes_on_def)
  have retry: "goes_on p0 (\<lambda>a :: 'f app. map_option (set_health_of SERVICE_NETWORK SERVICE_STATE_DEGRADED err)
      (set_network_retry (retry_failed (tn_now (bt_turn bt)) (am_network_retry a)) a))"
    by (intro goes_on_health retries_on)
  let ?d = "on_net (set_network_status (bt_env bt) CONTROLLER_NETWORK_OFFLINE) ?b"
  have d: "app_ok p0 ?d" "same_probation ?b ?d" using on_net_ok [OF b(1)] by simp_all
  have "am_network_retry ?d = am_network_retry ?b" by (simp add: on_net_def)
  then show "\<exists>a'. boot_network bt a = Some a' \<and> app_ok p0 a' \<and> same_probation a a'"
    using up goes_on_from [OF goes_on_bind [OF retry maybe] d(1) same_trans [OF b(2) d(2)]]
    by (cases "err = ESP_OK") (simp_all add: boot_network_def n Let_def)
qed

lemma boot_rest:
  assumes "app_ok p0 a" and "boot_ok drv bt"
  shows "\<exists>b. run_stages [boot_leds, boot_panel, boot_touch, boot_network, boot_probation] (\<lambda>stage. stage bt) a = Some b \<and>
    app_ok p0 b \<and> ow_busy (nw_worker (am_net b)) = ow_busy (nw_worker (am_net a))"
proof -
  have "goes_on p0 (run_stages [boot_leds, boot_panel, boot_touch, boot_network] (\<lambda>stage. stage bt))"
    by (rule run_stages_on) (auto simp: boot_leds_on [OF assms(2)] boot_panel_on [OF assms(2)] boot_touch_on
        boot_network_on [OF assms(2)])
  then obtain c where c: "run_stages [boot_leds, boot_panel, boot_touch, boot_network] (\<lambda>stage. stage bt) a = Some c"
    "app_ok p0 c" "same_probation a c"
    using assms(1) by (rule goes_onE)
  have "run_stages [boot_leds, boot_panel, boot_touch, boot_network, boot_probation] (\<lambda>stage. stage bt) a =
      boot_probation bt c"
    using run_stages_append [of "[boot_leds, boot_panel, boot_touch, boot_network]" "[boot_probation]" "\<lambda>stage. stage bt" a] c(1)
    by (simp split: option.splits)
  then show ?thesis using c(2,3) by (simp add: boot_probation_def app_ok_def same_probation_def)
qed

section \<open>A round\<close>

text \<open>What a round decides about a new image on probation.\<close>

definition image_confirmed :: "'f turn \<Rightarrow> 'f app \<Rightarrow> 'f app \<Rightarrow> bool" where
  "image_confirmed tn a a' \<longleftrightarrow> network_is_connected (am_net a') \<and>
     pdMS_TO_TICKS OTA_BOOT_PROBATION_MS \<le> tn_now tn - am_probation_started a \<and>
     (\<exists>flash. api_mark_app_valid (ne_ota (tn_env tn)) flash = (ESP_OK, ou_flash (ow_ota (nw_worker (am_net a')))))"

lemma probation_ticks: "pdMS_TO_TICKS OTA_BOOT_PROBATION_MS = 3000"
  by (simp add: pdMS_TO_TICKS_at_def)

lemma probation_marks:
  assumes "app_ok p0 a"
  shows "app_ok p0 (a\<lparr>am_network_seen := b\<rparr>)" "app_ok p0 (a\<lparr>am_network_seen := b, am_probation_started := t\<rparr>)"
    "app_ok p0 (a\<lparr>am_probation_started := t\<rparr>)" "app_ok p0 (a\<lparr>am_ota_pending := b\<rparr>)"
  using assms by (simp_all add: app_ok_def)

lemma watch_result:
  assumes "turn_ok drv tn" and "app_ok p0 a"
  shows "\<exists>b. watch_network tn a = Some b \<and> app_ok p0 b \<and> am_ota_pending b = am_ota_pending a \<and>
    ow_busy (nw_worker (am_net b)) = ow_busy (nw_worker (am_net a)) \<and>
    (am_probation_started b = am_probation_started a \<or> am_probation_started b = tn_now tn)"
proof -
  have "real_fan (tn_env tn) drv" using assms(1) by (simp add: turn_ok_def)
  then obtain c where c: "roll_back (tn_env tn) a = Some c" "app_ok p0 c" "same_probation a c"
    using goes_onE [OF roll_back_on assms(2)] by metis
  then show ?thesis
    using probation_marks(1) [OF assms(2)] probation_marks(2) [OF c(2)] assms(2)
    by (simp add: watch_network_def same_probation_def)
qed

lemma end_result:
  assumes "turn_ok drv tn" and "app_ok p0 a"
  shows "\<exists>b. end_probation tn a = Some b \<and> app_ok p0 b \<and> (am_ota_pending b \<longrightarrow> am_ota_pending a) \<and>
    (am_ota_pending a \<and> \<not> am_ota_pending b \<longrightarrow> image_confirmed tn a b)"
proof -
  have fan: "real_fan (tn_env tn) drv" using assms(1) by (simp add: turn_ok_def)
  have rollback: "\<exists>c. roll_back (tn_env tn) b = Some c \<and> app_ok p0 c \<and> am_ota_pending c = am_ota_pending b"
    if b: "app_ok p0 b" for b
    using goes_onE [OF roll_back_on [OF fan] b] by (metis same_probation_def)
  consider (early) "\<not> (am_ota_pending a \<and> pdMS_TO_TICKS OTA_BOOT_PROBATION_MS \<le> tn_now tn - am_probation_started a)"
    | (offline) "am_ota_pending a" "pdMS_TO_TICKS OTA_BOOT_PROBATION_MS \<le> tn_now tn - am_probation_started a"
        "\<not> network_is_connected (am_net a)"
    | (online) "am_ota_pending a" "pdMS_TO_TICKS OTA_BOOT_PROBATION_MS \<le> tn_now tn - am_probation_started a"
        "network_is_connected (am_net a)"
    by blast
  then show ?thesis
  proof cases
    case early
    then show ?thesis using assms(2) by (auto simp: end_probation_def)
  next
    case offline
    obtain c where c: "roll_back (tn_env tn) a = Some c" "app_ok p0 c" "am_ota_pending c = am_ota_pending a"
      using rollback [OF assms(2)] by blast
    then show ?thesis using offline probation_marks(3) [OF c(2)] by (simp add: end_probation_def)
  next
    case online
    have n: "net_holds False p0 [] (am_net a)" using assms(2) by (simp add: app_ok_def)
    obtain err w where w: "on_worker (tn_env tn) (\<lambda>api il fan stack. submit api il fan stack (plain_command COMMAND_CONFIRM_RUNNING)) (am_net a) =
        Some (err, with_worker (am_net a) w)" "net_holds False p0 [] (with_worker (am_net a) w)"
      "err = ESP_OK \<longrightarrow> api_mark_app_valid (ne_ota (tn_env tn)) (ou_flash (ow_ota (nw_worker (am_net a)))) = (ESP_OK, ou_flash (ow_ota w))"
      using running_call [OF n fan, of COMMAND_CONFIRM_RUNNING] by auto
    let ?b = "a\<lparr>am_net := with_worker (am_net a) w\<rparr>"
    have b: "app_ok p0 ?b" using assms(2) w(2) by (simp add: app_ok_def)
    obtain c where c: "roll_back (tn_env tn) ?b = Some c" "app_ok p0 c" "am_ota_pending c = am_ota_pending ?b"
      using rollback [OF b] by blast
    have call: "on_worker (tn_env tn) ota_worker_confirm_running (am_net a) = Some (err, with_worker (am_net a) w)"
      using w(1) by (simp add: on_worker_def ota_worker_confirm_running_def split: option.splits)
    show ?thesis
      using online call c probation_marks(3,4) [OF b] w(3)
      by (auto simp: end_probation_def image_confirmed_def network_is_connected_def Let_def)
  qed
qed

lemma main_turn_result:
  assumes "turn_ok drv tn" and "app_ok p0 a"
  shows "\<exists>a'. main_turn tn a = Some a' \<and> app_ok p0 a' \<and> (am_ota_pending a' \<longrightarrow> am_ota_pending a) \<and>
    (am_ota_pending a \<and> \<not> am_ota_pending a' \<longrightarrow> image_confirmed tn a a')"
proof -
  obtain b where b: "run_stages before_probation (\<lambda>stage. stage tn) a = Some b" "app_ok p0 b" "same_probation a b"
    by (rule goes_onE [OF before_probation_on [OF assms(1)] assms(2)])
  obtain c where c: "watch_network tn b = Some c" "app_ok p0 c" "am_ota_pending c = am_ota_pending b"
    "ow_busy (nw_worker (am_net c)) = ow_busy (nw_worker (am_net b))"
    "am_probation_started c = am_probation_started b \<or> am_probation_started c = tn_now tn"
    using watch_result [OF assms(1) b(2)] by blast
  have same: "am_ota_pending c = am_ota_pending a"
    "am_probation_started c = am_probation_started a \<or> am_probation_started c = tn_now tn"
    using b(3) c(3-5) by (simp_all add: same_probation_def)
  obtain d where d: "end_probation tn c = Some d" "app_ok p0 d" "am_ota_pending d \<longrightarrow> am_ota_pending c"
    "am_ota_pending c \<and> \<not> am_ota_pending d \<longrightarrow> image_confirmed tn c d"
    using end_result [OF assms(1) c(2)] by blast
  have "image_confirmed tn c d \<Longrightarrow> image_confirmed tn a d"
    using same(2) unfolding image_confirmed_def probation_ticks by auto
  then show ?thesis using b(1) c(1) d same(1) by (simp add: main_turn_split)
qed

section \<open>Runs\<close>

text \<open>
  Between the rounds the network, the other tasks and the touch interrupts move, in any order and
  whether or not the worker is busy (\<open>net_step False\<close>).
\<close>

inductive app_step :: "gpio_driver \<Rightarrow> 'f app \<Rightarrow> 'f app \<Rightarrow> bool" for drv where
  round: "turn_ok drv tn \<Longrightarrow> main_turn tn a = Some a' \<Longrightarrow> app_step drv a a'"
| meanwhile: "net_step False drv (am_net a) n \<Longrightarrow> app_step drv a (a\<lparr>am_net := n\<rparr>)"
| touched: "app_step drv a (a\<lparr>am_touch := interrupt event (am_touch a)\<rparr>)"

inductive app_reachable :: "gpio_driver \<Rightarrow> 'f app \<Rightarrow> bool" for drv where
  booted: "powered a \<Longrightarrow> boot_ok drv bt \<Longrightarrow> app_boot bt a = Some b \<Longrightarrow> app_reachable drv b"
| moved: "app_reachable drv a \<Longrightarrow> app_step drv a b \<Longrightarrow> app_reachable drv b"

lemma app_boot_split:
  "app_boot bt a = Option.bind (boot_fan bt a) (\<lambda>a. Option.bind (boot_tasks bt a)
     (run_stages [boot_leds, boot_panel, boot_touch, boot_network, boot_probation] (\<lambda>stage. stage bt)))"
  by (simp add: app_boot_def split: option.split)

lemma boot_result:
  assumes "powered a" and "boot_ok drv bt" and "boot_fan bt a = Some b"
  shows "\<exists>c. app_boot bt a = Some c \<and> app_ok p0 c \<and> \<not> ow_busy (nw_worker (am_net c))"
proof -
  obtain d where d: "boot_tasks bt b = Some d" "app_ok p0 d" "\<not> ow_busy (nw_worker (am_net d))"
    using boot_tasks_ok [OF boot_fan_ok(1) [OF assms] assms(2)] by blast
  then show ?thesis using boot_rest [OF d(2) assms(2)] d(3) assms(3) by (simp only: app_boot_split bind.bind_lunit) blast
qed

lemma app_reachable_ok:
  assumes "app_reachable drv a"
  shows "app_ok p0 a"
  using assms
proof (induction rule: app_reachable.induct)
  case (booted a bt b)
  then obtain c where "boot_fan bt a = Some c" by (auto simp: app_boot_split bind_eq_Some_conv)
  then show ?case using boot_result [OF booted(1,2), of c p0] booted(3) by simp
next
  case (moved a b)
  from moved(2) show ?case
  proof cases
    case (round tn)
    then show ?thesis using main_turn_result [OF round(1) moved.IH] by simp
  next
    case (meanwhile n)
    then show ?thesis using step_holds moved.IH by (auto simp: app_ok_def)
  next
    case (touched event)
    then show ?thesis using touch_ok(1) [OF moved.IH] by simp
  qed
qed

section \<open>Properties\<close>

text \<open>C7. Boot establishes the hardware-off state before anything else starts: if the fan's
  initialisation fails nothing else is started; if it succeeds, no decoder output is active when
  the next stage begins, and boot goes on to the main loop, whatever the diagnostics, the LEDs,
  the panel, the touch sensor and the network answer.\<close>

theorem boot_establishes_off:
  assumes "powered a" and "boot_ok drv bt"
  shows "case boot_fan bt a of
      None \<Rightarrow> app_boot bt a = None
    | Some b \<Rightarrow> driver_output p0 (fs_hw (net_fan (am_net b))) = None \<and> (\<exists>c. app_boot bt a = Some c)"
proof (cases "boot_fan bt a")
  case None
  then show ?thesis by (simp add: app_boot_split)
next
  case (Some b)
  then show ?thesis using boot_fan_ok(2) [OF assms Some, of p0] boot_result [OF assms Some, of p0] by auto
qed

definition sample_dns :: dns_server where
  "sample_dns = \<lparr>ds_running = False, ds_task = False, ds_in_use = False, ds_socket = False, ds_netif_key = None,
     ds_started = False, ds_stopped = False, ds_failed = False\<rparr>"

definition sample_power_on :: "sample_flash app" where
  "sample_power_on = app_power_on
     (network_boot sample_panel (sample_worker\<lparr>ow_fan := sample_boot\<lparr>fs_task := False, fs_diag := zero_diagnostics\<rparr>\<rparr>) sample_dns)
     \<lparr>tc_sensor = False, tc_channels = replicate NUM_KEYS False, tc_queue = None, tc_gesture = gesture_cleared,
      tc_overflow = False, tc_log = []\<rparr>"

text \<open>A round at tick 9000, the panel's mutex taken, with no touch and every call succeeding.\<close>

definition sample_turn :: "sample_flash turn" where
  "sample_turn =
     \<lparr>tn_now = 9000, tn_env = sample_env, tn_stack = 700, tn_led_free = True,
      tn_led_view = (ESP_OK, Some sample_fan),
      tn_touch = \<lparr>te_err = (\<lambda>_ _. ESP_OK), te_benchmark = (\<lambda>_ _. [20000])\<rparr>, tn_touch_during = [],
      tn_touch_tick = 9000, tn_touch_moments = [], tn_key_free = True, tn_key_pass = True,
      tn_key_view = (ESP_OK, Some sample_fan), tn_gesture_tick = 9000, tn_panel_free = False,
      tn_panel_view = (ESP_OK, Some sample_fan), tn_service_loop = 9000, tn_service_now = 9001\<rparr>"

definition sample_bt :: "sample_flash boot" where
  "sample_bt =
     \<lparr>bt_reset = ESP_RST_POWERON, bt_now_us = 0,
      bt_fan_env = \<lparr>ie_mailbox = True, ie_events = True, ie_task = True, ie_started = True\<rparr>,
      bt_fan_task = fan_control_task_start (\<lambda>g. 0 \<le> g) all_calls_succeed ESP_OK 900 950,
      bt_diag_task = True, bt_worker = all_created, bt_turn = sample_turn, bt_ui_created = True,
      bt_ui_view = (ESP_OK, Some sample_fan), bt_probation_tick = 5990\<rparr>"

lemma sample_view: "view_ok (ESP_OK, Some sample_fan)"
  by (simp add: view_ok_def sample_fan_def sample_boot_def starting_snapshot_def zero_snapshot_def)

lemma sample_turn_ok: "turn_ok all_calls_succeed sample_turn"
  using sample_real_fan sample_view by (simp add: turn_ok_def sample_turn_def)

lemma sample_boot_ok: "boot_ok all_calls_succeed sample_bt"
  using sample_turn_ok sample_view unfolding boot_ok_def sample_bt_def all_created_def by auto

lemma sample_powered: "powered sample_power_on"
proof -
  have "boot_state (sample_boot\<lparr>fs_task := False, fs_diag := zero_diagnostics\<rparr>)"
    by (simp add: boot_state_def sample_boot_def)
  moreover have "worker_boot (sample_worker\<lparr>ow_fan := f\<rparr>)" for f
    using sample_worker_boot by (simp add: worker_boot_def)
  ultimately show ?thesis unfolding powered_def sample_power_on_def by fastforce
qed

lemma sample_fan_starts: "fan_control_init (bt_fan_env sample_bt) (bt_fan_task sample_bt)
    (sample_boot\<lparr>fs_task := False\<rparr>) = (ESP_OK, sample_running all_calls_succeed)"
proof -
  have "sample_boot\<lparr>fs_mailbox := None, fs_initialized := False, fs_quiesced := False,
      fs_snapshot := starting_snapshot, fs_task := True\<rparr> = sample_boot"
    by (simp add: sample_boot_def)
  moreover have "fs_initialized (sample_running all_calls_succeed)"
    by (simp add: sample_running_def fan_control_task_start_def Let_def)
  ultimately show ?thesis
    using sample_init_ok by (simp add: fan_control_init_def sample_bt_def sample_running_def Let_def)
qed

lemma sample_fan_boots: "boot_fan sample_bt sample_power_on \<noteq> None"
proof -
  have "(sample_boot\<lparr>fs_task := False, fs_diag := diagnostics_init ESP_RST_POWERON 0 zero_diagnostics,
      fs_health := service_health_init\<rparr>) = sample_boot\<lparr>fs_task := False\<rparr>"
    by (simp add: sample_boot_def)
  then show ?thesis
    using sample_fan_starts
    by (simp add: boot_fan_def sample_power_on_def app_power_on_def network_boot_def net_fan_def set_fan_def on_health_def
        sample_bt_def Let_def)
qed

theorem boot_establishes_off_witness:
  "\<exists>b c. boot_fan sample_bt sample_power_on = Some b \<and> (\<forall>p0. driver_output p0 (fs_hw (net_fan (am_net b))) = None) \<and>
    app_boot sample_bt sample_power_on = Some c"
proof -
  obtain b where b: "boot_fan sample_bt sample_power_on = Some b" using sample_fan_boots by blast
  then show ?thesis using boot_establishes_off [OF sample_powered sample_boot_ok] by auto
qed

text \<open>C6. The main loop never stops: from every state the application reaches after a boot that could
  create the objects of the OTA worker, a round goes on to the next one, whatever is pressed,
  retried, uploaded and reported in it, on probation or not, the worker busy or not; only the
  fan's own watchdog ends it.\<close>

theorem main_loop_goes_on:
  assumes "app_reachable drv a" and "turn_ok drv tn"
  shows "\<exists>a'. main_turn tn a = Some a' \<and> app_reachable drv a'"
proof -
  obtain a' where "main_turn tn a = Some a'"
    using main_turn_result [OF assms(2) app_reachable_ok [OF assms(1)]] by auto
  then show ?thesis using moved [OF assms(1) round] assms(2) by blast
qed

text \<open>C8. A new image is confirmed only by a round of the main loop in which the network is connected,
  at least thirty seconds of ticks after the probation started (across the tick wrap), and with the
  boot loader having marked the running image valid; until then it stays on probation. That is what
  \<open>main.c\<close> does; README.md says the contrary, that a connection to the router is not required
  to pass the probation.\<close>

theorem probation_needs_network:
  assumes "app_ok p0 a" and "turn_ok drv tn" and "main_turn tn a = Some a'" and "am_ota_pending a"
  shows "am_ota_pending a' \<or>
    network_is_connected (am_net a') \<and> 3000 \<le> tn_now tn - am_probation_started a \<and>
    (\<exists>flash. api_mark_app_valid (ne_ota (tn_env tn)) flash = (ESP_OK, ou_flash (ow_ota (nw_worker (am_net a')))))"
  using main_turn_result [OF assms(2,1)] assms(3,4) by (auto simp: image_confirmed_def probation_ticks)

theorem main_loop_goes_on_witness:
  "\<exists>a a'. app_boot sample_bt sample_power_on = Some a \<and> main_turn sample_turn a = Some a'"
proof -
  obtain b where "boot_fan sample_bt sample_power_on = Some b" using sample_fan_boots by blast
  then obtain a where a: "app_boot sample_bt sample_power_on = Some a"
    using boot_result [OF sample_powered sample_boot_ok] by blast
  have "app_reachable all_calls_succeed a" by (rule booted [OF sample_powered sample_boot_ok a])
  then show ?thesis using main_loop_goes_on [OF _ sample_turn_ok] a by blast
qed

section \<open>A probation that passes\<close>

definition sample_connected :: "sample_flash app" where
  "sample_connected =
     (let ready = \<lparr>rp_ready = True, rp_backoff_index = 0, rp_retry_at = 0\<rparr>
      in \<lparr>am_net = sample_boot_net\<lparr>nw_connected := True, 
            nw_ui := sample_panel\<lparr>ct_lock := True, ct_fan := sample_running all_calls_succeed\<rparr>\<rparr>,
          am_touch = sample_touch, am_setup = setup_power_on, am_led_retry = ready, am_touch_retry = ready,
          am_network_retry = ready, am_ota_pending = True, am_network_seen = True,
          am_probation_started = 5990, am_last_stack_sample = 8990\<rparr>)"

lemma sample_confirms: "map_option fst (submit sample_api sample_layout sample_calls 900
    (plain_command COMMAND_CONFIRM_RUNNING) sample_started) = Some ESP_OK"
proof -
  obtain f where f: "fan_quiesce sample_calls (sample_running all_calls_succeed) = Some (ESP_OK, f)"
    using sample_quiesces by auto
  have "api_mark_app_valid sample_api g = (ESP_OK, g)" for g
    by (simp add: sample_api_def)
  then show ?thesis
    using f by (simp add: submit_def worker_turn_def execute_command_def plain_command_def quiesced_then_def
        release_command_buffer_def ota_update_confirm_running_def report_stack_def Let_def)
qed

text \<open>The round, stage by stage: the stacks were just sampled, nothing is due, no key, the panel is
  taken, the manager has nothing to do.\<close>

lemma sample_no_key: "touch_sens_get_key_num 9000 [] sample_touch = (0, sample_touch)"
  by code_simp

lemma sample_net_facts:
  "nw_worker sample_boot_net = sample_started" "nw_manager_queue sample_boot_net = None"
  "\<not> nw_reconnect_pending sample_boot_net" "\<not> nw_maintenance_active sample_boot_net"
  "nw_log sample_boot_net = []"
  by (simp_all add: sample_boot_net_def network_boot_def)

lemma sample_connected_fields:
  "am_touch sample_connected = sample_touch" "am_last_stack_sample sample_connected = 8990"
  "rp_ready (am_led_retry sample_connected)" "rp_ready (am_touch_retry sample_connected)"
  "rp_ready (am_network_retry sample_connected)" "am_ota_pending sample_connected" "am_network_seen sample_connected"
  "am_probation_started sample_connected = 5990"
  "am_net sample_connected = sample_boot_net\<lparr>nw_connected := True,
     nw_ui := sample_panel\<lparr>ct_lock := True, ct_fan := sample_running all_calls_succeed\<rparr>\<rparr>"
  by (simp_all add: sample_connected_def Let_def)

lemma sample_calm_stages:
  "sample_stacks sample_turn sample_connected = Some sample_connected"
  "retry_leds sample_turn sample_connected = Some sample_connected"
  "retry_touch sample_turn sample_connected = Some sample_connected"
  "retry_network sample_turn sample_connected = Some sample_connected"
  by (simp_all add: sample_stacks_def retry_leds_def retry_touch_def retry_network_def retry_due_def
      recovery_policy_is_due_def sample_connected_fields sample_turn_def pdMS_TO_TICKS_at_def)

lemma sample_local_stage: "local_control sample_turn sample_connected = Some sample_connected"
  using sample_no_key by (simp add: local_control_def sample_connected_fields sample_turn_def)

lemma sample_network_stage: "service_network sample_turn sample_connected = Some sample_connected"
  by (simp add: service_network_def on_net_def network_service_def service_reconnect_def sample_connected_fields
      sample_net_facts Let_def)

lemma sample_panel_stage: "service_panel sample_turn sample_connected = Some sample_connected"
  by (simp add: service_panel_def with_panel_def controller_service_def take_lock_def on_net_def set_fan_def panel_of_def
      net_fan_def sample_connected_fields sample_net_facts sample_turn_def)

lemma sample_rounds:
  "run_stages before_probation (\<lambda>stage. stage sample_turn) sample_connected = Some sample_connected"
  by (simp add: before_probation_def sample_calm_stages sample_local_stage sample_panel_stage sample_network_stage)

lemma sample_connected_ok: "app_ok p0 sample_connected"
proof -
  have "net_holds False p0 [] sample_boot_net"
    by (rule net_reachable_safe [OF sample_boot_reachable sample_running_reachable [OF sample_init_ok]])
  then show ?thesis
    by (simp add: app_ok_def sample_connected_fields net_holds_def wf_net_def sample_connected_def recovery_inv_def Let_def)
qed

theorem probation_needs_network_witness:
  "\<exists>a'. main_turn sample_turn sample_connected = Some a' \<and> am_ota_pending sample_connected \<and> \<not> am_ota_pending a' \<and>
    network_is_connected (am_net a')"
proof -
  obtain w where w: "submit sample_api sample_layout sample_calls 900 (plain_command COMMAND_CONFIRM_RUNNING) sample_started = Some (ESP_OK, w)"
    using sample_confirms by auto
  have env: "tn_env sample_turn = sample_env" "tn_now sample_turn = 9000" by (simp_all add: sample_turn_def)
  have "on_worker sample_env ota_worker_confirm_running (am_net sample_connected) =
      Some (ESP_OK, with_worker (am_net sample_connected) w)"
    using w by (simp add: on_worker_def ota_worker_confirm_running_def sample_connected_fields sample_net_facts sample_env_def)
  moreover have "watch_network sample_turn sample_connected = Some sample_connected"
    by (simp add: watch_network_def sample_connected_def network_is_connected_def Let_def)
  ultimately obtain a' where a': "main_turn sample_turn sample_connected = Some a'" "\<not> am_ota_pending a'"
    by (simp add: main_turn_split sample_rounds end_probation_def sample_connected_fields network_is_connected_def env
        probation_ticks Let_def)
  then show ?thesis
    using probation_needs_network [OF sample_connected_ok sample_turn_ok a'(1)] by (simp add: sample_connected_fields)
qed

end
