(* ===== verification/Spec2Isabelle.thy ===== *)
theory Spec2Isabelle
  imports FanPolicy RecoveryPolicy TouchGesture Diagnostics FanSelect FanActor SnapshotLock DnsServer OtaWorker Controller
    NetworkClaims TouchDriver SetupSequence AppClaims
begin

text \<open>
  The firmware of an ESP32-S3 controller for the Honeywell HPA300 air purifier: an actor that owns
  the fan, a touch panel with LEDs, a REST interface with firmware update, and the main task that
  boots them and keeps them running. This library models all C files of the firmware and states
  what makes them correct. Every definition carries the name of its C function where Isabelle
  allows it; a part of a function that has a name of its own here is a loop body, a branch or a
  block that several lemmas speak about.

  Theories, from the leaves up (paths under \<open>src/\<close>):

  \<^item> \<open>Prelude\<close>: machine integers as words, \<open>esp_err_t\<close> codes, ticks (100 Hz), \<open>memory_fault\<close> for an
    access out of bounds, \<open>return_on_errors\<close> for chains of fallible calls. \<open>CString\<close>: \<open>char\<close> arrays.
  \<^item> \<open>FanPolicy\<close>, \<open>RecoveryPolicy\<close>, \<open>TouchGesture\<close>, \<open>Board\<close>: the pure components
    (\<open>components/fan_policy\<close>, \<open>recovery_policy\<close>, \<open>touch_gesture\<close>, \<open>board\<close>). The gesture filter refines an
    abstract machine.
  \<^item> \<open>ServiceHealth\<close>, \<open>Diagnostics\<close>: \<open>main/service_health.c\<close> and \<open>main/diagnostics.c\<close>, with the memory that
    survives a reset; an interrupted update is a prefix of its stores.
  \<^item> \<open>TransitionCore\<close>, \<open>Hc238\<close>, \<open>FanSelect\<close>: \<open>components/fan_transition_core\<close>, \<open>components/hc238\<close> and
    \<open>main/fan_select.c\<close>. The locales \<open>decoder_backend\<close> and \<open>observed_backend\<close> are the contract between
    the transaction and its backend; \<open>Hc238\<close> interprets them (\<open>hc\<close>) on the driver, so what \<open>FanSelect\<close>
    says of a speed change is about the pads of the chip and the decoder behind them.
  \<^item> \<open>FanControl\<close>, \<open>FanActor\<close>, \<open>SnapshotLock\<close>: \<open>main/fan_control.c\<close>. \<open>FanControl\<close> has the cycle in stages and the
    calls of other tasks, \<open>FanActor\<close> interleaves them (\<open>fan_step\<close>, \<open>reachable\<close>) and proves what holds in
    every state, \<open>SnapshotLock\<close> interleaves the sequence lock word by word (\<open>reading\<close> collects the attempts of
    one read with the states they met).
  \<^item> \<open>OtaUpdate\<close>, \<open>OtaWorker\<close>: \<open>main/ota_update.c\<close> and \<open>main/ota_worker.c\<close>. The flash and the boot loader are the
    parameter \<open>ota_api\<close>; \<open>flash_contract\<close> states their documented behaviour. The locale \<open>fan_service\<close> is
    what the worker relies on when it quiesces the fan, interpreted (\<open>ofan\<close>) on the fan actor. A ghost field,
    \<open>ow_flash_log\<close>, keeps of every call into \<open>ota_update.c\<close> the flash before it, the fan and the flash after it.
  \<^item> \<open>Leds\<close>, \<open>Controller\<close>: \<open>components/leds\<close> and \<open>main/controller.c\<close>, the panel. What it has to show is a function of
    the history of its calls (\<open>ui_event\<close>: \<open>network_panel\<close>, \<open>chosen_level\<close>, \<open>woken\<close>), which knows nothing of its state.
  \<^item> \<open>DnsServer\<close>: \<open>components/dns_server\<close>, the captive portal's resolver.
  \<^item> \<open>TouchDriver\<close>: \<open>components/touch\<close>, set-up, interrupts, queue and overflow; \<open>stamped\<close> says which edges a run of calls
    and interrupts hands to the filter, at which ticks, and when it may discard.
  \<^item> \<open>Network\<close> (settings, access point, events, initialisation), \<open>NetworkJson\<close> (documents),
    \<open>NetworkHttp\<close> (requests, authorization, pages, fan endpoint, provisioning), \<open>NetworkOta\<close> (status,
    upload, rollback): \<open>main/network.c\<close>. \<open>NetworkProps\<close> and \<open>NetworkSystem\<close> have the frame lemmas (\<open>calm\<close>,
    \<open>responds\<close>) and the invariant \<open>net_holds\<close>, \<open>NetworkRun\<close> one lemma per handler, \<open>NetworkClaims\<close> the runs
    (\<open>net_step\<close>, \<open>net_reachable\<close>) and the properties.
  \<^item> \<open>SetupSequence\<close>, \<open>AppMain\<close>, \<open>AppRun\<close>, \<open>AppClaims\<close>: \<open>main/main.c\<close>: the setup gesture, boot and the main loop as
    stages (\<open>app_boot\<close>, \<open>main_turn\<close>), what the stages keep, and the runs of the whole application.

  State and interaction. A state record per C file holds its statics. The parts nest as the calls
  do: the application has the network, the network has the panel, the DNS server and the OTA
  worker, the worker has the update and the fan. The panel reaches the same fan: its copy is
  synchronised at every call (\<open>panel_of\<close>, \<open>set_fan\<close>). The health table of the C program is one; the
  model keeps the fan's rows in \<open>fs_health\<close> and all other rows in \<open>ow_health\<close>. Calls to ESP-IDF and
  FreeRTOS go through environments that may answer anything, depending on the calls made so far
  (logged in \<open>nw_log\<close>, \<open>tc_log\<close>, \<open>ld_log\<close> and the pads of \<open>Hc238\<close>); a pointer result is \<open>ESP_OK\<close> when it is not
  null. \<open>Inl OutOfBounds\<close>, and \<open>None\<close> in the worker, the network and the application, stand for an
  access out of range, an abort or a call that never returns; that they do not occur is proved.

  What the lemmas show. For the fan: the pads never let one output follow another without all
  outputs off between; the published speed is the output; quiescing means off; a fault is final;
  commands are applied in the next cycle; timers and sequence numbers survive their wrap-around.
  For updates: an installed image is exactly the declared one, the running slot is not written,
  in orderly runs the flash changes only while the fan is halted, call by call. For the network: bounds of every buffer, every
  request is answered, which requests may change what, the token's round trip, the maintenance
  window. For the panel and touch: the LEDs show the fan, a key is a stable touch, the gesture 4,
  5, 4, 5 is recognised as by a reference recogniser. For the application: boot establishes Off
  first, the main loop goes on for ever, an image is confirmed only over a working network.

  Bounds and termination. Loops over received data end because every receive call that does not
  fail delivers a byte (measures in \<open>receive_all\<close>, \<open>receive_into\<close>, \<open>upload_rest\<close>); the drain of the touch queue
  ends because the interrupts that occur meanwhile are a finite list; the sector loop of the erase
  ends at the partition's size. \<open>fan_control_quiesce\<close> waits for the cycles of its input list, which
  stands for the time-out.

  Granularity. A call under a mutex or in a critical section is one step; so is an HTTP handler
  (the server runs one at a time) and a round of the main loop, with the fan, the other tasks and
  the interrupts moving between steps. Provisioning and the confirmation of an image end the
  fan's maintenance without asking whether the worker is busy. The runs of the worker and of the network take
  a parameter \<open>orderly\<close>: with \<open>False\<close> they are all runs of the code, with \<open>True\<close> those in which nobody ends the
  maintenance while the worker is busy. Only what is said of the fan during an update needs \<open>orderly\<close>
  (\<open>busy_means_fan_off\<close>, which also shows how the code leaves it, \<open>flash_changes_with_fan_off\<close>, and the last part of
  \<open>network_stays_sound\<close>); the runs of the application are unrestricted. Boot assumes that the objects of the OTA worker
  can be created (\<open>boot_ok\<close>); every other part may fail to start.

  Not modelled: log output; the wording of HTML pages; ESP-IDF, FreeRTOS, lwIP and cJSON (parameters,
  with cJSON's printing as the tree that is printed); the Python integration, build and release
  tools, and the on-target tests, which are other programs in other languages or check this one.
\<close>

end
